(* ===== verification/Limux_Prelude.thy ===== *)
theory Limux_Prelude
  imports Complex_Main "HOL-Library.Word" "HOL-Library.Monad_Syntax"
begin

text \<open>
  Shared vocabulary of the development: the machine-integer and identifier types of the Rust
  sources, Rust's \<open>Option\<close> combinators, and the generic facts on lists, maps and words that the
  component theories use.

  Conventions:
  \<^item> \<open>u8\<close>, \<open>u16\<close>, \<open>u32\<close>, \<open>u64\<close> are words of that width, so arithmetic wraps as it does in
    a release build; \<open>usize\<close> indices and lengths are \<open>nat\<close>;
  \<^item> \<open>f64\<close> is idealised as exact rational arithmetic (\<open>rat\<close>), so no rounding is modelled;
  \<^item> a function whose Rust recursion follows pointers has a result of type \<open>'a run\<close>, that is
    \<open>'a option\<close>, in which \<open>None\<close> means that the call does not return.
\<close>

type_synonym u8 = "8 word"
type_synonym u16 = "16 word"
type_synonym u32 = "32 word"
type_synonym u64 = "64 word"
type_synonym usize = nat
type_synonym f64 = rat
type_synonym 'a run = "'a option"

type_synonym PaneId = u32
type_synonym WorkspaceId = u32
type_synonym SurfaceId = u32
type_synonym BrowserPanelId = u32

named_theorems run_simps "evaluation of the option-valued recursive walks on well-formed data"
named_theorems frame_simps "what an update leaves unchanged"
named_theorems wf_intros "introduction rules that re-establish well-formedness"

section \<open>Rust's option combinators\<close>

text \<open>\<open>Option::or_else\<close>, \<open>Option::unwrap_or\<close> and \<open>Iterator::position\<close>.\<close>

fun or_else :: "'a option \<Rightarrow> 'a option \<Rightarrow> 'a option" where
  "or_else (Some x) _ = Some x"
| "or_else None y = y"

fun unwrap_or :: "'a option \<Rightarrow> 'a \<Rightarrow> 'a" where
  "unwrap_or (Some x) _ = x"
| "unwrap_or None d = d"

fun position :: "('a \<Rightarrow> bool) \<Rightarrow> 'a list \<Rightarrow> usize option" where
  "position P [] = None"
| "position P (x # xs) = (if P x then Some 0 else map_option Suc (position P xs))"

fun first_opt :: "'a list \<Rightarrow> 'a option" where
  "first_opt [] = None"
| "first_opt (x # _) = Some x"

definition get_opt :: "'a list \<Rightarrow> usize \<Rightarrow> 'a option" where
  "get_opt xs i = (if i < length xs then Some (xs ! i) else None)"

definition remove_at :: "usize \<Rightarrow> 'a list \<Rightarrow> 'a list" where
  "remove_at i xs = take i xs @ drop (Suc i) xs"

definition insert_at :: "usize \<Rightarrow> 'a \<Rightarrow> 'a list \<Rightarrow> 'a list" where
  "insert_at i x xs = take i xs @ x # drop i xs"

lemma or_else_None [simp]: "or_else x None = x"
  by (cases x) auto

lemma or_else_eq_None [simp]: "or_else x y = None \<longleftrightarrow> x = None \<and> y = None"
  by (cases x) auto

lemma or_else_eq_Some: "or_else x y = Some z \<longleftrightarrow> x = Some z \<or> x = None \<and> y = Some z"
  by (cases x) auto

lemma position_None [simp]: "position P xs = None \<longleftrightarrow> (\<forall>x\<in>set xs. \<not> P x)"
  by (induction xs) auto

lemma position_SomeD:
  "position P xs = Some i \<Longrightarrow> i < length xs \<and> P (xs ! i) \<and> (\<forall>j<i. \<not> P (xs ! j))"
proof (induction xs arbitrary: i)
  case (Cons x xs)
  show ?case
  proof (cases "P x")
    case False
    with Cons.prems obtain k where k: "position P xs = Some k" and i: "i = Suc k"
      by auto
    have "k < length xs \<and> P (xs ! k) \<and> (\<forall>j<k. \<not> P (xs ! j))"
      by (rule Cons.IH [OF k])
    with False i show ?thesis
      by (auto simp: less_Suc_eq_0_disj)
  qed (use Cons.prems in auto)
qed simp

lemma position_Some_ex: "(\<exists>i. position P xs = Some i) \<longleftrightarrow> (\<exists>x\<in>set xs. P x)"
  using position_None [of P xs] by (cases "position P xs") auto

lemma position_nth_distinct:
  "distinct xs \<Longrightarrow> i < length xs \<Longrightarrow> position (\<lambda>y. y = xs ! i) xs = Some i"
proof (induction xs arbitrary: i)
  case (Cons x xs)
  show ?case
    using Cons by (cases i) (auto simp: nth_eq_iff_index_eq)
qed simp

lemma get_opt_eq_Some [simp]: "get_opt xs i = Some x \<longleftrightarrow> i < length xs \<and> xs ! i = x"
  by (auto simp: get_opt_def)

lemma get_opt_eq_None [simp]: "get_opt xs i = None \<longleftrightarrow> length xs \<le> i"
  by (auto simp: get_opt_def)

lemma length_remove_at [simp]: "i < length xs \<Longrightarrow> length (remove_at i xs) = length xs - 1"
  by (auto simp: remove_at_def)

lemma length_insert_at [simp]: "i \<le> length xs \<Longrightarrow> length (insert_at i x xs) = Suc (length xs)"
  by (auto simp: insert_at_def)

lemma set_insert_at [simp]: "i \<le> length xs \<Longrightarrow> set (insert_at i x xs) = insert x (set xs)"
  using set_append [of "take i xs" "drop i xs"] by (auto simp: insert_at_def)

lemma insert_remove_at:
  "i < length xs \<Longrightarrow> insert_at i (xs ! i) (remove_at i xs) = xs"
  by (simp add: insert_at_def remove_at_def id_take_nth_drop [symmetric])

section \<open>List edits relative to an element\<close>

text \<open>
  The pane order of a layout changes by inserting an element right after or right before a given
  one. These two functions are the list-level specification of every splitting operation.
\<close>

fun insert_after :: "'a \<Rightarrow> 'a \<Rightarrow> 'a list \<Rightarrow> 'a list" where
  "insert_after p q [] = []"
| "insert_after p q (x # xs) = (if x = p then x # q # xs else x # insert_after p q xs)"

fun insert_before :: "'a \<Rightarrow> 'a \<Rightarrow> 'a list \<Rightarrow> 'a list" where
  "insert_before p q [] = []"
| "insert_before p q (x # xs) = (if x = p then q # x # xs else x # insert_before p q xs)"

lemma insert_after_append:
  "insert_after p q (xs @ ys) =
     (if p \<in> set xs then insert_after p q xs @ ys else xs @ insert_after p q ys)"
  by (induction xs) auto

lemma insert_before_append:
  "insert_before p q (xs @ ys) =
     (if p \<in> set xs then insert_before p q xs @ ys else xs @ insert_before p q ys)"
  by (induction xs) auto

lemma set_insert_after [simp]:
  "set (insert_after p q xs) = (if p \<in> set xs then insert q (set xs) else set xs)"
  by (induction xs) auto

lemma set_insert_before [simp]:
  "set (insert_before p q xs) = (if p \<in> set xs then insert q (set xs) else set xs)"
  by (induction xs) auto

lemma insert_after_notin [simp]: "p \<notin> set xs \<Longrightarrow> insert_after p q xs = xs"
  by (induction xs) auto

lemma insert_before_notin [simp]: "p \<notin> set xs \<Longrightarrow> insert_before p q xs = xs"
  by (induction xs) auto

lemma distinct_insert_after [simp]:
  "distinct xs \<Longrightarrow> q \<notin> set xs \<Longrightarrow> distinct (insert_after p q xs)"
  by (induction xs) auto

lemma distinct_insert_before [simp]:
  "distinct xs \<Longrightarrow> q \<notin> set xs \<Longrightarrow> distinct (insert_before p q xs)"
  by (induction xs) auto

lemma length_insert_after [simp]:
  "length (insert_after p q xs) = (if p \<in> set xs then Suc (length xs) else length xs)"
  by (induction xs) auto

lemma length_insert_before [simp]:
  "length (insert_before p q xs) = (if p \<in> set xs then Suc (length xs) else length xs)"
  by (induction xs) auto

section \<open>Counters\<close>

text \<open>An identifier counter that has not reached its last value stays strictly increasing.\<close>

lemma u32_less_Suc:
  fixes x :: u32
  assumes "unat x + 1 < 2 ^ 32"
  shows "x < x + 1"
proof -
  have "unat (x + 1) = unat x + 1"
    using assms by (simp add: unat_word_ariths)
  then show ?thesis
    by (simp add: word_less_nat_alt)
qed

lemma u32_less_trans_Suc:
  fixes x n :: u32
  assumes "n < x" "unat x + 1 < 2 ^ 32"
  shows "n < x + 1"
  using assms u32_less_Suc less_trans by blast

lemma unat_u32_add:
  fixes x :: u32
  assumes "unat x + k < 2 ^ 32"
  shows "unat (x + of_nat k) = unat x + k"
  using assms by (simp add: unat_word_ariths take_bit_nat_eq_self unat_of_nat)

lemma u32_alloc_two:
  fixes x n :: u32
  assumes "unat x + 2 < 2 ^ 32"
  shows "x < x + 2" "x + 1 < x + 2" "x \<noteq> x + 1" "n < x \<Longrightarrow> n < x + 2"
    and "n < x \<Longrightarrow> n \<noteq> x + 1"
proof -
  have e: "unat (x + 1) = unat x + 1" "unat (x + 2) = unat x + 2"
    using assms unat_u32_add [of x 1] unat_u32_add [of x 2] by simp_all
  from e show "x < x + 2" "x + 1 < x + 2" "n < x \<Longrightarrow> n < x + 2"
    by (simp_all add: word_less_nat_alt)
  from e(1) show "x \<noteq> x + 1" "n < x \<Longrightarrow> n \<noteq> x + 1"
    by (auto simp: word_less_nat_alt)
qed

end
