(* ===== verification/Split_Tree.thy ===== *)
theory Split_Tree
  imports Limux_Prelude
begin

text \<open>
  Model of \<open>app/src/split.rs\<close>: the binary tree of split panes. The Rust structure keeps its nodes
  in a \<open>HashMap<NodeId, Node>\<close> and links them by identifier, so the model keeps a finite-support
  map from identifiers to nodes, and every walk (\<open>collect_panes\<close>, \<open>find_leaf\<close>,
  \<open>find_parent\<close>, \<open>find_parent_of_node\<close>, \<open>find_chain_end\<close>, \<open>replace_child\<close>,
  \<open>compute_bounds\<close>) is a \<^theory_text>\<open>partial_function\<close> over that map: on a cyclic table the Rust
  code recurses forever and the model's result is \<open>None\<close>. An operation that takes
  \<open>&mut self\<close> returns its value together with the new tree.

  The only place where the iteration order of a \<open>HashMap\<close> matters is \<open>merge\<close>, which hands out new
  identifiers in that order; the order is an argument there.
\<close>

section \<open>Data\<close>

datatype Orientation = Horizontal | Vertical

datatype Direction = Up | Down | Left | Right

record Rect =
  rect_x :: f64
  rect_y :: f64
  rect_w :: f64
  rect_h :: f64

type_synonym NodeId = u32

datatype Node =
    Leaf (pane_id: PaneId)
  | Split (orientation: Orientation) (ratio: f64) (first: NodeId) (second: NodeId)

type_synonym node_table = "NodeId \<rightharpoonup> Node"

record SplitTree =
  nodes :: node_table
  tree_root :: "NodeId option"
  next_id :: u32
  focused :: "PaneId option"

section \<open>Construction and accessors\<close>

definition SplitTree_new :: SplitTree where
  "SplitTree_new =
     \<lparr>nodes = Map.empty, tree_root = None, next_id = 0, focused = None\<rparr>"

definition alloc_id :: "SplitTree \<Rightarrow> NodeId \<times> SplitTree" where
  "alloc_id t = (next_id t, t\<lparr>next_id := next_id t + 1\<rparr>)"

definition insert_node :: "NodeId \<Rightarrow> Node \<Rightarrow> SplitTree \<Rightarrow> SplitTree" where
  "insert_node n x t = t\<lparr>nodes := (nodes t)(n \<mapsto> x)\<rparr>"

definition new_with_pane :: "PaneId \<Rightarrow> SplitTree" where
  "new_with_pane p =
     (let (node_id, t) = alloc_id SplitTree_new;
          t = insert_node node_id (Leaf p) t
      in t\<lparr>tree_root := Some node_id, focused := Some p\<rparr>)"

definition node :: "SplitTree \<Rightarrow> NodeId \<Rightarrow> Node option" where
  "node t n = nodes t n"

definition focused_pane :: "SplitTree \<Rightarrow> PaneId option" where
  "focused_pane t = focused t"

definition set_focused :: "PaneId \<Rightarrow> SplitTree \<Rightarrow> SplitTree" where
  "set_focused p t = t\<lparr>focused := Some p\<rparr>"

definition set_ratio :: "NodeId \<Rightarrow> f64 \<Rightarrow> SplitTree \<Rightarrow> SplitTree" where
  "set_ratio n new_ratio t =
     (case nodes t n of
        Some (Split ori _ a b) \<Rightarrow> insert_node n (Split ori new_ratio a b) t
      | _ \<Rightarrow> t)"

section \<open>Walks over the node table\<close>

partial_function (option) collect_panes ::
  "node_table \<Rightarrow> NodeId \<Rightarrow> PaneId list \<Rightarrow> PaneId list run" where
  "collect_panes h n out =
     (case h n of
        None \<Rightarrow> Some out
      | Some (Leaf p) \<Rightarrow> Some (out @ [p])
      | Some (Split _ _ a b) \<Rightarrow> do { out \<leftarrow> collect_panes h a out; collect_panes h b out })"

definition panes :: "SplitTree \<Rightarrow> PaneId list run" where
  "panes t = (case tree_root t of None \<Rightarrow> Some [] | Some r \<Rightarrow> collect_panes (nodes t) r [])"

partial_function (option) find_chain_end :: "node_table \<Rightarrow> NodeId \<Rightarrow> NodeId run" where
  "find_chain_end h n =
     (case h n of
        None \<Rightarrow> Some n
      | Some (Leaf _) \<Rightarrow> Some n
      | Some (Split _ _ _ b) \<Rightarrow> find_chain_end h b)"

partial_function (option) find_leaf ::
  "node_table \<Rightarrow> NodeId \<Rightarrow> PaneId \<Rightarrow> NodeId option run" where
  "find_leaf h n p =
     (case h n of
        None \<Rightarrow> Some None
      | Some (Leaf q) \<Rightarrow> Some (if q = p then Some n else None)
      | Some (Split _ _ a b) \<Rightarrow>
          do { r \<leftarrow> find_leaf h a p;
               case r of Some x \<Rightarrow> Some (Some x) | None \<Rightarrow> find_leaf h b p })"

definition node_id_for_pane :: "SplitTree \<Rightarrow> PaneId \<Rightarrow> NodeId option run" where
  "node_id_for_pane t p =
     (case tree_root t of None \<Rightarrow> Some None | Some r \<Rightarrow> find_leaf (nodes t) r p)"

definition is_leaf_of :: "node_table \<Rightarrow> NodeId \<Rightarrow> PaneId \<Rightarrow> bool" where
  "is_leaf_of h n p = (h n = Some (Leaf p))"

partial_function (option) find_parent ::
  "node_table \<Rightarrow> NodeId \<Rightarrow> PaneId \<Rightarrow> (NodeId \<times> bool) option run" where
  "find_parent h n p =
     (case h n of
        None \<Rightarrow> Some None
      | Some (Leaf _) \<Rightarrow> Some None
      | Some (Split _ _ a b) \<Rightarrow>
          if is_leaf_of h a p then Some (Some (n, True))
          else if is_leaf_of h b p then Some (Some (n, False))
          else do { r \<leftarrow> find_parent h a p;
                    case r of Some x \<Rightarrow> Some (Some x) | None \<Rightarrow> find_parent h b p })"

partial_function (option) find_parent_of_node ::
  "node_table \<Rightarrow> NodeId \<Rightarrow> NodeId \<Rightarrow> (NodeId \<times> bool) option run" where
  "find_parent_of_node h n target =
     (case h n of
        None \<Rightarrow> Some None
      | Some (Leaf _) \<Rightarrow> Some None
      | Some (Split _ _ a b) \<Rightarrow>
          if a = target then Some (Some (n, True))
          else if b = target then Some (Some (n, False))
          else do { r \<leftarrow> find_parent_of_node h a target;
                    case r of Some x \<Rightarrow> Some (Some x) | None \<Rightarrow> find_parent_of_node h b target })"

text \<open>
  \<open>replace_child\<close> goes on into the second child after the first one returned, with the table the
  first call left behind, as the Rust code does.
\<close>

partial_function (option) replace_child ::
  "node_table \<Rightarrow> NodeId \<Rightarrow> NodeId \<Rightarrow> NodeId \<Rightarrow> node_table run" where
  "replace_child h n old_child new_child =
     (case h n of
        None \<Rightarrow> Some h
      | Some (Leaf _) \<Rightarrow> Some h
      | Some (Split ori r a b) \<Rightarrow>
          if a = old_child then Some (h(n \<mapsto> Split ori r new_child b))
          else if b = old_child then Some (h(n \<mapsto> Split ori r a new_child))
          else do { h \<leftarrow> replace_child h a old_child new_child;
                    replace_child h b old_child new_child })"

text \<open>The in-place pointer update \<open>if let Some(Node::Split \<dots>) = nodes.get_mut(&q) \<dots>\<close>.\<close>

definition set_child :: "node_table \<Rightarrow> NodeId \<Rightarrow> bool \<Rightarrow> NodeId \<Rightarrow> node_table" where
  "set_child h q is_first v =
     (case h q of
        Some (Split ori r a b) \<Rightarrow>
          h(q \<mapsto> (if is_first then Split ori r v b else Split ori r a v))
      | _ \<Rightarrow> h)"

text \<open>The child pointer \<open>if is_first \<dots> first \<dots> else \<dots> second\<close> of a split node.\<close>

definition get_child :: "node_table \<Rightarrow> NodeId \<Rightarrow> bool \<Rightarrow> NodeId option" where
  "get_child h q is_first =
     (case h q of
        Some (Split _ _ a b) \<Rightarrow> Some (if is_first then a else b)
      | _ \<Rightarrow> None)"

section \<open>Ratios\<close>

fun set_chain_ratios :: "node_table \<Rightarrow> NodeId \<Rightarrow> usize \<Rightarrow> node_table" where
  "set_chain_ratios h n remaining =
     (if remaining \<le> 1 then h
      else case h n of
             Some (Split ori _ a b) \<Rightarrow>
               set_chain_ratios (h(n \<mapsto> Split ori (1 / of_nat remaining) a b)) b (remaining - 1)
           | _ \<Rightarrow> h)"

declare set_chain_ratios.simps [simp del]

definition equalize_chain :: "SplitTree \<Rightarrow> SplitTree run" where
  "equalize_chain t =
     do { ps \<leftarrow> panes t;
          Some (if length ps \<le> 1 then t
                else case tree_root t of
                       None \<Rightarrow> t
                     | Some r \<Rightarrow> t\<lparr>nodes := set_chain_ratios (nodes t) r (length ps)\<rparr>) }"

definition half_ratio :: "Node \<Rightarrow> Node" where
  "half_ratio x = (case x of Leaf p \<Rightarrow> Leaf p | Split ori _ a b \<Rightarrow> Split ori (1 / 2) a b)"

definition equalize :: "SplitTree \<Rightarrow> SplitTree" where
  "equalize t = t\<lparr>nodes := (\<lambda>n. map_option half_ratio (nodes t n))\<rparr>"

section \<open>Insertion, splitting, removal\<close>

definition insert_after_node ::
  "NodeId \<Rightarrow> PaneId \<Rightarrow> Orientation \<Rightarrow> SplitTree \<Rightarrow> SplitTree run" where
  "insert_after_node target new_pane_id ori t =
     (let (new_leaf, t) = alloc_id t;
          t = insert_node new_leaf (Leaf new_pane_id) t
      in case tree_root t of
           None \<Rightarrow> Some t
         | Some r \<Rightarrow>
             if r = target then
               (let (new_split, t) = alloc_id t;
                    t = insert_node new_split (Split ori (1 / 2) target new_leaf) t
                in Some (t\<lparr>tree_root := Some new_split\<rparr>))
             else
               (case nodes t target of
                  Some (Leaf p) \<Rightarrow>
                    do { found \<leftarrow> find_parent (nodes t) r p;
                         Some (case found of
                           None \<Rightarrow> t
                         | Some (parent_id, is_first) \<Rightarrow>
                             if is_first then
                               (case get_child (nodes t) parent_id False of
                                  None \<Rightarrow> t
                                | Some old_second \<Rightarrow>
                                    (let (new_split, t) = alloc_id t;
                                         t = insert_node new_split
                                               (Split ori (1 / 2) new_leaf old_second) t
                                     in t\<lparr>nodes := set_child (nodes t) parent_id False new_split\<rparr>))
                             else
                               (let (new_split, t) = alloc_id t;
                                    t = insert_node new_split
                                          (Split ori (1 / 2) target new_leaf) t
                                in t\<lparr>nodes := set_child (nodes t) parent_id False new_split\<rparr>)) }
                | _ \<Rightarrow> Some t))"

text \<open>The end of \<open>insert_pane_after_focused\<close>, common to both insertion paths.\<close>

definition insert_and_focus ::
  "NodeId \<Rightarrow> PaneId \<Rightarrow> Orientation \<Rightarrow> SplitTree \<Rightarrow> (bool \<times> SplitTree) run" where
  "insert_and_focus target new_pane_id ori t =
     do { t \<leftarrow> insert_after_node target new_pane_id ori t;
          t \<leftarrow> equalize_chain (t\<lparr>focused := Some new_pane_id\<rparr>);
          Some (True, t) }"

definition insert_pane_after_focused ::
  "PaneId \<Rightarrow> Orientation \<Rightarrow> SplitTree \<Rightarrow> (bool \<times> SplitTree) run" where
  "insert_pane_after_focused new_pane_id ori t =
     (case tree_root t of
        None \<Rightarrow>
          (let (node_id, t) = alloc_id t;
               t = insert_node node_id (Leaf new_pane_id) t
           in Some (True, t\<lparr>tree_root := Some node_id, focused := Some new_pane_id\<rparr>))
      | Some r \<Rightarrow>
          (case nodes t r of
             Some (Leaf _) \<Rightarrow>
               (let (new_leaf, t) = alloc_id t;
                    t = insert_node new_leaf (Leaf new_pane_id) t;
                    (split_id, t) = alloc_id t;
                    t = insert_node split_id (Split ori (1 / 2) r new_leaf) t
                in do { t \<leftarrow> equalize_chain
                              (t\<lparr>tree_root := Some split_id, focused := Some new_pane_id\<rparr>);
                        Some (True, t) })
           | _ \<Rightarrow>
               do { f \<leftarrow> (case focused t of
                            Some f \<Rightarrow> Some f
                          | None \<Rightarrow>
                              do { e \<leftarrow> find_chain_end (nodes t) r;
                                   Some (case nodes t e of
                                           Some (Leaf p) \<Rightarrow> p
                                         | _ \<Rightarrow> new_pane_id) });
                    focused_leaf \<leftarrow> node_id_for_pane t f;
                    case focused_leaf of
                      Some l \<Rightarrow> insert_and_focus l new_pane_id ori t
                    | None \<Rightarrow>
                        do { last \<leftarrow> find_chain_end (nodes t) r;
                             insert_and_focus last new_pane_id ori t } }))"

text \<open>
  \<open>split\<close> and \<open>split_before\<close> differ in one place, the order of the children of the new split
  node; \<open>before\<close> is that difference.
\<close>

definition mk_split :: "bool \<Rightarrow> Orientation \<Rightarrow> NodeId \<Rightarrow> NodeId \<Rightarrow> Node" where
  "mk_split before ori target new_leaf =
     (if before then Split ori (1 / 2) new_leaf target else Split ori (1 / 2) target new_leaf)"

definition split_gen ::
  "bool \<Rightarrow> PaneId \<Rightarrow> PaneId \<Rightarrow> Orientation \<Rightarrow> SplitTree \<Rightarrow> (NodeId option \<times> SplitTree) run" where
  "split_gen before pane new_pane_id ori t =
     (case tree_root t of
        None \<Rightarrow> Some (None, t)
      | Some r \<Rightarrow>
          do { parent_and_pos \<leftarrow> find_parent (nodes t) r pane;
               Some (case parent_and_pos of
                 None \<Rightarrow>
                   (case nodes t r of
                      Some (Leaf pid) \<Rightarrow>
                        if pid \<noteq> pane then (None, t)
                        else (let (new_leaf, t) = alloc_id t;
                                  t = insert_node new_leaf (Leaf new_pane_id) t;
                                  (split_id, t) = alloc_id t;
                                  t = insert_node split_id (mk_split before ori r new_leaf) t
                              in (Some split_id,
                                  t\<lparr>tree_root := Some split_id, focused := Some new_pane_id\<rparr>))
                    | _ \<Rightarrow> (None, t))
               | Some (parent_id, is_first) \<Rightarrow>
                   (case get_child (nodes t) parent_id is_first of
                      None \<Rightarrow> (None, t)
                    | Some target_node_id \<Rightarrow>
                        (let (new_leaf, t) = alloc_id t;
                             t = insert_node new_leaf (Leaf new_pane_id) t;
                             (new_split, t) = alloc_id t;
                             t = insert_node new_split (mk_split before ori target_node_id new_leaf) t;
                             t = t\<lparr>nodes := set_child (nodes t) parent_id is_first new_split\<rparr>
                         in (Some new_split, t\<lparr>focused := Some new_pane_id\<rparr>)))) })"

definition split_pane ::
  "PaneId \<Rightarrow> PaneId \<Rightarrow> Orientation \<Rightarrow> SplitTree \<Rightarrow> (NodeId option \<times> SplitTree) run" where
  "split_pane = split_gen False"

definition split_before ::
  "PaneId \<Rightarrow> PaneId \<Rightarrow> Orientation \<Rightarrow> SplitTree \<Rightarrow> (NodeId option \<times> SplitTree) run" where
  "split_before = split_gen True"

definition remove_node :: "NodeId \<Rightarrow> SplitTree \<Rightarrow> SplitTree" where
  "remove_node n t = t\<lparr>nodes := (nodes t)(n := None)\<rparr>"

definition remove :: "PaneId \<Rightarrow> SplitTree \<Rightarrow> (bool \<times> SplitTree) run" where
  "remove pane t =
     (case tree_root t of
        None \<Rightarrow> Some (False, t)
      | Some r \<Rightarrow>
          if is_leaf_of (nodes t) r pane
          then Some (True, (remove_node r t)\<lparr>tree_root := None, focused := None\<rparr>)
          else do {
            found \<leftarrow> find_parent (nodes t) r pane;
            case found of
              None \<Rightarrow> Some (False, t)
            | Some (parent_id, is_first) \<Rightarrow>
                (case (get_child (nodes t) parent_id (\<not> is_first),
                       get_child (nodes t) parent_id is_first) of
                   (Some sibling_id, Some target_id) \<Rightarrow>
                     do {
                       let t = remove_node target_id t;
                       t \<leftarrow> (if tree_root t = Some parent_id
                             then Some (remove_node parent_id (t\<lparr>tree_root := Some sibling_id\<rparr>))
                             else do {
                               gp \<leftarrow> find_parent_of_node (nodes t) r parent_id;
                               Some (case gp of
                                 None \<Rightarrow> t
                               | Some (grandparent_id, gp_is_first) \<Rightarrow>
                                   remove_node parent_id
                                     (t\<lparr>nodes := set_child (nodes t) grandparent_id gp_is_first
                                                  sibling_id\<rparr>)) });
                       t \<leftarrow> (if focused t = Some pane
                             then do { ps \<leftarrow> panes t; Some (t\<lparr>focused := first_opt ps\<rparr>) }
                             else Some t);
                       Some (True, t) }
                 | _ \<Rightarrow> Some (False, t)) })"

section \<open>Navigation\<close>

definition navigate :: "bool \<Rightarrow> SplitTree \<Rightarrow> (PaneId option \<times> SplitTree) run" where
  "navigate forward t =
     do { ps \<leftarrow> panes t;
          Some (case focused t of
            None \<Rightarrow> (None, t)
          | Some f \<Rightarrow>
              (case position (\<lambda>p. p = f) ps of
                 None \<Rightarrow> (None, t)
               | Some idx \<Rightarrow>
                   (let new_idx = (if forward then (idx + 1) mod length ps
                                   else (idx + length ps - 1) mod length ps);
                        new_focus = ps ! new_idx
                    in (Some new_focus, t\<lparr>focused := Some new_focus\<rparr>)))) }"

definition sub_rects :: "Orientation \<Rightarrow> f64 \<Rightarrow> Rect \<Rightarrow> Rect \<times> Rect" where
  "sub_rects ori r rect =
     (case ori of
        Horizontal \<Rightarrow>
          (let w1 = rect_w rect * r
           in (\<lparr>rect_x = rect_x rect, rect_y = rect_y rect, rect_w = w1, rect_h = rect_h rect\<rparr>,
               \<lparr>rect_x = rect_x rect + w1, rect_y = rect_y rect, rect_w = rect_w rect - w1,
                rect_h = rect_h rect\<rparr>))
      | Vertical \<Rightarrow>
          (let h1 = rect_h rect * r
           in (\<lparr>rect_x = rect_x rect, rect_y = rect_y rect, rect_w = rect_w rect, rect_h = h1\<rparr>,
               \<lparr>rect_x = rect_x rect, rect_y = rect_y rect + h1, rect_w = rect_w rect,
                rect_h = rect_h rect - h1\<rparr>)))"

partial_function (option) compute_bounds ::
  "node_table \<Rightarrow> NodeId \<Rightarrow> Rect \<Rightarrow> (PaneId \<times> Rect) list \<Rightarrow> (PaneId \<times> Rect) list run" where
  "compute_bounds h n rect out =
     (case h n of
        None \<Rightarrow> Some out
      | Some (Leaf p) \<Rightarrow> Some (out @ [(p, rect)])
      | Some (Split ori r a b) \<Rightarrow>
          do { out \<leftarrow> compute_bounds h a (fst (sub_rects ori r rect)) out;
               compute_bounds h b (snd (sub_rects ori r rect)) out })"

definition full_rect :: Rect where
  "full_rect = \<lparr>rect_x = 0, rect_y = 0, rect_w = 1, rect_h = 1\<rparr>"

definition pane_bounds :: "SplitTree \<Rightarrow> (PaneId \<times> Rect) list run" where
  "pane_bounds t =
     (case tree_root t of
        None \<Rightarrow> Some []
      | Some r \<Rightarrow> compute_bounds (nodes t) r full_rect [])"

definition center_x :: "Rect \<Rightarrow> f64" where
  "center_x r = rect_x r + rect_w r / 2"

definition center_y :: "Rect \<Rightarrow> f64" where
  "center_y r = rect_y r + rect_h r / 2"

definition nav_eps :: f64 where
  "nav_eps = 1 / 1000"

definition nav_valid :: "Direction \<Rightarrow> Rect \<Rightarrow> Rect \<Rightarrow> bool" where
  "nav_valid d focused_rect rect =
     (case d of
        Left \<Rightarrow> rect_x rect + rect_w rect \<le> rect_x focused_rect + nav_eps
      | Right \<Rightarrow> rect_x rect \<ge> rect_x focused_rect + rect_w focused_rect - nav_eps
      | Up \<Rightarrow> rect_y rect + rect_h rect \<le> rect_y focused_rect + nav_eps
      | Down \<Rightarrow> rect_y rect \<ge> rect_y focused_rect + rect_h focused_rect - nav_eps)"

definition nav_dist :: "Direction \<Rightarrow> Rect \<Rightarrow> Rect \<Rightarrow> f64" where
  "nav_dist d focused_rect rect =
     (let dx = \<bar>center_x rect - center_x focused_rect\<bar>;
          dy = \<bar>center_y rect - center_y focused_rect\<bar>
      in case d of
           Left \<Rightarrow> dx + dy * (1 / 10)
         | Right \<Rightarrow> dx + dy * (1 / 10)
         | Up \<Rightarrow> dy + dx * (1 / 10)
         | Down \<Rightarrow> dy + dx * (1 / 10))"

text \<open>One round of the \<open>for\<close> loop: \<open>best\<close> is the best candidate so far with its distance.\<close>

definition nav_step ::
  "Direction \<Rightarrow> PaneId \<Rightarrow> Rect \<Rightarrow> (PaneId \<times> f64) option \<Rightarrow> PaneId \<times> Rect \<Rightarrow> (PaneId \<times> f64) option" where
  "nav_step d f focused_rect best cand =
     (case cand of (pid, rect) \<Rightarrow>
        if pid = f then best
        else if \<not> nav_valid d focused_rect rect then best
        else (let dist = nav_dist d focused_rect rect
              in if (case best of None \<Rightarrow> True | Some (_, bd) \<Rightarrow> dist < bd)
                 then Some (pid, dist) else best))"

definition navigate_directional ::
  "Direction \<Rightarrow> SplitTree \<Rightarrow> (PaneId option \<times> SplitTree) run" where
  "navigate_directional d t =
     (case focused t of
        None \<Rightarrow> Some (None, t)
      | Some f \<Rightarrow>
          do { bounds \<leftarrow> pane_bounds t;
               Some (case find (\<lambda>(pid, _). pid = f) bounds of
                 None \<Rightarrow> (None, t)
               | Some (_, focused_rect) \<Rightarrow>
                   (case foldl (nav_step d f focused_rect) None bounds of
                      Some (pid, _) \<Rightarrow> (Some pid, t\<lparr>focused := Some pid\<rparr>)
                    | None \<Rightarrow> (None, t))) })"

section \<open>Moving a pane\<close>

definition move_pane_adjacent ::
  "PaneId \<Rightarrow> PaneId \<Rightarrow> bool \<Rightarrow> Orientation \<Rightarrow> SplitTree \<Rightarrow> (bool \<times> SplitTree) run" where
  "move_pane_adjacent source_pane target_pane before ori t =
     (if source_pane = target_pane then Some (False, t)
      else do {
        src \<leftarrow> node_id_for_pane t source_pane;
        tgt \<leftarrow> node_id_for_pane t target_pane;
        if src = None \<or> tgt = None then Some (False, t)
        else do {
          (removed, t) \<leftarrow> remove source_pane t;
          if \<not> removed then Some (False, t)
          else do {
            tgt \<leftarrow> node_id_for_pane t target_pane;
            case tgt of
              None \<Rightarrow> Some (False, t)
            | Some target_node \<Rightarrow>
                (let (source_leaf, t) = alloc_id t;
                     t = insert_node source_leaf (Leaf source_pane) t;
                     (new_split, t) = alloc_id t;
                     t = insert_node new_split (mk_split before ori target_node source_leaf) t
                 in do {
                      t \<leftarrow> (if tree_root t = Some target_node
                            then Some (t\<lparr>tree_root := Some new_split\<rparr>)
                            else case tree_root t of
                                   None \<Rightarrow> Some t
                                 | Some r \<Rightarrow>
                                     do { h \<leftarrow> replace_child (nodes t) r target_node new_split;
                                          Some (t\<lparr>nodes := h\<rparr>) });
                      t \<leftarrow> equalize_chain (t\<lparr>focused := Some source_pane\<rparr>);
                      Some (True, t) }) } } })"

section \<open>Merging two trees\<close>

definition remap_node :: "Node \<Rightarrow> (NodeId \<rightharpoonup> NodeId) \<Rightarrow> Node" where
  "remap_node x remap =
     (case x of
        Leaf p \<Rightarrow> Leaf p
      | Split ori r a b \<Rightarrow>
          Split ori r (unwrap_or (remap a) a) (unwrap_or (remap b) b))"

text \<open>
  \<open>ks\<close> is the order in which \<open>&first.nodes\<close> yields its keys. \<open>insert_remapped\<close> is the second
  loop; its lookup \<open>first_remap[&old_id]\<close> cannot fail there, because \<open>alloc_remap\<close> ran over the
  same keys.
\<close>

fun alloc_remap ::
  "NodeId list \<Rightarrow> SplitTree \<Rightarrow> (NodeId \<rightharpoonup> NodeId) \<Rightarrow> (NodeId \<rightharpoonup> NodeId) \<times> SplitTree" where
  "alloc_remap [] t remap = (remap, t)"
| "alloc_remap (old_id # ks) t remap =
     (let (new_id, t) = alloc_id t in alloc_remap ks t (remap(old_id \<mapsto> new_id)))"

fun insert_remapped ::
  "NodeId list \<Rightarrow> node_table \<Rightarrow> (NodeId \<rightharpoonup> NodeId) \<Rightarrow> SplitTree \<Rightarrow> SplitTree" where
  "insert_remapped [] h remap t = t"
| "insert_remapped (old_id # ks) h remap t =
     (case (h old_id, remap old_id) of
        (Some x, Some new_id) \<Rightarrow>
          insert_remapped ks h remap (insert_node new_id (remap_node x remap) t)
      | _ \<Rightarrow> insert_remapped ks h remap t)"

definition merge ::
  "NodeId list \<Rightarrow> NodeId list \<Rightarrow> SplitTree \<Rightarrow> SplitTree \<Rightarrow> Orientation \<Rightarrow> f64 \<Rightarrow> SplitTree run" where
  "merge ks1 ks2 fst_tree snd_tree ori r =
     (let t = SplitTree_new\<lparr>next_id := max (next_id fst_tree) (next_id snd_tree)\<rparr>;
          (first_remap, t) = alloc_remap ks1 t Map.empty;
          t = insert_remapped ks1 (nodes fst_tree) first_remap t;
          (second_remap, t) = alloc_remap ks2 t Map.empty;
          t = insert_remapped ks2 (nodes snd_tree) second_remap t;
          first_root = Option.bind (tree_root fst_tree) first_remap;
          second_root = Option.bind (tree_root snd_tree) second_remap;
          t = (case (first_root, second_root) of
                 (Some fr, Some sr) \<Rightarrow>
                   (let (root_id, t) = alloc_id t;
                        t = insert_node root_id (Split ori r fr sr) t
                    in t\<lparr>tree_root := Some root_id\<rparr>)
               | (Some fr, None) \<Rightarrow> t\<lparr>tree_root := Some fr\<rparr>
               | (None, Some sr) \<Rightarrow> t\<lparr>tree_root := Some sr\<rparr>
               | (None, None) \<Rightarrow> t)
      in do { ps \<leftarrow> panes t; Some (t\<lparr>focused := first_opt ps\<rparr>) })"

end
