(* ===== verification/Split_Repr.thy ===== *)
theory Split_Repr
  imports Split_Tree
begin

text \<open>
  The abstraction of the split tree. A \<open>layout\<close> is the tree a user sees: panes tiled by splits. An
  \<open>itree\<close> is a layout that also carries the node identifiers; \<open>repr h t\<close> says that the node table
  \<open>h\<close> stores \<open>t\<close>, and \<open>owns T t\<close> that the tree \<open>T\<close> stores exactly \<open>t\<close>: no other node, no
  identifier or pane twice, and every identifier below the allocation counter.

  The theory shows that on such a table every walk of \<open>Split_Tree\<close> returns, and what it returns; and
  that redirecting one child pointer replaces one subtree (\<open>set_child_repr\<close>), the step all
  structural operations are made of.
\<close>

section \<open>Layouts and identified trees\<close>

datatype layout = Pane PaneId | Tile Orientation f64 layout layout

fun lpanes :: "layout \<Rightarrow> PaneId list" where
  "lpanes (Pane p) = [p]"
| "lpanes (Tile _ _ a b) = lpanes a @ lpanes b"

datatype itree = ILeaf (nid: NodeId) PaneId | ISplit (nid: NodeId) Orientation f64 itree itree

fun ids :: "itree \<Rightarrow> NodeId list" where
  "ids (ILeaf n _) = [n]"
| "ids (ISplit n _ _ a b) = n # ids a @ ids b"

fun erase :: "itree \<Rightarrow> layout" where
  "erase (ILeaf _ p) = Pane p"
| "erase (ISplit _ ori r a b) = Tile ori r (erase a) (erase b)"

abbreviation ipanes :: "itree \<Rightarrow> PaneId list" where
  "ipanes t \<equiv> lpanes (erase t)"

fun repr :: "node_table \<Rightarrow> itree \<Rightarrow> bool" where
  "repr h (ILeaf n p) = (h n = Some (Leaf p))"
| "repr h (ISplit n ori r a b) =
     (h n = Some (Split ori r (nid a) (nid b)) \<and> repr h a \<and> repr h b)"

lemma nid_in_ids [simp, intro]: "nid t \<in> set (ids t)"
  by (cases t) auto

lemma lpanes_not_Nil [simp]: "lpanes L \<noteq> []"
  by (induction L) auto

lemma repr_cong: "(\<And>n. n \<in> set (ids t) \<Longrightarrow> h n = h' n) \<Longrightarrow> repr h t = repr h' t"
  by (induction t) auto

lemma repr_upd_other [simp, frame_simps]: "n \<notin> set (ids t) \<Longrightarrow> repr (h(n := x)) t = repr h t"
  by (rule repr_cong) auto

lemma repr_dom: "repr h t \<Longrightarrow> set (ids t) \<subseteq> dom h"
  by (induction t) auto

section \<open>Walks\<close>

fun ichain_end :: "itree \<Rightarrow> NodeId" where
  "ichain_end (ILeaf n _) = n"
| "ichain_end (ISplit _ _ _ _ b) = ichain_end b"

fun ifind :: "itree \<Rightarrow> PaneId \<Rightarrow> NodeId option" where
  "ifind (ILeaf n q) p = (if q = p then Some n else None)"
| "ifind (ISplit _ _ _ a b) p = or_else (ifind a p) (ifind b p)"

fun is_ileaf :: "itree \<Rightarrow> PaneId \<Rightarrow> bool" where
  "is_ileaf (ILeaf _ q) p = (q = p)"
| "is_ileaf (ISplit _ _ _ _ _) p = False"

fun iparent :: "itree \<Rightarrow> PaneId \<Rightarrow> (NodeId \<times> bool) option" where
  "iparent (ILeaf _ _) p = None"
| "iparent (ISplit n _ _ a b) p =
     (if is_ileaf a p then Some (n, True)
      else if is_ileaf b p then Some (n, False)
      else or_else (iparent a p) (iparent b p))"

fun iparent_of :: "itree \<Rightarrow> NodeId \<Rightarrow> (NodeId \<times> bool) option" where
  "iparent_of (ILeaf _ _) k = None"
| "iparent_of (ISplit n _ _ a b) k =
     (if nid a = k then Some (n, True)
      else if nid b = k then Some (n, False)
      else or_else (iparent_of a k) (iparent_of b k))"

fun ibounds :: "layout \<Rightarrow> Rect \<Rightarrow> (PaneId \<times> Rect) list" where
  "ibounds (Pane p) rect = [(p, rect)]"
| "ibounds (Tile ori r a b) rect =
     ibounds a (fst (sub_rects ori r rect)) @ ibounds b (snd (sub_rects ori r rect))"

lemma is_leaf_of_repr [run_simps]: "repr h t \<Longrightarrow> is_leaf_of h (nid t) p = is_ileaf t p"
  by (cases t) (auto simp: is_leaf_of_def)

lemma collect_panes_repr [run_simps]: "repr h t \<Longrightarrow> collect_panes h (nid t) out = Some (out @ ipanes t)"
proof (induction t arbitrary: out)
  case (ILeaf n p)
  then show ?case by (simp add: collect_panes.simps)
next
  case (ISplit n ori r a b)
  then show ?case by (subst collect_panes.simps) simp
qed

lemma find_chain_end_repr [run_simps]: "repr h t \<Longrightarrow> find_chain_end h (nid t) = Some (ichain_end t)"
proof (induction t)
  case (ILeaf n p)
  then show ?case by (simp add: find_chain_end.simps)
next
  case (ISplit n ori r a b)
  then show ?case by (subst find_chain_end.simps) simp
qed

lemma find_leaf_repr [run_simps]: "repr h t \<Longrightarrow> find_leaf h (nid t) p = Some (ifind t p)"
proof (induction t)
  case (ILeaf n q)
  then show ?case by (simp add: find_leaf.simps)
next
  case (ISplit n ori r a b)
  then show ?case by (subst find_leaf.simps) (simp split: option.split)
qed

lemma find_parent_repr [run_simps]: "repr h t \<Longrightarrow> find_parent h (nid t) p = Some (iparent t p)"
proof (induction t)
  case (ILeaf n q)
  then show ?case by (simp add: find_parent.simps)
next
  case (ISplit n ori r a b)
  then show ?case
    by (subst find_parent.simps) (simp add: is_leaf_of_repr split: option.split)
qed

lemma find_parent_of_node_repr [run_simps]:
  "repr h t \<Longrightarrow> find_parent_of_node h (nid t) k = Some (iparent_of t k)"
proof (induction t)
  case (ILeaf n q)
  then show ?case by (simp add: find_parent_of_node.simps)
next
  case (ISplit n ori r a b)
  then show ?case by (subst find_parent_of_node.simps) (simp split: option.split)
qed

lemma compute_bounds_repr [run_simps]:
  "repr h t \<Longrightarrow> compute_bounds h (nid t) rect out = Some (out @ ibounds (erase t) rect)"
proof (induction t arbitrary: rect out)
  case (ILeaf n q)
  then show ?case by (simp add: compute_bounds.simps)
next
  case (ISplit n ori r a b)
  then show ?case by (subst compute_bounds.simps) simp
qed

section \<open>Subtrees and replacement\<close>

fun isub :: "itree \<Rightarrow> NodeId \<Rightarrow> itree option" where
  "isub (ILeaf n q) k = (if n = k then Some (ILeaf n q) else None)"
| "isub (ISplit n ori r a b) k =
     (if n = k then Some (ISplit n ori r a b) else or_else (isub a k) (isub b k))"

fun isubst :: "NodeId \<Rightarrow> itree \<Rightarrow> itree \<Rightarrow> itree" where
  "isubst k u (ILeaf n q) = (if n = k then u else ILeaf n q)"
| "isubst k u (ISplit n ori r a b) =
     (if n = k then u else ISplit n ori r (isubst k u a) (isubst k u b))"

lemma isub_None [simp]: "isub t k = None \<longleftrightarrow> k \<notin> set (ids t)"
  by (induction t) auto

lemma isub_notin [simp]: "k \<notin> set (ids t) \<Longrightarrow> isub t k = None"
  by simp

lemma isub_SomeD: "isub t k = Some s \<Longrightarrow> nid s = k \<and> k \<in> set (ids t) \<and> set (ids s) \<subseteq> set (ids t)"
  by (induction t) (auto simp: or_else_eq_Some split: if_splits)

lemma isub_nid [simp]: "isub t (nid t) = Some t"
  by (cases t) auto

lemma isubst_notin [simp]: "k \<notin> set (ids t) \<Longrightarrow> isubst k u t = t"
  by (induction t) auto

lemma isubst_nid [simp]: "isubst (nid t) u t = u"
  by (cases t) auto

lemma nid_isubst [simp]: "nid t \<noteq> k \<Longrightarrow> nid (isubst k u t) = nid t"
  by (cases t) auto

lemma isub_repr: "isub t k = Some s \<Longrightarrow> repr h t \<Longrightarrow> repr h s"
  by (induction t) (auto simp: or_else_eq_Some split: if_splits)

lemma isub_panes: "isub t k = Some s \<Longrightarrow> set (ipanes s) \<subseteq> set (ipanes t)"
  by (induction t) (auto simp: or_else_eq_Some split: if_splits)

lemma isub_trans:
  "isub t k = Some s \<Longrightarrow> isub s j = Some u \<Longrightarrow> distinct (ids t) \<Longrightarrow> isub t j = Some u"
proof (induction t)
  case (ISplit n ori r a b)
  show ?case
  proof (cases "n = k")
    case False
    have j: "j \<in> set (ids s)"
      using isub_SomeD [OF ISplit.prems(2)] by simp
    from ISplit.prems(1) False consider "isub a k = Some s" | "isub a k = None" "isub b k = Some s"
      by (auto simp: or_else_eq_Some)
    then show ?thesis
    proof cases
      case 1
      with ISplit isub_SomeD [OF 1] j False show ?thesis
        by (auto simp: or_else_eq_Some)
    next
      case 2
      with ISplit isub_SomeD [OF 2(2)] j False show ?thesis
        by (auto simp: or_else_eq_Some)
    qed
  qed (use ISplit.prems in auto)
qed (auto split: if_splits)

text \<open>A subtree sits in a context that replacement leaves alone.\<close>

lemma isubst_context:
  assumes "isub t k = Some s" "distinct (ids t)"
  shows "\<exists>xs ys. ids t = xs @ ids s @ ys \<and> (\<forall>u. ids (isubst k u t) = xs @ ids u @ ys)"
  using assms
proof (induction t)
  case (ILeaf n q)
  then show ?case by (auto split: if_splits intro!: exI [of _ "[]"])
next
  case (ISplit n ori r a b)
  show ?case
  proof (cases "n = k")
    case True
    with ISplit.prems show ?thesis by (auto intro!: exI [of _ "[]"])
  next
    case False
    with ISplit.prems(1) consider "isub a k = Some s" | "k \<notin> set (ids a)" "isub b k = Some s"
      by (auto simp: or_else_eq_Some)
    then show ?thesis
    proof cases
      case 1
      with ISplit obtain xs ys where c: "ids a = xs @ ids s @ ys"
        "\<forall>u. ids (isubst k u a) = xs @ ids u @ ys" by auto
      have "k \<notin> set (ids b)"
        using isub_SomeD [OF 1] ISplit.prems(2) by auto
      with False c show ?thesis
        by (intro exI [of _ "n # xs"] exI [of _ "ys @ ids b"]) simp
    next
      case 2
      with ISplit obtain xs ys where c: "ids b = xs @ ids s @ ys"
        "\<forall>u. ids (isubst k u b) = xs @ ids u @ ys" by auto
      with False 2 show ?thesis
        by (intro exI [of _ "n # ids a @ xs"] exI [of _ ys]) simp
    qed
  qed
qed

lemma ids_isubst:
  assumes "isub t k = Some s" "distinct (ids t)" "distinct (ids u)"
    and "set (ids u) \<inter> (set (ids t) - set (ids s)) = {}"
  shows "set (ids (isubst k u t)) = (set (ids t) - set (ids s)) \<union> set (ids u)"
    and "distinct (ids (isubst k u t))"
proof -
  obtain xs ys where c: "ids t = xs @ ids s @ ys" "\<forall>u. ids (isubst k u t) = xs @ ids u @ ys"
    using isubst_context [OF assms(1,2)] by blast
  then have "set xs \<inter> set (ids u) = {}" "set ys \<inter> set (ids u) = {}"
    using assms(2,4) by auto
  with c assms(2,3) show "distinct (ids (isubst k u t))"
    by auto
  show "set (ids (isubst k u t)) = (set (ids t) - set (ids s)) \<union> set (ids u)"
    using c assms(2) by auto
qed

section \<open>Parents\<close>

lemma iparent_of_notin [simp]: "k \<notin> set (ids t) \<Longrightarrow> iparent_of t k = None"
  by (induction t) auto

lemma iparent_of_root: "distinct (ids t) \<Longrightarrow> iparent_of t (nid t) = None"
proof (cases t)
  case (ISplit n ori r a b)
  assume "distinct (ids t)"
  with ISplit have "n \<notin> set (ids a)" "n \<notin> set (ids b)" "nid a \<noteq> n" "nid b \<noteq> n"
    by auto
  with ISplit show ?thesis by simp
qed simp

lemma iparent_of_ex:
  "k \<in> set (ids t) \<Longrightarrow> k \<noteq> nid t \<Longrightarrow> \<exists>q f. iparent_of t k = Some (q, f)"
proof (induction t)
  case (ISplit n ori r a b)
  then show ?case
    by (cases "iparent_of a k") auto
qed simp

lemma iparent_of_in: "iparent_of t k = Some (q, f) \<Longrightarrow> q \<in> set (ids t)"
  by (induction t) (auto simp: or_else_eq_Some split: if_splits)

lemma iparent_of_isub:
  assumes "iparent_of t k = Some (q, f)" "distinct (ids t)"
  shows "\<exists>ori r a b. isub t q = Some (ISplit q ori r a b) \<and> k = nid (if f then a else b)"
  using assms
proof (induction t)
  case (ISplit n ori r a b)
  show ?case
  proof (cases "nid a = k \<or> nid b = k")
    case True
    with ISplit.prems show ?thesis by (auto split: if_splits)
  next
    case False
    with ISplit.prems consider "iparent_of a k = Some (q, f)" |
        "iparent_of a k = None" "iparent_of b k = Some (q, f)"
      by (auto simp: or_else_eq_Some)
    then show ?thesis
    proof cases
      case 1
      obtain ori' r' c e where sub: "isub a q = Some (ISplit q ori' r' c e)"
        "k = nid (if f then c else e)"
        using ISplit.IH(1) [OF 1] ISplit.prems(2) by auto
      moreover have "n \<noteq> q"
        using iparent_of_in [OF 1] ISplit.prems(2) by auto
      ultimately show ?thesis by auto
    next
      case 2
      obtain ori' r' c e where sub: "isub b q = Some (ISplit q ori' r' c e)"
        "k = nid (if f then c else e)"
        using ISplit.IH(2) [OF 2(2)] ISplit.prems(2) by auto
      moreover have "n \<noteq> q" "isub a q = None"
        using iparent_of_in [OF 2(2)] ISplit.prems(2) by auto
      ultimately show ?thesis by auto
    qed
  qed
qed simp

lemma iparent_of_child:
  assumes "isub t q = Some (ISplit q ori r a b)" "distinct (ids t)"
  shows "iparent_of t (nid (if f then a else b)) = Some (q, f)"
  using assms
proof (induction t)
  case (ISplit n ori' r' c e)
  let ?k = "nid (if f then a else b)"
  show ?case
  proof (cases "n = q")
    case True
    with ISplit.prems show ?thesis by (cases f) auto
  next
    case False
    with ISplit.prems(1) consider "isub c q = Some (ISplit q ori r a b)" |
        "q \<notin> set (ids c)" "isub e q = Some (ISplit q ori r a b)"
      by (auto simp: or_else_eq_Some)
    then show ?thesis
    proof cases
      case 1
      then have p: "iparent_of c ?k = Some (q, f)"
        using ISplit by simp
      then have "?k \<noteq> nid c" "?k \<in> set (ids c)"
        using ISplit.prems(2) iparent_of_root [of c] iparent_of_notin [of ?k c] by auto
      moreover from this have "?k \<noteq> nid e"
        using ISplit.prems(2) nid_in_ids [of e] by fastforce
      ultimately show ?thesis using p by simp
    next
      case 2
      then have p: "iparent_of e ?k = Some (q, f)"
        using ISplit by simp
      then have ne: "?k \<noteq> nid e" and ke: "?k \<in> set (ids e)"
        using ISplit.prems(2) iparent_of_root [of e] iparent_of_notin [of ?k e] by auto
      then have kc: "?k \<notin> set (ids c)"
        using ISplit.prems(2) by auto
      then have "?k \<noteq> nid c"
        using nid_in_ids [of c] by metis
      with p ne kc show ?thesis by simp
    qed
  qed
qed (auto split: if_splits)

lemma isub_children:
  assumes "isub t q = Some (ISplit q ori r a b)" "distinct (ids t)"
  shows "isub t (nid a) = Some a" "isub t (nid b) = Some b"
    and "distinct (ids (ISplit q ori r a b))"
proof -
  obtain xs ys where "ids t = xs @ ids (ISplit q ori r a b) @ ys"
    using isubst_context [OF assms] by blast
  with assms(2) show d: "distinct (ids (ISplit q ori r a b))" by auto
  then have "isub (ISplit q ori r a b) (nid a) = Some a" "isub (ISplit q ori r a b) (nid b) = Some b"
    by (auto simp: or_else_eq_Some)
  then show "isub t (nid a) = Some a" "isub t (nid b) = Some b"
    using isub_trans [OF assms(1) _ assms(2)] by blast+
qed

lemma ifind_isub: "ifind t p = Some k \<Longrightarrow> distinct (ids t) \<Longrightarrow> isub t k = Some (ILeaf k p)"
proof (induction t)
  case (ISplit n ori r a b)
  have in_ids: "k \<in> set (ids t)" if "ifind t p = Some k" for t
    using that by (induction t) (auto simp: or_else_eq_Some split: if_splits)
  from ISplit.prems(1) consider "ifind a p = Some k" | "ifind a p = None" "ifind b p = Some k"
    by (auto simp: or_else_eq_Some)
  then show ?case
  proof cases
    case 1
    with ISplit in_ids [OF 1] show ?thesis by auto
  next
    case 2
    with in_ids [OF 2(2)] ISplit.prems(2) have "n \<noteq> k" "isub a k = None" by auto
    with ISplit 2 show ?thesis by simp
  qed
qed (auto split: if_splits)

lemma ifind_None [simp]: "ifind t p = None \<longleftrightarrow> p \<notin> set (ipanes t)"
  by (induction t) auto

lemma ifind_notin [simp]: "p \<notin> set (ipanes t) \<Longrightarrow> ifind t p = None"
  by simp

lemma ifind_SomeD: "ifind t p = Some k \<Longrightarrow> p \<in> set (ipanes t)"
  using ifind_None [of t p] by auto

lemma is_ileafD: "is_ileaf t p \<Longrightarrow> p \<in> set (ipanes t)"
  by (cases t) auto

lemma ifind_ex: "p \<in> set (ipanes t) \<Longrightarrow> \<exists>k. ifind t p = Some k"
  using ifind_None [of t p] by (cases "ifind t p") auto

lemma isub_ifind:
  assumes "isub t k = Some (ILeaf k p)" "distinct (ipanes t)"
  shows "ifind t p = Some k"
  using assms
proof (induction t)
  case (ISplit n ori r a b)
  from ISplit.prems(1) consider (l) "isub a k = Some (ILeaf k p)"
    | (r) "isub a k = None" "isub b k = Some (ILeaf k p)"
    by (auto simp: or_else_eq_Some split: if_splits)
  then show ?case
  proof cases
    case l
    with ISplit show ?thesis by simp
  next
    case r
    have "p \<in> set (ipanes b)" using isub_panes [OF r(2)] by auto
    then have "p \<notin> set (ipanes a)" using ISplit.prems(2) by auto
    with r ISplit show ?thesis by simp
  qed
qed (auto split: if_splits)

lemma iparent_notin [simp]: "p \<notin> set (ipanes t) \<Longrightarrow> iparent t p = None"
proof (induction t)
  case (ISplit n ori r a b)
  moreover have "\<not> is_ileaf a p" "\<not> is_ileaf b p"
    using ISplit.prems is_ileafD by fastforce+
  ultimately show ?case by auto
qed simp

lemma iparent_ifind:
  assumes "distinct (ids t)" "distinct (ipanes t)" "ifind t p = Some k"
  shows "iparent t p = iparent_of t k"
  using assms
proof (induction t)
  case (ISplit n ori r a b)
  from ISplit.prems(3) consider (l) "ifind a p = Some k" "p \<in> set (ipanes a)"
    | (r) "ifind a p = None" "ifind b p = Some k"
    using ifind_SomeD [of a p k] by (auto simp: or_else_eq_Some)
  then show ?case
  proof cases
    case l
    then have ka: "isub a k = Some (ILeaf k p)" using ifind_isub ISplit.prems(1) by simp
    then have "k \<in> set (ids a)" using isub_SomeD by blast
    then have kb: "nid b \<noteq> k" "k \<notin> set (ids b)" using ISplit.prems(1) nid_in_ids [of b] by auto
    have pb: "p \<notin> set (ipanes b)" using l(2) ISplit.prems(2) by auto
    then have "\<not> is_ileaf b p" by (cases b) auto
    moreover have "is_ileaf a p \<longleftrightarrow> nid a = k"
      using l(1) ka by (cases a) auto
    moreover have "iparent a p = iparent_of a k"
      using ISplit.IH(1) ISplit.prems(1,2) l(1) by simp
    ultimately show ?thesis using kb pb by simp
  next
    case r
    then have kb: "isub b k = Some (ILeaf k p)" using ifind_isub ISplit.prems(1) by simp
    then have "k \<in> set (ids b)" using isub_SomeD by blast
    then have ka: "nid a \<noteq> k" "k \<notin> set (ids a)" using ISplit.prems(1) nid_in_ids [of a] by auto
    have pa: "p \<notin> set (ipanes a)" using r(1) by simp
    then have "\<not> is_ileaf a p" by (cases a) auto
    moreover have "is_ileaf b p \<longleftrightarrow> nid b = k"
      using r(2) kb by (cases b) auto
    moreover have "iparent b p = iparent_of b k"
      using ISplit.IH(2) ISplit.prems(1,2) r(2) by simp
    ultimately show ?thesis using ka pa by simp
  qed
qed simp

section \<open>Redirecting a child pointer\<close>

lemma set_child_other [simp, frame_simps]: "n \<noteq> q \<Longrightarrow> set_child h q f v n = h n"
  by (auto simp: set_child_def split: option.splits Node.splits)

lemma repr_set_child_other [simp, frame_simps]:
  "q \<notin> set (ids t) \<Longrightarrow> repr (set_child h q f v) t = repr h t"
  by (rule repr_cong) (metis set_child_other)

lemma dom_set_child [simp]: "dom (set_child h q f v) = dom h"
  by (auto simp: set_child_def split: option.splits Node.splits)

lemma get_child_repr:
  assumes "repr h t" "isub t q = Some (ISplit q ori r a b)"
  shows "get_child h q f = Some (nid (if f then a else b))"
  using isub_repr [OF assms(2,1)] by (simp add: get_child_def)

lemma parent_notin_sub:
  assumes "iparent_of t k = Some (q, f)" "isub t k = Some s" "distinct (ids t)"
  shows "q \<in> set (ids t)" "q \<notin> set (ids s)"
proof -
  obtain ori r a b where t: "isub t q = Some (ISplit q ori r a b)" "k = nid (if f then a else b)"
    using iparent_of_isub [OF assms(1,3)] by blast
  then have "s = (if f then a else b)"
    using isub_children [OF t(1) assms(3)] assms(2) by (cases f) auto
  with isub_children(3) [OF t(1) assms(3)] show "q \<notin> set (ids s)" by auto
  show "q \<in> set (ids t)" by (rule iparent_of_in [OF assms(1)])
qed

lemma set_child_repr:
  assumes "repr h t" "distinct (ids t)" "iparent_of t k = Some (q, f)" "isub t k = Some s"
    and "repr h u" "set (ids u) \<inter> (set (ids t) - set (ids s)) = {}"
  shows "repr (set_child h q f (nid u)) (isubst k u t)"
  using assms
proof (induction t)
  case (ISplit n ori r a b)
  let ?h = "set_child h q f (nid u)"
  have q: "q \<in> set (ids (ISplit n ori r a b))" "q \<notin> set (ids s)"
    using parent_notin_sub [OF ISplit.prems(3,4,2)] by auto
  then have "q \<notin> set (ids u)"
    using ISplit.prems(6) by blast
  then have hu: "repr ?h u"
    using ISplit.prems(5) by simp
  have kn: "k \<noteq> n"
    using ISplit.prems(2,3) iparent_of_root [of "ISplit n ori r a b"] by auto
  consider (a) "nid a = k" | (b) "nid a \<noteq> k" "nid b = k"
    | (l) "nid a \<noteq> k" "nid b \<noteq> k" "iparent_of a k = Some (q, f)"
    | (r) "nid a \<noteq> k" "nid b \<noteq> k" "iparent_of a k = None" "iparent_of b k = Some (q, f)"
    using ISplit.prems(3) by (auto simp: or_else_eq_Some split: if_splits)
  then show ?case
  proof cases
    case a
    then have "k \<notin> set (ids b)" using ISplit.prems(2) nid_in_ids [of a] by auto
    moreover have "isubst k u a = u" using a by auto
    moreover have "?h = h(n \<mapsto> Split ori r (nid u) (nid b))" "n \<notin> set (ids b)" "q = n" "f"
      using a ISplit.prems(1-3) by (auto simp: set_child_def)
    ultimately show ?thesis
      using kn hu ISplit.prems(1) by (simp del: fun_upd_apply add: fun_upd_same)
  next
    case b
    then have "k \<notin> set (ids a)" using ISplit.prems(2) nid_in_ids [of b] by auto
    moreover have "isubst k u b = u" using b by auto
    moreover have "?h = h(n \<mapsto> Split ori r (nid a) (nid u))" "n \<notin> set (ids a)" "q = n" "\<not> f"
      using b ISplit.prems(1-3) by (auto simp: set_child_def)
    ultimately show ?thesis
      using kn hu ISplit.prems(1) by (simp del: fun_upd_apply add: fun_upd_same)
  next
    case l
    then have ka: "k \<in> set (ids a)" using iparent_of_notin [of k a] by fastforce
    then have kb: "k \<notin> set (ids b)" using ISplit.prems(2) by auto
    have sub: "isub a k = Some s" using ISplit.prems(4) kn kb by (auto simp: or_else_eq_Some)
    have qa: "q \<in> set (ids a)" by (rule iparent_of_in [OF l(3)])
    have "repr ?h (isubst k u a)"
      using ISplit.IH(1) [OF _ _ l(3) sub ISplit.prems(5)] ISplit.prems(1,2,6) by auto
    moreover have "q \<noteq> n" "q \<notin> set (ids b)" using qa ISplit.prems(2) by auto
    ultimately show ?thesis using ISplit.prems(1) kn kb l(1) by simp
  next
    case r
    then have kb: "k \<in> set (ids b)" using iparent_of_notin [of k b] by fastforce
    then have ka: "k \<notin> set (ids a)" using ISplit.prems(2) by auto
    have sub: "isub b k = Some s" using ISplit.prems(4) kn ka by simp
    have qb: "q \<in> set (ids b)" by (rule iparent_of_in [OF r(4)])
    have "repr ?h (isubst k u b)"
      using ISplit.IH(2) [OF _ _ r(4) sub ISplit.prems(5)] ISplit.prems(1,2,6) by auto
    moreover have "q \<noteq> n" "q \<notin> set (ids a)" using qb ISplit.prems(2) by auto
    ultimately show ?thesis using ISplit.prems(1) kn ka r(2) by simp
  qed
qed simp

lemma replace_child_notin:
  "repr h t \<Longrightarrow> k \<notin> set (ids t) \<Longrightarrow> replace_child h (nid t) k v = Some h"
proof (induction t)
  case (ILeaf n p)
  then show ?case by (simp add: replace_child.simps)
next
  case (ISplit n ori r a b)
  then have "nid a \<noteq> k" "nid b \<noteq> k" by auto
  with ISplit show ?case by (subst replace_child.simps) simp
qed

text \<open>The recursive search of \<open>replace_child\<close> ends in one pointer update, at the parent.\<close>

lemma replace_child_repr [run_simps]:
  assumes "repr h t" "distinct (ids t)" "iparent_of t k = Some (q, f)"
  shows "replace_child h (nid t) k v = Some (set_child h q f v)"
  using assms
proof (induction t)
  case (ISplit n ori r a b)
  from ISplit.prems(3) consider (a) "nid a = k" | (b) "nid a \<noteq> k" "nid b = k"
    | (l) "nid a \<noteq> k" "nid b \<noteq> k" "iparent_of a k = Some (q, f)"
    | (r) "nid a \<noteq> k" "nid b \<noteq> k" "iparent_of a k = None" "iparent_of b k = Some (q, f)"
    by (auto simp: or_else_eq_Some split: if_splits)
  then show ?case
  proof cases
    case l
    then have "k \<in> set (ids a)" "q \<in> set (ids a)"
      using iparent_of_notin [of k a] iparent_of_in by fastforce+
    then have "k \<notin> set (ids b)" "q \<notin> set (ids b)" using ISplit.prems(2) by auto
    with ISplit l show ?thesis
      by (subst replace_child.simps) (simp add: replace_child_notin)
  next
    case r
    then have "k \<in> set (ids b)"
      using iparent_of_notin [of k b] by fastforce
    then have "k \<notin> set (ids a)" using ISplit.prems(2) by auto
    with ISplit r show ?thesis
      by (subst replace_child.simps) (simp add: replace_child_notin)
  qed (use ISplit.prems in \<open>auto simp: replace_child.simps [of h] set_child_def\<close>)
qed simp

section \<open>Ownership\<close>

definition owns :: "SplitTree \<Rightarrow> itree \<Rightarrow> bool" where
  "owns T t \<longleftrightarrow>
     tree_root T = Some (nid t) \<and> repr (nodes T) t \<and> dom (nodes T) = set (ids t) \<and>
     distinct (ids t) \<and> distinct (ipanes t) \<and> (\<forall>n\<in>set (ids t). n < next_id T)"

fun represents :: "SplitTree \<Rightarrow> layout option \<Rightarrow> bool" where
  "represents T None \<longleftrightarrow> tree_root T = None \<and> nodes T = Map.empty"
| "represents T (Some L) \<longleftrightarrow> (\<exists>t. owns T t \<and> erase t = L)"

definition wf_tree :: "SplitTree \<Rightarrow> bool" where
  "wf_tree T \<longleftrightarrow> (\<exists>L. represents T L)"

definition layout_panes :: "layout option \<Rightarrow> PaneId list" where
  "layout_panes L = (case L of None \<Rightarrow> [] | Some l \<Rightarrow> lpanes l)"

lemma layout_panes_simps [simp]: "layout_panes None = []" "layout_panes (Some l) = lpanes l"
  by (auto simp: layout_panes_def)

lemma ownsD:
  assumes "owns T t"
  shows "tree_root T = Some (nid t)" "repr (nodes T) t" "dom (nodes T) = set (ids t)"
    "distinct (ids t)" "distinct (ipanes t)" "\<And>n. n \<in> set (ids t) \<Longrightarrow> n < next_id T"
  using assms by (auto simp: owns_def)

lemma owns_focus [simp]: "owns (T\<lparr>focused := f\<rparr>) t = owns T t"
  by (simp add: owns_def)

lemma represents_focus [simp]: "represents (T\<lparr>focused := f\<rparr>) L = represents T L"
  by (cases L) simp_all

text \<open>The panes of a layout in order, and the context of a subtree in them.\<close>

lemma isubst_pane_context:
  assumes "isub t k = Some s" "distinct (ids t)"
  shows "\<exists>xs ys. ipanes t = xs @ ipanes s @ ys \<and> (\<forall>u. ipanes (isubst k u t) = xs @ ipanes u @ ys)"
  using assms
proof (induction t)
  case (ILeaf n q)
  then show ?case by (auto split: if_splits intro!: exI [of _ "[]"])
next
  case (ISplit n ori r a b)
  show ?case
  proof (cases "n = k")
    case True
    with ISplit.prems show ?thesis by (auto intro!: exI [of _ "[]"])
  next
    case False
    with ISplit.prems(1) consider "isub a k = Some s" | "k \<notin> set (ids a)" "isub b k = Some s"
      by (auto simp: or_else_eq_Some)
    then show ?thesis
    proof cases
      case 1
      with ISplit obtain xs ys where c: "ipanes a = xs @ ipanes s @ ys"
        "\<forall>u. ipanes (isubst k u a) = xs @ ipanes u @ ys" by auto
      have "k \<notin> set (ids b)"
        using isub_SomeD [OF 1] ISplit.prems(2) by auto
      with False c show ?thesis
        by (intro exI [of _ xs] exI [of _ "ys @ ipanes b"]) simp
    next
      case 2
      with ISplit obtain xs ys where c: "ipanes b = xs @ ipanes s @ ys"
        "\<forall>u. ipanes (isubst k u b) = xs @ ipanes u @ ys" by auto
      with False 2 show ?thesis
        by (intro exI [of _ "ipanes a @ xs"] exI [of _ ys]) simp
    qed
  qed
qed

end
