(* ===== verification/Split_Spec.thy ===== *)
theory Split_Spec
  imports Split_Repr
begin

text \<open>
  The split tree against its specification. Each structural operation of \<open>Split_Tree\<close> has a
  counterpart on layouts (\<open>lsplit\<close>, \<open>linsert\<close>, \<open>lremove\<close>, \<open>lchain\<close>), a structural recursion
  with no identifiers in it; the refinement lemmas say that the pointer code computes it, returns, and
  keeps the table well formed. The pane order of every specification is a list edit.
\<close>

section \<open>Specifications on layouts\<close>

definition lpair :: "bool \<Rightarrow> Orientation \<Rightarrow> layout \<Rightarrow> PaneId \<Rightarrow> layout" where
  "lpair before ori L q =
     (if before then Tile ori (1 / 2) (Pane q) L else Tile ori (1 / 2) L (Pane q))"

fun lsplit :: "bool \<Rightarrow> PaneId \<Rightarrow> PaneId \<Rightarrow> Orientation \<Rightarrow> layout \<Rightarrow> layout" where
  "lsplit before p q ori (Pane x) = (if x = p then lpair before ori (Pane x) q else Pane x)"
| "lsplit before p q ori (Tile ori' r a b) =
     Tile ori' r (lsplit before p q ori a) (lsplit before p q ori b)"

text \<open>
  Insertion after a pane in a chain: a pane that is a first child gets the new pane in front of its
  sibling, a pane that is a second child (or the whole layout) is paired with it.
\<close>

fun linsert :: "PaneId \<Rightarrow> PaneId \<Rightarrow> Orientation \<Rightarrow> layout \<Rightarrow> layout" where
  "linsert p q ori (Pane x) = (if x = p then lpair False ori (Pane x) q else Pane x)"
| "linsert p q ori (Tile ori' r a b) =
     (if a = Pane p then Tile ori' r a (lpair True ori b q)
      else Tile ori' r (linsert p q ori a) (linsert p q ori b))"

fun lremove :: "PaneId \<Rightarrow> layout \<Rightarrow> layout option" where
  "lremove p (Pane x) = (if x = p then None else Some (Pane x))"
| "lremove p (Tile ori r a b) =
     (case lremove p a of
        None \<Rightarrow> Some b
      | Some a' \<Rightarrow> (case lremove p b of None \<Rightarrow> Some a' | Some b' \<Rightarrow> Some (Tile ori r a' b')))"

fun lchain :: "nat \<Rightarrow> layout \<Rightarrow> layout" where
  "lchain n (Pane p) = Pane p"
| "lchain n (Tile ori r a b) =
     (if n \<le> 1 then Tile ori r a b else Tile ori (1 / of_nat n) a (lchain (n - 1) b))"

definition lequalize :: "layout \<Rightarrow> layout" where
  "lequalize L = lchain (length (lpanes L)) L"

fun lhalf :: "layout \<Rightarrow> layout" where
  "lhalf (Pane p) = Pane p"
| "lhalf (Tile ori r a b) = Tile ori (1 / 2) (lhalf a) (lhalf b)"

lemma lsplit_notin [simp]: "p \<notin> set (lpanes L) \<Longrightarrow> lsplit before p q ori L = L"
  by (induction L) auto

lemma linsert_notin [simp]: "p \<notin> set (lpanes L) \<Longrightarrow> linsert p q ori L = L"
  by (induction L) auto

lemma lremove_notin [simp]: "p \<notin> set (lpanes L) \<Longrightarrow> lremove p L = Some L"
  by (induction L) auto

lemma lremove_None [simp]: "lremove p L = None \<longleftrightarrow> L = Pane p"
  by (cases L) (auto split: option.splits)

lemma lpanes_lpair: "lpanes (lpair before ori L q) = (if before then q # lpanes L else lpanes L @ [q])"
  by (simp add: lpair_def)

lemma lpanes_lsplit:
  "distinct (lpanes L) \<Longrightarrow>
   lpanes (lsplit before p q ori L) =
     (if before then insert_before p q (lpanes L) else insert_after p q (lpanes L))"
proof (induction L)
  case (Tile ori' r a b)
  have "p \<in> set (lpanes a) \<Longrightarrow> p \<notin> set (lpanes b)" using Tile.prems by auto
  with Tile show ?case
    by (simp add: insert_after_append insert_before_append)
qed (simp add: lpanes_lpair)

lemma lpanes_linsert:
  "distinct (lpanes L) \<Longrightarrow> lpanes (linsert p q ori L) = insert_after p q (lpanes L)"
proof (induction L)
  case (Tile ori' r a b)
  show ?case
  proof (cases "p \<in> set (lpanes a)")
    case True
    then have "p \<notin> set (lpanes b)" using Tile.prems by auto
    with True Tile show ?thesis by (auto simp: insert_after_append lpanes_lpair)
  next
    case False
    then have "a \<noteq> Pane p" by auto
    with False Tile show ?thesis by (auto simp: insert_after_append)
  qed
qed (simp add: lpanes_lpair)

lemma lpanes_lremove:
  assumes "lremove p L = Some L'" "distinct (lpanes L)"
  shows "lpanes L' = remove1 p (lpanes L)"
  using assms
proof (induction L arbitrary: L')
  case (Tile ori r a b)
  show ?case
  proof (cases "p \<in> set (lpanes a)")
    case True
    then have pb: "p \<notin> set (lpanes b)" using Tile.prems(2) by auto
    show ?thesis
    proof (cases "lremove p a")
      case None
      with Tile.prems True show ?thesis by (auto simp: remove1_append)
    next
      case (Some a')
      have "lpanes a' = remove1 p (lpanes a)"
        by (rule Tile.IH(1) [OF Some]) (use Tile.prems(2) in simp)
      moreover have "L' = Tile ori r a' b" using Tile.prems(1) Some pb by simp
      ultimately show ?thesis using True by (simp add: remove1_append)
    qed
  next
    case False
    show ?thesis
    proof (cases "lremove p b")
      case None
      with Tile.prems False show ?thesis by (auto simp: remove1_append)
    next
      case (Some b')
      have "lpanes b' = remove1 p (lpanes b)"
        by (rule Tile.IH(2) [OF Some]) (use Tile.prems(2) in simp)
      moreover have "L' = Tile ori r a b'" using Tile.prems(1) Some False by simp
      ultimately show ?thesis using False by (simp add: remove1_append)
    qed
  qed
qed (auto split: if_splits)

lemma lpanes_lchain [simp]: "lpanes (lchain n L) = lpanes L"
  by (induction n L rule: lchain.induct) auto

lemma lpanes_lequalize [simp]: "lpanes (lequalize L) = lpanes L"
  by (simp add: lequalize_def)

lemma lpanes_lhalf [simp]: "lpanes (lhalf L) = lpanes L"
  by (induction L) auto

section \<open>Replacement in identified trees computes the specifications\<close>

lemma erase_isubst_leaf:
  assumes "isub t k = Some (ILeaf k p)" "distinct (ids t)" "distinct (ipanes t)"
    and "erase u = lpair before ori (Pane p) q"
  shows "erase (isubst k u t) = lsplit before p q ori (erase t)"
  using assms(1-3)
proof (induction t)
  case (ISplit n ori' r a b)
  then have kn: "n \<noteq> k" by auto
  with ISplit.prems(1) consider (l) "isub a k = Some (ILeaf k p)"
    | (r) "k \<notin> set (ids a)" "isub b k = Some (ILeaf k p)"
    by (auto simp: or_else_eq_Some)
  then show ?case
  proof cases
    case l
    then have "k \<in> set (ids a)" "p \<in> set (ipanes a)"
      using isub_SomeD [OF l] isub_panes [OF l] by auto
    then have "k \<notin> set (ids b)" "p \<notin> set (ipanes b)" using ISplit.prems(2,3) by auto
    with l ISplit kn show ?thesis by simp
  next
    case r
    then have "p \<in> set (ipanes b)" using isub_panes [OF r(2)] by auto
    then have "p \<notin> set (ipanes a)" using ISplit.prems(3) by auto
    with r ISplit kn show ?thesis by simp
  qed
qed (use assms(4) in \<open>auto split: if_splits\<close>)

lemma erase_isubst_second:
  assumes "iparent_of t k = Some (q, False)" "isub t k = Some (ILeaf k p)"
    and "distinct (ids t)" "distinct (ipanes t)" "erase u = lpair False ori (Pane p) new"
  shows "erase (isubst k u t) = linsert p new ori (erase t)"
  using assms(1-4)
proof (induction t)
  case (ISplit n ori' r a b)
  have kn: "n \<noteq> k" using ISplit.prems(2) by auto
  consider (b) "nid b = k" | (l) "nid a \<noteq> k" "iparent_of a k = Some (q, False)"
    | (r) "nid b \<noteq> k" "iparent_of b k = Some (q, False)" "k \<notin> set (ids a)"
  proof (cases "k \<in> set (ids a)")
    case True
    then have "k \<notin> set (ids b)" "nid b \<noteq> k"
      using ISplit.prems(3) nid_in_ids [of b] by auto
    then show ?thesis using that ISplit.prems(1) by (auto split: if_splits simp: or_else_eq_Some)
  next
    case False
    then have "nid a \<noteq> k" by auto
    then show ?thesis using that False ISplit.prems(1) by (auto split: if_splits)
  qed
  then show ?case
  proof cases
    case b
    then have ka: "k \<notin> set (ids a)" using ISplit.prems(3) nid_in_ids [of b] by auto
    then have "isub b k = Some (ILeaf k p)" using ISplit.prems(2) kn by simp
    then have bl: "b = ILeaf k p" using b by (cases b) auto
    then have "p \<notin> set (ipanes a)" "erase a \<noteq> Pane p" using ISplit.prems(4) by auto
    with bl ka kn show ?thesis using assms(5) by simp
  next
    case l
    have ka: "k \<in> set (ids a)" using l(2) iparent_of_notin [of k a] by fastforce
    then have kb: "k \<notin> set (ids b)" using ISplit.prems(3) by auto
    then have sa: "isub a k = Some (ILeaf k p)" using ISplit.prems(2) kn by simp
    have "p \<in> set (ipanes a)" using isub_panes [OF sa] by auto
    then have "p \<notin> set (ipanes b)" using ISplit.prems(4) by auto
    moreover have "erase a \<noteq> Pane p" using sa l(1) by (cases a) (auto split: if_splits)
    ultimately show ?thesis using ISplit l(2) sa kb kn by simp
  next
    case r
    then have sb: "isub b k = Some (ILeaf k p)" using ISplit.prems(2) kn by simp
    have "p \<in> set (ipanes b)" using isub_panes [OF sb] by auto
    then have "p \<notin> set (ipanes a)" "erase a \<noteq> Pane p" using ISplit.prems(4) by auto
    then show ?thesis using ISplit r sb kn by simp
  qed
qed simp

lemma erase_isubst_sibling:
  assumes "isub t q = Some (ISplit q ori' r (ILeaf k p) b)"
    and "distinct (ids t)" "distinct (ipanes t)" "erase u = lpair True ori (erase b) new"
  shows "erase (isubst (nid b) u t) = linsert p new ori (erase t)"
  using assms(1-3)
proof (induction t)
  case (ISplit n ori'' r'' c e)
  show ?case
  proof (cases "n = q")
    case True
    with ISplit.prems assms(4) show ?thesis by auto
  next
    case False
    have bt: "isub (ISplit n ori'' r'' c e) (nid b) = Some b"
      and d: "distinct (ids (ISplit q ori' r (ILeaf k p) b))"
      using isub_children [OF ISplit.prems(1,2)] by auto
    have "iparent_of (ISplit n ori'' r'' c e) (nid b) = Some (q, False)"
      using iparent_of_child [OF ISplit.prems(1,2), of False] by simp
    then have bn: "nid b \<noteq> n"
      using iparent_of_root [OF ISplit.prems(2)] by auto
    from False ISplit.prems(1) consider (l) "isub c q = Some (ISplit q ori' r (ILeaf k p) b)"
      | (r) "q \<notin> set (ids c)" "isub e q = Some (ISplit q ori' r (ILeaf k p) b)"
      by (auto simp: or_else_eq_Some)
    then show ?thesis
    proof cases
      case l
      have "nid b \<in> set (ids c)" "p \<in> set (ipanes c)"
        using isub_SomeD [OF l] isub_panes [OF l] by auto
      then have "nid b \<notin> set (ids e)" "p \<notin> set (ipanes e)" using ISplit.prems(2,3) by auto
      moreover have "erase c \<noteq> Pane p" using l by (cases c) (auto split: if_splits)
      ultimately show ?thesis using ISplit l bn by simp
    next
      case r
      have "nid b \<in> set (ids e)" "p \<in> set (ipanes e)"
        using isub_SomeD [OF r(2)] isub_panes [OF r(2)] by auto
      then have "nid b \<notin> set (ids c)" "p \<notin> set (ipanes c)" "erase c \<noteq> Pane p"
        using ISplit.prems(2,3) by auto
      then show ?thesis using ISplit r bn by simp
    qed
  qed
qed (auto split: if_splits)

lemma erase_isubst_remove:
  assumes "isub t q = Some (ISplit q ori r a b)" "distinct (ids t)" "distinct (ipanes t)"
    and "(if f then a else b) = ILeaf k p"
  shows "lremove p (erase t) = Some (erase (isubst q (if f then b else a) t))"
  using assms(1-3)
proof (induction t)
  case (ISplit n ori' r' c e)
  show ?case
  proof (cases "n = q")
    case True
    then have eq: "c = a" "e = b" using ISplit.prems(1) by auto
    show ?thesis
    proof (cases f)
      case True
      with eq assms(4) \<open>n = q\<close> show ?thesis by auto
    next
      case False
      with assms(4) eq ISplit.prems(3) have "p \<notin> set (ipanes c)" "e = ILeaf k p" by auto
      then show ?thesis using eq(1) False \<open>n = q\<close> by simp
    qed
  next
    case False
    from False ISplit.prems(1) consider (l) "isub c q = Some (ISplit q ori r a b)"
      | (r) "q \<notin> set (ids c)" "isub e q = Some (ISplit q ori r a b)"
      by (auto simp: or_else_eq_Some)
    then show ?thesis
    proof cases
      case l
      have "q \<in> set (ids c)" "p \<in> set (ipanes c)"
        using isub_SomeD [OF l] isub_panes [OF l] assms(4) by (cases f; auto)+
      then have "q \<notin> set (ids e)" "p \<notin> set (ipanes e)" using ISplit.prems(2,3) by auto
      then show ?thesis using ISplit l False by simp
    next
      case r
      have "q \<in> set (ids e)" "p \<in> set (ipanes e)"
        using isub_SomeD [OF r(2)] isub_panes [OF r(2)] assms(4) by (cases f; auto)+
      then have "p \<notin> set (ipanes c)" using ISplit.prems(3) by auto
      then show ?thesis using ISplit r False by simp
    qed
  qed
qed (auto split: if_splits)

end
