(* ===== verification/Split_Refine.thy ===== *)
theory Split_Refine
  imports Split_Spec
begin

text \<open>
  The refinement lemmas of the split tree: on a tree that represents a layout, and with room left in
  the identifier counter, each operation of \<open>Split_Tree\<close> returns a tree that represents the
  specified layout.
\<close>

section \<open>Grafting a new leaf\<close>

lemma owns_graft:
  assumes own: "owns T t" and sub: "isub t k = Some s" and room: "unat (next_id T) + 2 < 2 ^ 32"
    and fresh: "q \<notin> set (ipanes t)" and nx: "next_id T' = next_id T + 2"
    and u: "u = (if before then ISplit sp ori r (ILeaf l q) s else ISplit sp ori r s (ILeaf l q))"
    and ls: "l = next_id T" "sp = next_id T + 1"
    and h: "h = (nodes T)(l \<mapsto> Leaf q,
                  sp \<mapsto> (if before then Split ori r l k else Split ori r k l))"
    and root: "if k = nid t then tree_root T' = Some sp \<and> nodes T' = h
               else tree_root T' = tree_root T \<and>
                 (\<exists>p f. iparent_of t k = Some (p, f) \<and> nodes T' = set_child h p f sp)"
  shows "owns T' (isubst k u t)"
proof -
  note o = ownsD [OF own]
  have new: "l \<notin> set (ids t)" "sp \<notin> set (ids t)" "l \<noteq> sp"
    using o(6) u32_alloc_two [OF room] ls by auto
  have sids: "set (ids s) \<subseteq> set (ids t)" "nid s = k" "distinct (ids s)"
    using isub_SomeD [OF sub] isubst_context [OF sub o(4)] o(4) by auto
  have rt: "repr h t" using o(2) new h by simp
  then have rs: "repr h s" by (rule isub_repr [OF sub])
  have ru: "repr h u" "nid u = sp" using rs h u new sids(2) by auto
  have du: "distinct (ids u)" and iu: "set (ids u) = insert l (insert sp (set (ids s)))"
    using u new sids by (auto split: if_splits)
  then have disj: "set (ids u) \<inter> (set (ids t) - set (ids s)) = {}" using new by auto
  note ids' = ids_isubst [OF sub o(4) du disj]
  have dom: "dom h = insert l (insert sp (set (ids t)))" using o(3) h by auto
  have "dom (nodes T') = dom h" using root dom_set_child by (metis (full_types))
  then have D: "dom (nodes T') = set (ids (isubst k u t))"
    using ids'(1) iu dom sids(1) by auto
  have R: "repr (nodes T') (isubst k u t) \<and> tree_root T' = Some (nid (isubst k u t))"
  proof (cases "k = nid t")
    case True
    with root ru show ?thesis by simp
  next
    case False
    then obtain p f where "iparent_of t k = Some (p, f)" "nodes T' = set_child h p f (nid u)"
      "tree_root T' = tree_root T"
      using root ru(2) by auto
    with set_child_repr [OF rt o(4) _ sub ru(1) disj] o(1) False show ?thesis by simp
  qed
  obtain xs ys where c: "ipanes t = xs @ ipanes s @ ys" "ipanes (isubst k u t) = xs @ ipanes u @ ys"
    using isubst_pane_context [OF sub o(4)] by blast
  have "distinct (ipanes (isubst k u t))"
    using c fresh o(5) u by auto
  moreover have "\<forall>n\<in>set (ids (isubst k u t)). n < next_id T'"
    using ids'(1) iu sids(1) o(6) u32_alloc_two [OF room] nx ls by auto
  ultimately show ?thesis
    using R D ids'(2) by (simp add: owns_def)
qed

section \<open>Splitting\<close>

lemma split_gen_refines:
  assumes rep: "represents T (Some L)" and p: "p \<in> set (lpanes L)" and q: "q \<notin> set (lpanes L)"
    and room: "unat (next_id T) + 2 < 2 ^ 32"
  shows "\<exists>T'. split_gen before p q ori T = Some (Some (next_id T + 1), T') \<and>
           represents T' (Some (lsplit before p q ori L)) \<and> focused T' = Some q \<and>
           next_id T' = next_id T + 2"
proof -
  obtain t where own: "owns T t" and L: "erase t = L" using rep by auto
  note o = ownsD [OF own]
  obtain k where k: "ifind t p = Some k" using ifind_ex p L by blast
  have sub: "isub t k = Some (ILeaf k p)" by (rule ifind_isub [OF k o(4)])
  have ip: "iparent t p = iparent_of t k" by (rule iparent_ifind [OF o(4,5) k])
  let ?l = "next_id T" and ?s = "next_id T + 1"
  let ?u = "if before then ISplit ?s ori (1 / 2) (ILeaf ?l q) (ILeaf k p)
            else ISplit ?s ori (1 / 2) (ILeaf k p) (ILeaf ?l q)"
  let ?h = "(nodes T)(?l \<mapsto> Leaf q, ?s \<mapsto> mk_split before ori k ?l)"
  have er: "erase (isubst k ?u t) = lsplit before p q ori L"
    using erase_isubst_leaf [OF sub o(4,5)] L by (auto simp: lpair_def)
  have fp: "find_parent (nodes T) (nid t) p = Some (iparent_of t k)"
    using find_parent_repr [OF o(2)] ip by simp
  show ?thesis
  proof (cases "k = nid t")
    case True
    let ?T = "T\<lparr>nodes := ?h, next_id := next_id T + 2, tree_root := Some ?s, focused := Some q\<rparr>"
    have "nodes T k = Some (Leaf p)" using isub_repr [OF sub o(2)] by simp
    moreover have "iparent_of t k = None" using iparent_of_root [OF o(4)] True by simp
    ultimately have ev: "split_gen before p q ori T = Some (Some ?s, ?T)"
      using o(1) fp True by (simp add: split_gen_def alloc_id_def insert_node_def Let_def)
    have "owns ?T (isubst k ?u t)"
      by (rule owns_graft [OF own sub room _ _ refl refl refl refl])
         (use q L True in \<open>auto simp: mk_split_def\<close>)
    then show ?thesis using ev er by auto
  next
    case False
    then obtain g f where g: "iparent_of t k = Some (g, f)"
      using iparent_of_ex [of k t] isub_SomeD [OF sub] by blast
    obtain ori' r' a b where gs: "isub t g = Some (ISplit g ori' r' a b)" "k = nid (if f then a else b)"
      using iparent_of_isub [OF g o(4)] by blast
    have gc: "get_child (nodes T) g f = Some k" using get_child_repr [OF o(2) gs(1)] gs(2) by simp
    let ?T = "T\<lparr>nodes := set_child ?h g f ?s, next_id := next_id T + 2, focused := Some q\<rparr>"
    have ev: "split_gen before p q ori T = Some (Some ?s, ?T)"
      using o(1) fp g gc by (simp add: split_gen_def alloc_id_def insert_node_def Let_def)
    have "owns ?T (isubst k ?u t)"
      by (rule owns_graft [OF own sub room _ _ refl refl refl refl])
         (use q L False g in \<open>auto simp: mk_split_def\<close>)
    then show ?thesis using ev er by auto
  qed
qed

lemma split_gen_absent:
  assumes "represents T L" "p \<notin> set (layout_panes L)"
  shows "split_gen before p q ori T = Some (None, T)"
proof (cases L)
  case None
  with assms show ?thesis by (simp add: split_gen_def)
next
  case (Some l)
  with assms obtain t where own: "owns T t" and pt: "p \<notin> set (ipanes t)" by auto
  note o = ownsD [OF own]
  have "find_parent (nodes T) (nid t) p = Some None"
    using find_parent_repr [OF o(2)] pt by simp
  then show ?thesis
    using o(1,2) pt by (cases t) (auto simp: split_gen_def)
qed

section \<open>Equal distribution\<close>

fun ichain :: "nat \<Rightarrow> itree \<Rightarrow> itree" where
  "ichain n (ILeaf i p) = ILeaf i p"
| "ichain n (ISplit i ori r a b) =
     (if n \<le> 1 then ISplit i ori r a b else ISplit i ori (1 / of_nat n) a (ichain (n - 1) b))"

lemma ichain_facts [simp]:
  "nid (ichain n t) = nid t" "ids (ichain n t) = ids t" "erase (ichain n t) = lchain n (erase t)"
  by (induction n t rule: ichain.induct) auto

lemma set_chain_ratios_repr:
  assumes "repr h t" "distinct (ids t)"
  shows "repr (set_chain_ratios h (nid t) n) (ichain n t) \<and>
         (\<forall>x. x \<notin> set (ids t) \<longrightarrow> set_chain_ratios h (nid t) n x = h x) \<and>
         dom (set_chain_ratios h (nid t) n) = dom h"
  using assms
proof (induction t arbitrary: h n)
  case (ILeaf i p)
  then show ?case by (simp add: set_chain_ratios.simps)
next
  case (ISplit i ori r a b)
  show ?case
  proof (cases "n \<le> 1")
    case True
    with ISplit.prems show ?thesis by (simp add: set_chain_ratios.simps)
  next
    case False
    define h1 where "h1 = h(i \<mapsto> Split ori (1 / of_nat n) (nid a) (nid b))"
    let ?h' = "set_chain_ratios h1 (nid b) (n - 1)"
    have eq: "set_chain_ratios h (nid (ISplit i ori r a b)) n = ?h'"
      using False ISplit.prems(1) by (simp add: set_chain_ratios.simps [of h] h1_def)
    have "repr h1 b" "distinct (ids b)" using ISplit.prems by (simp_all add: h1_def)
    note IH = ISplit.IH(2) [OF this, of "n - 1"]
    have at: "?h' x = h1 x" if "x \<notin> set (ids b)" for x using IH that by simp
    have "?h' x = h x" if "x \<in> set (ids a)" for x
    proof -
      have "x \<notin> set (ids b)" "x \<noteq> i" using that ISplit.prems(2) by auto
      with at [of x] show ?thesis by (simp add: h1_def)
    qed
    then have "repr ?h' a = repr h a" by (rule repr_cong)
    moreover have "?h' i = Some (Split ori (1 / of_nat n) (nid a) (nid b))"
      using at [of i] ISplit.prems(2) by (simp add: h1_def)
    moreover have "dom h1 = dom h" using ISplit.prems(1) by (auto simp: h1_def)
    moreover have "?h' x = h x" if "x \<notin> set (ids (ISplit i ori r a b))" for x
      using at [of x] that by (simp add: h1_def)
    ultimately show ?thesis using False ISplit.prems(1) IH eq by simp
  qed
qed

lemma panes_represents [run_simps]: "represents T L \<Longrightarrow> panes T = Some (layout_panes L)"
proof (cases L)
  case (Some l)
  assume "represents T L"
  then obtain t where "owns T t" "erase t = l" using Some by auto
  with Some show ?thesis
    using ownsD [of T t] by (auto simp: panes_def run_simps)
qed (simp add: panes_def)

lemma equalize_chain_refines:
  assumes rep: "represents T (Some L)"
  shows "\<exists>T'. equalize_chain T = Some T' \<and> represents T' (Some (lequalize L)) \<and>
           focused T' = focused T \<and> next_id T' = next_id T"
proof -
  obtain t where own: "owns T t" and L: "erase t = L" using rep by auto
  note o = ownsD [OF own]
  let ?n = "length (lpanes L)"
  have ps: "panes T = Some (lpanes L)" using panes_represents [OF rep] by simp
  show ?thesis
  proof (cases "?n \<le> 1")
    case True
    then have "lequalize L = L" by (cases L) (auto simp: lequalize_def)
    with True ps rep show ?thesis by (auto simp: equalize_chain_def)
  next
    case False
    let ?T = "T\<lparr>nodes := set_chain_ratios (nodes T) (nid t) ?n\<rparr>"
    have "owns ?T (ichain ?n t)"
      using set_chain_ratios_repr [OF o(2,4), of ?n] o by (simp add: owns_def)
    then have "represents ?T (Some (lequalize L))"
      using L by (auto simp: lequalize_def intro!: exI [of _ "ichain ?n t"])
    with False ps o(1) show ?thesis by (simp add: equalize_chain_def)
  qed
qed

lemma equalize_refines:
  assumes rep: "represents T L"
  shows "represents (equalize T) (map_option lhalf L)"
proof (cases L)
  case None
  with rep show ?thesis by (auto simp: equalize_def)
next
  case (Some l)
  with rep obtain t where own: "owns T t" and l: "erase t = l" by auto
  note o = ownsD [OF own]
  define half where "half = rec_itree ILeaf (\<lambda>i ori r a b a' b'. ISplit i ori (1 / 2) a' b')"
  have half [simp]: "half (ILeaf i p) = ILeaf i p"
    "half (ISplit i ori r a b) = ISplit i ori (1 / 2) (half a) (half b)" for i p ori r a b
    by (simp_all add: half_def)
  have f: "nid (half t) = nid t" "ids (half t) = ids t" "erase (half t) = lhalf (erase t)" for t
    by (induction t) auto
  have "repr h t \<Longrightarrow> repr (\<lambda>n. map_option half_ratio (h n)) (half t)" for h t
    by (induction t) (auto simp: half_ratio_def f)
  with o have "owns (equalize T) (half t)"
    by (auto simp: owns_def equalize_def f dom_def)
  with Some l f(3) show ?thesis by auto
qed

section \<open>Insertion after the focused pane\<close>

lemma insert_after_node_refines:
  assumes own: "owns T t" and sub: "isub t k = Some (ILeaf k p)" and q: "q \<notin> set (ipanes t)"
    and room: "unat (next_id T) + 2 < 2 ^ 32"
  shows "\<exists>T'. insert_after_node k q ori T = Some T' \<and>
           represents T' (Some (linsert p q ori (erase t))) \<and> next_id T' = next_id T + 2"
proof -
  note o = ownsD [OF own]
  let ?l = "next_id T" and ?s = "next_id T + 1"
  let ?h0 = "(nodes T)(?l \<mapsto> Leaf q)"
  have l: "?l \<notin> set (ids t)" using o(6) by auto
  have rt: "repr ?h0 t" using o(2) l by simp
  have tgt: "?h0 k = Some (Leaf p)" using isub_repr [OF sub rt] by simp
  show ?thesis
  proof (cases "k = nid t")
    case True
    then have t: "t = ILeaf k p" using sub by (cases t) auto
    let ?T = "T\<lparr>nodes := ?h0(?s \<mapsto> Split ori (1 / 2) k ?l), next_id := next_id T + 2,
                tree_root := Some ?s\<rparr>"
    have ev: "insert_after_node k q ori T = Some ?T"
      using o(1) True by (simp add: insert_after_node_def alloc_id_def insert_node_def Let_def)
    have "owns ?T (isubst k (ISplit ?s ori (1 / 2) (ILeaf k p) (ILeaf ?l q)) t)"
      by (rule owns_graft [OF own sub room, where before = False]) (use q True in auto)
    then show ?thesis using ev t by (auto simp: lpair_def)
  next
    case False
    then obtain g f where g: "iparent_of t k = Some (g, f)"
      using iparent_of_ex [of k t] isub_SomeD [OF sub] by blast
    obtain ori' r' a b where gs: "isub t g = Some (ISplit g ori' r' a b)" "k = nid (if f then a else b)"
      using iparent_of_isub [OF g o(4)] by blast
    note ch = isub_children [OF gs(1) o(4)]
    have fp: "find_parent ?h0 (nid t) p = Some (Some (g, f))"
      using find_parent_repr [OF rt] iparent_ifind [OF o(4,5) isub_ifind [OF sub o(5)]] g by simp
    show ?thesis
    proof (cases f)
      case True
      then have a: "a = ILeaf k p" using ch(1) sub gs(2) by auto
      have bp: "iparent_of t (nid b) = Some (g, False)"
        using iparent_of_child [OF gs(1) o(4), of False] by simp
      then have bt: "nid b \<noteq> nid t" using iparent_of_root [OF o(4)] by auto
      have gc: "get_child ?h0 g False = Some (nid b)" using get_child_repr [OF rt gs(1)] by simp
      let ?T = "T\<lparr>nodes := set_child (?h0(?s \<mapsto> Split ori (1 / 2) ?l (nid b))) g False ?s,
                  next_id := next_id T + 2\<rparr>"
      have ev: "insert_after_node k q ori T = Some ?T"
        using o(1) \<open>k \<noteq> nid t\<close> tgt fp gc True
        by (simp add: insert_after_node_def alloc_id_def insert_node_def Let_def)
      let ?u = "ISplit ?s ori (1 / 2) (ILeaf ?l q) b"
      have "owns ?T (isubst (nid b) ?u t)"
        by (rule owns_graft [OF own ch(2) room, where before = True]) (use q bt bp in auto)
      moreover have "erase (isubst (nid b) ?u t) = linsert p q ori (erase t)"
        using erase_isubst_sibling [OF gs(1) [unfolded a] o(4,5)] by (simp add: lpair_def)
      ultimately show ?thesis using ev by auto
    next
      case False
      let ?T = "T\<lparr>nodes := set_child (?h0(?s \<mapsto> Split ori (1 / 2) k ?l)) g False ?s,
                  next_id := next_id T + 2\<rparr>"
      have ev: "insert_after_node k q ori T = Some ?T"
        using o(1) \<open>k \<noteq> nid t\<close> tgt fp False
        by (simp add: insert_after_node_def alloc_id_def insert_node_def Let_def)
      let ?u = "ISplit ?s ori (1 / 2) (ILeaf k p) (ILeaf ?l q)"
      have "owns ?T (isubst k ?u t)"
        by (rule owns_graft [OF own sub room, where before = False])
           (use q \<open>k \<noteq> nid t\<close> g False in auto)
      moreover have "erase (isubst k ?u t) = linsert p q ori (erase t)"
        using erase_isubst_second [of t k g p] g False sub o(4,5) by (simp add: lpair_def)
      ultimately show ?thesis using ev by auto
    qed
  qed
qed

definition insert_target :: "PaneId option \<Rightarrow> layout \<Rightarrow> PaneId" where
  "insert_target fo L =
     (case fo of
        Some f \<Rightarrow> if f \<in> set (lpanes L) then f else last (lpanes L)
      | None \<Rightarrow> last (lpanes L))"

lemma ichain_end_isub:
  "distinct (ids t) \<Longrightarrow> isub t (ichain_end t) = Some (ILeaf (ichain_end t) (last (ipanes t)))"
proof (induction t)
  case (ISplit n ori r a b)
  then have sb: "isub b (ichain_end b) = Some (ILeaf (ichain_end b) (last (ipanes b)))" by simp
  then have "ichain_end b \<in> set (ids b)" using isub_SomeD by blast
  then have "ichain_end b \<noteq> n" "ichain_end b \<notin> set (ids a)" using ISplit.prems by auto
  with sb show ?case by simp
qed simp

lemma linsert_single: "length (lpanes L) \<le> 1 \<Longrightarrow> \<exists>p. L = Pane p"
proof (cases L)
  case (Tile ori r a b)
  moreover have "length (lpanes a) > 0" "length (lpanes b) > 0" by auto
  ultimately show "length (lpanes L) \<le> 1 \<Longrightarrow> \<exists>p. L = Pane p" by simp
qed simp

lemma insert_and_focus_refines:
  assumes own: "owns T t" and sub: "isub t k = Some (ILeaf k p)" and q: "q \<notin> set (ipanes t)"
    and room: "unat (next_id T) + 2 < 2 ^ 32"
  shows "\<exists>T'. insert_and_focus k q ori T = Some (True, T') \<and>
           represents T' (Some (lequalize (linsert p q ori (erase t)))) \<and> focused T' = Some q \<and>
           next_id T' = next_id T + 2"
proof -
  obtain T1 where T1: "insert_after_node k q ori T = Some T1"
    "represents T1 (Some (linsert p q ori (erase t)))" "next_id T1 = next_id T + 2"
    using insert_after_node_refines [OF assms] by blast
  then have "represents (T1\<lparr>focused := Some q\<rparr>) (Some (linsert p q ori (erase t)))"
    by (simp only: represents_focus)
  from equalize_chain_refines [OF this] T1 show ?thesis
    by (auto simp: insert_and_focus_def)
qed

lemma insert_pane_after_focused_refines:
  assumes rep: "represents T (Some L)" and q: "q \<notin> set (lpanes L)"
    and room: "unat (next_id T) + 2 < 2 ^ 32"
  shows "\<exists>T'. insert_pane_after_focused q ori T = Some (True, T') \<and>
           represents T' (Some (lequalize (linsert (insert_target (focused T) L) q ori L))) \<and>
           focused T' = Some q \<and> next_id T' = next_id T + 2"
proof -
  obtain t where own: "owns T t" and L: "erase t = L" using rep by auto
  note o = ownsD [OF own]
  have qt: "q \<notin> set (ipanes t)" using q L by simp
  show ?thesis
  proof (cases t)
    case (ILeaf k p)
    let ?s = "next_id T + 1" and ?l = "next_id T"
    let ?T = "T\<lparr>next_id := next_id T + 2,
                nodes := (nodes T)(?l \<mapsto> Leaf q, ?s \<mapsto> Split ori (1 / 2) k ?l),
                tree_root := Some ?s, focused := Some q\<rparr>"
    have "owns ?T (isubst k (ISplit ?s ori (1 / 2) (ILeaf k p) (ILeaf ?l q)) t)"
      by (rule owns_graft [OF own _ room, where before = False and k = k]) (use qt ILeaf in auto)
    then have "represents ?T (Some (lpair False ori (Pane p) q))"
      using ILeaf by (auto simp: lpair_def)
    from equalize_chain_refines [OF this] obtain T' where "equalize_chain ?T = Some T'"
      "represents T' (Some (lequalize (lpair False ori (Pane p) q)))" "focused T' = Some q"
      "next_id T' = next_id T + 2" by auto
    moreover have "insert_target (focused T) (Pane p) = p" "L = Pane p"
      using L ILeaf by (auto simp: insert_target_def split: option.splits)
    moreover have "insert_pane_after_focused q ori T = do { t \<leftarrow> equalize_chain ?T; Some (True, t) }"
      using o(1,2) ILeaf
      by (simp add: insert_pane_after_focused_def alloc_id_def insert_node_def Let_def
            add.commute [of 2])
    ultimately show ?thesis by (simp del: represents.simps)
  next
    case (ISplit n ori' r a b)
    let ?e = "ichain_end t"
    have ce: "find_chain_end (nodes T) (nid t) = Some ?e" using find_chain_end_repr [OF o(2)] .
    have es: "isub t ?e = Some (ILeaf ?e (last (ipanes t)))" by (rule ichain_end_isub [OF o(4)])
    have el: "nodes T ?e = Some (Leaf (last (ipanes t)))" using isub_repr [OF es o(2)] by simp
    have ef: "ifind t (last (ipanes t)) = Some ?e" by (rule isub_ifind [OF es o(5)])
    have nf: "node_id_for_pane T f = Some (ifind t f)" for f
      using o(1) find_leaf_repr [OF o(2)] by (simp add: node_id_for_pane_def)
    have sp: "nodes T (nid t) = Some (Split ori' r (nid a) (nid b))" using o(2) ISplit by simp
    obtain k where ev: "insert_pane_after_focused q ori T = insert_and_focus k q ori T"
      and k: "isub t k = Some (ILeaf k (insert_target (focused T) L))"
    proof (cases "\<exists>f. focused T = Some f \<and> f \<in> set (lpanes L)")
      case True
      then obtain f k where f: "focused T = Some f" "f \<in> set (lpanes L)" "ifind t f = Some k"
        using ifind_ex L by blast
      show ?thesis
        by (rule that [of k])
           (use f ifind_isub [OF f(3) o(4)] o(1) sp nf in
             \<open>simp_all add: insert_pane_after_focused_def insert_target_def\<close>)
    next
      case False
      then have "insert_target (focused T) L = last (ipanes t)"
        using L by (auto simp: insert_target_def split: option.splits)
      moreover have "ifind t f = None" if "focused T = Some f" for f using that False L by auto
      ultimately show ?thesis
        using that [of ?e] es o(1) sp nf ce el ef
        by (cases "focused T") (simp_all add: insert_pane_after_focused_def)
    qed
    from insert_and_focus_refines [OF own k qt room] ev L show ?thesis by simp
  qed
qed

lemma insert_pane_into_empty:
  assumes "represents T None" "unat (next_id T) + 1 < 2 ^ 32"
  shows "\<exists>T'. insert_pane_after_focused q ori T = Some (True, T') \<and>
           represents T' (Some (Pane q)) \<and> focused T' = Some q \<and> next_id T' = next_id T + 1"
proof -
  let ?T = "T\<lparr>nodes := [next_id T \<mapsto> Leaf q], next_id := next_id T + 1,
              tree_root := Some (next_id T), focused := Some q\<rparr>"
  have "insert_pane_after_focused q ori T = Some (True, ?T)"
    using assms by (simp add: insert_pane_after_focused_def alloc_id_def insert_node_def Let_def)
  moreover have "owns ?T (ILeaf (next_id T) q)"
    using u32_less_Suc [of "next_id T"] assms(2) by (simp add: owns_def)
  ultimately show ?thesis by force
qed

end
