(* ===== verification/Split_Edit.thy ===== *)
theory Split_Edit
  imports Split_Refine
begin

text \<open>
  Removing a pane, moving a pane next to another one, and cycling the focus. \<open>remove\<close> deletes the
  leaf and its parent split and lifts the sibling; its search for the grandparent runs on a table from
  which the leaf is already gone, which \<open>find_parent_of_node_hole\<close> shows to be harmless.
\<close>

section \<open>Removal\<close>

lemma find_parent_of_node_hole:
  assumes "repr h t" "distinct (ids t)" "isub t g = Some s" "k \<in> set (ids s)" "g \<noteq> nid t"
  shows "find_parent_of_node (h(k := None)) (nid t) g = Some (iparent_of t g)"
  using assms
proof (induction t)
  case (ISplit n ori r a b)
  define h' where "h' = h(k := None)"
  have gn: "g \<noteq> n" using ISplit.prems(5) by simp
  from gn ISplit.prems(3) consider (l) "isub a g = Some s" | (r) "g \<notin> set (ids a)" "isub b g = Some s"
    by (auto simp: or_else_eq_Some)
  then have "find_parent_of_node h' (nid (ISplit n ori r a b)) g =
      Some (iparent_of (ISplit n ori r a b) g)"
  proof cases
    case l
    have ka: "k \<in> set (ids a)" and ga: "g \<in> set (ids a)"
      using isub_SomeD [OF l] ISplit.prems(4) by auto
    then have nk: "n \<noteq> k" and gb: "g \<notin> set (ids b)" using ISplit.prems(2) by auto
    have hn: "h' n = Some (Split ori r (nid a) (nid b))" using ISplit.prems(1) nk by (simp add: h'_def)
    show ?thesis
    proof (cases "nid a = g")
      case True
      with hn show ?thesis by (simp add: find_parent_of_node.simps [of h' n])
    next
      case False
      then obtain x where x: "iparent_of a g = Some x"
        using iparent_of_ex [OF ga] by fastforce
      have "nid b \<noteq> g" using gb by auto
      moreover have "find_parent_of_node h' (nid a) g = Some (iparent_of a g)"
        using ISplit.IH(1) [OF _ _ l ISplit.prems(4), folded h'_def] ISplit.prems(1,2) False by simp
      ultimately show ?thesis
        using hn False x by (simp add: find_parent_of_node.simps [of h' n])
    qed
  next
    case r
    have kb: "k \<in> set (ids b)" and gb: "g \<in> set (ids b)"
      using isub_SomeD [OF r(2)] ISplit.prems(4) by auto
    then have nk: "n \<noteq> k" and ka: "k \<notin> set (ids a)" using ISplit.prems(2) by auto
    have hn: "h' n = Some (Split ori r (nid a) (nid b))" using ISplit.prems(1) nk by (simp add: h'_def)
    have na: "nid a \<noteq> g" using r(1) by auto
    have fa: "find_parent_of_node h' (nid a) g = Some None"
      using find_parent_of_node_repr [of h' a g] ISplit.prems(1) ka r(1) by (simp add: h'_def)
    show ?thesis
    proof (cases "nid b = g")
      case True
      with hn na show ?thesis by (simp add: find_parent_of_node.simps [of h' n])
    next
      case False
      have "find_parent_of_node h' (nid b) g = Some (iparent_of b g)"
        using ISplit.IH(2) [OF _ _ r(2) ISplit.prems(4), folded h'_def] ISplit.prems(1,2) False by simp
      then show ?thesis
        using hn False na fa r(1) by (simp add: find_parent_of_node.simps [of h' n])
    qed
  qed
  then show ?case unfolding h'_def .
qed simp

lemma set_child_delete: "k \<noteq> q \<Longrightarrow> set_child (h(k := x)) q f v = (set_child h q f v)(k := x)"
  by (auto simp: set_child_def fun_upd_twist split: option.splits Node.splits)

text \<open>What removal does to the table, whatever the position of the parent.\<close>

lemma owns_lift:
  assumes own: "owns T t" and g: "isub t g = Some (ISplit g ori r a b)"
    and leaf: "(if f then a else b) = ILeaf k p" and sb: "sb = (if f then b else a)"
    and nx: "next_id T' = next_id T"
    and root: "if g = nid t
               then tree_root T' = Some (nid sb) \<and> nodes T' = (nodes T)(k := None, g := None)
               else tree_root T' = tree_root T \<and>
                 (\<exists>gg gf. iparent_of t g = Some (gg, gf) \<and>
                    nodes T' = (set_child ((nodes T)(k := None)) gg gf (nid sb))(g := None))"
  shows "owns T' (isubst g sb t)"
proof -
  note o = ownsD [OF own]
  let ?s = "ISplit g ori r a b"
  have ds: "distinct (ids ?s)" by (rule isub_children(3) [OF g o(4)])
  have sids: "set (ids ?s) = insert g (insert k (set (ids sb)))" "k \<noteq> g"
    "k \<notin> set (ids sb)" "g \<notin> set (ids sb)" "distinct (ids sb)"
    using ds leaf sb by (cases f; auto)+
  have disj: "set (ids sb) \<inter> (set (ids t) - set (ids ?s)) = {}" using sids by auto
  note ids' = ids_isubst [OF g o(4) sids(5) disj]
  have st: "set (ids ?s) \<subseteq> set (ids t)" using isub_SomeD [OF g] by simp
  then have iset: "set (ids (isubst g sb t)) = set (ids t) - {k, g}"
    using ids'(1) sids by auto
  have rsb: "repr (nodes T) sb" using isub_repr [OF g o(2)] sb by auto
  have R: "repr (nodes T') (isubst g sb t) \<and> tree_root T' = Some (nid (isubst g sb t)) \<and>
           dom (nodes T') = dom (nodes T) - {k, g}"
  proof (cases "g = nid t")
    case True
    with root rsb sids show ?thesis by auto
  next
    case False
    then obtain gg gf where gg: "iparent_of t g = Some (gg, gf)"
      "nodes T' = (set_child ((nodes T)(k := None)) gg gf (nid sb))(g := None)"
      "tree_root T' = tree_root T" using root by auto
    have "gg \<notin> set (ids ?s)" using parent_notin_sub [OF gg(1) g o(4)] by simp
    then have "k \<noteq> gg" using sids by auto
    then have n: "nodes T' = (set_child (nodes T) gg gf (nid sb))(k := None, g := None)"
      using gg(2) set_child_delete by simp
    have "repr (set_child (nodes T) gg gf (nid sb)) (isubst g sb t)"
      by (rule set_child_repr [OF o(2,4) gg(1) g rsb disj])
    moreover have "k \<notin> set (ids (isubst g sb t))" "g \<notin> set (ids (isubst g sb t))"
      using iset by auto
    ultimately have "repr (nodes T') (isubst g sb t)" using n by simp
    moreover have "dom (nodes T') = dom (nodes T) - {k, g}"
      using n dom_set_child [of "nodes T" gg gf "nid sb"] by auto
    ultimately show ?thesis using gg(3) o(1) False by simp
  qed
  obtain xs ys where c: "ipanes t = xs @ ipanes ?s @ ys" "ipanes (isubst g sb t) = xs @ ipanes sb @ ys"
    using isubst_pane_context [OF g o(4)] by blast
  then have "distinct (ipanes (isubst g sb t))" using o(5) sb by (cases f) auto
  then show ?thesis using R ids'(2) iset o nx by (simp add: owns_def)
qed

definition focus_after_remove :: "PaneId option \<Rightarrow> PaneId \<Rightarrow> layout option \<Rightarrow> PaneId option" where
  "focus_after_remove fo p L =
     (if L = None then None
      else if fo = Some p then first_opt (layout_panes L) else fo)"

lemma remove_refines:
  assumes rep: "represents T (Some L)" and p: "p \<in> set (lpanes L)"
  shows "\<exists>T'. remove p T = Some (True, T') \<and> represents T' (lremove p L) \<and>
           focused T' = focus_after_remove (focused T) p (lremove p L) \<and> next_id T' = next_id T"
proof -
  obtain t where own: "owns T t" and L: "erase t = L" using rep by auto
  note o = ownsD [OF own]
  obtain k where k: "ifind t p = Some k" using ifind_ex p L by blast
  have sub: "isub t k = Some (ILeaf k p)" by (rule ifind_isub [OF k o(4)])
  have rl: "is_leaf_of (nodes T) (nid t) p = is_ileaf t p" by (rule is_leaf_of_repr [OF o(2)])
  show ?thesis
  proof (cases "k = nid t")
    case True
    then have t: "t = ILeaf k p" using sub by (cases t) auto
    then have "dom (nodes T) = {k}" using o(3) by simp
    then have "(nodes T)(k := None) = Map.empty" by (auto simp: dom_def fun_eq_iff)
    with t L rl o(1) show ?thesis
      by (auto simp: remove_def remove_node_def focus_after_remove_def)
  next
    case False
    then have nl: "\<not> is_ileaf t p" using sub by (cases t) auto
    obtain g f where g: "iparent_of t k = Some (g, f)"
      using iparent_of_ex [of k t] isub_SomeD [OF sub] False by blast
    obtain ori r a b where gs: "isub t g = Some (ISplit g ori r a b)" "k = nid (if f then a else b)"
      using iparent_of_isub [OF g o(4)] by blast
    have leaf: "(if f then a else b) = ILeaf k p"
      using isub_children [OF gs(1) o(4)] gs(2) sub by (auto split: if_splits)
    define sb where "sb = (if f then b else a)"
    have fp: "find_parent (nodes T) (nid t) p = Some (Some (g, f))"
      using find_parent_repr [OF o(2)] iparent_ifind [OF o(4,5) k] g by simp
    have gc: "get_child (nodes T) g f = Some k" "get_child (nodes T) g (\<not> f) = Some (nid sb)"
      using get_child_repr [OF o(2) gs(1)] gs(2) by (auto simp: sb_def)
    have lr: "lremove p L = Some (erase (isubst g sb t))"
      using erase_isubst_remove [OF gs(1) o(4,5) leaf] L sb_def by simp
    have kg: "k \<in> set (ids (ISplit g ori r a b))" using gs(2) by (auto split: if_splits)
    obtain T1 where own1: "owns T1 (isubst g sb t)" and T1: "focused T1 = focused T" "next_id T1 = next_id T"
      and ev: "remove p T =
        do { t \<leftarrow> (if focused T1 = Some p
                   then do { ps \<leftarrow> panes T1; Some (T1\<lparr>focused := first_opt ps\<rparr>) } else Some T1);
             Some (True, t) }"
    proof (cases "g = nid t")
      case True
      let ?T1 = "T\<lparr>tree_root := Some (nid sb), nodes := (nodes T)(k := None, g := None)\<rparr>"
      show ?thesis
        by (rule that [of ?T1])
           (use owns_lift [OF own gs(1) leaf sb_def] True o(1) rl nl fp gc in
             \<open>simp_all add: remove_def remove_node_def\<close>)
    next
      case False
      then obtain gg gf where gg: "iparent_of t g = Some (gg, gf)"
        using iparent_of_ex [OF iparent_of_in [OF g]] by blast
      have hole: "find_parent_of_node ((nodes T)(k := None)) (nid t) g = Some (Some (gg, gf))"
        using find_parent_of_node_hole [OF o(2,4) gs(1) kg False] gg by simp
      let ?T1 = "T\<lparr>nodes := (set_child ((nodes T)(k := None)) gg gf (nid sb))(g := None)\<rparr>"
      have rg: "tree_root T \<noteq> Some g" using o(1) False by simp
      show ?thesis
        by (rule that [of ?T1])
           (use owns_lift [OF own gs(1) leaf sb_def] False gg o(1) rg rl nl fp gc hole in
             \<open>simp_all add: remove_def remove_node_def\<close>)
    qed
    have rep1: "represents T1 (lremove p L)" using own1 lr by auto
    show ?thesis
    proof (cases "focused T = Some p")
      case True
      then have "remove p T = Some (True, T1\<lparr>focused := first_opt (layout_panes (lremove p L))\<rparr>)"
        using ev T1(1) panes_represents [OF rep1] by simp
      then show ?thesis using rep1 lr T1 True
        by (simp del: represents.simps add: focus_after_remove_def)
    next
      case False
      then show ?thesis using ev rep1 lr T1
        by (simp del: represents.simps add: focus_after_remove_def)
    qed
  qed
qed

lemma remove_absent:
  assumes "represents T L" "p \<notin> set (layout_panes L)"
  shows "remove p T = Some (False, T)"
proof (cases L)
  case None
  with assms show ?thesis by (simp add: remove_def)
next
  case (Some l)
  with assms obtain t where own: "owns T t" and pt: "p \<notin> set (ipanes t)" by auto
  note o = ownsD [OF own]
  have "find_parent (nodes T) (nid t) p = Some None" "\<not> is_leaf_of (nodes T) (nid t) p"
    using find_parent_repr [OF o(2)] is_leaf_of_repr [OF o(2)] pt is_ileafD by auto
  then show ?thesis using o(1) by (simp add: remove_def)
qed

section \<open>Moving a pane next to another\<close>

lemma move_pane_adjacent_refines:
  assumes rep: "represents T (Some L)" and st: "src \<noteq> tgt"
    and src: "src \<in> set (lpanes L)" and tgt: "tgt \<in> set (lpanes L)"
    and room: "unat (next_id T) + 2 < 2 ^ 32"
  shows "\<exists>T' L'. move_pane_adjacent src tgt before ori T = Some (True, T') \<and>
           lremove src L = Some L' \<and>
           represents T' (Some (lequalize (lsplit before tgt src ori L'))) \<and>
           focused T' = Some src \<and> next_id T' = next_id T + 2"
proof -
  obtain t0 where own0: "owns T t0" and L: "erase t0 = L" using rep by auto
  have nf: "node_id_for_pane T p = Some (ifind t0 p)" for p
    using ownsD(1,2) [OF own0] find_leaf_repr by (simp add: node_id_for_pane_def)
  have found: "ifind t0 src \<noteq> None" "ifind t0 tgt \<noteq> None" using src tgt L by auto
  obtain T1 where T1: "remove src T = Some (True, T1)" "represents T1 (lremove src L)"
    "next_id T1 = next_id T" using remove_refines [OF rep src] by blast
  obtain L' where L': "lremove src L = Some L'" using st tgt by (cases "lremove src L") auto
  obtain t where own: "owns T1 t" and Lt: "erase t = L'" using T1(2) L' by auto
  note o = ownsD [OF own]
  have "distinct (lpanes L)" using ownsD(5) [OF own0] L by simp
  then have ps: "ipanes t = remove1 src (lpanes L)" "src \<notin> set (ipanes t)"
    using lpanes_lremove [OF L'] Lt by auto
  obtain k where k: "ifind t tgt = Some k" using ps tgt st ifind_ex [of tgt t] by auto
  have sub: "isub t k = Some (ILeaf k tgt)" by (rule ifind_isub [OF k o(4)])
  have nf1: "node_id_for_pane T1 tgt = Some (Some k)"
    using o(1) find_leaf_repr [OF o(2)] k by (simp add: node_id_for_pane_def)
  let ?l = "next_id T1" and ?s = "next_id T1 + 1"
  let ?h = "(nodes T1)(?l \<mapsto> Leaf src, ?s \<mapsto> mk_split before ori k ?l)"
  let ?u = "if before then ISplit ?s ori (1 / 2) (ILeaf ?l src) (ILeaf k tgt)
            else ISplit ?s ori (1 / 2) (ILeaf k tgt) (ILeaf ?l src)"
  have room1: "unat (next_id T1) + 2 < 2 ^ 32" using room T1(3) by simp
  have new: "?l \<notin> set (ids t)" "?s \<notin> set (ids t)"
    using o(6) u32_alloc_two [OF room1] by auto
  have er: "erase (isubst k ?u t) = lsplit before tgt src ori L'"
    using erase_isubst_leaf [OF sub o(4,5)] Lt by (auto simp: lpair_def)
  obtain T2 where own2: "owns T2 (isubst k ?u t)" and nx2: "next_id T2 = next_id T + 2"
    and ev: "move_pane_adjacent src tgt before ori T =
               do { t \<leftarrow> equalize_chain (T2\<lparr>focused := Some src\<rparr>); Some (True, t) }"
  proof (cases "k = nid t")
    case True
    let ?T2 = "T1\<lparr>next_id := next_id T1 + 2, nodes := ?h, tree_root := Some ?s\<rparr>"
    have "owns ?T2 (isubst k ?u t)"
      by (rule owns_graft [OF own sub room1 _ _ refl refl refl refl])
         (use ps True in \<open>auto simp: mk_split_def\<close>)
    then show ?thesis
      by (rule that)
         (use st found nf T1 nf1 o(1) True in
           \<open>simp_all add: move_pane_adjacent_def alloc_id_def insert_node_def Let_def
              add.commute [of 2]\<close>)
  next
    case False
    then obtain g f where g: "iparent_of t k = Some (g, f)"
      using iparent_of_ex [of k t] isub_SomeD [OF sub] by blast
    have "repr ?h t" using o(2) new by simp
    then have rc: "replace_child ?h (nid t) k ?s = Some (set_child ?h g f ?s)"
      by (rule replace_child_repr [OF _ o(4) g])
    let ?T2 = "T1\<lparr>next_id := next_id T1 + 2, nodes := set_child ?h g f ?s\<rparr>"
    have "owns ?T2 (isubst k ?u t)"
      by (rule owns_graft [OF own sub room1 _ _ refl refl refl refl])
         (use ps False g in \<open>auto simp: mk_split_def\<close>)
    then show ?thesis
      by (rule that)
         (use st found nf T1 nf1 o(1) False rc in
           \<open>simp_all add: move_pane_adjacent_def alloc_id_def insert_node_def Let_def
              add.commute [of 2]\<close>)
  qed
  have "represents (T2\<lparr>focused := Some src\<rparr>) (Some (lsplit before tgt src ori L'))"
    using own2 er by auto
  from equalize_chain_refines [OF this] ev nx2 L' show ?thesis by auto
qed

section \<open>Cycling the focus\<close>

lemma navigate_focused:
  assumes rep: "represents T (Some L)" and i: "i < length (lpanes L)" "focused T = Some (lpanes L ! i)"
  shows "navigate forward T =
    (let n = length (lpanes L);
         j = (if forward then (i + 1) mod n else (i + n - 1) mod n)
     in Some (Some (lpanes L ! j), T\<lparr>focused := Some (lpanes L ! j)\<rparr>))"
proof -
  have "distinct (lpanes L)" using rep ownsD(5) by auto
  then have "position (\<lambda>p. p = lpanes L ! i) (lpanes L) = Some i"
    using i(1) by (rule position_nth_distinct)
  with rep i(2) show ?thesis
    using panes_represents [OF rep] by (simp add: navigate_def Let_def)
qed

end
