(* ===== verification/Split_Bounds.thy ===== *)
theory Split_Bounds
  imports Split_Edit
begin

text \<open>
  Geometry of a layout: the rectangles of \<open>pane_bounds\<close>. They tile the unit square (areas add up,
  each lies inside, interiors are disjoint); a right-leaning chain whose ratios \<open>equalize_chain\<close> has
  set gets equal shares; and directional navigation picks the nearest pane on the requested side.
\<close>

section \<open>Rectangles\<close>

definition rect_area :: "Rect \<Rightarrow> f64" where
  "rect_area r = rect_w r * rect_h r"

definition rect_within :: "Rect \<Rightarrow> Rect \<Rightarrow> bool" where
  "rect_within a b \<longleftrightarrow>
     rect_x b \<le> rect_x a \<and> rect_x a + rect_w a \<le> rect_x b + rect_w b \<and>
     rect_y b \<le> rect_y a \<and> rect_y a + rect_h a \<le> rect_y b + rect_h b"

definition rect_apart :: "Rect \<Rightarrow> Rect \<Rightarrow> bool" where
  "rect_apart a b \<longleftrightarrow>
     rect_x a + rect_w a \<le> rect_x b \<or> rect_x b + rect_w b \<le> rect_x a \<or>
     rect_y a + rect_h a \<le> rect_y b \<or> rect_y b + rect_h b \<le> rect_y a"

definition rect_ok :: "Rect \<Rightarrow> bool" where
  "rect_ok r \<longleftrightarrow> 0 \<le> rect_w r \<and> 0 \<le> rect_h r"

fun ratios_ok :: "layout \<Rightarrow> bool" where
  "ratios_ok (Pane p) = True"
| "ratios_ok (Tile ori r a b) = (0 \<le> r \<and> r \<le> 1 \<and> ratios_ok a \<and> ratios_ok b)"

lemma rect_within_refl [simp]: "rect_within r r"
  by (simp add: rect_within_def)

lemma rect_within_trans: "rect_within a b \<Longrightarrow> rect_within b c \<Longrightarrow> rect_within a c"
  by (auto simp: rect_within_def)

lemma rect_apart_mono:
  "rect_apart a b \<Longrightarrow> rect_within a' a \<Longrightarrow> rect_within b' b \<Longrightarrow> rect_apart a' b'"
  by (auto simp: rect_apart_def rect_within_def)

lemma sub_rects_area:
  "rect_area (fst (sub_rects ori r rect)) + rect_area (snd (sub_rects ori r rect)) = rect_area rect"
  by (cases ori) (simp_all add: sub_rects_def Let_def rect_area_def algebra_simps)

lemma sub_rects_ok:
  assumes "rect_ok rect" "0 \<le> r" "r \<le> 1"
  shows "rect_ok (fst (sub_rects ori r rect))" "rect_ok (snd (sub_rects ori r rect))"
    and "rect_within (fst (sub_rects ori r rect)) rect" "rect_within (snd (sub_rects ori r rect)) rect"
    and "rect_apart (fst (sub_rects ori r rect)) (snd (sub_rects ori r rect))"
proof -
  have "rect_w rect * r \<le> rect_w rect" "rect_h rect * r \<le> rect_h rect"
    using assms mult_left_le by (auto simp: rect_ok_def)
  moreover have "0 \<le> rect_w rect * r" "0 \<le> rect_h rect * r"
    using assms by (auto simp: rect_ok_def)
  ultimately show
    "rect_ok (fst (sub_rects ori r rect))" "rect_ok (snd (sub_rects ori r rect))"
    "rect_within (fst (sub_rects ori r rect)) rect" "rect_within (snd (sub_rects ori r rect)) rect"
    "rect_apart (fst (sub_rects ori r rect)) (snd (sub_rects ori r rect))"
    using assms(1)
    by (cases ori; simp add: sub_rects_def Let_def rect_ok_def rect_within_def rect_apart_def)+
qed

section \<open>Tiling\<close>

lemma map_fst_ibounds [simp]: "map fst (ibounds L rect) = lpanes L"
  by (induction L arbitrary: rect) auto

lemma ibounds_area: "(\<Sum>(_, r)\<leftarrow>ibounds L rect. rect_area r) = rect_area rect"
  by (induction L arbitrary: rect) (simp_all add: sub_rects_area)

lemma ibounds_within:
  "ratios_ok L \<Longrightarrow> rect_ok rect \<Longrightarrow> (p, r) \<in> set (ibounds L rect) \<Longrightarrow> rect_within r rect"
proof (induction L arbitrary: rect)
  case (Tile ori q a b)
  note ok = sub_rects_ok [OF Tile.prems(2), of q ori]
  from Tile.prems consider "(p, r) \<in> set (ibounds a (fst (sub_rects ori q rect)))"
    | "(p, r) \<in> set (ibounds b (snd (sub_rects ori q rect)))" by auto
  then show ?case
  proof cases
    case 1
    have "rect_within r (fst (sub_rects ori q rect))"
      by (rule Tile.IH(1) [OF _ _ 1]) (use Tile.prems ok in auto)
    then show ?thesis using ok(3) Tile.prems(1) rect_within_trans by auto
  next
    case 2
    have "rect_within r (snd (sub_rects ori q rect))"
      by (rule Tile.IH(2) [OF _ _ 2]) (use Tile.prems ok in auto)
    then show ?thesis using ok(4) Tile.prems(1) rect_within_trans by auto
  qed
qed simp

lemma ibounds_apart:
  "ratios_ok L \<Longrightarrow> rect_ok rect \<Longrightarrow> sorted_wrt (\<lambda>a b. rect_apart (snd a) (snd b)) (ibounds L rect)"
proof (induction L arbitrary: rect)
  case (Tile ori q a b)
  note ok = sub_rects_ok [OF Tile.prems(2), of q ori]
  let ?r1 = "fst (sub_rects ori q rect)" and ?r2 = "snd (sub_rects ori q rect)"
  have "rect_apart (snd x) (snd y)" if "x \<in> set (ibounds a ?r1)" "y \<in> set (ibounds b ?r2)" for x y
    using rect_apart_mono [OF ok(5)] ibounds_within [of a ?r1 "fst x" "snd x"]
      ibounds_within [of b ?r2 "fst y" "snd y"] that Tile.prems ok(1,2) by simp
  then show ?case using Tile ok by (auto simp: sorted_wrt_append)
qed simp

lemma pane_bounds_represents [run_simps]:
  "represents T (Some L) \<Longrightarrow> pane_bounds T = Some (ibounds L full_rect)"
  using ownsD compute_bounds_repr by (fastforce simp: pane_bounds_def)

section \<open>Equal shares in a chain\<close>

fun is_chain :: "Orientation \<Rightarrow> layout \<Rightarrow> bool" where
  "is_chain ori (Pane p) = True"
| "is_chain ori (Tile ori' r (Pane p) b) = (ori' = ori \<and> is_chain ori b)"
| "is_chain ori (Tile ori' r (Tile _ _ _ _) b) = False"

lemma is_chain_linsert: "is_chain ori L \<Longrightarrow> is_chain ori (linsert p q ori L)"
proof (induction ori L rule: is_chain.induct)
  case (2 ori ori' r x b)
  then show ?case by (cases "x = p") (auto simp: lpair_def)
qed (auto simp: lpair_def)

definition column :: "Orientation \<Rightarrow> Rect \<Rightarrow> nat \<Rightarrow> nat \<Rightarrow> Rect" where
  "column ori rect n i =
     (case ori of
        Horizontal \<Rightarrow> rect\<lparr>rect_x := rect_x rect + of_nat i * (rect_w rect / of_nat n),
                           rect_w := rect_w rect / of_nat n\<rparr>
      | Vertical \<Rightarrow> rect\<lparr>rect_y := rect_y rect + of_nat i * (rect_h rect / of_nat n),
                         rect_h := rect_h rect / of_nat n\<rparr>)"

lemma column_split:
  assumes "0 < m"
  shows "fst (sub_rects ori (1 / of_nat (Suc m)) rect) = column ori rect (Suc m) 0"
    and "column ori (snd (sub_rects ori (1 / of_nat (Suc m)) rect)) m i =
         column ori rect (Suc m) (Suc i)"
proof -
  have s: "(w - w / of_nat (Suc m)) / of_nat m = w / of_nat (Suc m)" for w :: f64
  proof -
    have "(0 :: f64) < of_nat m" "(0 :: f64) < of_nat (Suc m)" using assms by simp_all
    moreover have "w - w / of_nat (Suc m) = of_nat m * (w / of_nat (Suc m))"
      using calculation(2) by (simp add: field_simps)
    ultimately show ?thesis by simp
  qed
  show "fst (sub_rects ori (1 / of_nat (Suc m)) rect) = column ori rect (Suc m) 0"
    by (cases ori) (simp_all add: sub_rects_def column_def Let_def)
  show "column ori (snd (sub_rects ori (1 / of_nat (Suc m)) rect)) m i =
         column ori rect (Suc m) (Suc i)"
    using s
    by (cases ori; cases rect)
       (simp_all add: sub_rects_def column_def Let_def algebra_simps add_divide_distrib)
qed

lemma ibounds_equal_chain:
  assumes "is_chain ori L"
  shows "ibounds (lequalize L) rect =
    map (\<lambda>i. (lpanes L ! i, column ori rect (length (lpanes L)) i)) [0..<length (lpanes L)]"
  using assms
proof (induction ori L arbitrary: rect rule: is_chain.induct)
  case (1 ori p)
  then show ?case by (cases ori) (simp_all add: lequalize_def column_def)
next
  case (2 ori ori' r p b)
  let ?m = "length (lpanes b)"
  have m: "0 < ?m" by auto
  have ch: "is_chain ori b" and o: "ori' = ori" using 2 by auto
  have "ibounds (lequalize (Tile ori' r (Pane p) b)) rect =
      (p, column ori rect (Suc ?m) 0) #
      ibounds (lequalize b) (snd (sub_rects ori (1 / of_nat (Suc ?m)) rect))"
    using m o column_split(1) [OF m, of ori rect] by (simp add: lequalize_def)
  also have "\<dots> = (p, column ori rect (Suc ?m) 0) #
      map (\<lambda>i. (lpanes b ! i, column ori rect (Suc ?m) (Suc i))) [0..<?m]"
    using 2(1) [OF ch] column_split(2) [OF m] by simp
  also have "\<dots> = map (\<lambda>i. ((p # lpanes b) ! i, column ori rect (Suc ?m) i)) [0..<Suc ?m]"
    by (subst upt_conv_Cons) (simp_all add: map_Suc_upt [symmetric] del: upt_Suc)
  finally show ?case by simp
qed simp

section \<open>Directional navigation\<close>

definition nav_candidate :: "Direction \<Rightarrow> PaneId \<Rightarrow> Rect \<Rightarrow> PaneId \<times> Rect \<Rightarrow> bool" where
  "nav_candidate d f fr c \<longleftrightarrow> fst c \<noteq> f \<and> nav_valid d fr (snd c)"

lemma nav_fold:
  assumes "foldl (nav_step d f fr) acc cs = res"
  shows "(case res of
            None \<Rightarrow> acc = None \<and> (\<forall>c\<in>set cs. \<not> nav_candidate d f fr c)
          | Some (p, bd) \<Rightarrow>
              (acc = Some (p, bd) \<or>
                 (\<exists>r. (p, r) \<in> set cs \<and> nav_candidate d f fr (p, r) \<and> bd = nav_dist d fr r)) \<and>
              (\<forall>p' d'. acc = Some (p', d') \<longrightarrow> bd \<le> d') \<and>
              (\<forall>c\<in>set cs. nav_candidate d f fr c \<longrightarrow> bd \<le> nav_dist d fr (snd c)))"
  using assms
proof (induction cs arbitrary: acc)
  case Nil
  then show ?case by (auto split: option.splits)
next
  case (Cons c cs)
  let ?acc = "nav_step d f fr acc c"
  have IH: "case res of
            None \<Rightarrow> ?acc = None \<and> (\<forall>c\<in>set cs. \<not> nav_candidate d f fr c)
          | Some (p, bd) \<Rightarrow>
              (?acc = Some (p, bd) \<or>
                 (\<exists>r. (p, r) \<in> set cs \<and> nav_candidate d f fr (p, r) \<and> bd = nav_dist d fr r)) \<and>
              (\<forall>p' d'. ?acc = Some (p', d') \<longrightarrow> bd \<le> d') \<and>
              (\<forall>c\<in>set cs. nav_candidate d f fr c \<longrightarrow> bd \<le> nav_dist d fr (snd c))"
    using Cons.IH [of ?acc] Cons.prems by simp
  obtain p r where c: "c = (p, r)" by (cases c)
  consider (skip) "\<not> nav_candidate d f fr c" "?acc = acc"
    | (take) "nav_candidate d f fr c" "?acc = Some (p, nav_dist d fr r)"
        "\<forall>p' d'. acc = Some (p', d') \<longrightarrow> nav_dist d fr r \<le> d'"
    | (keep) p' d' where "nav_candidate d f fr c" "acc = Some (p', d')" "?acc = acc"
        "d' \<le> nav_dist d fr r"
  proof (cases "nav_candidate d f fr c")
    case False
    with c show ?thesis by (intro that(1)) (auto simp: nav_step_def nav_candidate_def)
  next
    case True
    with c have e: "?acc = (if (case acc of None \<Rightarrow> True | Some (_, bd) \<Rightarrow> nav_dist d fr r < bd)
        then Some (p, nav_dist d fr r) else acc)"
      by (simp add: nav_step_def nav_candidate_def Let_def)
    show ?thesis
    proof (cases "case acc of None \<Rightarrow> True | Some (_, bd) \<Rightarrow> nav_dist d fr r < bd")
      case True
      with e \<open>nav_candidate d f fr c\<close> show ?thesis by (intro that(2)) auto
    next
      case False
      then obtain p' d' where "acc = Some (p', d')" "d' \<le> nav_dist d fr r"
        by (auto split: option.splits)
      with e \<open>nav_candidate d f fr c\<close> show ?thesis by (intro that(3)) auto
    qed
  qed
  then show ?case
  proof cases
    case skip
    with IH c show ?thesis by (auto split: option.splits)
  next
    case take
    with IH c show ?thesis by (fastforce split: option.splits)
  next
    case keep
    with IH c show ?thesis by (fastforce split: option.splits)
  qed
qed

end
