(* ===== verification/Split_Merge.thy ===== *)
theory Split_Merge
  imports Split_Edit
begin

text \<open>
  Merging two trees under a new root (used when a session is restored). Node identifiers of both trees
  are renumbered in the iteration order of the two hash maps; the result does not depend on that order:
  for every order the merged tree represents the tile of the two layouts.
\<close>

section \<open>Renumbering\<close>

fun irename :: "(NodeId \<Rightarrow> NodeId) \<Rightarrow> itree \<Rightarrow> itree" where
  "irename f (ILeaf n p) = ILeaf (f n) p"
| "irename f (ISplit n ori r a b) = ISplit (f n) ori r (irename f a) (irename f b)"

lemma irename_facts [simp]:
  "nid (irename f t) = f (nid t)" "ids (irename f t) = map f (ids t)" "erase (irename f t) = erase t"
  by (induction t) auto

lemma alloc_remap_spec:
  assumes "distinct ks" "unat (next_id t) + length ks < 2 ^ 32"
  shows "\<exists>m'. alloc_remap ks t m = (m', t\<lparr>next_id := next_id t + of_nat (length ks)\<rparr>) \<and>
           (\<forall>k. k \<notin> set ks \<longrightarrow> m' k = m k) \<and> inj_on m' (set ks) \<and>
           (\<forall>k\<in>set ks. \<exists>v. m' k = Some v \<and> next_id t \<le> v \<and> v < next_id t + of_nat (length ks))"
  using assms
proof (induction ks arbitrary: t m)
  case Nil
  then show ?case by simp
next
  case (Cons k ks)
  let ?t = "t\<lparr>next_id := next_id t + 1\<rparr>"
  have nx: "unat (next_id t + 1) = unat (next_id t) + 1"
    using Cons.prems(2) unat_u32_add [of "next_id t" 1] by simp
  then have room: "unat (next_id ?t) + length ks < 2 ^ 32" using Cons.prems(2) by simp
  have less: "next_id t < next_id t + 1" using nx by (simp add: word_less_nat_alt)
  have fin: "next_id t < next_id t + 1 + of_nat (length ks)"
    using unat_u32_add [OF room] nx by (simp add: word_less_nat_alt)
  have d: "distinct ks" "k \<notin> set ks" using Cons.prems(1) by simp_all
  obtain m' where m': "alloc_remap ks ?t (m(k \<mapsto> next_id t)) =
      (m', ?t\<lparr>next_id := next_id ?t + of_nat (length ks)\<rparr>)"
    "\<forall>j. j \<notin> set ks \<longrightarrow> m' j = (m(k \<mapsto> next_id t)) j" "inj_on m' (set ks)"
    "\<forall>j\<in>set ks. \<exists>v. m' j = Some v \<and> next_id ?t \<le> v \<and> v < next_id ?t + of_nat (length ks)"
    using Cons.IH [OF d(1) room, of "m(k \<mapsto> next_id t)"] by blast
  have mk: "m' k = Some (next_id t)" using m'(2) d(2) by simp
  have "m' j \<noteq> Some (next_id t)" if "j \<in> set ks" for j
    using m'(4) that less by fastforce
  then have "m' k \<notin> m' ` set ks" using mk by force
  then have "inj_on m' (set (k # ks))" using m'(3) by (auto intro: inj_on_insert [THEN iffD2])
  moreover have "\<exists>v. m' j = Some v \<and> next_id t \<le> v \<and> v < next_id t + of_nat (length (k # ks))"
    if j: "j \<in> set (k # ks)" for j
  proof (cases "j = k")
    case True
    with mk fin show ?thesis by (simp add: add.assoc)
  next
    case False
    with j m'(4) obtain v where "m' j = Some v" "next_id t + 1 \<le> v"
      "v < next_id t + 1 + of_nat (length ks)" by auto
    with less show ?thesis by (auto simp: add.assoc)
  qed
  ultimately show ?case
    using m'(1,2) by (intro exI [of _ m']) (auto simp: alloc_id_def add.assoc)
qed

lemma insert_remapped_fields [simp]:
  "tree_root (insert_remapped ks h m t) = tree_root t"
  "next_id (insert_remapped ks h m t) = next_id t"
  "focused (insert_remapped ks h m t) = focused t"
  by (induction ks arbitrary: t) (auto simp: insert_node_def split: option.splits)

lemma insert_remapped_out:
  "(\<And>k. k \<in> set ks \<Longrightarrow> m k \<noteq> Some v) \<Longrightarrow> nodes (insert_remapped ks h m t) v = nodes t v"
proof (induction ks arbitrary: t)
  case (Cons k ks)
  then show ?case by (auto simp: insert_node_def split: option.splits)
qed simp

lemma insert_remapped_at:
  assumes "inj_on m (set ks)" "distinct ks" "k \<in> set ks" "m k = Some v" "h k = Some x"
  shows "nodes (insert_remapped ks h m t) v = Some (remap_node x m)"
  using assms
proof (induction ks arbitrary: t)
  case (Cons j ks)
  show ?case
  proof (cases "j = k")
    case True
    have "m i \<noteq> Some v" if "i \<in> set ks" for i
    proof
      assume "m i = Some v"
      then have "i = j" using inj_onD [OF Cons.prems(1), of i j] True Cons.prems(4) that by simp
      then show False using Cons.prems(2) that by simp
    qed
    then have "nodes (insert_remapped ks h m (insert_node v (remap_node x m) t)) v =
        nodes (insert_node v (remap_node x m) t) v"
      by (rule insert_remapped_out)
    with True Cons.prems(4,5) show ?thesis by (simp add: insert_node_def)
  next
    case False
    have "inj_on m (set ks)" using Cons.prems(1) by (simp add: inj_on_def)
    with False Cons show ?thesis by (auto split: option.splits)
  qed
qed simp

text \<open>One of the two halves of \<open>merge\<close>: the renumbered copy of \<open>u\<close> lands above the counter.\<close>

lemma copy_tree:
  assumes own: "owns S u" and ks: "distinct ks" "set ks = dom (nodes S)"
    and room: "unat (next_id t) + length ks < 2 ^ 32"
  shows "\<exists>m t'. alloc_remap ks t Map.empty = (m, t\<lparr>next_id := next_id t'\<rparr>) \<and>
           insert_remapped ks (nodes S) m (t\<lparr>next_id := next_id t'\<rparr>) = t' \<and>
           next_id t' = next_id t + of_nat (length ks) \<and> tree_root t' = tree_root t \<and>
           (\<exists>u'. erase u' = erase u \<and> repr (nodes t') u' \<and> distinct (ids u') \<and>
              Option.bind (tree_root S) m = Some (nid u') \<and>
              (\<forall>n\<in>set (ids u'). next_id t \<le> n \<and> n < next_id t') \<and>
              dom (nodes t') = dom (nodes t) \<union> set (ids u') \<and>
              (\<forall>n. n \<notin> set (ids u') \<longrightarrow> nodes t' n = nodes t n))"
proof -
  note o = ownsD [OF own]
  let ?nx = "next_id t + of_nat (length ks)"
  obtain m where m: "alloc_remap ks t Map.empty = (m, t\<lparr>next_id := ?nx\<rparr>)" "inj_on m (set ks)"
    "\<forall>k\<in>set ks. \<exists>v. m k = Some v \<and> next_id t \<le> v \<and> v < ?nx"
    using alloc_remap_spec [OF ks(1) room, of Map.empty] by blast
  define t' where "t' = insert_remapped ks (nodes S) m (t\<lparr>next_id := ?nx\<rparr>)"
  define f where "f = (\<lambda>n. the (m n))"
  have kd: "set ks = set (ids u)" using ks(2) o(3) by simp
  have mf: "m n = Some (f n)" "next_id t \<le> f n" "f n < ?nx" if "n \<in> set (ids u)" for n
    using m(3) kd that by (auto simp: f_def)
  have inj: "inj_on f (set (ids u))"
  proof (rule inj_onI)
    fix a b assume ab: "a \<in> set (ids u)" "b \<in> set (ids u)" "f a = f b"
    then have "m a = m b" using mf(1) by simp
    then show "a = b" using inj_onD [OF m(2)] kd ab by simp
  qed
  have at: "nodes t' (f n) = Some (remap_node x m)" if "n \<in> set (ids u)" "nodes S n = Some x" for n x
    using insert_remapped_at [OF m(2) ks(1), of n "f n" "nodes S" x] that kd mf(1) by (simp add: t'_def)
  have rep: "repr (nodes S) w \<Longrightarrow> set (ids w) \<subseteq> set (ids u) \<Longrightarrow> repr (nodes t') (irename f w)" for w
  proof (induction w)
    case (ILeaf n p)
    then show ?case using at [of n "Leaf p"] by (simp add: remap_node_def)
  next
    case (ISplit n ori r a b)
    have "nid a \<in> set (ids u)" "nid b \<in> set (ids u)"
      using ISplit.prems(2) nid_in_ids [of a] nid_in_ids [of b] by auto
    then have "m (nid a) = Some (f (nid a))" "m (nid b) = Some (f (nid b))"
      using mf(1) by auto
    with ISplit show ?case using at [of n "Split ori r (nid a) (nid b)"] by (simp add: remap_node_def)
  qed
  have ids': "set (ids (irename f u)) = f ` set (ids u)" by simp
  have out: "nodes t' v = nodes t v" if "v \<notin> f ` set (ids u)" for v
  proof -
    have "m k \<noteq> Some v" if "k \<in> set ks" for k using \<open>v \<notin> f ` set (ids u)\<close> mf(1) kd that by auto
    then show ?thesis
      using insert_remapped_out [of ks m v "nodes S" "t\<lparr>next_id := ?nx\<rparr>"] by (simp add: t'_def)
  qed
  have "f ` set (ids u) \<subseteq> dom (nodes t')" using at o(3) by fastforce
  then have "v \<in> dom (nodes t') \<longleftrightarrow> v \<in> dom (nodes t) \<union> f ` set (ids u)" for v
    using out [of v] by (cases "v \<in> f ` set (ids u)") (blast, simp add: dom_def)
  then have dom: "dom (nodes t') = dom (nodes t) \<union> f ` set (ids u)" by blast
  have nx: "next_id t' = ?nx" "tree_root t' = tree_root t" by (simp_all add: t'_def)
  show ?thesis
  proof (intro exI conjI)
    show "alloc_remap ks t Map.empty = (m, t\<lparr>next_id := next_id t'\<rparr>)" using m(1) nx by simp
    show "insert_remapped ks (nodes S) m (t\<lparr>next_id := next_id t'\<rparr>) = t'" using t'_def nx by simp
    show "repr (nodes t') (irename f u)" using rep [OF o(2)] by simp
    show "distinct (ids (irename f u))" using o(4) inj by (simp add: distinct_map)
    show "Option.bind (tree_root S) m = Some (nid (irename f u))" using o(1) mf(1) by simp
  qed (use nx dom out mf in auto)
qed

lemma merge_refines_ids:
  assumes rep: "represents S1 (Some L1)" "represents S2 (Some L2)"
    and ks: "distinct ks1" "set ks1 = dom (nodes S1)" "distinct ks2" "set ks2 = dom (nodes S2)"
    and disj: "set (lpanes L1) \<inter> set (lpanes L2) = {}"
    and room: "max (unat (next_id S1)) (unat (next_id S2)) + length ks1 + length ks2 + 1 < 2 ^ 32"
  shows "\<exists>T. merge ks1 ks2 S1 S2 ori r = Some T \<and> represents T (Some (Tile ori r L1 L2)) \<and>
           focused T = first_opt (lpanes L1 @ lpanes L2) \<and>
           unat (next_id T) = max (unat (next_id S1)) (unat (next_id S2)) + length ks1 + length ks2 + 1 \<and>
           (\<forall>n\<in>dom (nodes T). next_id S1 \<le> n \<and> next_id S2 \<le> n)"
proof -
  obtain u1 u2 where own: "owns S1 u1" "erase u1 = L1" "owns S2 u2" "erase u2 = L2"
    using rep by auto
  let ?t0 = "SplitTree_new\<lparr>next_id := max (next_id S1) (next_id S2)\<rparr>"
  have m0: "unat (next_id ?t0) = max (unat (next_id S1)) (unat (next_id S2))"
    by (simp add: max_def word_le_nat_alt)
  with room have room': "unat (next_id ?t0) + length ks1 + length ks2 + 1 < 2 ^ 32" by simp
  then have r1: "unat (next_id ?t0) + length ks1 < 2 ^ 32" by linarith
  obtain m1 t1 v1 where c1: "alloc_remap ks1 ?t0 Map.empty = (m1, ?t0\<lparr>next_id := next_id t1\<rparr>)"
    "insert_remapped ks1 (nodes S1) m1 (?t0\<lparr>next_id := next_id t1\<rparr>) = t1"
    "next_id t1 = next_id ?t0 + of_nat (length ks1)" "tree_root t1 = None"
    "erase v1 = L1" "repr (nodes t1) v1" "distinct (ids v1)"
    "Option.bind (tree_root S1) m1 = Some (nid v1)"
    "\<forall>n\<in>set (ids v1). next_id ?t0 \<le> n \<and> n < next_id t1"
    "dom (nodes t1) = set (ids v1)"
    using copy_tree [OF own(1) ks(1,2) r1] own(2) by (force simp: SplitTree_new_def)
  have n1: "unat (next_id t1) = unat (next_id ?t0) + length ks1"
    using unat_u32_add [OF r1] c1(3) by simp
  then have r2: "unat (next_id t1) + length ks2 < 2 ^ 32" using room' by linarith
  obtain m2 t2 v2 where c2: "alloc_remap ks2 t1 Map.empty = (m2, t1\<lparr>next_id := next_id t2\<rparr>)"
    "insert_remapped ks2 (nodes S2) m2 (t1\<lparr>next_id := next_id t2\<rparr>) = t2"
    "next_id t2 = next_id t1 + of_nat (length ks2)" "tree_root t2 = None"
    "erase v2 = L2" "repr (nodes t2) v2" "distinct (ids v2)"
    "Option.bind (tree_root S2) m2 = Some (nid v2)"
    "\<forall>n\<in>set (ids v2). next_id t1 \<le> n \<and> n < next_id t2"
    "dom (nodes t2) = set (ids v1) \<union> set (ids v2)"
    "\<forall>n. n \<notin> set (ids v2) \<longrightarrow> nodes t2 n = nodes t1 n"
    using copy_tree [OF own(3) ks(3,4) r2] own(4) c1(4,10) by force
  have n2: "unat (next_id t2) = unat (next_id t1) + length ks2"
    using unat_u32_add [OF r2] c2(3) by simp
  then have le: "next_id t1 \<le> next_id t2" by (simp add: word_le_nat_alt)
  have lt: "next_id t2 < next_id t2 + 1"
    by (rule u32_less_Suc) (use n1 n2 room' in linarith)
  have d: "set (ids v1) \<inter> set (ids v2) = {}" using c1(9) c2(9) by fastforce
  have rv1: "repr (nodes t2) v1"
    using repr_cong [of v1 "nodes t2" "nodes t1"] c1(6) c2(11) d by blast
  have fr: "next_id t2 \<notin> set (ids v1)" "next_id t2 \<notin> set (ids v2)"
    using c1(9) c2(9) le by fastforce+
  let ?T = "t2\<lparr>next_id := next_id t2 + 1,
               nodes := (nodes t2)(next_id t2 \<mapsto> Split ori r (nid v1) (nid v2)),
               tree_root := Some (next_id t2)\<rparr>"
  let ?v = "ISplit (next_id t2) ori r v1 v2"
  have ids_less: "\<forall>n\<in>set (ids ?v). n < next_id t2 + 1"
    using c1(9) c2(9) le lt by (auto intro: less_trans less_le_trans)
  have "distinct (ipanes ?v)"
    using c1(5) c2(5) disj own ownsD(5) [OF own(1)] ownsD(5) [OF own(3)] by simp
  then have oT: "owns ?T ?v"
    using ids_less c1(7) c2(6,7,10) rv1 d fr by (auto simp: owns_def)
  then have rT: "represents ?T (Some (Tile ori r L1 L2))" using c1(5) c2(5) by auto
  have "merge ks1 ks2 S1 S2 ori r = do { ps \<leftarrow> panes ?T; Some (?T\<lparr>focused := first_opt ps\<rparr>) }"
    using c1(1,2,8) c2(1,2,8) by (simp add: merge_def alloc_id_def insert_node_def Let_def)
  then have "merge ks1 ks2 S1 S2 ori r = Some (?T\<lparr>focused := first_opt (lpanes L1 @ lpanes L2)\<rparr>)"
    using panes_represents [OF rT] by simp
  moreover have "represents (?T\<lparr>focused := x\<rparr>) (Some (Tile ori r L1 L2))" for x
    by (simp only: represents_focus rT)
  moreover have "unat (next_id ?T) = max (unat (next_id S1)) (unat (next_id S2)) + length ks1 + length ks2 + 1"
  proof -
    have "unat (next_id t2) + 1 < 2 ^ 32" using n1 n2 room' by linarith
    then have "unat (next_id t2 + 1) = unat (next_id t2) + 1" using unat_u32_add [of "next_id t2" 1] by simp
    with n1 n2 m0 show ?thesis by simp
  qed
  moreover have "\<forall>n\<in>dom (nodes ?T). next_id S1 \<le> n \<and> next_id S2 \<le> n"
  proof
    fix n assume "n \<in> dom (nodes ?T)"
    then have "n \<in> set (ids v1) \<or> n \<in> set (ids v2) \<or> n = next_id t2" using c2(10) by auto
    moreover have l1: "next_id ?t0 \<le> next_id t1" using n1 by (simp add: word_le_nat_alt)
    ultimately have "next_id ?t0 \<le> n" using c1(9) c2(9) le by (meson order.trans)
    then show "next_id S1 \<le> n \<and> next_id S2 \<le> n" by simp
  qed
  ultimately show ?thesis by auto
qed

lemma merge_refines:
  assumes "represents S1 (Some L1)" "represents S2 (Some L2)"
    "distinct ks1" "set ks1 = dom (nodes S1)" "distinct ks2" "set ks2 = dom (nodes S2)"
    "set (lpanes L1) \<inter> set (lpanes L2) = {}"
    "max (unat (next_id S1)) (unat (next_id S2)) + length ks1 + length ks2 + 1 < 2 ^ 32"
  shows "\<exists>T. merge ks1 ks2 S1 S2 ori r = Some T \<and> represents T (Some (Tile ori r L1 L2)) \<and>
           focused T = first_opt (lpanes L1 @ lpanes L2)"
  using merge_refines_ids [OF assms] by blast

end
