(* ===== verification/Split_Interface.thy ===== *)
theory Split_Interface
  imports Split_Bounds Split_Merge
begin

text \<open>
  What the rest of the application relies on when it edits a layout, as a locale: an ordered
  collection of panes with one focused pane, edited by splitting, inserting, removing and moving.
  The client facts (the focus always names a pane of the layout, a split followed by the removal of
  the new pane restores the pane order) are proved once from those laws; the split tree of
  \<open>app/src/split.rs\<close> interprets the locale.
\<close>

section \<open>Interface\<close>

definition focus_in :: "'p option \<Rightarrow> 'p list \<Rightarrow> bool" where
  "focus_in fo ps = (case fo of None \<Rightarrow> ps = [] | Some f \<Rightarrow> f \<in> set ps)"

lemma focus_in_simps [simp]:
  "focus_in None ps = (ps = [])" "focus_in (Some f) ps = (f \<in> set ps)"
  by (simp_all add: focus_in_def)

lemma focus_in_first [simp]: "focus_in (first_opt ps) ps"
  by (cases ps) auto

locale pane_layout =
  fixes ok :: "'t \<Rightarrow> bool"
    and order :: "'t \<Rightarrow> 'p list"
    and focus :: "'t \<Rightarrow> 'p option"
    and room :: "'t \<Rightarrow> bool"
    and split :: "bool \<Rightarrow> 'p \<Rightarrow> 'p \<Rightarrow> 'o \<Rightarrow> 't \<Rightarrow> ('n option \<times> 't) option"
    and remove :: "'p \<Rightarrow> 't \<Rightarrow> (bool \<times> 't) option"
    and move :: "'p \<Rightarrow> 'p \<Rightarrow> bool \<Rightarrow> 'o \<Rightarrow> 't \<Rightarrow> (bool \<times> 't) option"
  assumes distinct_order: "ok t \<Longrightarrow> distinct (order t)"
    and split_present: "ok t \<Longrightarrow> room t \<Longrightarrow> p \<in> set (order t) \<Longrightarrow> q \<notin> set (order t) \<Longrightarrow>
      \<exists>n t'. split before p q ori t = Some (Some n, t') \<and> ok t' \<and> focus t' = Some q \<and>
        order t' = (if before then insert_before p q (order t) else insert_after p q (order t))"
    and split_absent: "ok t \<Longrightarrow> p \<notin> set (order t) \<Longrightarrow> split before p q ori t = Some (None, t)"
    and remove_present: "ok t \<Longrightarrow> p \<in> set (order t) \<Longrightarrow>
      \<exists>t'. remove p t = Some (True, t') \<and> ok t' \<and> order t' = remove1 p (order t) \<and>
        focus t' = (if order t' = [] then None
                    else if focus t = Some p then first_opt (order t') else focus t)"
    and remove_absent: "ok t \<Longrightarrow> p \<notin> set (order t) \<Longrightarrow> remove p t = Some (False, t)"
    and move_present: "ok t \<Longrightarrow> room t \<Longrightarrow> p \<noteq> q \<Longrightarrow> p \<in> set (order t) \<Longrightarrow> q \<in> set (order t) \<Longrightarrow>
      \<exists>t'. move p q before ori t = Some (True, t') \<and> ok t' \<and> focus t' = Some p \<and>
        order t' = (if before then insert_before q p (remove1 p (order t))
                    else insert_after q p (remove1 p (order t)))"
begin

lemma remove_focus:
  assumes "ok t" "focus_in (focus t) (order t)" "remove p t = Some (b, t')"
  shows "ok t' \<and> focus_in (focus t') (order t') \<and> b = (p \<in> set (order t)) \<and>
    set (order t') = set (order t) - {p}"
proof (cases "p \<in> set (order t)")
  case True
  then obtain t'' where r: "remove p t = Some (True, t'')" "ok t''"
    "order t'' = remove1 p (order t)"
    "focus t'' = (if order t'' = [] then None
                  else if focus t = Some p then first_opt (order t'') else focus t)"
    using remove_present assms(1) by blast
  have "set (order t'') = set (order t) - {p}"
    using r(3) distinct_order [OF assms(1)] by simp
  moreover from this have "focus_in (focus t'') (order t'')"
    unfolding r(4) using assms(2) True by (cases "focus t") auto
  ultimately show ?thesis using r assms(3) True by simp
next
  case False
  with remove_absent assms show ?thesis by auto
qed

lemma split_focus:
  assumes "ok t" "room t" "focus_in (focus t) (order t)" "q \<notin> set (order t)"
    "split before p q ori t = Some (n, t')"
  shows "ok t' \<and> focus_in (focus t') (order t') \<and> (n = None \<longleftrightarrow> p \<notin> set (order t)) \<and>
    set (order t') = (if p \<in> set (order t) then insert q (set (order t)) else set (order t))"
proof (cases "p \<in> set (order t)")
  case True
  then show ?thesis
    using split_present [OF assms(1,2) True assms(4), of before ori] assms(5) by auto
next
  case False
  with split_absent assms show ?thesis by auto
qed

lemma split_remove_order:
  assumes "ok t" "room t" "p \<in> set (order t)" "q \<notin> set (order t)"
  shows "\<exists>n t1 t2. split before p q ori t = Some (Some n, t1) \<and> remove q t1 = Some (True, t2) \<and>
    ok t2 \<and> order t2 = order t \<and> focus t2 = first_opt (order t)"
proof -
  obtain n t1 where s: "split before p q ori t = Some (Some n, t1)" "ok t1" "focus t1 = Some q"
    "order t1 = (if before then insert_before p q (order t) else insert_after p q (order t))"
    using split_present [OF assms] by blast
  have "q \<in> set (order t1)" using s(4) assms(3) by (auto split: if_splits)
  then obtain t2 where r: "remove q t1 = Some (True, t2)" "ok t2"
    "order t2 = remove1 q (order t1)"
    "focus t2 = (if order t2 = [] then None
                 else if focus t1 = Some q then first_opt (order t2) else focus t1)"
    using remove_present s(2) by blast
  have "remove1 q (insert_after p q xs) = xs" "remove1 q (insert_before p q xs) = xs"
    if "q \<notin> set xs" for xs
    using that by (induction xs) (auto simp: remove1_idem)
  then have "order t2 = order t" using r(3) s(4) assms(4) by simp
  with s r assms(3) show ?thesis by auto
qed

lemma move_perm:
  assumes "ok t" "room t" "p \<noteq> q" "p \<in> set (order t)" "q \<in> set (order t)"
  shows "\<exists>t'. move p q before ori t = Some (True, t') \<and> ok t' \<and> focus t' = Some p \<and>
    set (order t') = set (order t) \<and> length (order t') = length (order t)"
proof -
  have "0 < length (order t)" using assms(4) by auto
  then show ?thesis
    using move_present [OF assms, of before ori] distinct_order [OF assms(1)] assms(3-)
    by (auto simp: length_remove1)
qed

end

end
