(* ===== verification/Split_Reach.thy ===== *)
theory Split_Reach
  imports Split_Interface
begin

text \<open>
  The split tree as an instance of the layout interface, and the trees that any sequence of
  editing operations can reach from the empty tree, single-pane trees and merges of such trees.
\<close>

section \<open>The split tree provides the layout interface\<close>

definition tree_order :: "SplitTree \<Rightarrow> PaneId list" where
  "tree_order T = unwrap_or (panes T) []"

definition tree_room :: "SplitTree \<Rightarrow> bool" where
  "tree_room T \<longleftrightarrow> unat (next_id T) + 2 < 2 ^ 32"

lemma tree_order_represents [run_simps]: "represents T L \<Longrightarrow> tree_order T = layout_panes L"
  by (simp add: tree_order_def panes_represents)

lemma tree_order_focus [simp]: "tree_order (T\<lparr>focused := f\<rparr>) = tree_order T"
  by (simp add: tree_order_def panes_def split: option.split)

lemma represents_distinct: "represents T L \<Longrightarrow> distinct (layout_panes L)"
  using ownsD(5) by (cases L) auto

lemma represents_wf [wf_intros]: "represents T L \<Longrightarrow> wf_tree T"
  by (auto simp: wf_tree_def)

lemma wf_treeE:
  assumes "wf_tree T"
  obtains L where "represents T L" "tree_order T = layout_panes L" "distinct (layout_panes L)"
  using assms tree_order_represents represents_distinct by (auto simp: wf_tree_def)

lemma mem_layout_panes: "p \<in> set (layout_panes L) \<Longrightarrow> \<exists>l. L = Some l \<and> p \<in> set (lpanes l)"
  by (cases L) auto

lemma wf_tree_memE:
  assumes "wf_tree T" "p \<in> set (tree_order T)"
  obtains l where "represents T (Some l)" "tree_order T = lpanes l" "distinct (lpanes l)"
    "p \<in> set (lpanes l)"
proof -
  obtain L where L: "represents T L" "tree_order T = layout_panes L" "distinct (layout_panes L)"
    using assms(1) by (rule wf_treeE)
  then obtain l where "L = Some l" using assms(2) by (cases L) auto
  with L assms(2) show ?thesis by (intro that [of l]) (simp_all del: represents.simps)
qed

lemma tree_split_present:
  assumes "wf_tree T" "tree_room T" "p \<in> set (tree_order T)" "q \<notin> set (tree_order T)"
  shows "\<exists>n T'. split_gen before p q ori T = Some (Some n, T') \<and> wf_tree T' \<and> focused T' = Some q \<and>
    tree_order T' =
      (if before then insert_before p q (tree_order T) else insert_after p q (tree_order T))"
proof -
  obtain l where l: "represents T (Some l)" "tree_order T = lpanes l" "distinct (lpanes l)"
    using assms(1,3) by (rule wf_tree_memE)
  have r: "unat (next_id T) + 2 < 2 ^ 32" using assms(2) by (simp add: tree_room_def)
  obtain T' where T': "split_gen before p q ori T = Some (Some (next_id T + 1), T')"
    "represents T' (Some (lsplit before p q ori l))" "focused T' = Some q"
    using split_gen_refines [OF l(1) _ _ r, of p q before ori] assms(3,4) unfolding l(2) by blast
  moreover have "tree_order T' = lpanes (lsplit before p q ori l)"
    using tree_order_represents [OF T'(2)] by simp
  ultimately show ?thesis
    using represents_wf [OF T'(2)] lpanes_lsplit [OF l(3)] l(2) by auto
qed

lemma tree_remove_present:
  assumes "wf_tree T" "p \<in> set (tree_order T)"
  shows "\<exists>T'. remove p T = Some (True, T') \<and> wf_tree T' \<and>
    tree_order T' = remove1 p (tree_order T) \<and>
    focused T' = (if tree_order T' = [] then None
                  else if focused T = Some p then first_opt (tree_order T') else focused T)"
proof -
  obtain l where l: "represents T (Some l)" "tree_order T = lpanes l" "distinct (lpanes l)"
    using assms by (rule wf_tree_memE)
  obtain T' where T': "remove p T = Some (True, T')" "represents T' (lremove p l)"
    "focused T' = focus_after_remove (focused T) p (lremove p l)"
    using remove_refines [OF l(1), of p] assms(2) unfolding l(2) by blast
  have o: "tree_order T' = layout_panes (lremove p l)" by (rule tree_order_represents [OF T'(2)])
  moreover have "layout_panes (lremove p l) = remove1 p (lpanes l)"
    using lpanes_lremove [OF _ l(3)] by (cases "lremove p l") auto
  moreover have "layout_panes (lremove p l) = [] \<longleftrightarrow> lremove p l = None"
    by (cases "lremove p l") auto
  ultimately show ?thesis
    using T' represents_wf [OF T'(2)] l(2) by (auto simp: focus_after_remove_def)
qed

lemma tree_move_present:
  assumes "wf_tree T" "tree_room T" "p \<noteq> q" "p \<in> set (tree_order T)" "q \<in> set (tree_order T)"
  shows "\<exists>T'. move_pane_adjacent p q before ori T = Some (True, T') \<and> wf_tree T' \<and>
    focused T' = Some p \<and>
    tree_order T' = (if before then insert_before q p (remove1 p (tree_order T))
                     else insert_after q p (remove1 p (tree_order T)))"
proof -
  obtain l where l: "represents T (Some l)" "tree_order T = lpanes l" "distinct (lpanes l)"
    using assms(1,4) by (rule wf_tree_memE)
  have r: "unat (next_id T) + 2 < 2 ^ 32" using assms(2) by (simp add: tree_room_def)
  obtain T' l' where T': "move_pane_adjacent p q before ori T = Some (True, T')"
    "lremove p l = Some l'" "represents T' (Some (lequalize (lsplit before q p ori l')))"
    "focused T' = Some p"
    using move_pane_adjacent_refines [OF l(1) assms(3) _ _ r, of before ori] assms(4,5)
    unfolding l(2) by blast
  have "lpanes l' = remove1 p (lpanes l)" by (rule lpanes_lremove [OF T'(2) l(3)])
  moreover have "tree_order T' = lpanes (lsplit before q p ori l')"
    using tree_order_represents [OF T'(3)] by simp
  ultimately show ?thesis
    using T'(1,4) represents_wf [OF T'(3)] lpanes_lsplit [of l'] l(2,3) by simp
qed

interpretation split_tree: pane_layout wf_tree tree_order focused tree_room split_gen remove
  move_pane_adjacent
proof
  show "split_gen before p q ori T = Some (None, T)"
    if "wf_tree T" "p \<notin> set (tree_order T)" for T p q before ori
    using that by (auto elim!: wf_treeE intro: split_gen_absent)
  show "remove p T = Some (False, T)" if "wf_tree T" "p \<notin> set (tree_order T)" for T p
    using that by (auto elim!: wf_treeE intro: remove_absent)
  show "distinct (tree_order T)" if "wf_tree T" for T using that by (auto elim: wf_treeE)
qed (rule tree_split_present tree_remove_present tree_move_present; assumption)+

lemma remove_next_id:
  assumes "wf_tree T" "remove p T = Some (b, T')"
  shows "next_id T' = next_id T"
proof (cases "p \<in> set (tree_order T)")
  case True
  obtain l where l: "represents T (Some l)" "p \<in> set (lpanes l)"
    using assms(1) True by (rule wf_tree_memE)
  from remove_refines [OF this] assms(2) show ?thesis by auto
next
  case False
  with split_tree.remove_absent [OF assms(1) False] assms(2) show ?thesis by simp
qed

section \<open>Reachable trees\<close>

text \<open>
  The edits of the application: a new pane always carries an identifier that is not in the tree,
  \<open>set_focused\<close> is called with a pane of the tree, and the node counter has not wrapped.
\<close>

inductive tree_step :: "SplitTree \<Rightarrow> SplitTree \<Rightarrow> bool" where
  step_split: "tree_room T \<Longrightarrow> q \<notin> set (tree_order T) \<Longrightarrow>
    split_gen before p q ori T = Some (n, T') \<Longrightarrow> tree_step T T'"
| step_insert: "tree_room T \<Longrightarrow> q \<notin> set (tree_order T) \<Longrightarrow>
    insert_pane_after_focused q ori T = Some (b, T') \<Longrightarrow> tree_step T T'"
| step_remove: "remove p T = Some (b, T') \<Longrightarrow> tree_step T T'"
| step_move: "tree_room T \<Longrightarrow> move_pane_adjacent p q before ori T = Some (b, T') \<Longrightarrow> tree_step T T'"
| step_navigate: "navigate forward T = Some (r, T') \<Longrightarrow> tree_step T T'"
| step_directional: "navigate_directional d T = Some (r, T') \<Longrightarrow> tree_step T T'"
| step_focus: "p \<in> set (tree_order T) \<Longrightarrow> tree_step T (set_focused p T)"
| step_ratio: "tree_step T (set_ratio n r T)"
| step_equalize: "tree_step T (equalize T)"

inductive reachable :: "SplitTree \<Rightarrow> bool" where
  reach_new: "reachable SplitTree_new"
| reach_pane: "reachable (new_with_pane p)"
| reach_merge: "reachable S1 \<Longrightarrow> reachable S2 \<Longrightarrow>
    distinct ks1 \<Longrightarrow> set ks1 = dom (nodes S1) \<Longrightarrow> distinct ks2 \<Longrightarrow> set ks2 = dom (nodes S2) \<Longrightarrow>
    tree_order S1 \<noteq> [] \<Longrightarrow> tree_order S2 \<noteq> [] \<Longrightarrow>
    set (tree_order S1) \<inter> set (tree_order S2) = {} \<Longrightarrow>
    max (unat (next_id S1)) (unat (next_id S2)) + length ks1 + length ks2 + 1 < 2 ^ 32 \<Longrightarrow>
    merge ks1 ks2 S1 S2 ori r = Some T \<Longrightarrow> reachable T"
| reach_step: "reachable T \<Longrightarrow> tree_step T T' \<Longrightarrow> reachable T'"

definition good_tree :: "SplitTree \<Rightarrow> bool" where
  "good_tree T \<longleftrightarrow> wf_tree T \<and> focus_in (focused T) (tree_order T)"

lemma represents_SplitTree_new: "represents SplitTree_new None"
  by (simp add: SplitTree_new_def)

lemma represents_new_with_pane: "represents (new_with_pane p) (Some (Pane p))"
proof -
  have "owns (new_with_pane p) (ILeaf 0 p)"
    by (simp add: owns_def new_with_pane_def alloc_id_def insert_node_def SplitTree_new_def)
  then show ?thesis by auto
qed

lemma good_treeI: "represents T L \<Longrightarrow> focus_in (focused T) (layout_panes L) \<Longrightarrow> good_tree T"
  by (simp add: good_tree_def tree_order_represents represents_wf)

lemma good_treeE:
  assumes "good_tree T"
  obtains L where "represents T L" "focus_in (focused T) (layout_panes L)"
    "tree_order T = layout_panes L"
  using assms by (auto simp: good_tree_def tree_order_represents elim!: wf_treeE)

lemma good_refocus:
  assumes "good_tree T" "p \<in> set (tree_order T)"
  shows "good_tree (T\<lparr>focused := Some p\<rparr>)"
proof -
  obtain L where L: "represents T L" "tree_order T = layout_panes L"
    using assms(1) by (rule good_treeE)
  then have "represents (T\<lparr>focused := Some p\<rparr>) L" by (simp only: represents_focus)
  then show ?thesis by (rule good_treeI) (use assms(2) L in simp)
qed

lemma set_ratio_repr:
  assumes "owns T t"
  shows "\<exists>t'. owns (set_ratio n r T) t' \<and> ipanes t' = ipanes t \<and> lhalf (erase t') = lhalf (erase t)"
proof -
  note o = ownsD [OF assms]
  define re where "re = rec_itree ILeaf
    (\<lambda>i ori q a b a' b'. ISplit i ori (if i = n then r else q) a' b')"
  have re [simp]: "re (ILeaf i p) = ILeaf i p"
    "re (ISplit i ori q a b) = ISplit i ori (if i = n then r else q) (re a) (re b)"
    for i p ori q a b by (simp_all add: re_def)
  have f: "nid (re t) = nid t" "ids (re t) = ids t" "ipanes (re t) = ipanes t" "lhalf (erase (re t)) = lhalf (erase t)" for t
    by (induction t) auto
  have fields: "tree_root (set_ratio n r T) = tree_root T" "next_id (set_ratio n r T) = next_id T"
    "dom (nodes (set_ratio n r T)) = dom (nodes T)"
    by (auto simp: set_ratio_def insert_node_def split: option.splits Node.splits)
  have at: "nodes (set_ratio n r T) i = (if i = n
      then map_option (\<lambda>x. case x of Leaf p \<Rightarrow> Leaf p | Split ori _ a b \<Rightarrow> Split ori r a b) (nodes T i)
      else nodes T i)" for i
    by (auto simp: set_ratio_def insert_node_def split: option.splits Node.splits)
  have "repr (nodes T) u \<Longrightarrow> repr (nodes (set_ratio n r T)) (re u)" for u
    by (induction u) (auto simp: at f)
  then have "owns (set_ratio n r T) (re t)" using o fields f by (simp add: owns_def)
  with f show ?thesis by blast
qed

lemma good_set_ratio:
  assumes "good_tree T"
  shows "good_tree (set_ratio n r T)"
proof -
  obtain L where L: "represents T L" "focus_in (focused T) (layout_panes L)"
    using assms by (rule good_treeE)
  have f: "focused (set_ratio n r T) = focused T"
    by (auto simp: set_ratio_def insert_node_def split: option.splits Node.splits)
  show ?thesis
  proof (cases L)
    case None
    with L have "set_ratio n r T = T" by (simp add: set_ratio_def)
    with assms show ?thesis by simp
  next
    case (Some l)
    with L(1) obtain t where "owns T t" "erase t = l" by auto
    then obtain t' where t': "owns (set_ratio n r T) t'" "ipanes t' = lpanes l"
      using set_ratio_repr by metis
    then have "represents (set_ratio n r T) (Some (erase t'))" by auto
    then show ?thesis by (rule good_treeI) (use t' f L(2) Some in simp)
  qed
qed

lemma good_insert:
  assumes "good_tree T" "tree_room T" "q \<notin> set (tree_order T)"
    "insert_pane_after_focused q ori T = Some (b, T')"
  shows "good_tree T'"
proof -
  obtain L where L: "represents T L" "tree_order T = layout_panes L"
    using assms(1) by (rule good_treeE)
  have r: "unat (next_id T) + 2 < 2 ^ 32" using assms(2) by (simp add: tree_room_def)
  show ?thesis
  proof (cases L)
    case None
    with L(1) insert_pane_into_empty [of T q ori] r assms(4) show ?thesis
      by (auto simp del: represents.simps intro!: good_treeI)
  next
    case (Some l)
    have q: "q \<notin> set (lpanes l)" using assms(3) L(2) Some by simp
    obtain T1 where T1: "insert_pane_after_focused q ori T = Some (True, T1)"
      "represents T1 (Some (lequalize (linsert (insert_target (focused T) l) q ori l)))"
      "focused T1 = Some q"
      using insert_pane_after_focused_refines [OF L(1) [unfolded Some] q r] by blast
    have "insert_target (focused T) l \<in> set (lpanes l)"
      by (auto simp: insert_target_def split: option.splits)
    then have "q \<in> set (lpanes (linsert (insert_target (focused T) l) q ori l))"
      using represents_distinct [OF L(1)] Some by (simp add: lpanes_linsert)
    with good_treeI [OF T1(2)] T1 assms(4) show ?thesis by simp
  qed
qed

lemma good_navigate:
  assumes "good_tree T" "navigate forward T = Some (r, T')"
  shows "good_tree T'"
proof -
  obtain L where L: "represents T L" "tree_order T = layout_panes L"
    using assms(1) by (rule good_treeE)
  let ?ps = "layout_panes L"
  have m: "?ps ! (k mod length ?ps) \<in> set ?ps" if "position P ?ps = Some i" for k P i
    using position_SomeD [OF that] by (intro nth_mem mod_less_divisor) auto
  have "T' = T \<or> (\<exists>p\<in>set ?ps. T' = T\<lparr>focused := Some p\<rparr>)"
    using assms(2) panes_represents [OF L(1)] m
    by (auto simp: navigate_def Let_def split: option.splits)
  then show ?thesis
    using assms(1) good_refocus [OF assms(1)] L(2) by auto
qed

lemma good_directional:
  assumes "good_tree T" "navigate_directional d T = Some (r, T')"
  shows "good_tree T'"
proof (cases "focused T")
  case None
  with assms show ?thesis by (simp add: navigate_directional_def)
next
  case (Some f)
  obtain L where L: "represents T L" "focus_in (focused T) (layout_panes L)"
    "tree_order T = layout_panes L"
    using assms(1) by (rule good_treeE)
  then obtain l where l: "L = Some l" using Some by (cases L) auto
  note b = pane_bounds_represents [OF L(1) [unfolded l]]
  let ?B = "ibounds l full_rect"
  from assms(2) Some b consider "T' = T"
    | fr p bd where "foldl (nav_step d f fr) None ?B = Some (p, bd)" "T' = T\<lparr>focused := Some p\<rparr>"
    by (auto simp: navigate_directional_def split: option.splits)
  then show ?thesis
  proof cases
    case (2 fr p bd)
    from nav_fold [OF 2(1)] obtain r where "(p, r) \<in> set ?B" by auto
    then have "fst (p, r) \<in> set (map fst ?B)" unfolding set_map by (rule imageI)
    then have "p \<in> set (lpanes l)" by simp
    with 2 good_refocus [OF assms(1)] L(3) l show ?thesis by simp
  qed (use assms(1) in simp)
qed

lemma node_id_wf:
  assumes "wf_tree T"
  shows "\<exists>n. node_id_for_pane T p = Some n \<and> (n \<noteq> None \<longleftrightarrow> p \<in> set (tree_order T))"
proof -
  obtain L where L: "represents T L" "tree_order T = layout_panes L"
    using assms by (rule wf_treeE)
  show ?thesis
  proof (cases L)
    case (Some l)
    with L(1) obtain t where t: "owns T t" "erase t = l" by auto
    have "node_id_for_pane T p = Some (ifind t p)"
      using ownsD(1,2) [OF t(1)] by (simp add: node_id_for_pane_def find_leaf_repr)
    with t Some L(2) show ?thesis using ifind_SomeD [of t p] ifind_ex [of p t] by auto
  qed (use L in \<open>simp add: node_id_for_pane_def\<close>)
qed

lemma move_refused:
  assumes "wf_tree T" "\<not> (p \<noteq> q \<and> p \<in> set (tree_order T) \<and> q \<in> set (tree_order T))"
  shows "move_pane_adjacent p q before ori T = Some (False, T)"
proof -
  obtain y z where yz: "node_id_for_pane T p = Some y" "y \<noteq> None \<longleftrightarrow> p \<in> set (tree_order T)"
    "node_id_for_pane T q = Some z" "z \<noteq> None \<longleftrightarrow> q \<in> set (tree_order T)"
    using node_id_wf [OF assms(1), of p] node_id_wf [OF assms(1), of q] by blast
  then have "p = q \<or> y = None \<or> z = None" using assms(2) by auto
  with yz show ?thesis by (auto simp: move_pane_adjacent_def)
qed

lemma good_move:
  assumes "good_tree T" "tree_room T" "move_pane_adjacent p q before ori T = Some (b, T')"
  shows "good_tree T'"
proof (cases "p \<noteq> q \<and> p \<in> set (tree_order T) \<and> q \<in> set (tree_order T)")
  case True
  moreover have wf: "wf_tree T" using assms(1) by (simp add: good_tree_def)
  ultimately obtain T1 where "move_pane_adjacent p q before ori T = Some (True, T1)" "wf_tree T1"
    "focused T1 = Some p" "set (tree_order T1) = set (tree_order T)"
    using split_tree.move_perm [OF wf assms(2)] by metis
  with True assms(3) show ?thesis by (simp add: good_tree_def)
next
  case False
  then have "move_pane_adjacent p q before ori T = Some (False, T)"
    using assms(1) by (intro move_refused) (auto simp: good_tree_def)
  with assms show ?thesis by simp
qed

lemma good_step: "tree_step T T' \<Longrightarrow> good_tree T \<Longrightarrow> good_tree T'"
proof (induction rule: tree_step.induct)
  case (step_split T q before p ori n T')
  then have "wf_tree T" "focus_in (focused T) (tree_order T)" by (simp_all add: good_tree_def)
  from split_tree.split_focus [OF this(1) step_split(1) this(2) step_split(2,3)]
  show ?case by (simp add: good_tree_def)
next
  case (step_remove p T b T')
  then have "wf_tree T" "focus_in (focused T) (tree_order T)" by (simp_all add: good_tree_def)
  from split_tree.remove_focus [OF this step_remove(1)] show ?case by (simp add: good_tree_def)
next
  case (step_equalize T)
  then obtain L where L: "represents T L" "focus_in (focused T) (layout_panes L)"
    by (rule good_treeE)
  from equalize_refines [OF L(1)] show ?case
    by (rule good_treeI) (use L(2) in \<open>cases L; simp add: equalize_def\<close>)
qed (auto simp: set_focused_def
      intro: good_insert good_move good_navigate good_directional good_refocus good_set_ratio)

lemma good_merge:
  assumes "good_tree S1" "good_tree S2" "distinct ks1" "set ks1 = dom (nodes S1)" "distinct ks2"
    "set ks2 = dom (nodes S2)" "tree_order S1 \<noteq> []" "tree_order S2 \<noteq> []"
    "set (tree_order S1) \<inter> set (tree_order S2) = {}"
    "max (unat (next_id S1)) (unat (next_id S2)) + length ks1 + length ks2 + 1 < 2 ^ 32"
    "merge ks1 ks2 S1 S2 ori r = Some T"
  shows "good_tree T"
proof -
  obtain l1 l2 where l: "represents S1 (Some l1)" "represents S2 (Some l2)"
    "tree_order S1 = lpanes l1" "tree_order S2 = lpanes l2"
    using assms(1,2,7,8) by (metis good_treeE layout_panes_simps option.exhaust)
  obtain T' where T': "merge ks1 ks2 S1 S2 ori r = Some T'"
    "represents T' (Some (Tile ori r l1 l2))" "focused T' = first_opt (lpanes l1 @ lpanes l2)"
    using merge_refines [OF l(1,2) assms(3-6) _ assms(10)] assms(9) l by metis
  with assms(11) good_treeI [OF T'(2)] show ?thesis by simp
qed

lemma good_reachable: "reachable T \<Longrightarrow> good_tree T"
proof (induction rule: reachable.induct)
  case reach_new
  show ?case by (rule good_treeI [OF represents_SplitTree_new]) (simp add: SplitTree_new_def)
next
  case (reach_pane p)
  show ?case
    by (rule good_treeI [OF represents_new_with_pane])
       (simp add: new_with_pane_def alloc_id_def)
next
  case (reach_merge S1 S2 ks1 ks2 ori r T)
  then show ?case using good_merge by blast
qed (rule good_step)

text \<open>Navigation returns, and changes nothing but the focus.\<close>

lemma same_focus: "\<exists>r fo. Some (None, T) = Some (r, T\<lparr>focused := fo\<rparr>) \<and> (r \<noteq> None \<longrightarrow> fo = r)"
proof -
  have "T = T\<lparr>focused := focused T\<rparr>" by simp
  then show ?thesis by (intro exI [of _ None] exI [of _ "focused T"]) simp
qed

lemma navigate_shape:
  assumes "wf_tree T"
  shows "\<exists>r fo. navigate fwd T = Some (r, T\<lparr>focused := fo\<rparr>) \<and> (r \<noteq> None \<longrightarrow> fo = r)"
proof -
  obtain L where L: "represents T L" using assms by (auto simp: wf_tree_def)
  note nav = navigate_def [of fwd T, unfolded panes_represents [OF L]]
  show ?thesis
  proof (cases "Option.bind (focused T) (\<lambda>f. position (\<lambda>p. p = f) (layout_panes L))")
    case None
    then have "navigate fwd T = Some (None, T)"
      by (cases "focused T") (auto simp: nav simp del: position_None)
    then show ?thesis using same_focus [of T] by simp
  next
    case (Some i)
    then show ?thesis by (cases "focused T") (auto simp: nav Let_def)
  qed
qed

lemma navigate_directional_shape:
  assumes "good_tree T"
  shows "\<exists>r fo. navigate_directional d T = Some (r, T\<lparr>focused := fo\<rparr>) \<and> (r \<noteq> None \<longrightarrow> fo = r)"
proof (cases "focused T")
  case None
  then show ?thesis using same_focus [of T] by (simp add: navigate_directional_def)
next
  case (Some f)
  obtain L where L: "represents T L" "focus_in (focused T) (layout_panes L)"
    using assms by (rule good_treeE)
  then obtain l where l: "L = Some l" using Some by (cases L) auto
  note b = pane_bounds_represents [OF L(1) [unfolded l]]
  have "navigate_directional d T = Some (None, T) \<or>
      (\<exists>p. navigate_directional d T = Some (Some p, T\<lparr>focused := Some p\<rparr>))"
    unfolding navigate_directional_def b using Some by (auto split: option.split)
  then show ?thesis using same_focus [of T] by auto
qed

end
