(* ===== verification/Split_Props.thy ===== *)
theory Split_Props
  imports Split_Reach
begin

text \<open>
  The properties of the split tree, stated over the model of \<open>app/src/split.rs\<close>. Each is an
  instance of the refinement lemmas and of the layout interface; the witnesses apply them to a
  window with two panes side by side.
\<close>

section \<open>A concrete window\<close>

definition two_panes :: SplitTree where
  "two_panes = \<lparr>nodes = [0 \<mapsto> Leaf 1, 1 \<mapsto> Leaf 2, 2 \<mapsto> Split Horizontal (1 / 2) 0 1],
                tree_root = Some 2, next_id = 3, focused = Some 2\<rparr>"

lemma two_panes_represents:
  "represents two_panes (Some (Tile Horizontal (1 / 2) (Pane 1) (Pane 2)))"
proof -
  have "owns two_panes (ISplit 2 Horizontal (1 / 2) (ILeaf 0 1) (ILeaf 1 2))"
    by (auto simp: owns_def two_panes_def)
  then show ?thesis by force
qed

lemma two_panes_simps [simp]:
  "next_id two_panes = 3" "focused two_panes = Some 2" "tree_root two_panes = Some 2"
  by (simp_all add: two_panes_def)

lemma lremove_lsplit:
  "q \<notin> set (lpanes L) \<Longrightarrow> lremove q (lsplit before p q ori L) = Some L"
  by (induction L) (auto simp: lpair_def)

lemma focused_chain_columns:
  assumes ch: "is_chain ori L" and d: "distinct (lpanes L)" and p: "p \<in> set (lpanes L)"
  shows "ibounds (lequalize (linsert p q ori L)) rect =
    map (\<lambda>i. (insert_after p q (lpanes L) ! i, column ori rect (Suc (length (lpanes L))) i))
      [0..<Suc (length (lpanes L))]"
  using ibounds_equal_chain [OF is_chain_linsert [OF ch], of p q rect] d p
  by (simp add: lpanes_linsert del: upt_Suc)

lemma represents_column_window:
  assumes "represents T (Some L)"
  shows "distinct (lpanes L)" "insert_target (focused T) L \<in> set (lpanes L)"
  using represents_distinct [OF assms]
  by (auto simp: insert_target_def split: option.splits)

section \<open>Editing\<close>

text \<open>
  C1. Whatever sequence of splits, insertions, removals, moves, merges, ratio changes and focus
  changes builds a tree, the node table is a tree (no cycle, no shared or dangling child, no
  unreachable node, every identifier below the counter, every pane in one leaf), every walk over it
  returns, and the focused pane is a pane of the tree whenever the tree has panes.
\<close>

theorem reachable_invariant:
  assumes "reachable T"
  shows "wf_tree T \<and> panes T = Some (tree_order T) \<and> distinct (tree_order T) \<and>
    focus_in (focused T) (tree_order T)"
proof -
  obtain L where L: "represents T L" "focus_in (focused T) (layout_panes L)"
    "tree_order T = layout_panes L"
    using good_reachable [OF assms] by (rule good_treeE)
  then show ?thesis
    using represents_wf panes_represents represents_distinct by auto
qed

theorem reachable_invariant_witness:
  "focus_in (focused (set_ratio 0 (1 / 3) (new_with_pane 7)))
     (tree_order (set_ratio 0 (1 / 3) (new_with_pane 7)))"
  using reachable_invariant [OF reach_step [OF reach_pane step_ratio]] by blast

text \<open>
  C2. Splitting a pane that is in the layout returns, adds the new pane directly after the split
  pane in the pane order, pairs the two in a new split node with ratio one half and the requested
  orientation, leaves the rest of the layout as it was, moves the focus to the new pane and uses
  two identifiers.
\<close>

theorem split_pane_correct:
  assumes "represents T (Some L)" "p \<in> set (lpanes L)" "q \<notin> set (lpanes L)"
    "unat (next_id T) + 2 < 2 ^ 32"
  shows "\<exists>T'. split_pane p q ori T = Some (Some (next_id T + 1), T') \<and>
    represents T' (Some (lsplit False p q ori L)) \<and>
    panes T' = Some (insert_after p q (lpanes L)) \<and>
    focused T' = Some q \<and> next_id T' = next_id T + 2"
proof -
  obtain T' where T': "split_gen False p q ori T = Some (Some (next_id T + 1), T')"
    "represents T' (Some (lsplit False p q ori L))" "focused T' = Some q"
    "next_id T' = next_id T + 2"
    using split_gen_refines [OF assms] by blast
  then show ?thesis
    using panes_represents [OF T'(2)] lpanes_lsplit [of L] represents_distinct [OF assms(1)]
    by (auto simp: split_pane_def simp del: represents.simps)
qed

theorem split_pane_correct_witness:
  "\<exists>T'. split_pane 1 9 Vertical two_panes = Some (Some 4, T') \<and> panes T' = Some [1, 9, 2]"
  using split_pane_correct [OF two_panes_represents, of 1 9 Vertical] by auto

text \<open>
  Splitting in front of a pane does the same with the new pane directly before the split pane,
  and both kinds of split leave the tree untouched and report no node when the pane is not in it.
\<close>

theorem split_before_correct:
  assumes "represents T L" "q \<notin> set (layout_panes L)" "unat (next_id T) + 2 < 2 ^ 32"
  shows "\<exists>n T'. split_before p q ori T = Some (n, T') \<and>
    represents T' (map_option (lsplit True p q ori) L) \<and>
    panes T' = Some (insert_before p q (layout_panes L)) \<and>
    (if p \<in> set (layout_panes L) then n = Some (next_id T + 1) \<and> focused T' = Some q
     else n = None \<and> T' = T \<and> split_pane p q ori T = Some (None, T))"
proof (cases "p \<in> set (layout_panes L)")
  case True
  then obtain l where l: "L = Some l" "p \<in> set (lpanes l)" using mem_layout_panes by blast
  obtain T' where T': "split_gen True p q ori T = Some (Some (next_id T + 1), T')"
    "represents T' (Some (lsplit True p q ori l))" "focused T' = Some q"
    using split_gen_refines [of T l p q True ori] assms l by auto
  then show ?thesis
    using panes_represents [OF T'(2)] lpanes_lsplit [of l] represents_distinct [OF assms(1)] l
    by (auto simp: split_before_def simp del: represents.simps)
next
  case False
  then have "map_option (lsplit True p q ori) L = L" by (cases L) auto
  with False show ?thesis
    using split_gen_absent [OF assms(1) False] panes_represents [OF assms(1)] assms(1)
    by (auto simp: split_before_def split_pane_def)
qed

theorem split_before_correct_witness:
  "\<exists>n T'. split_before 2 9 Vertical two_panes = Some (n, T') \<and> panes T' = Some [1, 9, 2]"
  using split_before_correct [OF two_panes_represents, of 9 2 Vertical] by auto

text \<open>
  C3. Inserting after the focused pane returns \<open>true\<close> with the new pane directly after the focused
  one (after the last pane when the focus is stale or absent), focuses it, and gives the ratios of
  the chain from the root the values of an equal distribution.
\<close>

theorem insert_pane_after_focused_correct:
  assumes "represents T (Some L)" "q \<notin> set (lpanes L)" "unat (next_id T) + 2 < 2 ^ 32"
  shows "\<exists>T'. insert_pane_after_focused q ori T = Some (True, T') \<and>
    represents T' (Some (lequalize (linsert (insert_target (focused T) L) q ori L))) \<and>
    panes T' = Some (insert_after (insert_target (focused T) L) q (lpanes L)) \<and>
    focused T' = Some q"
proof -
  obtain T' where T': "insert_pane_after_focused q ori T = Some (True, T')"
    "represents T' (Some (lequalize (linsert (insert_target (focused T) L) q ori L)))"
    "focused T' = Some q"
    using insert_pane_after_focused_refines [OF assms] by blast
  then show ?thesis
    using panes_represents [OF T'(2)] represents_column_window(1) [OF assms(1)]
    by (auto simp: lpanes_linsert simp del: represents.simps)
qed

theorem insert_pane_after_focused_correct_witness:
  "\<exists>T'. insert_pane_after_focused 9 Horizontal two_panes = Some (True, T') \<and>
     panes T' = Some [1, 2, 9]"
  using insert_pane_after_focused_correct [OF two_panes_represents, of 9 Horizontal]
  by (auto simp: insert_target_def)

text \<open>
  C4. A window that is a row (or column) of panes stays one when a pane is inserted after the
  focused pane, and all its panes then have exactly the same share of it: the \<open>i\<close>-th of the
  \<open>n + 1\<close> panes occupies the \<open>i\<close>-th of \<open>n + 1\<close> equal strips, whatever the ratios were before.
\<close>

theorem insert_gives_equal_columns:
  assumes "represents T (Some L)" "is_chain ori L" "q \<notin> set (lpanes L)"
    "unat (next_id T) + 2 < 2 ^ 32"
  shows "\<exists>T'. insert_pane_after_focused q ori T = Some (True, T') \<and>
    pane_bounds T' = Some (map
      (\<lambda>i. (insert_after (insert_target (focused T) L) q (lpanes L) ! i,
            column ori full_rect (Suc (length (lpanes L))) i)) [0..<Suc (length (lpanes L))])"
proof -
  note w = represents_column_window [OF assms(1)]
  obtain T' where T': "insert_pane_after_focused q ori T = Some (True, T')"
    "represents T' (Some (lequalize (linsert (insert_target (focused T) L) q ori L)))"
    using insert_pane_after_focused_refines [OF assms(1,3,4)] by blast
  from pane_bounds_represents [OF T'(2)] focused_chain_columns [OF assms(2) w]
  have "pane_bounds T' = Some (map
      (\<lambda>i. (insert_after (insert_target (focused T) L) q (lpanes L) ! i,
            column ori full_rect (Suc (length (lpanes L))) i)) [0..<Suc (length (lpanes L))])"
    by (simp only:)
  with T'(1) show ?thesis by blast
qed

theorem insert_gives_equal_columns_witness:
  "\<exists>T'. insert_pane_after_focused 9 Horizontal two_panes = Some (True, T') \<and>
     pane_bounds T' = Some
       [(1, \<lparr>rect_x = 0, rect_y = 0, rect_w = 1 / 3, rect_h = 1\<rparr>),
        (2, \<lparr>rect_x = 1 / 3, rect_y = 0, rect_w = 1 / 3, rect_h = 1\<rparr>),
        (9, \<lparr>rect_x = 2 / 3, rect_y = 0, rect_w = 1 / 3, rect_h = 1\<rparr>)]"
  using insert_gives_equal_columns [OF two_panes_represents, of Horizontal 9]
  by (simp add: insert_target_def column_def full_rect_def upt_rec)

text \<open>
  C3. Removing a pane of the layout returns \<open>true\<close>: its split node disappears, its sibling takes
  that node's place, the pane order loses just that pane, and a focus on the removed pane moves to
  the first pane that is left (to none when it was the last). Removing any other pane returns
  \<open>false\<close> and changes nothing.
\<close>

theorem remove_correct:
  assumes "represents T L"
  shows "if p \<in> set (layout_panes L)
    then \<exists>T'. remove p T = Some (True, T') \<and>
      represents T' (Option.bind L (lremove p)) \<and>
      panes T' = Some (remove1 p (layout_panes L)) \<and>
      focused T' = focus_after_remove (focused T) p (Option.bind L (lremove p))
    else remove p T = Some (False, T)"
proof (cases "p \<in> set (layout_panes L)")
  case True
  then obtain l where l: "L = Some l" "p \<in> set (lpanes l)" using mem_layout_panes by blast
  obtain T' where T': "remove p T = Some (True, T')" "represents T' (lremove p l)"
    "focused T' = focus_after_remove (focused T) p (lremove p l)"
    using remove_refines [of T l p] assms l by auto
  have "layout_panes (lremove p l) = remove1 p (lpanes l)"
    using lpanes_lremove [of p l] represents_distinct [OF assms] l(1) by (cases "lremove p l") auto
  with panes_represents [OF T'(2)] T' l show ?thesis by auto
next
  case False
  with remove_absent [OF assms False] show ?thesis by simp
qed

theorem remove_correct_witness:
  "\<exists>T'. remove 2 two_panes = Some (True, T') \<and> panes T' = Some [1] \<and> focused T' = Some 1"
  using remove_correct [OF two_panes_represents, of 2] by (auto simp: focus_after_remove_def)

text \<open>
  Closing a pane undoes the split that created it: splitting any pane, on either side, and
  removing the new pane gives back the same layout, ratios and orientations included.
\<close>

theorem split_remove_roundtrip:
  assumes "represents T (Some L)" "p \<in> set (lpanes L)" "q \<notin> set (lpanes L)"
    "unat (next_id T) + 2 < 2 ^ 32"
  shows "\<exists>n T1 T2. split_gen before p q ori T = Some (Some n, T1) \<and> remove q T1 = Some (True, T2) \<and>
    represents T2 (Some L) \<and> focused T2 = first_opt (lpanes L)"
proof -
  obtain T1 where T1: "split_gen before p q ori T = Some (Some (next_id T + 1), T1)"
    "represents T1 (Some (lsplit before p q ori L))" "focused T1 = Some q"
    using split_gen_refines [OF assms] by blast
  have "q \<in> set (lpanes (lsplit before p q ori L))"
    using lpanes_lsplit [of L] represents_distinct [OF assms(1)] assms(2) by simp
  then obtain T2 where T2: "remove q T1 = Some (True, T2)"
    "represents T2 (lremove q (lsplit before p q ori L))"
    "focused T2 = focus_after_remove (focused T1) q (lremove q (lsplit before p q ori L))"
    using remove_refines [OF T1(2)] by blast
  have "represents T2 (Some L)" "focused T2 = first_opt (lpanes L)"
    using T2(2,3) T1(3) unfolding lremove_lsplit [OF assms(3)]
    by (simp_all add: focus_after_remove_def)
  with T1(1) T2(1) show ?thesis by blast
qed

theorem split_remove_roundtrip_witness:
  "\<exists>n T1 T2. split_gen True 1 9 Vertical two_panes = Some (Some n, T1) \<and>
     remove 9 T1 = Some (True, T2) \<and>
     represents T2 (Some (Tile Horizontal (1 / 2) (Pane 1) (Pane 2))) \<and> focused T2 = Some 1"
  using split_remove_roundtrip [OF two_panes_represents, of 1 9 True Vertical] by simp

text \<open>
  C4. Moving a pane next to another one (a drag and drop) returns \<open>true\<close>; the pane order is that of
  the layout without the moved pane with it put back directly before or after the target, no pane
  is lost or duplicated, and the moved pane is focused. Moving a pane onto itself, or naming a
  pane that is not there, returns \<open>false\<close> and changes nothing.
\<close>

theorem move_pane_adjacent_correct:
  assumes "wf_tree T" "tree_room T"
  shows "if src \<noteq> tgt \<and> src \<in> set (tree_order T) \<and> tgt \<in> set (tree_order T)
    then \<exists>T'. move_pane_adjacent src tgt before ori T = Some (True, T') \<and> wf_tree T' \<and>
      tree_order T' = (if before then insert_before tgt src (remove1 src (tree_order T))
                       else insert_after tgt src (remove1 src (tree_order T))) \<and>
      set (tree_order T') = set (tree_order T) \<and> length (tree_order T') = length (tree_order T) \<and>
      focused T' = Some src
    else move_pane_adjacent src tgt before ori T = Some (False, T)"
proof (cases "src \<noteq> tgt \<and> src \<in> set (tree_order T) \<and> tgt \<in> set (tree_order T)")
  case True
  then have c: "src \<noteq> tgt" "src \<in> set (tree_order T)" "tgt \<in> set (tree_order T)" by auto
  obtain T1 where T1: "move_pane_adjacent src tgt before ori T = Some (True, T1)"
    "set (tree_order T1) = set (tree_order T)" "length (tree_order T1) = length (tree_order T)"
    using split_tree.move_perm [OF assms c] by blast
  with split_tree.move_present [OF assms c, of before ori] True show ?thesis by auto
next
  case False
  then show ?thesis using move_refused [OF assms(1) False] by simp
qed

theorem move_pane_adjacent_correct_witness:
  "\<exists>T'. move_pane_adjacent 2 1 True Vertical two_panes = Some (True, T') \<and>
     tree_order T' = [2, 1] \<and> focused T' = Some 2"
proof -
  have "tree_order two_panes = [1, 2]" using tree_order_represents [OF two_panes_represents] by simp
  then show ?thesis
    using move_pane_adjacent_correct [OF represents_wf [OF two_panes_represents], of 2 1 True Vertical]
    by (auto simp: tree_room_def)
qed

text \<open>
  C5. Merging two trees with disjoint panes puts the two layouts unchanged under one new split, for
  every iteration order of the two hash maps and although the trees use the same node
  identifiers; the first pane gets the focus.
\<close>

theorem merge_correct:
  assumes "represents S1 (Some L1)" "represents S2 (Some L2)"
    "distinct ks1" "set ks1 = dom (nodes S1)" "distinct ks2" "set ks2 = dom (nodes S2)"
    "set (lpanes L1) \<inter> set (lpanes L2) = {}"
    "max (unat (next_id S1)) (unat (next_id S2)) + length ks1 + length ks2 + 1 < 2 ^ 32"
  shows "\<exists>T. merge ks1 ks2 S1 S2 ori r = Some T \<and> represents T (Some (Tile ori r L1 L2)) \<and>
    panes T = Some (lpanes L1 @ lpanes L2) \<and> focused T = first_opt (lpanes L1)"
proof -
  obtain T where T: "merge ks1 ks2 S1 S2 ori r = Some T" "represents T (Some (Tile ori r L1 L2))"
    "focused T = first_opt (lpanes L1 @ lpanes L2)"
    using merge_refines [OF assms] by blast
  moreover have "first_opt (lpanes L1 @ lpanes L2) = first_opt (lpanes L1)"
    by (cases "lpanes L1") auto
  ultimately show ?thesis using panes_represents [OF T(2)] by auto
qed

theorem merge_correct_witness:
  "\<exists>T. merge [2, 0, 1] [0] two_panes (new_with_pane 3) Vertical (1 / 2) = Some T \<and>
     panes T = Some [1, 2, 3]"
proof -
  have "set [2, 0, 1] = dom (nodes two_panes)" "set [0] = dom (nodes (new_with_pane 3))"
    "next_id (new_with_pane 3) = 1"
    by (auto simp: two_panes_def new_with_pane_def alloc_id_def insert_node_def SplitTree_new_def
        split: if_splits)
  then show ?thesis
    using merge_correct [OF two_panes_represents represents_new_with_pane,
        of "[2, 0, 1]" "[0]" 3 Vertical "1 / 2"] by auto
qed

section \<open>Geometry and navigation\<close>



text \<open>
  C9. Cycling the focus goes through the panes in order and around: \<open>k\<close> steps forward from the
  \<open>i\<close>-th of \<open>n\<close> panes end at pane \<open>(i + k) mod n\<close>, so \<open>n\<close> steps visit every pane and come back,
  and a step backward undoes a step forward.
\<close>

theorem navigate_cycles:
  assumes "represents T (Some L)" "i < length (lpanes L)" "focused T = Some (lpanes L ! i)"
  shows "((\<lambda>s. Option.bind s (\<lambda>T. map_option snd (navigate True T))) ^^ k) (Some T) =
      Some (T\<lparr>focused := Some (lpanes L ! ((i + k) mod length (lpanes L)))\<rparr>) \<and>
    (\<exists>p T'. navigate True T = Some (p, T') \<and>
       navigate False T' = Some (Some (lpanes L ! i), T))"
proof
  let ?n = "length (lpanes L)"
  let ?at = "\<lambda>j. T\<lparr>focused := Some (lpanes L ! j)\<rparr>"
  have rep: "represents (?at j) (Some L)" for j using assms(1) by (simp only: represents_focus)
  have step: "navigate fwd (?at j) =
      (let j' = (if fwd then (j + 1) mod ?n else (j + ?n - 1) mod ?n)
       in Some (Some (lpanes L ! j'), ?at j'))" if "j < ?n" for j fwd
    using navigate_focused [OF rep that, where forward = fwd] by (simp add: Let_def)
  have here: "?at i = T" using assms(3) by simp
  show "((\<lambda>s. Option.bind s (\<lambda>T. map_option snd (navigate True T))) ^^ k) (Some T) =
      Some (?at ((i + k) mod ?n))"
  proof (induction k)
    case 0
    with assms(2) here show ?case by simp
  next
    case (Suc k)
    have "(i + k) mod ?n < ?n" using assms(2) by (intro mod_less_divisor) auto
    from step [OF this, of True] Suc show ?case by (simp add: Let_def mod_Suc_eq)
  qed
  have "((i + 1) mod ?n + ?n - 1) mod ?n = i"
    using assms(2) by (cases "i + 1 = ?n") auto
  then show "\<exists>p T'. navigate True T = Some (p, T') \<and>
      navigate False T' = Some (Some (lpanes L ! i), T)"
    using step [OF assms(2), of True] step [of "(i + 1) mod ?n" False] assms(2) here
    by (auto simp: Let_def)
qed

theorem navigate_cycles_witness:
  "((\<lambda>s. Option.bind s (\<lambda>T. map_option snd (navigate True T))) ^^ 3) (Some two_panes) =
     Some (two_panes\<lparr>focused := Some 1\<rparr>)"
  using navigate_cycles [OF two_panes_represents, of 1 3]
  by (simp add: numeral_2_eq_2 [symmetric])



end
