(* ===== verification/Rust_Map.thy ===== *)
theory Rust_Map
  imports Limux_Prelude "HOL-Library.AList" "HOL-Library.Multiset"
begin

text \<open>
  Rust's \<open>HashMap\<close> as an association list with distinct keys. The position of an entry in the list
  stands for the iteration order of the map, which Rust leaves open: what is proved about an
  operation that iterates holds for every order. \<open>insert\<close> and \<open>remove\<close> are the library's
  \<open>AList.update\<close> and \<open>AList.delete\<close>, and \<open>hm_modify\<close> is a write through \<open>get_mut\<close>.
\<close>

type_synonym ('k, 'v) hashmap = "('k \<times> 'v) list"

abbreviation hm_get :: "('k, 'v) hashmap \<Rightarrow> 'k \<Rightarrow> 'v option" where
  "hm_get \<equiv> map_of"

abbreviation hm_insert :: "'k \<Rightarrow> 'v \<Rightarrow> ('k, 'v) hashmap \<Rightarrow> ('k, 'v) hashmap" where
  "hm_insert \<equiv> AList.update"

abbreviation hm_remove :: "'k \<Rightarrow> ('k, 'v) hashmap \<Rightarrow> ('k, 'v) hashmap" where
  "hm_remove \<equiv> AList.delete"

definition hm_modify :: "'k \<Rightarrow> ('v \<Rightarrow> 'v) \<Rightarrow> ('k, 'v) hashmap \<Rightarrow> ('k, 'v) hashmap" where
  "hm_modify k f m = map (\<lambda>(k', v). (k', if k' = k then f v else v)) m"

abbreviation hm_keys :: "('k, 'v) hashmap \<Rightarrow> 'k list" where
  "hm_keys m \<equiv> map fst m"

definition hm_ok :: "('k, 'v) hashmap \<Rightarrow> bool" where
  "hm_ok m \<longleftrightarrow> distinct (hm_keys m)"

definition hm_contains :: "('k, 'v) hashmap \<Rightarrow> 'k \<Rightarrow> bool" where
  "hm_contains m k \<longleftrightarrow> hm_get m k \<noteq> None"

lemma hm_contains_keys: "hm_contains m k \<longleftrightarrow> k \<in> set (hm_keys m)"
  by (simp add: hm_contains_def map_of_eq_None_iff)

lemma hm_keys_modify [simp]: "hm_keys (hm_modify k f m) = hm_keys m"
  by (induction m) (auto simp: hm_modify_def)

lemma hm_get_modify [simp]:
  "hm_get (hm_modify k f m) k' = (if k' = k then map_option f (hm_get m k) else hm_get m k')"
  by (induction m) (auto simp: hm_modify_def)

lemma hm_ok_modify [simp]: "hm_ok (hm_modify k f m) = hm_ok m"
  by (simp add: hm_ok_def)

lemma length_hm_modify [simp]: "length (hm_modify k f m) = length m"
  by (simp add: hm_modify_def)

lemma hm_ok_insert [simp]: "hm_ok m \<Longrightarrow> hm_ok (hm_insert k v m)"
  by (simp add: hm_ok_def distinct_update)

lemma hm_ok_remove [simp]: "hm_ok m \<Longrightarrow> hm_ok (hm_remove k m)"
  by (simp add: hm_ok_def distinct_delete)

lemma hm_keys_insert [simp]: "set (hm_keys (hm_insert k v m)) = insert k (set (hm_keys m))"
  by (simp add: dom_update [unfolded dom_map_of_conv_image_fst] image_image)

lemma hm_keys_remove [simp]: "set (hm_keys (hm_remove k m)) = set (hm_keys m) - {k}"
  by (auto simp: AList.delete_keys)

lemma hm_get_insert [simp]: "hm_get (hm_insert k v m) k' = (if k' = k then Some v else hm_get m k')"
  by (simp add: update_conv')

lemma hm_get_remove [simp]: "hm_get (hm_remove k m) k' = (if k' = k then None else hm_get m k')"
  by (simp add: delete_conv')

lemma hm_insert_fresh: "k \<notin> set (hm_keys m) \<Longrightarrow> hm_insert k v m = m @ [(k, v)]"
  by (induction m) auto

text \<open>The entry of a key splits the table, and every edit at that key is an edit at that place.\<close>

lemma hm_splitE:
  assumes "hm_ok m" "hm_get m k = Some v"
  obtains xs ys where "m = xs @ (k, v) # ys" "k \<notin> set (hm_keys xs)" "k \<notin> set (hm_keys ys)"
proof -
  obtain xs ys where "m = xs @ (k, v) # ys" using map_of_SomeD [OF assms(2)] by (meson split_list)
  with assms(1) show ?thesis by (intro that) (auto simp: hm_ok_def)
qed

lemma hm_modify_absent: "k \<notin> set (hm_keys m) \<Longrightarrow> hm_modify k f m = m"
  by (induction m) (auto simp: hm_modify_def)

lemma hm_modify_split [simp]:
  "k \<notin> set (hm_keys xs) \<Longrightarrow> k \<notin> set (hm_keys ys) \<Longrightarrow>
     hm_modify k f (xs @ (k, v) # ys) = xs @ (k, f v) # ys"
  using hm_modify_absent [of k xs f] hm_modify_absent [of k ys f] by (simp add: hm_modify_def)

lemma hm_remove_split [simp]:
  "k \<notin> set (hm_keys xs) \<Longrightarrow> k \<notin> set (hm_keys ys) \<Longrightarrow>
     hm_remove k (xs @ (k, v) # ys) = xs @ ys"
  by (induction xs) auto

lemma hm_get_in: "hm_ok m \<Longrightarrow> (k, v) \<in> set m \<Longrightarrow> hm_get m k = Some v"
  by (simp add: hm_ok_def)

lemma hm_ball_modify:
  assumes "hm_ok m" "\<forall>(k', v)\<in>set m. P k' v" "\<And>v. P k v \<Longrightarrow> P k (f v)"
  shows "\<forall>(k', v)\<in>set (hm_modify k f m). P k' v"
  using assms(2,3) by (fastforce simp: hm_modify_def)

lemma hm_ball_insert:
  assumes "\<forall>(k', v)\<in>set m. P k' v" "P k v"
  shows "\<forall>(k', v)\<in>set (hm_insert k v m). P k' v"
  using assms by (induction m) (auto split: if_splits)

lemma hm_ball_remove: "\<forall>(k', v)\<in>set m. P k' v \<Longrightarrow> \<forall>(k', v)\<in>set (hm_remove k m). P k' v"
  by (induction m) auto

lemma hm_contains_edits [simp]:
  "hm_contains (hm_insert k v m) k' \<longleftrightarrow> k' = k \<or> hm_contains m k'"
  "hm_contains (hm_remove k m) k' \<longleftrightarrow> k' \<noteq> k \<and> hm_contains m k'"
  "hm_contains (hm_modify k f m) k' \<longleftrightarrow> hm_contains m k'"
  "\<not> hm_contains [] k'"
  by (auto simp: hm_contains_def)

lemma hm_containsE:
  assumes "hm_contains m k"
  obtains v where "hm_get m k = Some v"
  using assms by (auto simp: hm_contains_def)

lemma hm_contains_get [intro]: "hm_get m k = Some v \<Longrightarrow> hm_contains m k"
  by (simp add: hm_contains_def)

lemma hm_remove_insert: "n \<noteq> k \<Longrightarrow> hm_remove k (hm_insert n v m) = hm_insert n v (hm_remove k m)"
  by (induction m) auto

lemma hm_remove_modify [simp]: "hm_remove k (hm_modify k f m) = hm_remove k m"
  by (induction m) (auto simp: hm_modify_def)

lemma hm_remove_modify_other: "n \<noteq> k \<Longrightarrow> hm_remove k (hm_modify n f m) = hm_modify n f (hm_remove k m)"
  by (induction m) (auto simp: hm_modify_def)

end
