(* ===== verification/Rust_Str.thy ===== *)
theory Rust_Str
  imports Limux_Prelude "HOL-Library.Sublist"
begin

text \<open>
  The part of Rust's \<open>str\<close> and of number formatting and parsing that the sources use. A string is a
  list of bytes (Isabelle's 8-bit characters); the functions below treat the ASCII range as Rust
  does and leave other bytes alone, so case folding and white space of non-ASCII code points are
  not modelled.
\<close>

section \<open>Characters\<close>

definition code :: "char \<Rightarrow> nat" where
  "code c = of_char c"

definition is_digit :: "char \<Rightarrow> bool" where
  "is_digit c \<longleftrightarrow> 48 \<le> code c \<and> code c \<le> 57"

definition digit :: "nat \<Rightarrow> char" where
  "digit d = char_of (48 + d)"

definition ascii_lower :: "char \<Rightarrow> char" where
  "ascii_lower c = (if 65 \<le> code c \<and> code c \<le> 90 then char_of (code c + 32) else c)"

definition to_lowercase :: "string \<Rightarrow> string" where
  "to_lowercase = map ascii_lower"

text \<open>\<open>char::is_whitespace\<close> on the ASCII range: tab, line feed, vertical tab, form feed, carriage
  return and space.\<close>

definition is_whitespace :: "char \<Rightarrow> bool" where
  "is_whitespace c \<longleftrightarrow> code c = 32 \<or> (9 \<le> code c \<and> code c \<le> 13)"

lemma code_digit [simp]: "d < 10 \<Longrightarrow> code (digit d) = 48 + d"
  by (simp add: code_def digit_def)

lemma is_digit_digit [simp]: "d < 10 \<Longrightarrow> is_digit (digit d)"
  by (simp add: is_digit_def)

lemma is_digit_not_whitespace: "is_digit c \<Longrightarrow> \<not> is_whitespace c"
  by (auto simp: is_digit_def is_whitespace_def)

section \<open>Trimming and splitting\<close>

definition trim_start :: "string \<Rightarrow> string" where
  "trim_start s = dropWhile is_whitespace s"

definition trim_end :: "string \<Rightarrow> string" where
  "trim_end s = rev (dropWhile is_whitespace (rev s))"

definition trim :: "string \<Rightarrow> string" where
  "trim s = trim_end (trim_start s)"

fun strip_prefix :: "string \<Rightarrow> string \<Rightarrow> string option" where
  "strip_prefix [] s = Some s"
| "strip_prefix (p # ps) [] = None"
| "strip_prefix (p # ps) (c # s) = (if p = c then strip_prefix ps s else None)"

definition starts_with :: "string \<Rightarrow> string \<Rightarrow> bool" where
  "starts_with p s = (strip_prefix p s \<noteq> None)"

fun split_on :: "char \<Rightarrow> string \<Rightarrow> string list" where
  "split_on d [] = [[]]"
| "split_on d (c # s) =
     (if c = d then [] # split_on d s
      else case split_on d s of [] \<Rightarrow> [[c]] | f # fs \<Rightarrow> (c # f) # fs)"

fun join :: "string \<Rightarrow> string list \<Rightarrow> string" where
  "join sep [] = []"
| "join sep [s] = s"
| "join sep (s # ss) = s @ sep @ join sep ss"

text \<open>\<open>str::rfind\<close> of one character: the position of its last occurrence.\<close>

fun rfind :: "char \<Rightarrow> string \<Rightarrow> usize option" where
  "rfind d [] = None"
| "rfind d (c # s) =
     (case rfind d s of Some i \<Rightarrow> Some (Suc i) | None \<Rightarrow> if c = d then Some 0 else None)"

lemma strip_prefix_eq_Some [simp]: "strip_prefix p s = Some r \<longleftrightarrow> s = p @ r"
  by (induction p s rule: strip_prefix.induct) auto

lemma strip_prefix_append [simp]: "strip_prefix p (p @ r) = Some r"
  by simp

lemma starts_with_prefix: "starts_with p s \<longleftrightarrow> prefix p s"
  using strip_prefix_eq_Some [of p s] by (force simp: starts_with_def prefix_def)

lemma split_on_not_Nil [simp]: "split_on d s \<noteq> []"
  by (induction s) (auto split: list.splits)

lemma split_on_no_sep: "d \<notin> set s \<Longrightarrow> split_on d s = [s]"
  by (induction s) auto

lemma split_on_append: "d \<notin> set a \<Longrightarrow> split_on d (a @ d # s) = a # split_on d s"
  by (induction a) auto

lemma split_on_join:
  assumes "fs \<noteq> []" "\<forall>f\<in>set fs. d \<notin> set f"
  shows "split_on d (join [d] fs) = fs"
  using assms by (induction "[d]" fs rule: join.induct) (auto simp: split_on_no_sep split_on_append)

lemma join_split_on: "join [d] (split_on d s) = s"
proof (induction s)
  case (Cons c s)
  obtain f fs where e: "split_on d s = f # fs" by (metis split_on_not_Nil list.exhaust)
  then have "join [d] (f # fs) = s" using Cons by simp
  with e show ?case by (cases fs) auto
qed simp

lemma split_on_fields: "f \<in> set (split_on d s) \<Longrightarrow> d \<notin> set f"
proof (induction s arbitrary: f)
  case (Cons c s)
  obtain g gs where e: "split_on d s = g # gs" by (metis split_on_not_Nil list.exhaust)
  with Cons show ?case by (auto split: if_splits)
qed simp

lemma rfind_None [simp]: "rfind d s = None \<longleftrightarrow> d \<notin> set s"
  by (induction s) (auto split: option.splits)

lemma rfind_Some:
  "rfind d s = Some i \<Longrightarrow> i < length s \<and> s ! i = d \<and> d \<notin> set (drop (Suc i) s)"
proof (induction s arbitrary: i)
  case (Cons c s)
  show ?case
  proof (cases "rfind d s")
    case None
    with Cons.prems show ?thesis by (auto split: if_splits)
  next
    case (Some k)
    with Cons show ?thesis by auto
  qed
qed simp

lemma rfind_append: "d \<notin> set b \<Longrightarrow> rfind d (a @ d # b) = Some (length a)"
  by (induction a) (auto split: option.splits)

lemma trim_clean: "s = [] \<or> \<not> is_whitespace (hd s) \<and> \<not> is_whitespace (last s) \<Longrightarrow> trim s = s"
proof -
  have d: "x = [] \<or> \<not> is_whitespace (hd x) \<Longrightarrow> dropWhile is_whitespace x = x" for x
    by (cases x) auto
  assume "s = [] \<or> \<not> is_whitespace (hd s) \<and> \<not> is_whitespace (last s)"
  then show "trim s = s"
    by (auto simp: trim_def trim_start_def trim_end_def d hd_rev)
qed

section \<open>Unsigned decimal numbers\<close>

text \<open>\<open>to_string\<close> of an unsigned integer, and \<open>str::parse\<close>: an optional plus sign, at least one
  digit, nothing else, and a value that fits the type.\<close>

fun nat_str :: "nat \<Rightarrow> string" where
  "nat_str n = (if n < 10 then [digit n] else nat_str (n div 10) @ [digit (n mod 10)])"

declare nat_str.simps [simp del]

definition digits_val :: "string \<Rightarrow> nat" where
  "digits_val s = foldl (\<lambda>acc c. 10 * acc + (code c - 48)) 0 s"

definition parse_digits :: "string \<Rightarrow> nat option" where
  "parse_digits s = (if s \<noteq> [] \<and> list_all is_digit s then Some (digits_val s) else None)"

definition parse_nat :: "string \<Rightarrow> nat option" where
  "parse_nat s =
     (case s of [] \<Rightarrow> None | c # r \<Rightarrow> if c = CHR ''+'' then parse_digits r else parse_digits s)"

definition parse_bounded :: "nat \<Rightarrow> string \<Rightarrow> nat option" where
  "parse_bounded bound s =
     (case parse_nat s of None \<Rightarrow> None | Some n \<Rightarrow> if n < bound then Some n else None)"

definition parse_u32 :: "string \<Rightarrow> u32 option" where
  "parse_u32 s = map_option of_nat (parse_bounded (2 ^ 32) s)"

definition parse_u16 :: "string \<Rightarrow> u16 option" where
  "parse_u16 s = map_option of_nat (parse_bounded (2 ^ 16) s)"

definition u32_str :: "u32 \<Rightarrow> string" where
  "u32_str x = nat_str (unat x)"

definition u16_str :: "u16 \<Rightarrow> string" where
  "u16_str x = nat_str (unat x)"

lemma nat_str_digits: "list_all is_digit (nat_str n)"
proof (induction n rule: nat_str.induct)
  case (1 n)
  then show ?case by (subst nat_str.simps) simp
qed

lemma nat_str_not_Nil [simp]: "nat_str n \<noteq> []"
  by (subst nat_str.simps) simp

lemma nat_str_chars: "c \<in> set (nat_str n) \<Longrightarrow> is_digit c"
  using nat_str_digits by (simp add: list_all_iff)

lemma digits_val_snoc: "digits_val (s @ [c]) = 10 * digits_val s + (code c - 48)"
  by (simp add: digits_val_def)

lemma digits_val_nat_str [simp]: "digits_val (nat_str n) = n"
proof (induction n rule: nat_str.induct)
  case (1 n)
  show ?case
  proof (cases "n < 10")
    case True
    then show ?thesis by (subst nat_str.simps) (simp add: digits_val_def)
  next
    case False
    with 1 show ?thesis by (subst nat_str.simps) (simp add: digits_val_snoc)
  qed
qed

lemma parse_nat_nat_str [simp]: "parse_nat (nat_str n) = Some n"
proof -
  obtain c r where e: "nat_str n = c # r" by (metis nat_str_not_Nil list.exhaust)
  then have "is_digit c" using nat_str_chars [of c n] by simp
  then have "c \<noteq> CHR ''+''" by (auto simp: is_digit_def code_def)
  with e show ?thesis
    using nat_str_digits [of n] digits_val_nat_str [of n] by (simp add: parse_nat_def parse_digits_def)
qed

lemma parse_u32_u32_str [simp]: "parse_u32 (u32_str x) = Some x"
  using unsigned_less [where 'a = nat and w = x] by (simp add: parse_u32_def u32_str_def parse_bounded_def)

lemma parse_u16_u16_str [simp]: "parse_u16 (u16_str x) = Some x"
  using unsigned_less [where 'a = nat and w = x] by (simp add: parse_u16_def u16_str_def parse_bounded_def)

lemma u32_str_chars: "c \<in> set (u32_str x) \<Longrightarrow> is_digit c"
  by (simp add: u32_str_def nat_str_chars)

lemma u16_str_chars: "c \<in> set (u16_str x) \<Longrightarrow> is_digit c"
  by (simp add: u16_str_def nat_str_chars)

lemma not_digits [simp]:
  "\<not> is_digit (CHR '':'')" "\<not> is_digit (CHR '' '')" "\<not> is_digit (CHR ''.'')"
  "\<not> is_digit (CHR ''|'')" "\<not> is_digit (CHR ''-'')" "\<not> is_digit (CHR ''+'')"
  by (simp_all add: is_digit_def code_def)

lemma nat_str_inj [simp]: "nat_str m = nat_str n \<longleftrightarrow> m = n"
  by (metis digits_val_nat_str)

lemma u32_str_inj [simp]: "u32_str x = u32_str y \<longleftrightarrow> x = y"
  by (metis parse_u32_u32_str option.inject)

lemma digit_char:
  "digit 0 = CHR ''0''" "digit (Suc 0) = CHR ''1''" "digit 2 = CHR ''2''" "digit 3 = CHR ''3''"
  "digit 4 = CHR ''4''" "digit 5 = CHR ''5''" "digit 6 = CHR ''6''" "digit 7 = CHR ''7''"
  "digit 8 = CHR ''8''" "digit 9 = CHR ''9''"
  by code_simp+

text \<open>Evaluation of the conversions on concrete arguments.\<close>

lemmas number_eval = parse_u32_def parse_u16_def parse_bounded_def parse_nat_def parse_digits_def
  digits_val_def is_digit_def code_def u32_str_def u16_str_def digit_char

section \<open>Lines\<close>

text \<open>\<open>str::lines\<close>: split at line feeds, a trailing carriage return of a line is dropped, and a
  final line feed does not start another line.\<close>

definition strip_cr :: "string \<Rightarrow> string" where
  "strip_cr l = (if l \<noteq> [] \<and> last l = CHR 0x0D then butlast l else l)"

definition lines :: "string \<Rightarrow> string list" where
  "lines s =
     (let fs = split_on (CHR 0x0A) s
      in if last fs = [] then map strip_cr (butlast fs)
         else map strip_cr (butlast fs) @ [last fs])"

section \<open>Trimmed strings\<close>

lemma trim_ends:
  assumes "trim s \<noteq> []"
  shows "\<not> is_whitespace (hd (trim s))" "\<not> is_whitespace (last (trim s))"
proof -
  let ?w = "dropWhile is_whitespace (rev (trim_start s))"
  have t: "trim s = rev ?w" by (simp add: trim_def trim_end_def)
  with assms have ne: "?w \<noteq> []" by simp
  then show "\<not> is_whitespace (last (trim s))" by (simp add: t last_rev hd_dropWhile)
  obtain u where u: "rev (trim_start s) = u @ ?w" by (metis takeWhile_dropWhile_id)
  have "hd (a @ b) = hd a \<and> a @ b \<noteq> []" if "a \<noteq> []" for a b :: string using that by simp
  moreover have "trim_start s = trim s @ rev u" using arg_cong [OF u, of rev] by (simp add: t)
  ultimately have "hd (trim_start s) = hd (trim s)" "trim_start s \<noteq> []" using assms by metis+
  then show "\<not> is_whitespace (hd (trim s))" by (metis trim_start_def hd_dropWhile)
qed

lemma trim_idem: "trim (trim s) = trim s"
  using trim_clean [of "trim s"] trim_ends [of s] by blast

lemma trim_start_nonblank: "s \<noteq> [] \<Longrightarrow> \<not> is_whitespace (hd s) \<Longrightarrow> trim_start s = s"
  by (cases s) (simp_all add: trim_start_def)

lemma trim_snoc: "is_whitespace c \<Longrightarrow> trim (s @ [c]) = trim s"
  by (cases "\<forall>x\<in>set s. is_whitespace x")
    (auto simp: trim_def trim_start_def trim_end_def dropWhile_append dest: set_dropWhileD)

lemma trim_strip_cr: "trim (strip_cr l) = trim l"
proof (cases "l \<noteq> [] \<and> last l = CHR 0x0D")
  case True
  then have "l = butlast l @ [CHR 0x0D]" by (metis append_butlast_last_id)
  moreover have "is_whitespace (CHR 0x0D)" by code_simp
  ultimately have "trim l = trim (butlast l)" using trim_snoc by metis
  with True show ?thesis by (simp add: strip_cr_def)
qed (auto simp: strip_cr_def)

end
