(* ===== verification/Remote_Config.thy ===== *)
theory Remote_Config
  imports Rust_Str "HOL-Library.Char_ord" "HOL-Library.List_Lexorder" "HOL-Library.Multiset"
begin

text \<open>
  Model of \<open>app/src/remote/config.rs\<close> (configuration record, ssh argument lists, transport key,
  credentials, manifest lookup), of \<open>app/src/remote/shell.rs\<close> (the startup command) and of the
  argument builders of \<open>app/src/remote/file_drop.rs\<close>. Random bytes and the port that the operating
  system assigns are arguments. Serialisation is not modelled.
\<close>

section \<open>Data\<close>

record RemoteConfiguration =
  destination :: string
  port :: "u16 option"
  identity_file :: "string option"
  ssh_options :: "string list"
  terminal_startup_command :: "string option"
  relay_port :: "u16 option"
  relay_id :: "string option"
  relay_token :: "string option"
  local_socket_path :: "string option"

datatype RemoteConnectionState =
    Disconnected | Connecting | Connected | ConnError

datatype RemoteDaemonState =
    Unavailable | Bootstrapping | Ready | DaemonError

record RemoteDaemonStatus =
  daemon_state :: RemoteDaemonState
  daemon_detail :: "string option"
  daemon_version :: "string option"
  daemon_name :: "string option"
  daemon_capabilities :: "string list"
  daemon_remote_path :: "string option"

record ProxyEndpoint =
  proxy_host :: string
  proxy_port :: u16

record ManifestEntry =
  go_os :: string
  go_arch :: string
  download_url :: string
  entry_sha256 :: string

fun conn_state_str :: "RemoteConnectionState \<Rightarrow> string" where
  "conn_state_str Disconnected = ''disconnected''"
| "conn_state_str Connecting = ''connecting''"
| "conn_state_str Connected = ''connected''"
| "conn_state_str ConnError = ''error''"

section \<open>SSH arguments\<close>

definition display_target :: "RemoteConfiguration \<Rightarrow> string" where
  "display_target cfg =
     (case port cfg of
        Some p \<Rightarrow> destination cfg @ '':'' @ u16_str p
      | None \<Rightarrow> destination cfg)"

definition has_ssh_option :: "RemoteConfiguration \<Rightarrow> string \<Rightarrow> bool" where
  "has_ssh_option cfg key =
     list_ex (\<lambda>o'. starts_with key o' \<and>
        (length o' = length key \<or> o' ! length key = CHR ''='')) (ssh_options cfg)"

definition append_connection_args :: "RemoteConfiguration \<Rightarrow> string list \<Rightarrow> string list" where
  "append_connection_args cfg args =
     args @
     (case port cfg of Some p \<Rightarrow> [''-p'', u16_str p] | None \<Rightarrow> []) @
     (case identity_file cfg of Some i \<Rightarrow> [''-i'', i] | None \<Rightarrow> []) @
     concat (map (\<lambda>opt. [''-o'', opt]) (ssh_options cfg))"

definition host_key_args :: "RemoteConfiguration \<Rightarrow> string list" where
  "host_key_args cfg =
     (if \<not> has_ssh_option cfg ''StrictHostKeyChecking''
      then [''-o'', ''StrictHostKeyChecking=accept-new''] else [])"

definition ssh_interactive_args :: "RemoteConfiguration \<Rightarrow> string list" where
  "ssh_interactive_args cfg =
     append_connection_args cfg
       ([''-o'', ''ServerAliveInterval=20'', ''-o'', ''ServerAliveCountMax=2''] @ host_key_args cfg)"

definition ssh_batch_args :: "RemoteConfiguration \<Rightarrow> string list" where
  "ssh_batch_args cfg =
     append_connection_args cfg
       ([''-o'', ''ConnectTimeout=6'', ''-o'', ''ServerAliveInterval=20'',
         ''-o'', ''ServerAliveCountMax=2''] @ host_key_args cfg @
        [''-o'', ''BatchMode=yes'', ''-o'', ''ControlMaster=no''])"

definition ssh_command :: "RemoteConfiguration \<Rightarrow> string" where
  "ssh_command cfg =
     (case terminal_startup_command cfg of
        Some cmd \<Rightarrow> cmd
      | None \<Rightarrow> join '' '' ([''ssh''] @ ssh_interactive_args cfg @ [destination cfg]))"

definition build_ssh_args :: "RemoteConfiguration \<Rightarrow> string \<Rightarrow> string list" where
  "build_ssh_args cfg command = ssh_batch_args cfg @ [destination cfg, command]"

definition scp_base_args :: "RemoteConfiguration \<Rightarrow> string list" where
  "scp_base_args cfg =
     [''-o'', ''BatchMode=yes'', ''-o'', ''StrictHostKeyChecking=accept-new''] @
     (case port cfg of Some p \<Rightarrow> [''-P'', u16_str p] | None \<Rightarrow> []) @
     (case identity_file cfg of Some i \<Rightarrow> [''-i'', i] | None \<Rightarrow> []) @
     concat (map (\<lambda>opt. [''-o'', opt]) (ssh_options cfg))"

section \<open>Transport key, proxy address, manifest\<close>

definition transport_key :: "RemoteConfiguration \<Rightarrow> string" where
  "transport_key cfg =
     join ''|''
       ([''dest='' @ destination cfg] @
        (case port cfg of Some p \<Rightarrow> [''port='' @ u16_str p] | None \<Rightarrow> []) @
        (case identity_file cfg of Some i \<Rightarrow> [''id='' @ i] | None \<Rightarrow> []) @
        map (\<lambda>opt. ''opt='' @ opt) (sort (ssh_options cfg)))"

definition socks5_uri :: "ProxyEndpoint \<Rightarrow> string" where
  "socks5_uri e = ''socks5://'' @ proxy_host e @ '':'' @ u16_str (proxy_port e)"

definition find_entry :: "ManifestEntry list \<Rightarrow> string \<Rightarrow> string \<Rightarrow> ManifestEntry option" where
  "find_entry entries os arch = find (\<lambda>e. go_os e = os \<and> go_arch e = arch) entries"

section \<open>Credentials\<close>

definition hex_digit :: "nat \<Rightarrow> char" where
  "hex_digit d = (if d < 10 then char_of (48 + d) else char_of (87 + d))"

definition byte_hex :: "u8 \<Rightarrow> string" where
  "byte_hex b = [hex_digit (unat b div 16), hex_digit (unat b mod 16)]"

definition hex_encode :: "u8 list \<Rightarrow> string" where
  "hex_encode bs = concat (map byte_hex bs)"

text \<open>\<open>random_hex n\<close> with \<open>buf\<close> the buffer after the read from the random device: \<open>n\<close> bytes, zero
  where the device could not be read.\<close>

definition random_hex :: "(nat \<Rightarrow> u8 list) \<Rightarrow> nat \<Rightarrow> string" where
  "random_hex buf n = hex_encode (buf n)"

definition generate_relay_id :: "(nat \<Rightarrow> u8 list) \<Rightarrow> string" where
  "generate_relay_id buf = random_hex buf 16"

definition generate_relay_token :: "(nat \<Rightarrow> u8 list) \<Rightarrow> string" where
  "generate_relay_token buf = random_hex buf 32"

section \<open>Startup command\<close>

definition quote_char :: "char \<Rightarrow> string" where
  "quote_char c = (if c = CHR 0x27 then [CHR 0x27, CHR 0x5C, CHR 0x27, CHR 0x27] else [c])"

text \<open>\<open>s.replace('\'', "'\\''")\<close> between two single quotes.\<close>

definition single_quote :: "string \<Rightarrow> string" where
  "single_quote s = [CHR 0x27] @ concat (map quote_char s) @ [CHR 0x27]"

definition generate_bootstrap_script :: "u16 \<Rightarrow> string" where
  "generate_bootstrap_script p =
     ''export PATH='' @ [CHR 0x22] @ ''$HOME/.limux/bin:$PATH'' @ [CHR 0x22, CHR 0x0A] @
     ''export LIMUX_SOCKET_PATH='' @ [CHR 0x27] @ ''127.0.0.1:'' @ u16_str p @ [CHR 0x27, CHR 0x0A] @
     ''export COLORTERM='' @ [CHR 0x27] @ ''truecolor'' @ [CHR 0x27, CHR 0x0A] @
     ''export TERM_PROGRAM='' @ [CHR 0x27] @ ''ghostty'' @ [CHR 0x27, CHR 0x0A] @
     ''exec '' @ [CHR 0x22] @ ''$SHELL'' @ [CHR 0x22] @ '' -il''"

definition generate_startup_command :: "RemoteConfiguration \<Rightarrow> u16 \<Rightarrow> string" where
  "generate_startup_command cfg p =
     join '' '' ([''ssh''] @ ssh_interactive_args cfg @ [''-t'', destination cfg,
       single_quote (generate_bootstrap_script p)])"

text \<open>\<open>shell_escape_paths\<close> of \<open>app/src/window.rs\<close>: a path without special characters is pasted as it
  is, any other one is single-quoted.\<close>

definition shell_special :: "char \<Rightarrow> bool" where
  "shell_special c \<longleftrightarrow> is_whitespace c \<or>
     c \<in> set ([CHR 0x22, CHR 0x27, CHR 0x5C] @ ''$`!#&|;(){}[]<>?*~'')"

definition escape_path :: "string \<Rightarrow> string" where
  "escape_path p = (if list_ex shell_special p then single_quote p else p)"

definition shell_escape_paths :: "string list \<Rightarrow> string" where
  "shell_escape_paths ps = join '' '' (map escape_path ps)"

section \<open>What a POSIX shell reads\<close>

text \<open>
  The part of the shell's word rules the quoting relies on: outside quotes a backslash makes the
  next character literal, blanks separate words; between single quotes every character is
  literal. Any other character with a meaning to the shell ends in \<open>None\<close>: what it does there is
  not a literal reading. \<open>cur\<close> is the word being read, \<open>None\<close> between words.
\<close>

datatype sh_mode = Plain | Quoted

fun sh_words :: "sh_mode \<Rightarrow> string option \<Rightarrow> string \<Rightarrow> string list option" where
  "sh_words Plain None [] = Some []"
| "sh_words Plain (Some w) [] = Some [w]"
| "sh_words Quoted cur [] = None"
| "sh_words Quoted cur (c # s) =
     (if c = CHR 0x27 then sh_words Plain cur s
      else sh_words Quoted (Some (unwrap_or cur [] @ [c])) s)"
| "sh_words Plain cur (c # s) =
     (if c = CHR 0x27 then sh_words Quoted (Some (unwrap_or cur [])) s
      else if c = CHR 0x5C then
        (case s of [] \<Rightarrow> None | d # r \<Rightarrow> sh_words Plain (Some (unwrap_or cur [] @ [d])) r)
      else if is_whitespace c then
        (case cur of
           None \<Rightarrow> sh_words Plain None s
         | Some w \<Rightarrow> map_option ((#) w) (sh_words Plain None s))
      else if shell_special c then None
      else sh_words Plain (Some (unwrap_or cur [] @ [c])) s)"

lemma sh_words_quoted_body:
  "sh_words Quoted (Some w) (concat (map quote_char s) @ CHR 0x27 # r) =
     sh_words Plain (Some (w @ s)) r"
  by (induction s arbitrary: w) (auto simp: quote_char_def)

lemma sh_words_single_quote:
  "sh_words Plain cur (single_quote s @ r) = sh_words Plain (Some (unwrap_or cur [] @ s)) r"
  using sh_words_quoted_body [of "unwrap_or cur []" s r] by (simp add: single_quote_def)

lemma sh_words_plain:
  "\<not> list_ex shell_special s \<Longrightarrow> s \<noteq> [] \<Longrightarrow>
     sh_words Plain cur (s @ r) = sh_words Plain (Some (unwrap_or cur [] @ s)) r"
proof (induction s arbitrary: cur)
  case (Cons c s)
  have c: "c \<noteq> CHR 0x27" "c \<noteq> CHR 0x5C" "\<not> is_whitespace c" "\<not> shell_special c"
    using Cons.prems(1) by (auto simp: shell_special_def)
  show ?case
  proof (cases "s = []")
    case False
    with Cons c show ?thesis by (cases cur) simp_all
  qed (use c in \<open>cases cur; simp\<close>)
qed simp

lemma sh_words_escape_path:
  "p \<noteq> [] \<Longrightarrow> sh_words Plain None (escape_path p @ r) = sh_words Plain (Some p) r"
  using sh_words_single_quote [of None p r] sh_words_plain [of p None r]
  by (simp add: escape_path_def)

lemma sh_words_escaped:
  "\<forall>p\<in>set ps. p \<noteq> [] \<Longrightarrow> sh_words Plain None (shell_escape_paths ps) = Some ps"
  unfolding shell_escape_paths_def
proof (induction ps rule: induct_list012)
  case (2 p)
  then show ?case using sh_words_escape_path [of p "[]"] by simp
next
  case (3 p q ps)
  have "sh_words Plain None (escape_path p @ CHR '' '' # join '' '' (map escape_path (q # ps))) =
      map_option ((#) p) (sh_words Plain None (join '' '' (map escape_path (q # ps))))"
    using sh_words_escape_path [of p] 3(3) by (simp add: is_whitespace_def code_def)
  with 3 show ?case by simp
qed simp

end
