(* ===== verification/Workspace.thy ===== *)
theory Workspace
  imports Rust_Map Remote_Config Split_Reach
begin

text \<open>
  Model of \<open>app/src/workspace.rs\<close>: tabs, panes, workspaces, the preset colours and the sidebar
  metadata. The identifier allocators are explicit arguments here; \<open>App_Window\<close> threads the
  counters. A time stamp is a natural number.
\<close>

section \<open>Colours\<close>

datatype WorkspaceColor = Red | Orange | Yellow | Green | Blue | Purple | Pink | Gray

fun css_class :: "WorkspaceColor \<Rightarrow> string" where
  "css_class Red = ''ws-color-red''"
| "css_class Orange = ''ws-color-orange''"
| "css_class Yellow = ''ws-color-yellow''"
| "css_class Green = ''ws-color-green''"
| "css_class Blue = ''ws-color-blue''"
| "css_class Purple = ''ws-color-purple''"
| "css_class Pink = ''ws-color-pink''"
| "css_class Gray = ''ws-color-gray''"

definition ALL_colors :: "WorkspaceColor list" where
  "ALL_colors = [Red, Orange, Yellow, Green, Blue, Purple, Pink, Gray]"

fun hex :: "WorkspaceColor \<Rightarrow> bool \<Rightarrow> string" where
  "hex Red dark = (if dark then ''#ff6b6b'' else ''#e74c3c'')"
| "hex Orange dark = (if dark then ''#ffa94d'' else ''#e67e22'')"
| "hex Yellow dark = (if dark then ''#ffd43b'' else ''#f1c40f'')"
| "hex Green dark = (if dark then ''#69db7c'' else ''#2ecc71'')"
| "hex Blue dark = (if dark then ''#74c0fc'' else ''#3498db'')"
| "hex Purple dark = (if dark then ''#cc8ef5'' else ''#9b59b6'')"
| "hex Pink dark = (if dark then ''#f783ac'' else ''#e91e8a'')"
| "hex Gray dark = (if dark then ''#adb5bd'' else ''#95a5a6'')"

definition bell_hex :: "bool \<Rightarrow> string" where
  "bell_hex dark = (if dark then ''#ff6b6b'' else ''#e74c3c'')"

definition from_name :: "string \<Rightarrow> WorkspaceColor option" where
  "from_name name =
     (let n = to_lowercase name in
      if n = ''red'' then Some Red
      else if n = ''orange'' then Some Orange
      else if n = ''yellow'' then Some Yellow
      else if n = ''green'' then Some Green
      else if n = ''blue'' then Some Blue
      else if n = ''purple'' then Some Purple
      else if n = ''pink'' then Some Pink
      else if n = ''gray'' \<or> n = ''grey'' then Some Gray
      else None)"

fun color_str :: "WorkspaceColor \<Rightarrow> string" where
  "color_str Red = ''red''"
| "color_str Orange = ''orange''"
| "color_str Yellow = ''yellow''"
| "color_str Green = ''green''"
| "color_str Blue = ''blue''"
| "color_str Purple = ''purple''"
| "color_str Pink = ''pink''"
| "color_str Gray = ''gray''"

section \<open>Tabs\<close>

datatype PanelKind =
    Terminal (terminal_id: SurfaceId)
  | Browser (browser_panel: BrowserPanelId) (browser_url: string)

record Tab =
  panel :: PanelKind
  tab_title :: string
  tab_dir :: "string option"
  dir_from_osc7 :: bool

definition surface_id :: "Tab \<Rightarrow> SurfaceId option" where
  "surface_id t = (case panel t of Terminal s \<Rightarrow> Some s | Browser _ _ \<Rightarrow> None)"

definition browser_id :: "Tab \<Rightarrow> BrowserPanelId option" where
  "browser_id t = (case panel t of Browser b _ \<Rightarrow> Some b | Terminal _ \<Rightarrow> None)"

definition is_terminal :: "Tab \<Rightarrow> bool" where
  "is_terminal t = (case panel t of Terminal _ \<Rightarrow> True | Browser _ _ \<Rightarrow> False)"

definition is_browser :: "Tab \<Rightarrow> bool" where
  "is_browser t = (case panel t of Browser _ _ \<Rightarrow> True | Terminal _ \<Rightarrow> False)"

definition fresh_tab :: "PanelKind \<Rightarrow> Tab" where
  "fresh_tab k = \<lparr>panel = k, tab_title = [], tab_dir = None, dir_from_osc7 = False\<rparr>"

section \<open>Panes\<close>

record Pane =
  pane_key :: PaneId
  tabs :: "Tab list"
  selected_tab :: usize
  pane_bell :: bool

definition Pane_new_with_id :: "PaneId \<Rightarrow> SurfaceId \<Rightarrow> Pane" where
  "Pane_new_with_id i s =
     \<lparr>pane_key = i, tabs = [fresh_tab (Terminal s)], selected_tab = 0, pane_bell = False\<rparr>"

definition Pane_new_browser_with_id :: "PaneId \<Rightarrow> BrowserPanelId \<Rightarrow> string \<Rightarrow> Pane" where
  "Pane_new_browser_with_id i b url =
     \<lparr>pane_key = i, tabs = [fresh_tab (Browser b url)], selected_tab = 0, pane_bell = False\<rparr>"

definition active_tab :: "Pane \<Rightarrow> Tab option" where
  "active_tab p = get_opt (tabs p) (selected_tab p)"

definition active_surface :: "Pane \<Rightarrow> SurfaceId option" where
  "active_surface p = Option.bind (active_tab p) surface_id"

definition active_browser :: "Pane \<Rightarrow> BrowserPanelId option" where
  "active_browser p = Option.bind (active_tab p) browser_id"

definition active_panel :: "Pane \<Rightarrow> PanelKind option" where
  "active_panel p = map_option panel (active_tab p)"

definition surface_ids :: "Pane \<Rightarrow> SurfaceId list" where
  "surface_ids p = List.map_filter surface_id (tabs p)"

definition browser_ids :: "Pane \<Rightarrow> BrowserPanelId list" where
  "browser_ids p = List.map_filter browser_id (tabs p)"

definition add_tab_of :: "PanelKind \<Rightarrow> Pane \<Rightarrow> usize \<times> Pane" where
  "add_tab_of k p =
     (let idx = length (tabs p)
      in (idx, p\<lparr>tabs := tabs p @ [fresh_tab k], selected_tab := idx\<rparr>))"

definition add_tab :: "SurfaceId \<Rightarrow> Pane \<Rightarrow> usize \<times> Pane" where
  "add_tab s = add_tab_of (Terminal s)"

definition add_browser_tab :: "BrowserPanelId \<Rightarrow> string \<Rightarrow> Pane \<Rightarrow> usize \<times> Pane" where
  "add_browser_tab b url = add_tab_of (Browser b url)"

definition remove_tab_where :: "(Tab \<Rightarrow> bool) \<Rightarrow> Pane \<Rightarrow> bool \<times> Pane" where
  "remove_tab_where P p =
     (case position P (tabs p) of
        None \<Rightarrow> (False, p)
      | Some idx \<Rightarrow>
          (let ts = remove_at idx (tabs p)
           in (True, p\<lparr>tabs := ts,
                 selected_tab := (if selected_tab p \<ge> length ts \<and> ts \<noteq> [] then length ts - 1
                                  else selected_tab p)\<rparr>)))"

definition remove_tab :: "SurfaceId \<Rightarrow> Pane \<Rightarrow> bool \<times> Pane" where
  "remove_tab s = remove_tab_where (\<lambda>t. surface_id t = Some s)"

definition remove_browser_tab :: "BrowserPanelId \<Rightarrow> Pane \<Rightarrow> bool \<times> Pane" where
  "remove_browser_tab b = remove_tab_where (\<lambda>t. browser_id t = Some b)"

definition select_tab :: "usize \<Rightarrow> Pane \<Rightarrow> Pane" where
  "select_tab idx p = (if idx < length (tabs p) then p\<lparr>selected_tab := idx\<rparr> else p)"

definition cycle_tab :: "bool \<Rightarrow> Pane \<Rightarrow> PanelKind option \<times> Pane" where
  "cycle_tab forward p =
     (if length (tabs p) \<le> 1 then (active_panel p, p)
      else let n = length (tabs p);
               p' = p\<lparr>selected_tab := (if forward then (selected_tab p + 1) mod n
                                       else (selected_tab p + n - 1) mod n)\<rparr>
           in (active_panel p', p'))"

text \<open>\<open>iter_mut().find(..)\<close> followed by a write: the first tab that matches changes.\<close>

fun modify_first :: "('a \<Rightarrow> bool) \<Rightarrow> ('a \<Rightarrow> 'a) \<Rightarrow> 'a list \<Rightarrow> 'a list" where
  "modify_first P f [] = []"
| "modify_first P f (x # xs) = (if P x then f x # xs else x # modify_first P f xs)"

definition set_tab_title :: "SurfaceId \<Rightarrow> string \<Rightarrow> Pane \<Rightarrow> Pane" where
  "set_tab_title s title p =
     p\<lparr>tabs := modify_first (\<lambda>t. surface_id t = Some s) (tab_title_update (\<lambda>_. title)) (tabs p)\<rparr>"

definition set_browser_tab_title :: "BrowserPanelId \<Rightarrow> string \<Rightarrow> Pane \<Rightarrow> Pane" where
  "set_browser_tab_title b title p =
     p\<lparr>tabs := modify_first (\<lambda>t. browser_id t = Some b) (tab_title_update (\<lambda>_. title)) (tabs p)\<rparr>"

definition set_tab_directory :: "SurfaceId \<Rightarrow> string \<Rightarrow> Pane \<Rightarrow> Pane" where
  "set_tab_directory s dir p =
     p\<lparr>tabs := modify_first (\<lambda>t. surface_id t = Some s) (tab_dir_update (\<lambda>_. Some dir)) (tabs p)\<rparr>"

definition has_surface :: "SurfaceId \<Rightarrow> Pane \<Rightarrow> bool" where
  "has_surface s p = list_ex (\<lambda>t. surface_id t = Some s) (tabs p)"

definition has_browser :: "BrowserPanelId \<Rightarrow> Pane \<Rightarrow> bool" where
  "has_browser b p = list_ex (\<lambda>t. browser_id t = Some b) (tabs p)"

section \<open>Sidebar metadata\<close>

datatype LogLevel = Info | Progress | Success | Warning | LogError

definition log_level_from_str :: "string \<Rightarrow> LogLevel" where
  "log_level_from_str s =
     (if s = ''progress'' then Progress
      else if s = ''success'' then Success
      else if s = ''warning'' \<or> s = ''warn'' then Warning
      else if s = ''error'' then LogError
      else Info)"

fun log_level_str :: "LogLevel \<Rightarrow> string" where
  "log_level_str Info = ''info''"
| "log_level_str Progress = ''progress''"
| "log_level_str Success = ''success''"
| "log_level_str Warning = ''warning''"
| "log_level_str LogError = ''error''"

record SidebarStatusEntry =
  status_key :: string
  status_value :: string
  status_icon :: "string option"
  status_color :: "string option"
  status_priority :: int

record SidebarLogEntry =
  log_message :: string
  log_level :: LogLevel
  log_source :: "string option"
  log_timestamp :: nat

record SidebarProgressState =
  progress_value :: f64
  progress_label :: "string option"

section \<open>Workspaces\<close>

record Workspace =
  ws_key :: WorkspaceId
  ws_title :: string
  custom_title :: "string option"
  ws_dir :: "string option"
  git_branch :: "string option"
  listening_ports :: "u16 list"
  ws_color :: "WorkspaceColor option"
  pinned :: bool
  ws_bell :: bool
  ws_panes :: "(PaneId, Pane) hashmap"
  split_tree :: SplitTree
  status_entries :: "(string, SidebarStatusEntry) hashmap"
  log_entries :: "SidebarLogEntry list"
  ws_progress :: "SidebarProgressState option"
  remote_config :: "RemoteConfiguration option"
  remote_state :: RemoteConnectionState
  remote_daemon_status :: "RemoteDaemonStatus option"
  proxy_endpoint :: "ProxyEndpoint option"

definition Workspace_new :: "WorkspaceId \<Rightarrow> Workspace" where
  "Workspace_new i =
     \<lparr>ws_key = i, ws_title = [], custom_title = None, ws_dir = None, git_branch = None,
      listening_ports = [], ws_color = None, pinned = False, ws_bell = False, ws_panes = [],
      split_tree = SplitTree_new, status_entries = [], log_entries = [], ws_progress = None,
      remote_config = None, remote_state = Disconnected, remote_daemon_status = None,
      proxy_endpoint = None\<rparr>"

definition ws_focused_pane :: "Workspace \<Rightarrow> PaneId option" where
  "ws_focused_pane ws = focused_pane (split_tree ws)"

definition set_focused_pane :: "PaneId \<Rightarrow> Workspace \<Rightarrow> Workspace" where
  "set_focused_pane p ws = ws\<lparr>split_tree := set_focused p (split_tree ws)\<rparr>"

definition display_title :: "Workspace \<Rightarrow> string" where
  "display_title ws =
     (case custom_title ws of
        Some ct \<Rightarrow> if ct \<noteq> [] then ct
                   else if ws_title ws \<noteq> [] then ws_title ws else ''Terminal''
      | None \<Rightarrow> if ws_title ws \<noteq> [] then ws_title ws else ''Terminal'')"

definition add_pane :: "Pane \<Rightarrow> Workspace \<Rightarrow> Workspace" where
  "add_pane p ws = ws\<lparr>ws_panes := hm_insert (pane_key p) p (ws_panes ws)\<rparr>"

definition remove_pane :: "PaneId \<Rightarrow> Workspace \<Rightarrow> Pane option \<times> Workspace" where
  "remove_pane i ws =
     (hm_get (ws_panes ws) i, ws\<lparr>ws_panes := hm_remove i (ws_panes ws)\<rparr>)"

definition all_surface_ids :: "Workspace \<Rightarrow> SurfaceId list" where
  "all_surface_ids ws = concat (map (surface_ids \<circ> snd) (ws_panes ws))"

definition all_browser_ids :: "Workspace \<Rightarrow> BrowserPanelId list" where
  "all_browser_ids ws = concat (map (browser_ids \<circ> snd) (ws_panes ws))"

definition all_panels :: "Workspace \<Rightarrow> PanelKind list" where
  "all_panels ws = concat (map (map panel \<circ> tabs \<circ> snd) (ws_panes ws))"

definition pane_for_surface :: "SurfaceId \<Rightarrow> Workspace \<Rightarrow> PaneId option" where
  "pane_for_surface s ws = map_option fst (find (\<lambda>(_, p). has_surface s p) (ws_panes ws))"

definition pane_for_browser :: "BrowserPanelId \<Rightarrow> Workspace \<Rightarrow> PaneId option" where
  "pane_for_browser b ws = map_option fst (find (\<lambda>(_, p). has_browser b p) (ws_panes ws))"

definition update_title_from_focused :: "Workspace \<Rightarrow> Workspace" where
  "update_title_from_focused ws =
     (case Option.bind (focused_pane (split_tree ws))
             (\<lambda>i. Option.bind (hm_get (ws_panes ws) i) active_tab) of
        None \<Rightarrow> ws
      | Some t \<Rightarrow>
          (let ws = (if tab_title t \<noteq> [] then ws\<lparr>ws_title := tab_title t\<rparr> else ws)
           in if tab_dir t \<noteq> None then ws\<lparr>ws_dir := tab_dir t\<rparr> else ws))"

end
