(* ===== verification/Surfaces.thy ===== *)
theory Surfaces
  imports Rust_Map
begin

text \<open>
  Model of \<open>app/src/surfaces.rs\<close>: the registry of live terminal surfaces, the surfaces whose widget
  exists but is not realised yet, and the identifier counter. The Ghostty handle and the GTK
  widget of an entry are opaque numbers.
\<close>

record SurfaceEntry =
  surface_handle :: nat
  gl_area :: nat

record SurfaceRegistry =
  surfaces :: "(SurfaceId, SurfaceEntry) hashmap"
  pending :: "(SurfaceId, nat) hashmap"
  reg_next_id :: SurfaceId

definition SurfaceRegistry_new :: SurfaceRegistry where
  "SurfaceRegistry_new = \<lparr>surfaces = [], pending = [], reg_next_id = 0\<rparr>"

definition register :: "SurfaceEntry \<Rightarrow> SurfaceRegistry \<Rightarrow> SurfaceId \<times> SurfaceRegistry" where
  "register e r =
     (reg_next_id r, r\<lparr>reg_next_id := reg_next_id r + 1,
                       surfaces := hm_insert (reg_next_id r) e (surfaces r)\<rparr>)"

definition register_with_id :: "SurfaceId \<Rightarrow> SurfaceEntry \<Rightarrow> SurfaceRegistry \<Rightarrow> SurfaceRegistry" where
  "register_with_id i e r = r\<lparr>surfaces := hm_insert i e (surfaces r)\<rparr>"

definition unregister :: "SurfaceId \<Rightarrow> SurfaceRegistry \<Rightarrow> SurfaceEntry option \<times> SurfaceRegistry" where
  "unregister i r = (hm_get (surfaces r) i, r\<lparr>surfaces := hm_remove i (surfaces r)\<rparr>)"

definition get_handle :: "SurfaceRegistry \<Rightarrow> SurfaceId \<Rightarrow> nat option" where
  "get_handle r i = map_option surface_handle (hm_get (surfaces r) i)"

definition get_gl_area :: "SurfaceRegistry \<Rightarrow> SurfaceId \<Rightarrow> nat option" where
  "get_gl_area r i = map_option gl_area (hm_get (surfaces r) i)"

definition all_ids :: "SurfaceRegistry \<Rightarrow> SurfaceId list" where
  "all_ids r = hm_keys (surfaces r)"

definition any_handle :: "SurfaceRegistry \<Rightarrow> nat option" where
  "any_handle r = map_option (surface_handle \<circ> snd) (first_opt (surfaces r))"

definition pre_allocate_id :: "SurfaceRegistry \<Rightarrow> SurfaceId \<times> SurfaceRegistry" where
  "pre_allocate_id r = (reg_next_id r, r\<lparr>reg_next_id := reg_next_id r + 1\<rparr>)"

definition register_pending :: "SurfaceId \<Rightarrow> nat \<Rightarrow> SurfaceRegistry \<Rightarrow> SurfaceRegistry" where
  "register_pending i g r = r\<lparr>pending := hm_insert i g (pending r)\<rparr>"

definition get_pending_gl_area :: "SurfaceRegistry \<Rightarrow> SurfaceId \<Rightarrow> nat option" where
  "get_pending_gl_area r i = hm_get (pending r) i"

definition remove_pending :: "SurfaceId \<Rightarrow> SurfaceRegistry \<Rightarrow> SurfaceRegistry" where
  "remove_pending i r = r\<lparr>pending := hm_remove i (pending r)\<rparr>"

lemma reg_next_id_frame [simp, frame_simps]:
  "reg_next_id (register_with_id i e r) = reg_next_id r"
  "reg_next_id (snd (unregister i r)) = reg_next_id r"
  "reg_next_id (remove_pending i r) = reg_next_id r"
  by (simp_all add: register_with_id_def unregister_def remove_pending_def)

lemma get_handle_register_with_id:
  "get_handle (register_with_id i e r) j = (if j = i then Some (surface_handle e) else get_handle r j)"
  by (simp add: get_handle_def register_with_id_def)

lemma get_handle_unregister:
  "get_handle (snd (unregister i r)) j = (if j = i then None else get_handle r j)"
  by (simp add: get_handle_def unregister_def)

end
