(* ===== verification/App_Window.thy ===== *)
theory App_Window
  imports Workspace Surfaces
begin

text \<open>
  Model of the state and the workspace, pane and focus operations of \<open>app/src/window.rs\<close>. The
  state is the \<open>AppWindow\<close> struct without its GTK widgets, together with the global counters and
  the surface registry that the handlers use. What a handler tells the outside (D-Bus signals, the
  tray, the remote controller, focus and close requests) is appended to \<open>effects\<close>.

  GTK is not part of the sources. The notebook shows one page per workspace in the order of
  \<open>workspaces\<close>; which page GTK shows after a page is removed or reordered is an argument
  (\<open>pick\<close>), and where a handler gives up because a widget lookup fails, the outcome of those
  lookups is the argument \<open>gtk_ok\<close>. A handler that can panic or recurse forever has a result of type
  \<open>'a run\<close> in which \<open>None\<close> stands for both.
\<close>

section \<open>State\<close>

datatype Effect =
    WorkspaceCreated WorkspaceId string
  | WorkspaceClosed WorkspaceId
  | WorkspaceRenamed WorkspaceId string
  | WorkspaceSwitched WorkspaceId
  | TitleChanged SurfaceId string
  | BellFired WorkspaceId SurfaceId
  | BellNotification string WorkspaceId
  | TrayUpdate "(WorkspaceId \<times> string \<times> bool) list"
  | ControllerConnect WorkspaceId RemoteConfiguration
  | ControllerReconnect WorkspaceId RemoteConfiguration
  | ControllerDisconnect WorkspaceId
  | SpawnSurface SurfaceId "string option" "string option"
  | RequestClose SurfaceId
  | FocusPanel PanelKind
  | SetBrowserProxy BrowserPanelId "ProxyEndpoint option"
  | DetectGitBranch WorkspaceId string
  | ScheduleClearPaneBell WorkspaceId PaneId
  | CloseWindow

record AppWindow =
  workspaces :: "Workspace list"
  current_page :: "usize option"
  sidebar_visible :: bool
  sidebar_last_width :: int
  sidebar_position :: int
  app_dir :: "string option"
  app_command :: "string option"
  registry :: SurfaceRegistry
  browsers :: "BrowserPanelId list"
  next_browser :: BrowserPanelId
  next_pane :: PaneId
  next_workspace :: WorkspaceId
  effects :: "Effect list"

text \<open>The state that \<open>init\<close> stores; the identifier allocators start at 0.\<close>

definition AppWindow_new :: "string option \<Rightarrow> string option \<Rightarrow> AppWindow" where
  "AppWindow_new dir cmd =
     \<lparr>workspaces = [], current_page = None, sidebar_visible = True, sidebar_last_width = 180,
      sidebar_position = 180, app_dir = dir, app_command = cmd, registry = SurfaceRegistry_new,
      browsers = [], next_browser = 0, next_pane = 0, next_workspace = 0, effects = []\<rparr>"

definition emit :: "Effect \<Rightarrow> AppWindow \<Rightarrow> AppWindow" where
  "emit e aw = aw\<lparr>effects := effects aw @ [e]\<rparr>"

definition modify_ws :: "usize \<Rightarrow> (Workspace \<Rightarrow> Workspace) \<Rightarrow> AppWindow \<Rightarrow> AppWindow" where
  "modify_ws i f aw = aw\<lparr>workspaces := (workspaces aw)[i := f (workspaces aw ! i)]\<rparr>"

definition modify_pane :: "usize \<Rightarrow> PaneId \<Rightarrow> (Pane \<Rightarrow> Pane) \<Rightarrow> AppWindow \<Rightarrow> AppWindow" where
  "modify_pane i p f = modify_ws i (\<lambda>ws. ws\<lparr>ws_panes := hm_modify p f (ws_panes ws)\<rparr>)"

definition ws_position :: "WorkspaceId \<Rightarrow> AppWindow \<Rightarrow> usize option" where
  "ws_position i aw = position (\<lambda>ws. ws_key ws = i) (workspaces aw)"

text \<open>The index every handler on the current workspace starts with.\<close>

definition current_ws :: "AppWindow \<Rightarrow> usize option" where
  "current_ws aw =
     (case current_page aw of
        Some page \<Rightarrow> if page < length (workspaces aw) then Some page else None
      | None \<Rightarrow> None)"

text \<open>\<open>pre_allocate_id\<close> and the creation of the terminal with a directory and a command.\<close>

definition alloc_surface ::
  "string option \<Rightarrow> string option \<Rightarrow> AppWindow \<Rightarrow> SurfaceId \<times> AppWindow" where
  "alloc_surface wd cmd aw =
     (let (s, r) = pre_allocate_id (registry aw)
      in (s, emit (SpawnSurface s wd cmd) (aw\<lparr>registry := r\<rparr>)))"

definition next_pane_id :: "AppWindow \<Rightarrow> PaneId \<times> AppWindow" where
  "next_pane_id aw = (next_pane aw, aw\<lparr>next_pane := next_pane aw + 1\<rparr>)"

definition next_workspace_id :: "AppWindow \<Rightarrow> WorkspaceId \<times> AppWindow" where
  "next_workspace_id aw = (next_workspace aw, aw\<lparr>next_workspace := next_workspace aw + 1\<rparr>)"

text \<open>\<open>next_browser_id\<close> followed by the construction of the panel, which registers it.\<close>

definition create_browser :: "AppWindow \<Rightarrow> BrowserPanelId \<times> AppWindow" where
  "create_browser aw =
     (next_browser aw, aw\<lparr>next_browser := next_browser aw + 1, browsers := next_browser aw # browsers aw\<rparr>)"

section \<open>Lookups\<close>

fun find_ws_from :: "(Workspace \<Rightarrow> PaneId option) \<Rightarrow> usize \<Rightarrow> Workspace list \<Rightarrow>
    (usize \<times> WorkspaceId \<times> PaneId) option" where
  "find_ws_from f i [] = None"
| "find_ws_from f i (ws # wss) =
     (case f ws of Some p \<Rightarrow> Some (i, ws_key ws, p) | None \<Rightarrow> find_ws_from f (Suc i) wss)"

definition find_workspace_with_surface ::
  "SurfaceId \<Rightarrow> AppWindow \<Rightarrow> (usize \<times> WorkspaceId \<times> PaneId) option" where
  "find_workspace_with_surface s aw = find_ws_from (pane_for_surface s) 0 (workspaces aw)"

definition find_workspace_with_browser ::
  "BrowserPanelId \<Rightarrow> AppWindow \<Rightarrow> (usize \<times> WorkspaceId \<times> PaneId) option" where
  "find_workspace_with_browser b aw = find_ws_from (pane_for_browser b) 0 (workspaces aw)"

definition ws_of_pane :: "PaneId \<Rightarrow> AppWindow \<Rightarrow> usize option" where
  "ws_of_pane p aw = position (\<lambda>ws. hm_contains (ws_panes ws) p) (workspaces aw)"

definition workspace_id_for_pane :: "PaneId \<Rightarrow> AppWindow \<Rightarrow> WorkspaceId option" where
  "workspace_id_for_pane p aw =
     map_option ws_key (find (\<lambda>ws. hm_contains (ws_panes ws) p) (workspaces aw))"

definition focused_workspace_id :: "AppWindow \<Rightarrow> WorkspaceId option" where
  "focused_workspace_id aw =
     Option.bind (current_page aw) (\<lambda>p. map_option ws_key (get_opt (workspaces aw) p))"

definition current_workspace_info :: "AppWindow \<Rightarrow> (WorkspaceId \<times> string) option" where
  "current_workspace_info aw =
     Option.bind (current_page aw)
       (\<lambda>p. map_option (\<lambda>ws. (ws_key ws, display_title ws)) (get_opt (workspaces aw) p))"

definition list_panes :: "WorkspaceId \<Rightarrow> AppWindow \<Rightarrow> PaneId list option" where
  "list_panes i aw =
     map_option (\<lambda>ws. hm_keys (ws_panes ws)) (find (\<lambda>ws. ws_key ws = i) (workspaces aw))"

definition list_workspaces_detailed ::
  "AppWindow \<Rightarrow> (WorkspaceId \<times> string \<times> usize \<times> bool \<times> string option) list" where
  "list_workspaces_detailed aw =
     map (\<lambda>ws. (ws_key ws, display_title ws, length (ws_panes ws), pinned ws,
                map_option color_str (ws_color ws))) (workspaces aw)"

text \<open>The working directory a new terminal inherits: that of the focused tab, else the default.\<close>

definition inherited_dir :: "Workspace \<Rightarrow> string option" where
  "inherited_dir ws =
     Option.bind (ws_focused_pane ws)
       (\<lambda>p. Option.bind (hm_get (ws_panes ws) p) (\<lambda>pane. Option.bind (active_tab pane) tab_dir))"

section \<open>Tray, focus\<close>

definition update_tray_state :: "AppWindow \<Rightarrow> AppWindow" where
  "update_tray_state aw =
     emit (TrayUpdate (map (\<lambda>ws. (ws_key ws, display_title ws, ws_bell ws)) (workspaces aw))) aw"

definition focus_active_panel :: "usize \<Rightarrow> PaneId \<Rightarrow> AppWindow \<Rightarrow> AppWindow" where
  "focus_active_panel i p aw =
     (case Option.bind (hm_get (ws_panes (workspaces aw ! i)) p) active_panel of
        Some k \<Rightarrow> emit (FocusPanel k) aw
      | None \<Rightarrow> aw)"

definition set_pane_active :: "usize \<Rightarrow> PaneId \<Rightarrow> AppWindow \<Rightarrow> AppWindow" where
  "set_pane_active i p aw = focus_active_panel i p (modify_ws i (set_focused_pane p) aw)"

section \<open>Creating workspaces\<close>

text \<open>
  The pane, workspace and page that \<open>new_workspace\<close> and \<open>new_remote_workspace\<close> build around a
  new terminal.
\<close>

definition push_workspace :: "Workspace \<Rightarrow> AppWindow \<Rightarrow> AppWindow" where
  "push_workspace ws aw =
     aw\<lparr>workspaces := workspaces aw @ [ws], current_page := Some (length (workspaces aw))\<rparr>"

definition single_pane_workspace ::
  "string option \<Rightarrow> string option \<Rightarrow> AppWindow \<Rightarrow> Workspace \<times> SurfaceId \<times> AppWindow" where
  "single_pane_workspace wd cmd aw =
     (let (s, aw) = alloc_surface wd cmd aw;
          (i, aw) = next_workspace_id aw;
          (p, aw) = next_pane_id aw;
          ws = add_pane (Pane_new_with_id p s) (Workspace_new i)
      in (ws\<lparr>split_tree := new_with_pane p\<rparr>, s, aw))"

definition new_workspace :: "AppWindow \<Rightarrow> AppWindow" where
  "new_workspace aw =
     (let wd = or_else (Option.bind (Option.bind (current_page aw) (get_opt (workspaces aw)))
                          inherited_dir) (app_dir aw);
          (ws, s, aw) = single_pane_workspace wd (app_command aw) aw;
          title = ''Workspace '' @ nat_str (length (workspaces aw) + 1);
          aw = push_workspace (ws\<lparr>ws_title := title\<rparr>) aw;
          aw = aw\<lparr>registry := remove_pending s (registry aw)\<rparr>
      in emit (WorkspaceCreated (ws_key ws) title) (update_tray_state aw))"

text \<open>\<open>fresh_port\<close>, \<open>fresh_id\<close> and \<open>fresh_token\<close> are what the credential generators return.\<close>

definition fill_relay ::
  "u16 option \<Rightarrow> string \<Rightarrow> string \<Rightarrow> RemoteConfiguration \<Rightarrow> RemoteConfiguration" where
  "fill_relay fresh_port fresh_id fresh_token cfg =
     (let cfg = (if relay_port cfg = None then cfg\<lparr>relay_port := fresh_port\<rparr> else cfg);
          cfg = (if relay_id cfg = None then cfg\<lparr>relay_id := Some fresh_id\<rparr> else cfg)
      in if relay_token cfg = None then cfg\<lparr>relay_token := Some fresh_token\<rparr> else cfg)"

definition remote_startup :: "RemoteConfiguration \<Rightarrow> string" where
  "remote_startup cfg =
     (let p = unwrap_or (relay_port cfg) 0
      in if p > 0 then generate_startup_command cfg p else ssh_command cfg)"

definition new_remote_workspace ::
  "u16 option \<Rightarrow> string \<Rightarrow> string \<Rightarrow> RemoteConfiguration \<Rightarrow> AppWindow \<Rightarrow> WorkspaceId \<times> AppWindow" where
  "new_remote_workspace fresh_port fresh_id fresh_token cfg aw =
     (let cfg = fill_relay fresh_port fresh_id fresh_token cfg;
          (ws, s, aw) = single_pane_workspace (app_dir aw) (Some (remote_startup cfg)) aw;
          title = display_target cfg;
          ws = ws\<lparr>remote_config := Some cfg, remote_state := Connecting,
                  ws_title := title, custom_title := Some title\<rparr>;
          aw = push_workspace ws aw;
          aw = aw\<lparr>registry := remove_pending s (registry aw)\<rparr>;
          aw = emit (WorkspaceCreated (ws_key ws) title) (update_tray_state aw)
      in (ws_key ws, emit (ControllerConnect (ws_key ws) cfg) aw))"

section \<open>Closing\<close>

type_synonym page_pick = "usize option \<Rightarrow> usize \<Rightarrow> usize \<Rightarrow> usize option"

definition remove_workspace_at :: "page_pick \<Rightarrow> usize \<Rightarrow> AppWindow \<Rightarrow> AppWindow" where
  "remove_workspace_at pick idx aw =
     (let ws = workspaces aw ! idx;
          aw = (if remote_config ws \<noteq> None then emit (ControllerDisconnect (ws_key ws)) aw else aw);
          aw = aw\<lparr>workspaces := remove_at idx (workspaces aw)\<rparr>;
          aw = aw\<lparr>current_page := pick (current_page aw) idx (length (workspaces aw))\<rparr>
      in emit (WorkspaceClosed (ws_key ws)) (update_tray_state aw))"

definition remove_pane_from_split :: "usize \<Rightarrow> PaneId \<Rightarrow> AppWindow \<Rightarrow> AppWindow run" where
  "remove_pane_from_split i p aw =
     do { (_, t) \<leftarrow> remove p (split_tree (workspaces aw ! i));
          Some (modify_ws i (\<lambda>ws. snd (remove_pane p (ws\<lparr>split_tree := t\<rparr>))) aw) }"

definition focus_after_close :: "usize \<Rightarrow> AppWindow \<Rightarrow> AppWindow" where
  "focus_after_close i aw =
     (case ws_focused_pane (workspaces aw ! i) of
        Some p \<Rightarrow> set_pane_active i p aw
      | None \<Rightarrow> aw)"

text \<open>
  The three cases that \<open>close_surface\<close> and \<open>close_browser\<close> share after the panel has been
  unregistered: the last panel of the workspace, the last tab of one of several panes, one of
  several tabs (\<open>drop_tab\<close> removes it from the pane).
\<close>

definition close_panel ::
  "page_pick \<Rightarrow> (Pane \<Rightarrow> bool \<times> Pane) \<Rightarrow> usize \<Rightarrow> PaneId \<Rightarrow> AppWindow \<Rightarrow> AppWindow run" where
  "close_panel pick drop_tab i p aw =
     (let ws = workspaces aw ! i;
          tab_count = (case hm_get (ws_panes ws) p of Some pane \<Rightarrow> length (tabs pane) | None \<Rightarrow> 0);
          pane_count = length (ws_panes ws)
      in if tab_count \<le> 1 \<and> pane_count \<le> 1 then
           (let aw = remove_workspace_at pick i aw
            in Some (if workspaces aw = [] then emit CloseWindow aw else aw))
         else if tab_count \<le> 1 then
           do { aw \<leftarrow> remove_pane_from_split i p aw; Some (focus_after_close i aw) }
         else Some (focus_active_panel i p (modify_pane i p (\<lambda>pane. snd (drop_tab pane)) aw)))"

definition close_surface :: "page_pick \<Rightarrow> SurfaceId \<Rightarrow> AppWindow \<Rightarrow> AppWindow run" where
  "close_surface pick s aw =
     (case find_workspace_with_surface s aw of
        None \<Rightarrow> Some aw
      | Some (i, _, p) \<Rightarrow>
          close_panel pick (remove_tab s) i p
            (aw\<lparr>registry := snd (unregister s (registry aw))\<rparr>))"

definition close_browser :: "page_pick \<Rightarrow> BrowserPanelId \<Rightarrow> AppWindow \<Rightarrow> AppWindow run" where
  "close_browser pick b aw =
     (case find_workspace_with_browser b aw of
        None \<Rightarrow> Some aw
      | Some (i, _, p) \<Rightarrow>
          close_panel pick (remove_browser_tab b) i p
            (aw\<lparr>browsers := removeAll b (browsers aw)\<rparr>))"

text \<open>
  A terminal is asked to close and answers later through \<open>close_surface\<close>; a browser panel is
  closed at once.
\<close>

definition request_close :: "page_pick \<Rightarrow> PanelKind \<Rightarrow> AppWindow \<Rightarrow> AppWindow run" where
  "request_close pick k aw =
     (case k of
        Terminal s \<Rightarrow>
          Some (if get_handle (registry aw) s \<noteq> None then emit (RequestClose s) aw else aw)
      | Browser b _ \<Rightarrow> close_browser pick b aw)"

fun request_close_all :: "page_pick \<Rightarrow> PanelKind list \<Rightarrow> AppWindow \<Rightarrow> AppWindow run" where
  "request_close_all pick [] aw = Some aw"
| "request_close_all pick (k # ks) aw =
     do { aw \<leftarrow> request_close pick k aw; request_close_all pick ks aw }"

definition close_workspace :: "page_pick \<Rightarrow> WorkspaceId \<Rightarrow> AppWindow \<Rightarrow> AppWindow run" where
  "close_workspace pick i aw =
     (case ws_position i aw of
        None \<Rightarrow> Some aw
      | Some idx \<Rightarrow> request_close_all pick (all_panels (workspaces aw ! idx)) aw)"

definition close_current_workspace :: "page_pick \<Rightarrow> AppWindow \<Rightarrow> AppWindow run" where
  "close_current_workspace pick aw =
     (case current_ws aw of
        None \<Rightarrow> Some aw
      | Some idx \<Rightarrow>
          if pinned (workspaces aw ! idx) then Some aw
          else request_close_all pick (all_panels (workspaces aw ! idx)) aw)"

definition close_workspace_by_id ::
  "page_pick \<Rightarrow> WorkspaceId \<Rightarrow> AppWindow \<Rightarrow> (bool \<times> AppWindow) run" where
  "close_workspace_by_id pick i aw =
     (case find (\<lambda>ws. ws_key ws = i) (workspaces aw) of
        None \<Rightarrow> Some (False, aw)
      | Some ws \<Rightarrow>
          if pinned ws then Some (False, aw)
          else do { aw \<leftarrow> request_close_all pick (all_panels ws) aw; Some (True, aw) })"

definition close_pane_tab :: "page_pick \<Rightarrow> AppWindow \<Rightarrow> AppWindow run" where
  "close_pane_tab pick aw =
     (case current_ws aw of
        None \<Rightarrow> Some aw
      | Some i \<Rightarrow>
          (case Option.bind (ws_focused_pane (workspaces aw ! i))
                  (\<lambda>p. Option.bind (hm_get (ws_panes (workspaces aw ! i)) p) active_panel) of
             None \<Rightarrow> Some aw
           | Some k \<Rightarrow> request_close pick k aw))"

section \<open>Splitting and navigation\<close>

definition split_focused :: "Orientation \<Rightarrow> AppWindow \<Rightarrow> AppWindow run" where
  "split_focused ori aw =
     (case current_ws aw of
        None \<Rightarrow> Some aw
      | Some i \<Rightarrow>
          (case ws_focused_pane (workspaces aw ! i) of
             None \<Rightarrow> Some aw
           | Some f \<Rightarrow>
               (let (s, aw) = alloc_surface (or_else (inherited_dir (workspaces aw ! i)) (app_dir aw))
                                  (app_command aw) aw;
                    (p, aw) = next_pane_id aw;
                    aw = modify_ws i (add_pane (Pane_new_with_id p s)) aw
                in do {
                     (_, t) \<leftarrow> split_pane f p ori (split_tree (workspaces aw ! i));
                     let aw = modify_ws i (split_tree_update (\<lambda>_. t)) aw;
                     Some (aw\<lparr>registry := remove_pending s (registry aw)\<rparr>) })))"

definition split_browser_in_workspace ::
  "usize \<Rightarrow> PaneId \<Rightarrow> Orientation \<Rightarrow> string \<Rightarrow> AppWindow \<Rightarrow> (BrowserPanelId \<times> AppWindow) run" where
  "split_browser_in_workspace i from_pane ori url aw =
     (let (b, aw) = create_browser aw;
          (p, aw) = next_pane_id aw;
          aw = modify_ws i (add_pane (Pane_new_browser_with_id p b url)) aw
      in do {
           (_, t) \<leftarrow> split_pane from_pane p ori (split_tree (workspaces aw ! i));
           let aw = modify_ws i (split_tree_update (\<lambda>_. t)) aw;
           Some (b, set_pane_active i p aw) })"

definition split_focused_browser :: "Orientation \<Rightarrow> string \<Rightarrow> AppWindow \<Rightarrow> AppWindow run" where
  "split_focused_browser ori url aw =
     (case current_ws aw of
        None \<Rightarrow> Some aw
      | Some i \<Rightarrow>
          (case ws_focused_pane (workspaces aw ! i) of
             None \<Rightarrow> Some aw
           | Some f \<Rightarrow>
               do { (_, aw) \<leftarrow> split_browser_in_workspace i f ori url aw; Some aw }))"

text \<open>\<open>opener_known\<close>: the opener is in the browser registry.\<close>

definition open_browser_popup ::
  "bool \<Rightarrow> BrowserPanelId \<Rightarrow> string \<Rightarrow> AppWindow \<Rightarrow> (BrowserPanelId option \<times> AppWindow) run" where
  "open_browser_popup opener_known opener url aw =
     (if \<not> opener_known then Some (None, aw)
      else case (case find_workspace_with_browser opener aw of
                   Some (i, _, p) \<Rightarrow> Some (i, p)
                 | None \<Rightarrow>
                     (let page = unwrap_or (current_page aw) 0
                      in if page \<ge> length (workspaces aw) then None
                         else map_option (Pair page) (ws_focused_pane (workspaces aw ! page)))) of
             None \<Rightarrow> Some (None, aw)
           | Some (i, p) \<Rightarrow>
               if i \<ge> length (workspaces aw) then Some (None, aw)
               else do { (b, aw) \<leftarrow> split_browser_in_workspace i p Horizontal url aw;
                         Some (Some b, aw) })"

definition navigate_split :: "bool \<Rightarrow> AppWindow \<Rightarrow> AppWindow run" where
  "navigate_split forward aw =
     (case current_ws aw of
        None \<Rightarrow> Some aw
      | Some i \<Rightarrow>
          do { (np, t) \<leftarrow> navigate forward (split_tree (workspaces aw ! i));
               let aw = modify_ws i (split_tree_update (\<lambda>_. t)) aw;
               Some (case np of None \<Rightarrow> aw | Some p \<Rightarrow> focus_active_panel i p aw) })"

definition navigate_direction :: "Direction \<Rightarrow> AppWindow \<Rightarrow> AppWindow run" where
  "navigate_direction d aw =
     (case current_ws aw of
        None \<Rightarrow> Some aw
      | Some i \<Rightarrow>
          do { (np, t) \<leftarrow> navigate_directional d (split_tree (workspaces aw ! i));
               let aw = modify_ws i (split_tree_update (\<lambda>_. t)) aw;
               Some (case np of None \<Rightarrow> aw | Some p \<Rightarrow> set_pane_active i p aw) })"

definition equalize_splits :: "AppWindow \<Rightarrow> AppWindow" where
  "equalize_splits aw =
     (case current_ws aw of
        None \<Rightarrow> aw
      | Some i \<Rightarrow> modify_ws i (split_tree_update equalize) aw)"

section \<open>Switching workspaces\<close>

definition goto_workspace :: "int \<Rightarrow> AppWindow \<Rightarrow> AppWindow" where
  "goto_workspace idx aw =
     (let n = int (length (workspaces aw))
      in if n = 0 \<or> idx < 0 \<or> idx \<ge> n then aw else aw\<lparr>current_page := Some (nat idx)\<rparr>)"

definition relative_page :: "bool \<Rightarrow> AppWindow \<Rightarrow> usize" where
  "relative_page forward aw =
     (let n = int (length (workspaces aw)); cur = int (unwrap_or (current_page aw) 0)
      in nat (if forward then (cur + 1) mod n else (cur - 1 + n) mod n))"

definition goto_workspace_relative :: "bool \<Rightarrow> AppWindow \<Rightarrow> AppWindow" where
  "goto_workspace_relative forward aw =
     (if workspaces aw = [] then aw else aw\<lparr>current_page := Some (relative_page forward aw)\<rparr>)"

definition goto_tab :: "int \<Rightarrow> AppWindow \<Rightarrow> AppWindow" where
  "goto_tab idx aw =
     (let n = int (length (workspaces aw)) in
      if n = 0 then aw
      else if idx = -1 then aw\<lparr>current_page := Some (relative_page False aw)\<rparr>
      else if idx = -2 then aw\<lparr>current_page := Some (relative_page True aw)\<rparr>
      else if idx = -3 then aw\<lparr>current_page := Some (nat (n - 1))\<rparr>
      else if idx \<ge> 0 \<and> idx < n then aw\<lparr>current_page := Some (nat idx)\<rparr>
      else aw)"

definition select_workspace_by_id :: "WorkspaceId \<Rightarrow> AppWindow \<Rightarrow> bool \<times> AppWindow" where
  "select_workspace_by_id i aw =
     (case ws_position i aw of
        Some idx \<Rightarrow> (True, emit (WorkspaceSwitched i) (aw\<lparr>current_page := Some idx\<rparr>))
      | None \<Rightarrow> (False, aw))"

definition focus_pane_by_id :: "PaneId \<Rightarrow> AppWindow \<Rightarrow> bool \<times> AppWindow" where
  "focus_pane_by_id p aw =
     (case ws_of_pane p aw of
        None \<Rightarrow> (False, aw)
      | Some i \<Rightarrow>
          (let aw = (if unwrap_or (current_page aw) 0 \<noteq> i then aw\<lparr>current_page := Some i\<rparr> else aw)
           in (True, set_pane_active i p aw)))"

section \<open>Tabs of a pane\<close>

definition new_pane_tab :: "AppWindow \<Rightarrow> AppWindow" where
  "new_pane_tab aw =
     (case current_ws aw of
        None \<Rightarrow> aw
      | Some i \<Rightarrow>
          (case ws_focused_pane (workspaces aw ! i) of
             None \<Rightarrow> aw
           | Some p \<Rightarrow>
               (let (s, aw) = alloc_surface (or_else (inherited_dir (workspaces aw ! i)) (app_dir aw))
                                  (app_command aw) aw;
                    aw = modify_pane i p (\<lambda>pane. snd (add_tab s pane)) aw
                in aw\<lparr>registry := remove_pending s (registry aw)\<rparr>)))"

definition cycle_pane_tab :: "bool \<Rightarrow> AppWindow \<Rightarrow> AppWindow" where
  "cycle_pane_tab forward aw =
     (case current_ws aw of
        None \<Rightarrow> aw
      | Some i \<Rightarrow>
          (case ws_focused_pane (workspaces aw ! i) of
             None \<Rightarrow> aw
           | Some p \<Rightarrow> focus_active_panel i p
                           (modify_pane i p (\<lambda>pane. snd (cycle_tab forward pane)) aw)))"

definition select_pane_tab_generic ::
  "PaneId \<Rightarrow> usize \<Rightarrow> PanelKind \<Rightarrow> AppWindow \<Rightarrow> AppWindow" where
  "select_pane_tab_generic p idx k aw =
     (case ws_of_pane p aw of
        None \<Rightarrow> aw
      | Some i \<Rightarrow> emit (FocusPanel k) (set_pane_active i p (modify_pane i p (select_tab idx) aw)))"

definition rename_tab :: "PaneId \<Rightarrow> usize \<Rightarrow> string \<Rightarrow> AppWindow \<Rightarrow> AppWindow" where
  "rename_tab p idx new_name aw =
     (case ws_of_pane p aw of
        None \<Rightarrow> aw
      | Some i \<Rightarrow>
          modify_pane i p
            (\<lambda>pane. if idx < length (tabs pane)
                    then pane\<lparr>tabs := (tabs pane)[idx := (tabs pane ! idx)\<lparr>tab_title := new_name\<rparr>]\<rparr>
                    else pane) aw)"

end
