(* ===== verification/Tab_Moves.thy ===== *)
theory Tab_Moves
  imports App_Window
begin

text \<open>
  Model of the drag-and-drop operations of \<open>app/src/window.rs\<close>: the stable identity of a dragged tab
  and its text form, the insertion anchor, and the handlers that move a tab or a pane inside a
  workspace or to another one. \<open>gtk_ok\<close> says whether the widget lookups that a handler performs
  before it changes anything all succeed.
\<close>

section \<open>Identities\<close>

datatype TabDragIdentity = SurfaceTab SurfaceId | BrowserTab BrowserPanelId

datatype TabInsertion = Before TabDragIdentity | Append

fun matches_panel :: "TabDragIdentity \<Rightarrow> PanelKind \<Rightarrow> bool" where
  "matches_panel (SurfaceTab i) (Terminal s) = (i = s)"
| "matches_panel (BrowserTab i) (Browser b _) = (i = b)"
| "matches_panel _ _ = False"

fun panel_drag_identity :: "PanelKind \<Rightarrow> TabDragIdentity" where
  "panel_drag_identity (Terminal s) = SurfaceTab s"
| "panel_drag_identity (Browser b _) = BrowserTab b"

definition tab_drag_payload :: "PaneId \<Rightarrow> PanelKind \<Rightarrow> string" where
  "tab_drag_payload p k =
     (case panel_drag_identity k of
        SurfaceTab s \<Rightarrow> ''pane:'' @ u32_str p @ '':surface:'' @ u32_str s
      | BrowserTab b \<Rightarrow> ''pane:'' @ u32_str p @ '':browser:'' @ u32_str b)"

definition parse_tab_drag_payload :: "string \<Rightarrow> (PaneId \<times> TabDragIdentity) option" where
  "parse_tab_drag_payload payload =
     do { rest \<leftarrow> strip_prefix ''pane:'' payload;
          (case split_on (CHR '':'') rest of
             [a, kind, b] \<Rightarrow>
               do { p \<leftarrow> parse_u32 a;
                    i \<leftarrow> parse_u32 b;
                    if kind = ''surface'' then Some (p, SurfaceTab i)
                    else if kind = ''browser'' then Some (p, BrowserTab i)
                    else None }
           | _ \<Rightarrow> None) }"

definition stack_child_name :: "PanelKind \<Rightarrow> string" where
  "stack_child_name k =
     (case k of Terminal s \<Rightarrow> ''surface-'' @ u32_str s | Browser b _ \<Rightarrow> ''browser-'' @ u32_str b)"

definition tab_index_for_identity :: "Pane \<Rightarrow> TabDragIdentity \<Rightarrow> usize option" where
  "tab_index_for_identity p ident = position (\<lambda>t. matches_panel ident (panel t)) (tabs p)"

definition insertion_index_for_target :: "Pane \<Rightarrow> TabInsertion \<Rightarrow> usize option" where
  "insertion_index_for_target p ins =
     (case ins of Before anchor \<Rightarrow> tab_index_for_identity p anchor | Append \<Rightarrow> Some (length (tabs p)))"

definition pane_tab_count_for_identity :: "PaneId \<Rightarrow> TabDragIdentity \<Rightarrow> AppWindow \<Rightarrow> usize option" where
  "pane_tab_count_for_identity p ident aw =
     first_opt (List.map_filter
       (\<lambda>ws. do { pane \<leftarrow> hm_get (ws_panes ws) p;
                  if list_ex (\<lambda>t. matches_panel ident (panel t)) (tabs pane)
                  then Some (length (tabs pane)) else None }) (workspaces aw))"

definition tab_insertion_for_pane :: "PaneId \<Rightarrow> usize \<Rightarrow> AppWindow \<Rightarrow> TabInsertion option" where
  "tab_insertion_for_pane p idx aw =
     map_option
       (\<lambda>pane. case get_opt (tabs pane) idx of
                 Some t \<Rightarrow> Before (panel_drag_identity (panel t))
               | None \<Rightarrow> Append)
       (first_opt (List.map_filter (\<lambda>ws. hm_get (ws_panes ws) p) (workspaces aw)))"

section \<open>Edits of one pane\<close>

definition remove_tab_preserving_selection :: "usize \<Rightarrow> Pane \<Rightarrow> Tab \<times> Pane" where
  "remove_tab_preserving_selection idx p =
     (let sel = selected_tab p;
          ts = remove_at idx (tabs p)
      in (tabs p ! idx,
          p\<lparr>tabs := ts,
             selected_tab := (if ts = [] then 0
                              else if sel > idx then sel - 1
                              else if sel = idx then min idx (length ts - 1)
                              else min sel (length ts - 1))\<rparr>))"

text \<open>The edit inside \<open>reorder_tab_in_pane\<close>; \<open>None\<close> when nothing changes.\<close>

definition reorder_tabs :: "usize \<Rightarrow> usize \<Rightarrow> Pane \<Rightarrow> Pane option" where
  "reorder_tabs from_index insertion_index p =
     (let ins = min insertion_index (length (tabs p));
          dest = (if ins > from_index then ins - 1 else ins)
      in if dest = from_index then None
         else
           (let ts = insert_at dest (tabs p ! from_index) (remove_at from_index (tabs p));
                sel = selected_tab p;
                sel' = (if sel = from_index then dest
                        else (let s1 = (if sel > from_index then sel - 1 else sel)
                              in if s1 \<ge> dest then s1 + 1 else s1))
            in Some (p\<lparr>tabs := ts, selected_tab := sel'\<rparr>)))"

text \<open>The pane built around an extracted tab, with the metadata of the tab copied.\<close>

definition pane_for_tab :: "PaneId \<Rightarrow> Tab \<Rightarrow> Pane" where
  "pane_for_tab i t =
     (let p = (case panel t of
                 Terminal s \<Rightarrow> Pane_new_with_id i s
               | Browser b url \<Rightarrow> Pane_new_browser_with_id i b url)
      in p\<lparr>tabs := (case tabs p of
                      [] \<Rightarrow> []
                    | nt # r \<Rightarrow> nt\<lparr>tab_title := tab_title t, tab_dir := tab_dir t,
                                  dir_from_osc7 := dir_from_osc7 t\<rparr> # r)\<rparr>)"

section \<open>Handlers\<close>

definition in_tree :: "usize \<Rightarrow> PaneId \<Rightarrow> AppWindow \<Rightarrow> bool run" where
  "in_tree i p aw =
     map_option (\<lambda>n. n \<noteq> None) (node_id_for_pane (split_tree (workspaces aw ! i)) p)"

definition pane_at :: "usize \<Rightarrow> PaneId \<Rightarrow> AppWindow \<Rightarrow> Pane option" where
  "pane_at i p aw = hm_get (ws_panes (workspaces aw ! i)) p"

definition move_pane ::
  "PaneId \<Rightarrow> PaneId \<Rightarrow> bool \<Rightarrow> Orientation \<Rightarrow> AppWindow \<Rightarrow> AppWindow run" where
  "move_pane source target before ori aw =
     (case current_ws aw of
        None \<Rightarrow> Some aw
      | Some i \<Rightarrow>
          if pane_at i source aw = None \<or> pane_at i target aw = None then Some aw
          else do {
            (ok, t) \<leftarrow> move_pane_adjacent source target before ori (split_tree (workspaces aw ! i));
            let aw = modify_ws i (split_tree_update (\<lambda>_. t)) aw;
            Some (if ok then set_pane_active i source aw else aw) })"

text \<open>
  The split with which both extraction handlers place the new pane; they panic when it reports no
  node.
\<close>

definition split_or_panic ::
  "bool \<Rightarrow> usize \<Rightarrow> PaneId \<Rightarrow> PaneId \<Rightarrow> Orientation \<Rightarrow> AppWindow \<Rightarrow> AppWindow run" where
  "split_or_panic before i target new_pane ori aw =
     do { (n, t) \<leftarrow> (if before then split_before target new_pane ori (split_tree (workspaces aw ! i))
                     else split_pane target new_pane ori (split_tree (workspaces aw ! i)));
          case n of
            None \<Rightarrow> None
          | Some _ \<Rightarrow> Some (modify_ws i (split_tree_update (\<lambda>_. t)) aw) }"

definition split_tab_to_pane ::
  "bool \<Rightarrow> PaneId \<Rightarrow> TabDragIdentity \<Rightarrow> Orientation \<Rightarrow> bool \<Rightarrow> AppWindow \<Rightarrow> AppWindow run" where
  "split_tab_to_pane gtk_ok source ident ori before aw =
     (case current_ws aw of
        None \<Rightarrow> Some aw
      | Some i \<Rightarrow>
          (case pane_at i source aw of
             None \<Rightarrow> Some aw
           | Some sp \<Rightarrow>
               if length (tabs sp) < 2 then Some aw
               else do {
                 known \<leftarrow> in_tree i source aw;
                 if \<not> known then Some aw
                 else case tab_index_for_identity sp ident of
                        None \<Rightarrow> Some aw
                      | Some idx \<Rightarrow>
                          if \<not> gtk_ok then Some aw
                          else
                            (let tab = tabs sp ! idx;
                                 (np, aw) = next_pane_id aw;
                                 aw = modify_pane i source
                                        (\<lambda>pane. snd (remove_tab_preserving_selection idx pane)) aw;
                                 aw = modify_ws i (add_pane (pane_for_tab np tab)) aw
                             in do {
                                  aw \<leftarrow> split_or_panic before i source np ori aw;
                                  Some (set_pane_active i np aw) }) }))"

definition split_tab_to_pane_target ::
  "bool \<Rightarrow> PaneId \<Rightarrow> TabDragIdentity \<Rightarrow> PaneId \<Rightarrow> Orientation \<Rightarrow> bool \<Rightarrow> AppWindow \<Rightarrow>
   AppWindow run" where
  "split_tab_to_pane_target gtk_ok source ident target ori before aw =
     (case current_ws aw of
        None \<Rightarrow> Some aw
      | Some i \<Rightarrow>
          if source = target then Some aw
          else do {
            src_known \<leftarrow> in_tree i source aw;
            tgt_known \<leftarrow> in_tree i target aw;
            if \<not> src_known \<or> \<not> tgt_known then Some aw
            else case pane_at i source aw of
                   None \<Rightarrow> Some aw
                 | Some sp \<Rightarrow>
                     (case tab_index_for_identity sp ident of
                        None \<Rightarrow> Some aw
                      | Some idx \<Rightarrow>
                          if \<not> gtk_ok then Some aw
                          else
                            (let tab = tabs sp ! idx;
                                 (np, aw) = next_pane_id aw;
                                 aw = modify_pane i source
                                        (\<lambda>pane. snd (remove_tab_preserving_selection idx pane)) aw;
                                 aw = modify_ws i (add_pane (pane_for_tab np tab)) aw
                             in do {
                                  aw \<leftarrow> (case pane_at i source aw of
                                          None \<Rightarrow> None
                                        | Some p \<Rightarrow> if tabs p = []
                                                   then remove_pane_from_split i source aw
                                                   else Some aw);
                                  aw \<leftarrow> split_or_panic before i target np ori aw;
                                  Some (set_pane_active i np aw) })) })"

text \<open>The tab inserted at an index of the target pane and selected there.\<close>

definition receive_tab :: "usize \<Rightarrow> Tab \<Rightarrow> Pane \<Rightarrow> Pane" where
  "receive_tab idx t p = p\<lparr>tabs := insert_at idx t (tabs p), selected_tab := idx\<rparr>"

definition move_tab_to_pane ::
  "bool \<Rightarrow> PaneId \<Rightarrow> TabDragIdentity \<Rightarrow> PaneId \<Rightarrow> TabInsertion \<Rightarrow> AppWindow \<Rightarrow> AppWindow run" where
  "move_tab_to_pane gtk_ok source ident target insertion aw =
     (case current_ws aw of
        None \<Rightarrow> Some aw
      | Some i \<Rightarrow>
          if source = target then Some aw
          else do {
            src_known \<leftarrow> in_tree i source aw;
            tgt_known \<leftarrow> in_tree i target aw;
            if \<not> src_known \<or> \<not> tgt_known then Some aw
            else case pane_at i source aw of
                   None \<Rightarrow> Some aw
                 | Some sp \<Rightarrow>
                     (case tab_index_for_identity sp ident of
                        None \<Rightarrow> Some aw
                      | Some idx \<Rightarrow>
                          if \<not> gtk_ok then Some aw
                          else
                            (case pane_at i target aw of
                               None \<Rightarrow> Some aw
                             | Some tp \<Rightarrow>
                                 (case insertion_index_for_target tp insertion of
                                    None \<Rightarrow> Some aw
                                  | Some tidx \<Rightarrow>
                                      (let tab = tabs sp ! idx;
                                           aw = modify_pane i source
                                             (\<lambda>pane. snd (remove_tab_preserving_selection idx pane)) aw;
                                           aw = modify_pane i target (receive_tab tidx tab) aw
                                       in do {
                                            aw \<leftarrow> (case pane_at i source aw of
                                                    None \<Rightarrow> None
                                                  | Some p \<Rightarrow> if tabs p = []
                                                             then remove_pane_from_split i source aw
                                                             else Some aw);
                                            Some (set_pane_active i target aw) })))) })"

definition reorder_tab_in_pane ::
  "bool \<Rightarrow> PaneId \<Rightarrow> TabDragIdentity \<Rightarrow> TabInsertion \<Rightarrow> AppWindow \<Rightarrow> AppWindow run" where
  "reorder_tab_in_pane gtk_ok p ident insertion aw =
     (case current_ws aw of
        None \<Rightarrow> Some aw
      | Some i \<Rightarrow>
          (case pane_at i p aw of
             None \<Rightarrow> Some aw
           | Some pane \<Rightarrow>
               do { known \<leftarrow> in_tree i p aw;
                    if \<not> known then Some aw
                    else case (tab_index_for_identity pane ident,
                               insertion_index_for_target pane insertion) of
                           (Some from, Some ins) \<Rightarrow>
                             if \<not> gtk_ok then Some aw
                             else Some (modify_pane i p
                                    (\<lambda>pane. unwrap_or (reorder_tabs from ins pane) pane) aw)
                         | _ \<Rightarrow> Some aw }))"

text \<open>The pane of a workspace that receives a tab dropped on its sidebar row.\<close>

definition drop_target_pane :: "Workspace \<Rightarrow> PaneId option run" where
  "drop_target_pane ws =
     (case ws_focused_pane ws of
        Some p \<Rightarrow> if hm_contains (ws_panes ws) p then Some (Some p)
                 else map_option (find (hm_contains (ws_panes ws))) (panes (split_tree ws))
      | None \<Rightarrow> map_option (find (hm_contains (ws_panes ws))) (panes (split_tree ws)))"

text \<open>
  What \<open>move_tab_to_workspace\<close> does with the source pane after the tab has left it: an empty pane is
  removed, and with it a workspace that has no pane left; a pane that keeps tabs must have an
  active one.
\<close>

definition move_cleanup :: "page_pick \<Rightarrow> usize \<Rightarrow> PaneId \<Rightarrow> AppWindow \<Rightarrow> AppWindow run" where
  "move_cleanup pick si source aw =
     (case pane_at si source aw of
        None \<Rightarrow> None
      | Some p \<Rightarrow>
          if tabs p = [] then
            do { aw \<leftarrow> remove_pane_from_split si source aw;
                 Some (if ws_panes (workspaces aw ! si) = [] then remove_workspace_at pick si aw
                       else focus_after_close si aw) }
          else if active_panel p = None then None
          else Some aw)"

definition move_tab_to_workspace ::
  "page_pick \<Rightarrow> bool \<Rightarrow> PaneId \<Rightarrow> TabDragIdentity \<Rightarrow> WorkspaceId \<Rightarrow> AppWindow \<Rightarrow> AppWindow run" where
  "move_tab_to_workspace pick gtk_ok source ident target_ws aw =
     (case (ws_of_pane source aw, ws_position target_ws aw) of
        (Some si, Some ti) \<Rightarrow>
          if si = ti then Some aw
          else do {
            tp \<leftarrow> drop_target_pane (workspaces aw ! ti);
            case tp of
              None \<Rightarrow> Some aw
            | Some target \<Rightarrow>
                do { tgt_known \<leftarrow> in_tree ti target aw;
                     src_known \<leftarrow> in_tree si source aw;
                     if \<not> tgt_known \<or> \<not> src_known then Some aw
                     else case pane_at si source aw of
                            None \<Rightarrow> Some aw
                          | Some sp \<Rightarrow>
                              (case tab_index_for_identity sp ident of
                                 None \<Rightarrow> Some aw
                               | Some idx \<Rightarrow>
                                   if \<not> gtk_ok then Some aw
                                   else
                                     (let tab = tabs sp ! idx;
                                          aw = modify_pane si source
                                            (\<lambda>pane. snd (remove_tab_preserving_selection idx pane)) aw;
                                          aw = modify_pane ti target
                                            (\<lambda>pane. receive_tab (length (tabs pane)) tab pane) aw
                                      in do {
                                           aw \<leftarrow> move_cleanup pick si source aw;
                                           case ws_position target_ws aw of
                                             None \<Rightarrow> None
                                           | Some ti \<Rightarrow>
                                               Some (set_pane_active ti target
                                                      (aw\<lparr>current_page := Some ti\<rparr>)) })) } }
      | _ \<Rightarrow> Some aw)"

end
