(* ===== verification/Pane_Facts.thy ===== *)
theory Pane_Facts
  imports Tab_Moves
begin

text \<open>
  Facts about one pane and one workspace: every edit of a pane keeps the selection in range, the
  edits of a workspace keep the pane table and the split tree in step, and what each edit does to the
  tabs as a multiset.
\<close>

section \<open>Panes\<close>

definition pane_ok :: "Pane \<Rightarrow> bool" where
  "pane_ok p \<longleftrightarrow> selected_tab p < length (tabs p)"

definition ident :: "Tab \<Rightarrow> TabDragIdentity" where
  "ident t = panel_drag_identity (panel t)"

lemma matches_panel_ident [simp]: "matches_panel i k \<longleftrightarrow> panel_drag_identity k = i"
  by (cases i; cases k) auto

lemma surface_id_ident [simp]: "surface_id t = Some s \<longleftrightarrow> ident t = SurfaceTab s"
  by (cases "panel t") (auto simp: surface_id_def ident_def)

lemma browser_id_ident [simp]: "browser_id t = Some b \<longleftrightarrow> ident t = BrowserTab b"
  by (cases "panel t") (auto simp: browser_id_def ident_def)

lemma remove_at_mset: "i < length xs \<Longrightarrow> mset (remove_at i xs) = mset xs - {#xs ! i#}"
  unfolding remove_at_def
  by (subst (3) id_take_nth_drop [of i xs]) simp_all

lemma mset_remove_at_add: "i < length xs \<Longrightarrow> add_mset (xs ! i) (mset (remove_at i xs)) = mset xs"
  unfolding remove_at_def
  by (subst (4) id_take_nth_drop [of i xs]) simp_all

lemma mset_insert_at: "mset (insert_at i x xs) = add_mset x (mset xs)"
  using mset_append [of "take i xs" "drop i xs"] by (simp add: insert_at_def)

lemma length_remove_at_le: "i < length xs \<Longrightarrow> remove_at i xs = [] \<longleftrightarrow> length xs = 1"
  using length_remove_at [of i xs] by (cases "remove_at i xs") auto

lemma pane_ok_not_empty: "pane_ok p \<Longrightarrow> tabs p \<noteq> []"
  by (auto simp: pane_ok_def)

lemma pane_ok_new [wf_intros]:
  "pane_ok (Pane_new_with_id i s)" "pane_ok (Pane_new_browser_with_id i b url)"
  by (simp_all add: pane_ok_def Pane_new_with_id_def Pane_new_browser_with_id_def)

lemma add_tab_of_facts:
  "pane_ok (snd (add_tab_of k p))" "tabs (snd (add_tab_of k p)) = tabs p @ [fresh_tab k]"
  "pane_key (snd (add_tab_of k p)) = pane_key p"
  by (simp_all add: add_tab_of_def pane_ok_def Let_def)

lemma select_tab_facts:
  "pane_ok p \<Longrightarrow> pane_ok (select_tab i p)" "tabs (select_tab i p) = tabs p"
  "pane_key (select_tab i p) = pane_key p"
  by (simp_all add: select_tab_def pane_ok_def)

lemma cycle_tab_facts:
  "pane_ok p \<Longrightarrow> pane_ok (snd (cycle_tab fwd p))" "tabs (snd (cycle_tab fwd p)) = tabs p"
  "pane_key (snd (cycle_tab fwd p)) = pane_key p"
  by (auto simp: cycle_tab_def pane_ok_def Let_def intro!: mod_less_divisor)

lemma modify_first_facts:
  "length (modify_first P f xs) = length xs"
  "(\<And>x. g (f x) = g x) \<Longrightarrow> map g (modify_first P f xs) = map g xs"
  by (induction xs) auto

lemma remove_tab_where_facts:
  assumes "pane_ok p" "position P (tabs p) = Some i" "length (tabs p) \<ge> 2"
  shows "fst (remove_tab_where P p)" "pane_ok (snd (remove_tab_where P p))"
    "tabs (snd (remove_tab_where P p)) = remove_at i (tabs p)"
    "pane_key (snd (remove_tab_where P p)) = pane_key p"
proof -
  have i: "i < length (tabs p)" using position_SomeD [OF assms(2)] by simp
  show "fst (remove_tab_where P p)" "tabs (snd (remove_tab_where P p)) = remove_at i (tabs p)"
    "pane_key (snd (remove_tab_where P p)) = pane_key p"
    using assms(2) by (simp_all add: remove_tab_where_def Let_def)
  show "pane_ok (snd (remove_tab_where P p))"
    using assms i length_remove_at_le [OF i]
    by (auto simp: remove_tab_where_def pane_ok_def Let_def)
qed

lemma remove_selected_facts:
  assumes "pane_ok p" "i < length (tabs p)"
  shows "fst (remove_tab_preserving_selection i p) = tabs p ! i"
    "tabs (snd (remove_tab_preserving_selection i p)) = remove_at i (tabs p)"
    "pane_key (snd (remove_tab_preserving_selection i p)) = pane_key p"
    "length (tabs p) \<ge> 2 \<Longrightarrow> pane_ok (snd (remove_tab_preserving_selection i p))"
  using assms length_remove_at_le [OF assms(2)]
  by (auto simp: remove_tab_preserving_selection_def Let_def pane_ok_def)

lemma receive_tab_facts:
  assumes "i \<le> length (tabs p)"
  shows "pane_ok (receive_tab i t p)" "tabs (receive_tab i t p) = insert_at i t (tabs p)"
    "pane_key (receive_tab i t p) = pane_key p"
  using assms by (simp_all add: receive_tab_def pane_ok_def)

lemma pane_for_tab_facts:
  "tabs (pane_for_tab i t) = [t]" "pane_key (pane_for_tab i t) = i" "pane_ok (pane_for_tab i t)"
  by (cases "panel t"; simp add: pane_for_tab_def Pane_new_with_id_def Pane_new_browser_with_id_def
      fresh_tab_def pane_ok_def Let_def)+

lemma remove_at_insert_at_nth:
  assumes "from < length xs" "dest < length xs" "k < length xs" "k \<noteq> from"
  defines "k1 \<equiv> (if k > from then k - 1 else k)"
  shows "insert_at dest (xs ! from) (remove_at from xs) ! (if k1 \<ge> dest then k1 + 1 else k1) = xs ! k"
proof -
  have "remove_at from xs ! k1 = xs ! k"
    using assms(1,3,4) by (auto simp: remove_at_def nth_append k1_def min_def)
  moreover have "k1 < length (remove_at from xs)" using assms by (auto simp: k1_def)
  moreover have "insert_at dest x ys ! (if k1 \<ge> dest then k1 + 1 else k1) = ys ! k1"
    if "k1 < length ys" "dest \<le> length ys" for x :: 'a and ys
    using that by (auto simp: insert_at_def nth_append min_def)
  ultimately show ?thesis using assms(1,2) by simp
qed

lemma insert_at_nth [simp]: "dest \<le> length xs \<Longrightarrow> insert_at dest x xs ! dest = x"
  by (simp add: insert_at_def nth_append min_def)

lemma reorder_tabs_facts:
  assumes "reorder_tabs from ins p = Some p'" "pane_ok p" "from < length (tabs p)"
  shows "mset (tabs p') = mset (tabs p)" "pane_key p' = pane_key p" "pane_ok p'"
    "tabs p' ! selected_tab p' = tabs p ! selected_tab p"
proof -
  define i where "i = min ins (length (tabs p))"
  define dest where "dest = (if i > from then i - 1 else i)"
  let ?sel = "selected_tab p"
  define s1 where "s1 = (if ?sel > from then ?sel - 1 else ?sel)"
  have p': "p' = p\<lparr>tabs := insert_at dest (tabs p ! from) (remove_at from (tabs p)),
      selected_tab := (if ?sel = from then dest else if s1 \<ge> dest then s1 + 1 else s1)\<rparr>"
    using assms(1) by (auto simp: reorder_tabs_def Let_def i_def dest_def s1_def split: if_splits)
  have d: "dest < length (tabs p)" using assms(3) by (auto simp: dest_def i_def)
  show "mset (tabs p') = mset (tabs p)"
    using mset_remove_at_add [OF assms(3)] by (simp add: p' mset_insert_at)
  then have "length (tabs p') = length (tabs p)" by (metis size_mset)
  then show "pane_key p' = pane_key p" "pane_ok p'"
    using assms(2,3) d by (auto simp: p' pane_ok_def s1_def)
  show "tabs p' ! selected_tab p' = tabs p ! selected_tab p"
    using remove_at_insert_at_nth [OF assms(3) d, of ?sel] assms(2,3) d
    by (auto simp: p' s1_def pane_ok_def)
qed

section \<open>Workspaces\<close>

definition panes_ok :: "(PaneId, Pane) hashmap \<Rightarrow> bool" where
  "panes_ok m \<longleftrightarrow> hm_ok m \<and> (\<forall>k p. hm_get m k = Some p \<longrightarrow> pane_key p = k \<and> pane_ok p)"

definition ws_ok :: "Workspace \<Rightarrow> bool" where
  "ws_ok ws \<longleftrightarrow> panes_ok (ws_panes ws) \<and> good_tree (split_tree ws) \<and>
     tree_order (split_tree ws) \<noteq> [] \<and>
     (\<forall>p. p \<in> set (tree_order (split_tree ws)) \<longleftrightarrow> hm_contains (ws_panes ws) p)"

definition ws_tabs :: "Workspace \<Rightarrow> Tab list" where
  "ws_tabs ws = concat (map (tabs \<circ> snd) (ws_panes ws))"

lemma ws_okD:
  assumes "ws_ok ws"
  shows "hm_ok (ws_panes ws)" "panes_ok (ws_panes ws)" "good_tree (split_tree ws)"
    "wf_tree (split_tree ws)" "tree_order (split_tree ws) \<noteq> []"
    "p \<in> set (tree_order (split_tree ws)) \<longleftrightarrow> hm_contains (ws_panes ws) p"
  using assms by (auto simp: ws_ok_def panes_ok_def good_tree_def)

lemma ws_ok_panes_ne: "ws_ok ws \<Longrightarrow> ws_panes ws \<noteq> []"
  using ws_okD(5) [of ws] ws_okD(6) [of ws "hd (tree_order (split_tree ws))"] by auto

lemma panes_okD: "panes_ok m \<Longrightarrow> hm_get m k = Some p \<Longrightarrow> pane_key p = k \<and> pane_ok p"
  by (simp add: panes_ok_def)

lemma panes_ok_modify [wf_intros]:
  "panes_ok m \<Longrightarrow> (\<And>p. hm_get m k = Some p \<Longrightarrow> pane_ok (f p) \<and> pane_key (f p) = k) \<Longrightarrow>
     panes_ok (hm_modify k f m)"
  by (auto simp: panes_ok_def split: if_splits)

lemma panes_ok_insert [wf_intros]:
  "panes_ok m \<Longrightarrow> pane_ok p \<Longrightarrow> pane_key p = k \<Longrightarrow> panes_ok (hm_insert k p m)"
  by (auto simp: panes_ok_def split: if_splits)

lemma panes_ok_remove [wf_intros]: "panes_ok m \<Longrightarrow> panes_ok (hm_remove k m)"
  by (auto simp: panes_ok_def split: if_splits)

lemma ws_ok_tree [wf_intros]:
  "ws_ok ws \<Longrightarrow> good_tree t \<Longrightarrow> set (tree_order t) = set (tree_order (split_tree ws)) \<Longrightarrow>
     ws_ok (ws\<lparr>split_tree := t\<rparr>)"
  by (auto simp: ws_ok_def)

lemma ws_ok_modify [wf_intros]:
  assumes "ws_ok ws" "\<And>p. hm_get (ws_panes ws) k = Some p \<Longrightarrow> pane_ok (f p) \<and> pane_key (f p) = k"
  shows "ws_ok (ws\<lparr>ws_panes := hm_modify k f (ws_panes ws)\<rparr>)"
  using assms panes_ok_modify [of "ws_panes ws" k f] by (auto simp: ws_ok_def)

lemma ws_ok_fields [simp]:
  "ws_ok (ws\<lparr>ws_title := a\<rparr>) = ws_ok ws" "ws_ok (ws\<lparr>custom_title := b\<rparr>) = ws_ok ws"
  "ws_ok (ws\<lparr>ws_dir := c\<rparr>) = ws_ok ws" "ws_ok (ws\<lparr>git_branch := d\<rparr>) = ws_ok ws"
  "ws_ok (ws\<lparr>listening_ports := e\<rparr>) = ws_ok ws" "ws_ok (ws\<lparr>ws_color := f\<rparr>) = ws_ok ws"
  "ws_ok (ws\<lparr>pinned := g\<rparr>) = ws_ok ws" "ws_ok (ws\<lparr>ws_bell := h\<rparr>) = ws_ok ws"
  "ws_ok (ws\<lparr>status_entries := i\<rparr>) = ws_ok ws" "ws_ok (ws\<lparr>log_entries := j\<rparr>) = ws_ok ws"
  "ws_ok (ws\<lparr>ws_progress := k\<rparr>) = ws_ok ws" "ws_ok (ws\<lparr>remote_config := l\<rparr>) = ws_ok ws"
  "ws_ok (ws\<lparr>remote_state := m\<rparr>) = ws_ok ws" "ws_ok (ws\<lparr>remote_daemon_status := n\<rparr>) = ws_ok ws"
  "ws_ok (ws\<lparr>proxy_endpoint := q\<rparr>) = ws_ok ws"
  by (simp_all add: ws_ok_def)

section \<open>Edits that touch both the pane table and the tree\<close>

lemma ws_split_ok:
  assumes ok: "ws_ok ws" and room: "tree_room (split_tree ws)"
    and tgt: "hm_contains (ws_panes ws) target" and new: "\<not> hm_contains (ws_panes ws) (pane_key pane)"
    and p: "pane_ok pane"
  shows "\<exists>n t. split_gen before target (pane_key pane) ori (split_tree ws) = Some (Some n, t) \<and>
    ws_ok ((add_pane pane ws)\<lparr>split_tree := t\<rparr>) \<and> focused t = Some (pane_key pane)"
proof -
  note o = ws_okD [OF ok]
  have "target \<in> set (tree_order (split_tree ws))" "pane_key pane \<notin> set (tree_order (split_tree ws))"
    using tgt new o(6) by auto
  from split_tree.split_present [OF o(4) room this, of before ori]
  obtain n t where t: "split_gen before target (pane_key pane) ori (split_tree ws) = Some (Some n, t)"
    "wf_tree t" "focused t = Some (pane_key pane)"
    "tree_order t = (if before then insert_before target (pane_key pane) (tree_order (split_tree ws))
                     else insert_after target (pane_key pane) (tree_order (split_tree ws)))"
    by blast
  have s: "set (tree_order t) = insert (pane_key pane) (set (tree_order (split_tree ws)))"
    using t(4) tgt o(6) by simp
  have "ws_ok ((add_pane pane ws)\<lparr>split_tree := t\<rparr>)"
    using s t(2,3) o(6) panes_ok_insert [OF o(2) p refl]
    by (auto simp: ws_ok_def add_pane_def good_tree_def)
  with t show ?thesis by blast
qed

lemma ws_remove_ok:
  assumes ok: "ws_ok ws" and p: "hm_contains (ws_panes ws) p"
    and q: "hm_contains (ws_panes ws) q" "q \<noteq> p"
  shows "\<exists>t. remove p (split_tree ws) = Some (True, t) \<and>
    ws_ok (snd (remove_pane p (ws\<lparr>split_tree := t\<rparr>)))"
proof -
  note o = ws_okD [OF ok]
  have pin: "p \<in> set (tree_order (split_tree ws))" using p o(6) by simp
  obtain t where t: "remove p (split_tree ws) = Some (True, t)"
    using split_tree.remove_present [OF o(4) pin] by blast
  from split_tree.remove_focus [OF o(4) _ t] o(3)
  have g: "good_tree t" "set (tree_order t) = set (tree_order (split_tree ws)) - {p}"
    by (auto simp: good_tree_def)
  have "q \<in> set (tree_order t)" using g(2) q o(6) by simp
  then have "tree_order t \<noteq> []" by auto
  then have "ws_ok (snd (remove_pane p (ws\<lparr>split_tree := t\<rparr>)))"
    using g o(6) panes_ok_remove [OF o(2)] by (auto simp: ws_ok_def remove_pane_def)
  with t show ?thesis by blast
qed

lemma length_hm_ge_2:
  assumes "hm_ok m" "hm_contains m p"
  shows "length m \<ge> 2 \<longleftrightarrow> (\<exists>q. hm_contains m q \<and> q \<noteq> p)"
proof
  obtain v where "hm_get m p = Some v" using assms(2) by (rule hm_containsE)
  from hm_splitE [OF assms(1) this] obtain xs ys where m: "m = xs @ (p, v) # ys"
    "p \<notin> set (hm_keys xs)" "p \<notin> set (hm_keys ys)" by blast
  assume "length m \<ge> 2"
  then have "xs @ ys \<noteq> []" using m(1) by auto
  then obtain e where e: "e \<in> set (xs @ ys)" by (cases "xs @ ys") auto
  then have "fst e \<noteq> p" using m by force
  moreover have "fst e \<in> set (hm_keys m)" using e m(1) by auto
  ultimately show "\<exists>q. hm_contains m q \<and> q \<noteq> p" by (auto simp: hm_contains_keys)
next
  assume "\<exists>q. hm_contains m q \<and> q \<noteq> p"
  then obtain q where q: "q \<in> set (hm_keys m)" "q \<noteq> p" by (auto simp: hm_contains_keys)
  moreover have "p \<in> set (hm_keys m)" using assms(2) by (simp add: hm_contains_keys)
  ultimately have "card {p, q} \<le> card (set (hm_keys m))" by (intro card_mono) auto
  then show "length m \<ge> 2" using q(2) card_length [of "hm_keys m"] by simp
qed

end
