(* ===== verification/Window_Inv.thy ===== *)
theory Window_Inv
  imports Pane_Facts
begin

text \<open>
  The invariant of the window: every workspace is well formed (\<open>ws_ok\<close>), and workspace identifiers,
  pane identifiers and tab identities are each used once in the whole window and lie below their
  counters. The three kinds of identifier share one contract, the locale \<open>id_space\<close>.
\<close>

section \<open>Identifier spaces\<close>

definition win_ids :: "(Workspace \<Rightarrow> 'x list) \<Rightarrow> Workspace list \<Rightarrow> 'x list" where
  "win_ids idf wss = concat (map idf wss)"

definition alloc_ok ::
  "(Workspace \<Rightarrow> 'x list) \<Rightarrow> (AppWindow \<Rightarrow> 'x \<Rightarrow> bool) \<Rightarrow> AppWindow \<Rightarrow> bool" where
  "alloc_ok idf below aw \<longleftrightarrow>
     distinct (win_ids idf (workspaces aw)) \<and> (\<forall>x\<in>set (win_ids idf (workspaces aw)). below aw x)"

lemma win_ids_split:
  assumes "i < length wss"
  shows "win_ids idf wss = win_ids idf (take i wss) @ idf (wss ! i) @ win_ids idf (drop (Suc i) wss)"
    and "win_ids idf (wss[i := ws]) = win_ids idf (take i wss) @ idf ws @ win_ids idf (drop (Suc i) wss)"
    and "win_ids idf (remove_at i wss) = win_ids idf (take i wss) @ win_ids idf (drop (Suc i) wss)"
proof -
  show "win_ids idf wss = win_ids idf (take i wss) @ idf (wss ! i) @ win_ids idf (drop (Suc i) wss)"
    by (subst id_take_nth_drop [OF assms]) (simp add: win_ids_def)
  show "win_ids idf (wss[i := ws]) = win_ids idf (take i wss) @ idf ws @ win_ids idf (drop (Suc i) wss)"
    unfolding upd_conv_take_nth_drop [OF assms] by (simp add: win_ids_def)
  show "win_ids idf (remove_at i wss) = win_ids idf (take i wss) @ win_ids idf (drop (Suc i) wss)"
    by (simp add: win_ids_def remove_at_def)
qed

lemma win_ids_simps [simp]:
  "win_ids idf [] = []" "win_ids idf (xs @ ys) = win_ids idf xs @ win_ids idf ys"
  "win_ids idf (ws # xs) = idf ws @ win_ids idf xs"
  by (simp_all add: win_ids_def)

lemma in_win_ids: "ws \<in> set wss \<Longrightarrow> x \<in> set (idf ws) \<Longrightarrow> x \<in> set (win_ids idf wss)"
  by (auto simp: win_ids_def)

lemma mset_win_ids_perm: "mset xs = mset ys \<Longrightarrow> mset (win_ids idf xs) = mset (win_ids idf ys)"
proof -
  have "mset (win_ids idf zs) = \<Sum>\<^sub># (image_mset (mset \<circ> idf) (mset zs))" for zs
    by (induction zs) (auto simp: win_ids_def)
  then show "mset xs = mset ys \<Longrightarrow> mset (win_ids idf xs) = mset (win_ids idf ys)" by simp
qed

locale id_space =
  fixes idf :: "Workspace \<Rightarrow> 'x list" and below :: "AppWindow \<Rightarrow> 'x \<Rightarrow> bool"
  assumes below_frame: "below (aw\<lparr>workspaces := W\<rparr>) = below aw"
begin

lemma alloc_ok_replace:
  assumes "alloc_ok idf below aw" "i < length (workspaces aw)" "distinct (idf ws)"
    "\<And>x. x \<in> set (idf ws) \<Longrightarrow> x \<in> set (idf (workspaces aw ! i)) \<or>
        x \<notin> set (win_ids idf (workspaces aw)) \<and> below aw x"
  shows "alloc_ok idf below (aw\<lparr>workspaces := (workspaces aw)[i := ws]\<rparr>)"
  using assms(1,3,4) unfolding alloc_ok_def
  by (auto simp: below_frame win_ids_split [OF assms(2)])

lemma alloc_ok_push:
  assumes "alloc_ok idf below aw" "distinct (idf ws)"
    "\<And>x. x \<in> set (idf ws) \<Longrightarrow> x \<notin> set (win_ids idf (workspaces aw)) \<and> below aw x"
  shows "alloc_ok idf below (aw\<lparr>workspaces := workspaces aw @ [ws]\<rparr>)"
  using assms by (auto simp: alloc_ok_def below_frame)

lemma alloc_ok_remove:
  assumes "alloc_ok idf below aw" "i < length (workspaces aw)"
  shows "alloc_ok idf below (aw\<lparr>workspaces := remove_at i (workspaces aw)\<rparr>)"
  using assms(1) unfolding alloc_ok_def
  by (auto simp: below_frame win_ids_split [OF assms(2)])

lemma alloc_ok_perm:
  assumes "alloc_ok idf below aw" "mset W = mset (workspaces aw)"
  shows "alloc_ok idf below (aw\<lparr>workspaces := W\<rparr>)"
proof -
  have "mset (win_ids idf W) = mset (win_ids idf (workspaces aw))"
    using assms(2) by (rule mset_win_ids_perm)
  from mset_eq_imp_distinct_iff [OF this] mset_eq_setD [OF this]
  have "distinct (win_ids idf W) \<longleftrightarrow> distinct (win_ids idf (workspaces aw))"
    "set (win_ids idf W) = set (win_ids idf (workspaces aw))" .
  with assms(1) show ?thesis by (simp add: alloc_ok_def below_frame)
qed

lemma alloc_ok_unique:
  assumes "alloc_ok idf below aw" "i < length (workspaces aw)" "j < length (workspaces aw)"
    "x \<in> set (idf (workspaces aw ! i))" "x \<in> set (idf (workspaces aw ! j))"
  shows "i = j"
proof (rule ccontr)
  assume ne: "i \<noteq> j"
  let ?W = "workspaces aw"
  have m: "?W ! j \<in> set (take i ?W @ drop (Suc i) ?W)"
  proof (cases "j < i")
    case True
    then show ?thesis using assms(2) by (auto simp: in_set_conv_nth intro!: disjI1 exI [of _ j])
  next
    case False
    with ne assms(3) show ?thesis
      by (auto simp: in_set_conv_nth intro!: disjI2 exI [of _ "j - Suc i"])
  qed
  have "x \<in> set (win_ids idf (take i ?W)) \<union> set (win_ids idf (drop (Suc i) ?W))"
    using in_win_ids [OF m, of x idf] assms(5) by simp
  moreover have "distinct (win_ids idf ?W)" using assms(1) by (simp add: alloc_ok_def)
  ultimately show False
    using assms(4) unfolding win_ids_split(1) [OF assms(2), of idf] by auto
qed

end

section \<open>The three spaces of a window\<close>

definition ws_ids :: "Workspace \<Rightarrow> WorkspaceId list" where
  "ws_ids ws = [ws_key ws]"

definition pane_ids :: "Workspace \<Rightarrow> PaneId list" where
  "pane_ids ws = hm_keys (ws_panes ws)"

definition tab_idents :: "Workspace \<Rightarrow> TabDragIdentity list" where
  "tab_idents ws = map ident (ws_tabs ws)"

definition ws_below :: "AppWindow \<Rightarrow> WorkspaceId \<Rightarrow> bool" where
  "ws_below aw x \<longleftrightarrow> x < next_workspace aw"

definition pane_below :: "AppWindow \<Rightarrow> PaneId \<Rightarrow> bool" where
  "pane_below aw x \<longleftrightarrow> x < next_pane aw"

definition ident_below :: "AppWindow \<Rightarrow> TabDragIdentity \<Rightarrow> bool" where
  "ident_below aw x =
     (case x of SurfaceTab s \<Rightarrow> s < reg_next_id (registry aw) | BrowserTab b \<Rightarrow> b < next_browser aw)"

interpretation ws_space: id_space ws_ids ws_below
  by unfold_locales (simp add: ws_below_def fun_eq_iff)

interpretation pane_space: id_space pane_ids pane_below
  by unfold_locales (simp add: pane_below_def fun_eq_iff)

interpretation tab_space: id_space tab_idents ident_below
  by unfold_locales (simp add: ident_below_def fun_eq_iff split: TabDragIdentity.split)

definition ids_ok :: "AppWindow \<Rightarrow> bool" where
  "ids_ok aw \<longleftrightarrow> alloc_ok ws_ids ws_below aw \<and> alloc_ok pane_ids pane_below aw \<and>
     alloc_ok tab_idents ident_below aw"

definition window_ok :: "AppWindow \<Rightarrow> bool" where
  "window_ok aw \<longleftrightarrow> (\<forall>ws\<in>set (workspaces aw). ws_ok ws) \<and> ids_ok aw"

text \<open>None of the counters is about to wrap, and no split tree is out of node identifiers.\<close>

definition window_room :: "AppWindow \<Rightarrow> bool" where
  "window_room aw \<longleftrightarrow>
     unat (next_workspace aw) + 1 < 2 ^ 32 \<and> unat (next_pane aw) + 1 < 2 ^ 32 \<and>
     unat (next_browser aw) + 1 < 2 ^ 32 \<and> unat (reg_next_id (registry aw)) + 1 < 2 ^ 32 \<and>
     (\<forall>ws\<in>set (workspaces aw). tree_room (split_tree ws))"

lemma window_okD:
  assumes "window_ok aw" "i < length (workspaces aw)"
  shows "ws_ok (workspaces aw ! i)"
  using assms by (simp add: window_ok_def)

text \<open>Fields that the invariant does not read.\<close>

lemma alloc_ok_fields:
  assumes "workspaces aw' = workspaces aw" "below aw' = below aw"
  shows "alloc_ok idf below aw' = alloc_ok idf below aw"
  using assms by (simp add: alloc_ok_def)

lemma window_ok_fields:
  assumes "workspaces aw' = workspaces aw" "next_workspace aw' = next_workspace aw"
    "next_pane aw' = next_pane aw" "next_browser aw' = next_browser aw"
    "reg_next_id (registry aw') = reg_next_id (registry aw)"
  shows "window_ok aw' = window_ok aw"
proof -
  have "ws_below aw' = ws_below aw" "pane_below aw' = pane_below aw"
    "ident_below aw' = ident_below aw"
    using assms
    by (simp_all add: fun_eq_iff ws_below_def pane_below_def ident_below_def
        split: TabDragIdentity.split)
  then show ?thesis
    using assms(1) by (simp add: window_ok_def ids_ok_def alloc_ok_fields [OF assms(1)])
qed

lemma window_ok_emit [simp]: "window_ok (emit e aw) = window_ok aw"
  by (rule window_ok_fields) (simp_all add: emit_def)

lemma window_ok_page [simp]: "window_ok (aw\<lparr>current_page := x\<rparr>) = window_ok aw"
  by (rule window_ok_fields) simp_all

lemma window_ok_registry [simp]:
  "reg_next_id r = reg_next_id (registry aw) \<Longrightarrow> window_ok (aw\<lparr>registry := r\<rparr>) = window_ok aw"
  by (rule window_ok_fields) simp_all

lemma window_ok_browsers [simp]: "window_ok (aw\<lparr>browsers := x\<rparr>) = window_ok aw"
  by (rule window_ok_fields) simp_all

lemma emit_fields [simp]:
  "workspaces (emit e aw) = workspaces aw" "current_page (emit e aw) = current_page aw"
  "registry (emit e aw) = registry aw" "next_pane (emit e aw) = next_pane aw"
  "next_workspace (emit e aw) = next_workspace aw" "next_browser (emit e aw) = next_browser aw"
  by (simp_all add: emit_def)

lemma window_ok_tray [simp]: "window_ok (update_tray_state aw) = window_ok aw"
  by (simp add: update_tray_state_def)

lemma window_ok_focus [simp]: "window_ok (focus_active_panel i p aw) = window_ok aw"
  by (simp add: focus_active_panel_def split: option.split)

lemma workspaces_focus [simp]: "workspaces (focus_active_panel i p aw) = workspaces aw"
  by (simp add: focus_active_panel_def split: option.split)

section \<open>Replacing one workspace\<close>

lemma window_ok_replace:
  assumes ok: "window_ok aw" and i: "i < length (workspaces aw)"
    and ws: "ws_ok ws" and key: "ws_key ws = ws_key (workspaces aw ! i)"
    and panes: "\<And>p. p \<in> set (pane_ids ws) \<Longrightarrow> p \<in> set (pane_ids (workspaces aw ! i)) \<or>
       p \<notin> set (win_ids pane_ids (workspaces aw)) \<and> pane_below aw p"
    and tabs: "distinct (tab_idents ws)" "\<And>t. t \<in> set (tab_idents ws) \<Longrightarrow>
       t \<in> set (tab_idents (workspaces aw ! i)) \<or>
       t \<notin> set (win_ids tab_idents (workspaces aw)) \<and> ident_below aw t"
  shows "window_ok (aw\<lparr>workspaces := (workspaces aw)[i := ws]\<rparr>)"
proof -
  have a: "alloc_ok ws_ids ws_below aw" "alloc_ok pane_ids pane_below aw"
    "alloc_ok tab_idents ident_below aw"
    using ok by (simp_all add: window_ok_def ids_ok_def)
  have "distinct (pane_ids ws)" using ws_okD(1) [OF ws] by (simp add: pane_ids_def hm_ok_def)
  then have "ids_ok (aw\<lparr>workspaces := (workspaces aw)[i := ws]\<rparr>)"
    unfolding ids_ok_def
    using ws_space.alloc_ok_replace [OF a(1) i, of ws] pane_space.alloc_ok_replace [OF a(2) i _ panes]
      tab_space.alloc_ok_replace [OF a(3) i tabs] key
    by (simp add: ws_ids_def)
  then show ?thesis using ok ws set_update_subset_insert [of "workspaces aw" i ws]
    by (auto simp: window_ok_def)
qed

lemma distinct_tab_idents:
  assumes "window_ok aw" "i < length (workspaces aw)"
  shows "distinct (tab_idents (workspaces aw ! i))"
proof -
  have "distinct (win_ids tab_idents (workspaces aw))"
    using assms(1) by (simp add: window_ok_def ids_ok_def alloc_ok_def)
  then show ?thesis unfolding win_ids_split(1) [OF assms(2)] by simp
qed

text \<open>An edit that leaves the identifiers of the workspace alone.\<close>

lemma window_ok_same_ids:
  assumes "window_ok aw" "i < length (workspaces aw)" "ws_ok (f (workspaces aw ! i))"
    "ws_key (f (workspaces aw ! i)) = ws_key (workspaces aw ! i)"
    "set (pane_ids (f (workspaces aw ! i))) \<subseteq> set (pane_ids (workspaces aw ! i))"
    "mset (tab_idents (f (workspaces aw ! i))) = mset (tab_idents (workspaces aw ! i))"
  shows "window_ok (modify_ws i f aw)"
proof -
  have "distinct (tab_idents (f (workspaces aw ! i)))"
    using distinct_tab_idents [OF assms(1,2)] assms(6) by (metis mset_eq_imp_distinct_iff)
  then show ?thesis
    unfolding modify_ws_def using assms mset_eq_setD [OF assms(6)]
    by (intro window_ok_replace) auto
qed

end
