(* ===== verification/Window_Steps.thy ===== *)
theory Window_Steps
  imports Window_Inv
begin

text \<open>
  Every handler keeps the window invariant and, where it may panic or diverge in principle, returns.
  The proofs go through three kinds of edit: of the tree of one workspace, of one pane, and of the
  list of workspaces.
\<close>

section \<open>Tabs of a workspace under edits of its pane table\<close>

lemma ws_tabs_edit:
  assumes "hm_ok (ws_panes ws)" "hm_get (ws_panes ws) p = Some v"
  obtains A B where "ws_tabs ws = A @ tabs v @ B"
    "\<And>f. ws_tabs (ws\<lparr>ws_panes := hm_modify p f (ws_panes ws)\<rparr>) = A @ tabs (f v) @ B"
    "ws_tabs (ws\<lparr>ws_panes := hm_remove p (ws_panes ws)\<rparr>) = A @ B"
proof -
  obtain xs ys where m: "ws_panes ws = xs @ (p, v) # ys" "p \<notin> set (hm_keys xs)" "p \<notin> set (hm_keys ys)"
    using assms by (rule hm_splitE)
  show ?thesis
    by (rule that [of "concat (map (tabs \<circ> snd) xs)" "concat (map (tabs \<circ> snd) ys)"])
       (use m in \<open>simp_all add: ws_tabs_def\<close>)
qed

lemma ws_tabs_add_pane:
  "\<not> hm_contains (ws_panes ws) (pane_key p) \<Longrightarrow> ws_tabs (add_pane p ws) = ws_tabs ws @ tabs p"
  by (simp add: ws_tabs_def add_pane_def hm_contains_keys hm_insert_fresh)

lemma ws_tabs_tree [simp]: "ws_tabs (ws\<lparr>split_tree := t\<rparr>) = ws_tabs ws"
  by (simp add: ws_tabs_def)

lemma idf_tree [simp]:
  "pane_ids (ws\<lparr>split_tree := t\<rparr>) = pane_ids ws" "tab_idents (ws\<lparr>split_tree := t\<rparr>) = tab_idents ws"
  by (simp_all add: pane_ids_def tab_idents_def)

lemma pane_ids_modify [simp]:
  "pane_ids (ws\<lparr>ws_panes := hm_modify p f (ws_panes ws)\<rparr>) = pane_ids ws"
  by (simp add: pane_ids_def)

lemma pane_ids_contains: "p \<in> set (pane_ids ws) \<longleftrightarrow> hm_contains (ws_panes ws) p"
  by (simp add: pane_ids_def hm_contains_keys)

lemma pane_tabs_subset:
  assumes "hm_get (ws_panes ws) p = Some v"
  shows "set (tabs v) \<subseteq> set (ws_tabs ws)"
  using map_of_SomeD [OF assms] by (auto simp: ws_tabs_def)

lemma modify_ws_fields [simp]:
  "length (workspaces (modify_ws i f aw)) = length (workspaces aw)"
  "next_pane (modify_ws i f aw) = next_pane aw" "registry (modify_ws i f aw) = registry aw"
  "next_browser (modify_ws i f aw) = next_browser aw" "current_page (modify_ws i f aw) = current_page aw"
  "next_workspace (modify_ws i f aw) = next_workspace aw"
  "i < length (workspaces aw) \<Longrightarrow> workspaces (modify_ws i f aw) ! i = f (workspaces aw ! i)"
  "j \<noteq> i \<Longrightarrow> workspaces (modify_ws i f aw) ! j = workspaces aw ! j"
  by (simp_all add: modify_ws_def)

lemma modify_ws_twice [simp]: "modify_ws i f (modify_ws i g aw) = modify_ws i (f \<circ> g) aw"
  by (cases "i < length (workspaces aw)") (simp_all add: modify_ws_def list_update_beyond)

section \<open>Edits of one workspace\<close>

lemma window_ok_tree:
  assumes "window_ok aw" "i < length (workspaces aw)" "good_tree t"
    "set (tree_order t) = set (tree_order (split_tree (workspaces aw ! i)))"
  shows "window_ok (modify_ws i (split_tree_update (\<lambda>_. t)) aw)"
  using assms ws_ok_tree [OF window_okD [OF assms(1,2)] assms(3,4)]
  by (intro window_ok_same_ids) simp_all

lemma window_ok_set_focus:
  assumes "window_ok aw" "i < length (workspaces aw)" "hm_contains (ws_panes (workspaces aw ! i)) p"
  shows "window_ok (set_pane_active i p aw)"
proof -
  let ?ws = "workspaces aw ! i"
  note o = ws_okD [OF window_okD [OF assms(1,2)]]
  have "good_tree (set_focused p (split_tree ?ws))"
    unfolding set_focused_def by (rule good_refocus [OF o(3)]) (use assms(3) o(6) in simp)
  moreover have "tree_order (set_focused p (split_tree ?ws)) = tree_order (split_tree ?ws)"
    by (simp add: set_focused_def)
  ultimately have "window_ok (modify_ws i (split_tree_update (\<lambda>_. set_focused p (split_tree ?ws))) aw)"
    using window_ok_tree [OF assms(1,2)] by simp
  moreover have "modify_ws i (set_focused_pane p) aw =
      modify_ws i (split_tree_update (\<lambda>_. set_focused p (split_tree ?ws))) aw"
    by (simp add: modify_ws_def set_focused_pane_def)
  ultimately show ?thesis by (simp add: set_pane_active_def)
qed

lemma window_ok_modify_pane:
  assumes ok: "window_ok aw" "i < length (workspaces aw)"
    and f: "\<And>v. hm_get (ws_panes (workspaces aw ! i)) p = Some v \<Longrightarrow>
       pane_ok (f v) \<and> pane_key (f v) = p \<and> mset (map ident (tabs (f v))) = mset (map ident (tabs v))"
  shows "window_ok (modify_pane i p f aw)"
proof -
  let ?ws = "workspaces aw ! i"
  let ?ws' = "?ws\<lparr>ws_panes := hm_modify p f (ws_panes ?ws)\<rparr>"
  have wo: "ws_ok ?ws" by (rule window_okD [OF ok])
  have "mset (tab_idents ?ws') = mset (tab_idents ?ws)"
  proof (cases "hm_get (ws_panes ?ws) p")
    case None
    then have "hm_modify p f (ws_panes ?ws) = ws_panes ?ws"
      by (intro hm_modify_absent) (simp add: map_of_eq_None_iff)
    then show ?thesis by (simp add: tab_idents_def ws_tabs_def)
  next
    case (Some v)
    obtain A B where "ws_tabs ?ws = A @ tabs v @ B" "ws_tabs ?ws' = A @ tabs (f v) @ B"
      using ws_tabs_edit [OF ws_okD(1) [OF wo] Some] by metis
    with f [OF Some] show ?thesis by (simp add: tab_idents_def)
  qed
  then show ?thesis
    unfolding modify_pane_def using ok ws_ok_modify [OF wo] f
    by (intro window_ok_same_ids) (simp_all del: mset_map)
qed

lemma mset_ident_eq: "mset xs = mset ys \<Longrightarrow> mset (map ident xs) = mset (map ident ys)"
  by simp

lemma window_ok_modify_pane_mset:
  assumes "window_ok aw" "i < length (workspaces aw)"
    and "\<And>v. hm_get (ws_panes (workspaces aw ! i)) p = Some v \<Longrightarrow> pane_ok v \<Longrightarrow>
       pane_ok (f v) \<and> pane_key (f v) = pane_key v \<and> mset (tabs (f v)) = mset (tabs v)"
  shows "window_ok (modify_pane i p f aw)"
proof (rule window_ok_modify_pane [OF assms(1,2)])
  fix v assume v: "hm_get (ws_panes (workspaces aw ! i)) p = Some v"
  have "pane_key v = p \<and> pane_ok v"
    using panes_okD [OF ws_okD(2) [OF window_okD [OF assms(1,2)]] v] .
  with assms(3) [OF v] show "pane_ok (f v) \<and> pane_key (f v) = p \<and>
      mset (map ident (tabs (f v))) = mset (map ident (tabs v))"
    using mset_ident_eq by blast
qed

section \<open>Counters\<close>

lemma window_ok_bump:
  assumes "window_ok aw" "workspaces aw' = workspaces aw" "next_workspace aw \<le> next_workspace aw'"
    "next_pane aw \<le> next_pane aw'" "next_browser aw \<le> next_browser aw'"
    "reg_next_id (registry aw) \<le> reg_next_id (registry aw')"
  shows "window_ok aw'"
proof -
  have "ws_below aw x \<Longrightarrow> ws_below aw' x" "pane_below aw y \<Longrightarrow> pane_below aw' y"
    "ident_below aw z \<Longrightarrow> ident_below aw' z" for x y z
    using assms(3-) by (auto simp: ws_below_def pane_below_def ident_below_def
        split: TabDragIdentity.splits)
  with assms(1,2) show ?thesis
    by (auto simp: window_ok_def ids_ok_def alloc_ok_def)
qed

lemma window_roomD:
  assumes "window_room aw"
  shows "next_workspace aw < next_workspace aw + 1" "next_pane aw < next_pane aw + 1"
    "next_browser aw < next_browser aw + 1"
    "reg_next_id (registry aw) < reg_next_id (registry aw) + 1"
    "i < length (workspaces aw) \<Longrightarrow> tree_room (split_tree (workspaces aw ! i))"
  using assms u32_less_Suc by (auto simp: window_room_def)

lemma fresh_pane:
  assumes "window_ok aw"
  shows "next_pane aw \<notin> set (win_ids pane_ids (workspaces aw))"
  using assms by (auto simp: window_ok_def ids_ok_def alloc_ok_def pane_below_def)

lemma fresh_surface:
  assumes "window_ok aw"
  shows "SurfaceTab (reg_next_id (registry aw)) \<notin> set (win_ids tab_idents (workspaces aw))"
  using assms by (auto simp: window_ok_def ids_ok_def alloc_ok_def ident_below_def)

lemma fresh_browser:
  assumes "window_ok aw"
  shows "BrowserTab (next_browser aw) \<notin> set (win_ids tab_idents (workspaces aw))"
  using assms by (auto simp: window_ok_def ids_ok_def alloc_ok_def ident_below_def)

lemma fresh_workspace:
  assumes "window_ok aw"
  shows "next_workspace aw \<notin> set (win_ids ws_ids (workspaces aw))"
  using assms by (auto simp: window_ok_def ids_ok_def alloc_ok_def ws_below_def)

end
