(* ===== verification/Tab_Conserve.thy ===== *)
theory Tab_Conserve
  imports Window_Steps
begin

text \<open>
  The drag-and-drop handlers on a well-formed window: they return, keep the invariant, and move tabs
  without losing, duplicating or altering one.
\<close>

definition win_tabs :: "AppWindow \<Rightarrow> Tab list" where
  "win_tabs aw = win_ids ws_tabs (workspaces aw)"

definition conserves :: "AppWindow \<Rightarrow> AppWindow \<Rightarrow> bool" where
  "conserves aw aw' \<longleftrightarrow> window_ok aw' \<and> mset (win_tabs aw') = mset (win_tabs aw)"

lemma conserves_refl [simp]: "conserves aw aw \<longleftrightarrow> window_ok aw"
  by (simp add: conserves_def)

lemma win_tabs_fields [simp]:
  "win_tabs (emit e aw) = win_tabs aw" "win_tabs (aw\<lparr>current_page := x\<rparr>) = win_tabs aw"
  "win_tabs (update_tray_state aw) = win_tabs aw" "win_tabs (focus_active_panel i p aw) = win_tabs aw"
  "win_tabs (aw\<lparr>next_pane := n\<rparr>) = win_tabs aw"
  by (simp_all add: win_tabs_def update_tray_state_def)

lemma win_tabs_replace:
  assumes "i < length (workspaces aw)" "mset (ws_tabs ws) = mset (ws_tabs (workspaces aw ! i))"
  shows "mset (win_tabs (aw\<lparr>workspaces := (workspaces aw)[i := ws]\<rparr>)) = mset (win_tabs aw)"
  using assms(2)
  by (simp add: win_tabs_def win_ids_split(2) [OF assms(1)])
     (simp add: win_ids_split(1) [OF assms(1), of ws_tabs])

lemma win_tabs_set_active:
  assumes "i < length (workspaces aw)"
  shows "mset (win_tabs (set_pane_active i p aw)) = mset (win_tabs aw)"
  using win_tabs_replace [OF assms, of "set_focused_pane p (workspaces aw ! i)"]
  by (simp add: set_pane_active_def modify_ws_def set_focused_pane_def)

lemma conserves_set_active:
  assumes "conserves aw aw'" "i < length (workspaces aw')"
    "hm_contains (ws_panes (workspaces aw' ! i)) p"
  shows "conserves aw (set_pane_active i p aw')"
  using assms window_ok_set_focus [of aw' i p] win_tabs_set_active [OF assms(2), of p]
  by (simp add: conserves_def)

lemma conserves_replace:
  assumes ok: "window_ok aw" and i: "i < length (workspaces aw)"
    and ws: "ws_ok ws" "ws_key ws = ws_key (workspaces aw ! i)"
    and t: "mset (ws_tabs ws) = mset (ws_tabs (workspaces aw ! i))"
    and p: "\<And>p. p \<in> set (pane_ids ws) \<Longrightarrow> p \<in> set (pane_ids (workspaces aw ! i)) \<or>
       p \<notin> set (win_ids pane_ids (workspaces aw)) \<and> pane_below aw p"
  shows "conserves aw (aw\<lparr>workspaces := (workspaces aw)[i := ws]\<rparr>)"
proof -
  have "mset (tab_idents ws) = mset (tab_idents (workspaces aw ! i))"
    using t by (simp add: tab_idents_def)
  then have "distinct (tab_idents ws)" "set (tab_idents ws) = set (tab_idents (workspaces aw ! i))"
    using distinct_tab_idents [OF ok i] mset_eq_imp_distinct_iff mset_eq_setD by metis+
  then show ?thesis
    using window_ok_replace [OF ok i ws p] win_tabs_replace [OF i t] by (simp add: conserves_def)
qed

lemma tab_index_facts:
  assumes "tab_index_for_identity p d = Some idx"
  shows "idx < length (tabs p)" "ident (tabs p ! idx) = d"
  using position_SomeD [of _ "tabs p" idx] assms
  by (auto simp: tab_index_for_identity_def ident_def)

lemma insertion_index_le: "insertion_index_for_target p ins = Some i \<Longrightarrow> i \<le> length (tabs p)"
  using tab_index_facts by (fastforce simp: insertion_index_for_target_def split: TabInsertion.splits)

lemma in_tree_ok:
  assumes "window_ok aw" "i < length (workspaces aw)"
  shows "in_tree i p aw = Some (hm_contains (ws_panes (workspaces aw ! i)) p)"
proof -
  note o = ws_okD [OF window_okD [OF assms]]
  show ?thesis using node_id_wf [OF o(4), of p] o(6) [of p] by (auto simp: in_tree_def)
qed

lemma current_ws_less: "current_ws aw = Some i \<Longrightarrow> i < length (workspaces aw)"
  by (auto simp: current_ws_def split: option.splits if_splits)

section \<open>Reordering inside a pane\<close>

lemma modify_pane_conserves:
  assumes "window_ok aw" "i < length (workspaces aw)"
    and f: "\<And>v. hm_get (ws_panes (workspaces aw ! i)) p = Some v \<Longrightarrow> pane_ok v \<Longrightarrow>
       pane_ok (f v) \<and> pane_key (f v) = pane_key v \<and> mset (tabs (f v)) = mset (tabs v)"
  shows "conserves aw (modify_pane i p f aw)"
proof -
  let ?ws = "workspaces aw ! i"
  let ?ws' = "?ws\<lparr>ws_panes := hm_modify p f (ws_panes ?ws)\<rparr>"
  note o = ws_okD [OF window_okD [OF assms(1,2)]]
  have "mset (ws_tabs ?ws') = mset (ws_tabs ?ws)"
  proof (cases "hm_get (ws_panes ?ws) p")
    case None
    then have "hm_modify p f (ws_panes ?ws) = ws_panes ?ws"
      by (intro hm_modify_absent) (simp add: map_of_eq_None_iff)
    then show ?thesis by simp
  next
    case (Some v)
    obtain A B where "ws_tabs ?ws = A @ tabs v @ B" "ws_tabs ?ws' = A @ tabs (f v) @ B"
      using ws_tabs_edit [OF o(1) Some] by metis
    with f [OF Some] panes_okD [OF o(2) Some] show ?thesis by simp
  qed
  then have "mset (win_tabs (modify_pane i p f aw)) = mset (win_tabs aw)"
    using win_tabs_replace [OF assms(2)] by (simp add: modify_pane_def modify_ws_def)
  with window_ok_modify_pane_mset [OF assms] show ?thesis by (simp add: conserves_def)
qed

lemma reorder_tab_conserves:
  assumes ok: "window_ok aw"
  shows "\<exists>aw'. reorder_tab_in_pane gtk_ok p d ins aw = Some aw' \<and> conserves aw aw'"
proof (cases "current_ws aw")
  case (Some i)
  have i: "i < length (workspaces aw)" by (rule current_ws_less [OF Some])
  show ?thesis
  proof (cases "pane_at i p aw")
    case (Some pane)
    have upd: "conserves aw (modify_pane i p (\<lambda>v. unwrap_or (reorder_tabs fr n v) v) aw)"
      if "tab_index_for_identity pane d = Some fr" for fr n
    proof (rule modify_pane_conserves [OF ok i])
      fix v assume v: "hm_get (ws_panes (workspaces aw ! i)) p = Some v" "pane_ok v"
      then have "v = pane" using Some by (simp add: pane_at_def)
      then have fr: "fr < length (tabs v)" using tab_index_facts(1) [OF that] by simp
      show "pane_ok (unwrap_or (reorder_tabs fr n v) v) \<and>
          pane_key (unwrap_or (reorder_tabs fr n v) v) = pane_key v \<and>
          mset (tabs (unwrap_or (reorder_tabs fr n v) v)) = mset (tabs v)"
      proof (cases "reorder_tabs fr n v")
        case (Some w)
        with reorder_tabs_facts(1-3) [OF Some v(2) fr] show ?thesis by simp
      qed (use v(2) in simp)
    qed
    have "hm_contains (ws_panes (workspaces aw ! i)) p" using Some by (auto simp: pane_at_def)
    then have ev: "reorder_tab_in_pane gtk_ok p d ins aw =
        (case (tab_index_for_identity pane d, insertion_index_for_target pane ins) of
           (Some fr, Some n) \<Rightarrow>
             if \<not> gtk_ok then Some aw
             else Some (modify_pane i p (\<lambda>v. unwrap_or (reorder_tabs fr n v) v) aw)
         | _ \<Rightarrow> Some aw)"
      using Some \<open>current_ws aw = Some i\<close> in_tree_ok [OF ok i, of p]
      by (simp add: reorder_tab_in_pane_def)
    show ?thesis
      unfolding ev using upd ok
      by (cases "tab_index_for_identity pane d"; cases "insertion_index_for_target pane ins") auto
  qed (use \<open>current_ws aw = Some i\<close> ok in \<open>simp add: reorder_tab_in_pane_def\<close>)
qed (use ok in \<open>simp add: reorder_tab_in_pane_def\<close>)

section \<open>Taking a tab out of a pane\<close>

text \<open>
  \<open>ws_take f s ws\<close> is the workspace with the edit \<open>f\<close>, which removes one tab, applied to pane \<open>s\<close>,
  and without the pane when that was its only tab.
\<close>

definition ws_take :: "(Pane \<Rightarrow> Pane) \<Rightarrow> PaneId \<Rightarrow> Workspace \<Rightarrow> Workspace run" where
  "ws_take f s ws =
     (case hm_get (ws_panes ws) s of
        None \<Rightarrow> None
      | Some sp \<Rightarrow>
          if length (tabs sp) = 1 then
            do { (_, t) \<leftarrow> remove s (split_tree ws);
                 Some (snd (remove_pane s (ws\<lparr>split_tree := t\<rparr>))) }
          else Some (ws\<lparr>ws_panes := hm_modify s f (ws_panes ws)\<rparr>))"

text \<open>\<open>takes f p idx\<close>: on pane \<open>p\<close> the edit \<open>f\<close> removes the tab at \<open>idx\<close> and keeps the selection valid.\<close>

definition takes :: "(Pane \<Rightarrow> Pane) \<Rightarrow> Pane \<Rightarrow> usize \<Rightarrow> bool" where
  "takes f p idx \<longleftrightarrow> idx < length (tabs p) \<and> tabs (f p) = remove_at idx (tabs p) \<and>
     pane_key (f p) = pane_key p \<and> (length (tabs p) \<ge> 2 \<longrightarrow> pane_ok (f p))"

abbreviation take_tab :: "usize \<Rightarrow> Pane \<Rightarrow> Pane" where
  "take_tab idx \<equiv> \<lambda>v. snd (remove_tab_preserving_selection idx v)"

lemma takes_take_tab [intro]: "pane_ok p \<Longrightarrow> idx < length (tabs p) \<Longrightarrow> takes (take_tab idx) p idx"
  using remove_selected_facts [of p idx] by (simp add: takes_def)

lemma takes_remove_where:
  assumes "pane_ok p" "position P (tabs p) = Some idx" "length (tabs p) \<ge> 2"
  shows "takes (\<lambda>v. snd (remove_tab_where P v)) p idx"
  using remove_tab_where_facts [OF assms] position_SomeD [OF assms(2)] by (simp add: takes_def)

lemma ws_take_ok:
  assumes ok: "ws_ok ws" and sp: "hm_get (ws_panes ws) s = Some sp" and idx: "idx < length (tabs sp)"
    and f: "length (tabs sp) \<ge> 2 \<Longrightarrow> takes f sp idx"
    and other: "length (tabs sp) \<ge> 2 \<or> (\<exists>q. hm_contains (ws_panes ws) q \<and> q \<noteq> s)"
  shows "\<exists>ws1. ws_take f s ws = Some ws1 \<and> ws_ok ws1 \<and> ws_key ws1 = ws_key ws \<and>
    add_mset (tabs sp ! idx) (mset (ws_tabs ws1)) = mset (ws_tabs ws) \<and>
    (\<forall>p. hm_contains (ws_panes ws1) p \<longleftrightarrow>
        hm_contains (ws_panes ws) p \<and> (p = s \<longrightarrow> length (tabs sp) \<ge> 2)) \<and>
    next_id (split_tree ws1) = next_id (split_tree ws)"
proof -
  note o = ws_okD [OF ok]
  have po: "pane_key sp = s" "pane_ok sp" using panes_okD [OF o(2) sp] by auto
  have mt: "add_mset (tabs sp ! idx) (mset (remove_at idx (tabs sp))) = mset (tabs sp)"
    by (rule mset_remove_at_add [OF idx])
  obtain A B where AB: "ws_tabs ws = A @ tabs sp @ B"
    "\<And>f. ws_tabs (ws\<lparr>ws_panes := hm_modify s f (ws_panes ws)\<rparr>) = A @ tabs (f sp) @ B"
    "ws_tabs (ws\<lparr>ws_panes := hm_remove s (ws_panes ws)\<rparr>) = A @ B"
    using ws_tabs_edit [OF o(1) sp] by metis
  show ?thesis
  proof (cases "length (tabs sp) = 1")
    case True
    then obtain q where q: "hm_contains (ws_panes ws) q" "q \<noteq> s" using other by auto
    obtain t where t: "remove s (split_tree ws) = Some (True, t)"
      "ws_ok (snd (remove_pane s (ws\<lparr>split_tree := t\<rparr>)))"
      using ws_remove_ok [OF ok _ q] sp by blast
    let ?ws1 = "snd (remove_pane s (ws\<lparr>split_tree := t\<rparr>))"
    have one: "tabs sp = [tabs sp ! idx]" using True idx by (cases "tabs sp") auto
    have "ws_tabs ?ws1 = A @ B" using AB(3) by (simp add: remove_pane_def ws_tabs_def)
    moreover have "mset (ws_tabs ws) = add_mset (tabs sp ! idx) (mset (A @ B))"
      unfolding AB(1) by (subst one) simp
    ultimately show ?thesis
      using True t sp remove_next_id [OF o(4) t(1)]
      by (auto simp: ws_take_def remove_pane_def)
  next
    case False
    then have two: "length (tabs sp) \<ge> 2" using idx by linarith
    let ?ws1 = "ws\<lparr>ws_panes := hm_modify s f (ws_panes ws)\<rparr>"
    note tf = f [OF two, unfolded takes_def]
    have "ws_ok ?ws1" by (rule ws_ok_modify [OF ok]) (use sp tf two po in auto)
    moreover have "add_mset (tabs sp ! idx) (mset (ws_tabs ?ws1)) = mset (ws_tabs ws)"
      using AB(1) AB(2) [of f] tf mt by simp
    ultimately show ?thesis using False two sp by (auto simp: ws_take_def)
  qed
qed

lemma ws_give_new:
  assumes "ws_ok ws" "tree_room (split_tree ws)" "hm_contains (ws_panes ws) target"
    "\<not> hm_contains (ws_panes ws) np"
  shows "\<exists>n t. split_gen before target np ori (split_tree ws) = Some (Some n, t) \<and>
    ws_ok ((add_pane (pane_for_tab np tab) ws)\<lparr>split_tree := t\<rparr>) \<and>
    mset (ws_tabs ((add_pane (pane_for_tab np tab) ws)\<lparr>split_tree := t\<rparr>)) =
      add_mset tab (mset (ws_tabs ws))"
  using ws_split_ok [OF assms(1,2,3), of "pane_for_tab np tab" before ori] assms(4)
    ws_tabs_add_pane [of ws "pane_for_tab np tab"]
  by (auto simp: pane_for_tab_facts)

lemma ws_give_existing:
  assumes "ws_ok ws" "hm_get (ws_panes ws) target = Some tp"
    "tidx \<le> length (tabs tp)" "g tp = receive_tab tidx tab tp"
  shows "ws_ok (ws\<lparr>ws_panes := hm_modify target g (ws_panes ws)\<rparr>)"
    "mset (ws_tabs (ws\<lparr>ws_panes := hm_modify target g (ws_panes ws)\<rparr>)) =
      add_mset tab (mset (ws_tabs ws))"
proof -
  note o = ws_okD [OF assms(1)]
  note rt = receive_tab_facts [OF assms(3), of tab]
  show "ws_ok (ws\<lparr>ws_panes := hm_modify target g (ws_panes ws)\<rparr>)"
    by (rule ws_ok_modify [OF assms(1)]) (use assms(2,4) rt panes_okD [OF o(2) assms(2)] in auto)
  obtain A B where "ws_tabs ws = A @ tabs tp @ B"
    "ws_tabs (ws\<lparr>ws_panes := hm_modify target g (ws_panes ws)\<rparr>) = A @ tabs (g tp) @ B"
    using ws_tabs_edit [OF o(1) assms(2)] by metis
  then show "mset (ws_tabs (ws\<lparr>ws_panes := hm_modify target g (ws_panes ws)\<rparr>)) =
      add_mset tab (mset (ws_tabs ws))"
    using rt(2) assms(4) by (simp add: mset_insert_at)
qed

section \<open>Extracting a tab into a new pane\<close>

lemma modify_ws_eq:
  "i < length (workspaces aw) \<Longrightarrow> f (workspaces aw ! i) = ws \<Longrightarrow>
     modify_ws i f aw = aw\<lparr>workspaces := (workspaces aw)[i := ws]\<rparr>"
  by (simp add: modify_ws_def)

lemma conserves_new_pane:
  assumes ok: "window_ok aw" and room: "window_room aw" and i: "i < length (workspaces aw)"
    and ws: "ws_ok ws" "ws_key ws = ws_key (workspaces aw ! i)"
    and t: "mset (ws_tabs ws) = mset (ws_tabs (workspaces aw ! i))"
    and p: "\<And>p. hm_contains (ws_panes ws) p \<Longrightarrow>
       hm_contains (ws_panes (workspaces aw ! i)) p \<or> p = next_pane aw"
    and q: "hm_contains (ws_panes ws) q"
  shows "conserves aw (set_pane_active i q
    (aw\<lparr>next_pane := next_pane aw + 1, workspaces := (workspaces aw)[i := ws]\<rparr>))"
proof -
  let ?aw = "aw\<lparr>next_pane := next_pane aw + 1\<rparr>"
  have ok': "window_ok ?aw"
    by (rule window_ok_bump [OF ok]) (use window_roomD(2) [OF room] in auto)
  have "conserves ?aw (?aw\<lparr>workspaces := (workspaces ?aw)[i := ws]\<rparr>)"
  proof (rule conserves_replace [OF ok' _ ws(1)])
    fix x assume "x \<in> set (pane_ids ws)"
    with p [of x] show "x \<in> set (pane_ids (workspaces ?aw ! i)) \<or>
        x \<notin> set (win_ids pane_ids (workspaces ?aw)) \<and> pane_below ?aw x"
      using fresh_pane [OF ok] window_roomD(2) [OF room]
      by (auto simp: pane_ids_contains pane_below_def)
  qed (use i ws(2) t in simp_all)
  then have "conserves aw (aw\<lparr>next_pane := next_pane aw + 1, workspaces := (workspaces aw)[i := ws]\<rparr>)"
    by (simp add: conserves_def)
  then show ?thesis by (rule conserves_set_active) (use i q in simp_all)
qed

lemma split_gen_cases: "(if before then split_before p q ori T else split_pane p q ori T) = split_gen before p q ori T"
  by (simp add: split_before_def split_pane_def)

lemma pane_not_next:
  assumes "window_ok aw" "i < length (workspaces aw)"
  shows "\<not> hm_contains (ws_panes (workspaces aw ! i)) (next_pane aw)"
  using fresh_pane [OF assms(1)] in_win_ids [OF nth_mem [OF assms(2)], of _ pane_ids]
  by (auto simp: pane_ids_contains)

lemma split_tab_conserves:
  assumes ok: "window_ok aw" and room: "window_room aw"
  shows "\<exists>aw'. split_tab_to_pane gtk_ok s d ori before aw = Some aw' \<and> conserves aw aw'"
proof (cases "\<exists>i sp idx. current_ws aw = Some i \<and> pane_at i s aw = Some sp \<and> length (tabs sp) \<ge> 2 \<and>
    tab_index_for_identity sp d = Some idx \<and> gtk_ok")
  case False
  have "split_tab_to_pane gtk_ok s d ori before aw = Some aw"
  proof (cases "current_ws aw")
    case (Some i)
    note it = in_tree_ok [OF ok current_ws_less [OF Some], of s]
    show ?thesis
      using False Some it
      by (cases "pane_at i s aw"; cases "tab_index_for_identity (the (pane_at i s aw)) d")
         (auto simp: split_tab_to_pane_def not_le)
  qed (simp add: split_tab_to_pane_def)
  with ok show ?thesis by simp
next
  case True
  then obtain i sp idx where c: "current_ws aw = Some i" "pane_at i s aw = Some sp"
    "length (tabs sp) \<ge> 2" "tab_index_for_identity sp d = Some idx" gtk_ok by blast
  have i: "i < length (workspaces aw)" by (rule current_ws_less [OF c(1)])
  let ?ws = "workspaces aw ! i" and ?np = "next_pane aw" and ?tab = "tabs sp ! idx"
  let ?f = "\<lambda>v. snd (remove_tab_preserving_selection idx v)"
  let ?ws1 = "?ws\<lparr>ws_panes := hm_modify s ?f (ws_panes ?ws)\<rparr>"
  have sp: "hm_get (ws_panes ?ws) s = Some sp" using c(2) by (simp add: pane_at_def)
  have wo: "ws_ok ?ws" by (rule window_okD [OF ok i])
  have po: "pane_ok sp" using panes_okD [OF ws_okD(2) [OF wo] sp] by simp
  note idx = tab_index_facts(1) [OF c(4)]
  have "ws_take ?f s ?ws = Some ?ws1" using sp c(3) by (simp add: ws_take_def)
  with ws_take_ok [OF wo sp idx takes_take_tab [OF po idx]] c(3)
  have w1: "ws_ok ?ws1" "add_mset ?tab (mset (ws_tabs ?ws1)) = mset (ws_tabs ?ws)" by auto
  have tgt: "hm_contains (ws_panes ?ws1) s" using sp by auto
  have new: "\<not> hm_contains (ws_panes ?ws1) ?np" using pane_not_next [OF ok i] by simp
  have tr: "tree_room (split_tree ?ws1)" using window_roomD(5) [OF room i] by simp
  obtain n t where t: "split_gen before s ?np ori (split_tree ?ws1) = Some (Some n, t)"
    "ws_ok ((add_pane (pane_for_tab ?np ?tab) ?ws1)\<lparr>split_tree := t\<rparr>)"
    "mset (ws_tabs ((add_pane (pane_for_tab ?np ?tab) ?ws1)\<lparr>split_tree := t\<rparr>)) =
       add_mset ?tab (mset (ws_tabs ?ws1))"
    using ws_give_new [OF w1(1) tr tgt new] by blast
  let ?ws2 = "(add_pane (pane_for_tab ?np ?tab) ?ws1)\<lparr>split_tree := t\<rparr>"
  have "split_tab_to_pane gtk_ok s d ori before aw = Some (set_pane_active i ?np
      (aw\<lparr>next_pane := ?np + 1, workspaces := (workspaces aw)[i := ?ws2]\<rparr>))"
    using c in_tree_ok [OF ok i, of s] sp t(1) i
    by (simp add: split_tab_to_pane_def next_pane_id_def Let_def split_or_panic_def split_gen_cases
        modify_pane_def modify_ws_def hm_contains_get add_pane_def)
  moreover have "conserves aw (set_pane_active i ?np
      (aw\<lparr>next_pane := ?np + 1, workspaces := (workspaces aw)[i := ?ws2]\<rparr>))"
    by (rule conserves_new_pane [OF ok room i t(2)])
       (use t(3) w1(2) in \<open>auto simp: add_pane_def pane_for_tab_facts\<close>)
  ultimately show ?thesis by blast
qed

text \<open>
  The handlers take the tab out, let the destination receive it (\<open>G\<close>) and only then remove an
  emptied source pane; the result is \<open>G\<close> applied to the workspace without the tab.
\<close>

lemma take_then_clean:
  assumes i: "i < length (workspaces aw)" and ws: "ws = workspaces aw ! i" "ws_ok ws"
    and sp: "hm_get (ws_panes ws) s = Some sp" and f: "takes f sp idx"
    and take: "ws_take f s ws = Some ws1"
    and G: "\<And>w. hm_get (ws_panes (G w)) s = hm_get (ws_panes w) s" "\<And>w. split_tree (G w) = split_tree w"
      "\<And>t. snd (remove_pane s ((G (ws\<lparr>ws_panes := hm_modify s f (ws_panes ws)\<rparr>))\<lparr>split_tree := t\<rparr>)) =
         G (snd (remove_pane s (ws\<lparr>split_tree := t\<rparr>)))"
    and aw2: "aw2 = modify_ws i G (modify_pane i s f aw)"
  shows "(case pane_at i s aw2 of
            None \<Rightarrow> None
          | Some p \<Rightarrow> if tabs p = [] then remove_pane_from_split i s aw2 else Some aw2) =
         Some (aw\<lparr>workspaces := (workspaces aw)[i := G ws1]\<rparr>)"
proof -
  let ?ws' = "ws\<lparr>ws_panes := hm_modify s f (ws_panes ws)\<rparr>"
  have a2: "aw2 = aw\<lparr>workspaces := (workspaces aw)[i := G ?ws']\<rparr>"
    using i ws(1) by (simp add: aw2 modify_pane_def modify_ws_def)
  have at: "pane_at i s aw2 = Some (f sp)" using i sp by (simp add: a2 pane_at_def G(1))
  have tb: "tabs (f sp) = [] \<longleftrightarrow> length (tabs sp) = 1"
    using f length_remove_at_le [of idx "tabs sp"] by (simp add: takes_def)
  show ?thesis
  proof (cases "length (tabs sp) = 1")
    case True
    then obtain b t where "remove s (split_tree ws) = Some (b, t)" "ws1 = snd (remove_pane s (ws\<lparr>split_tree := t\<rparr>))"
      using take sp by (auto simp: ws_take_def split: Option.bind_splits)
    then show ?thesis
      using True at tb i G(3) [of t] by (simp add: remove_pane_from_split_def modify_ws_def a2 G(2))
  next
    case False
    then have "ws1 = ?ws'" using take sp by (simp add: ws_take_def)
    with False at tb a2 show ?thesis by simp
  qed
qed

lemma two_panes_exist:
  assumes "hm_get (ws_panes ws) s = Some sp" "hm_contains (ws_panes ws) tgt" "s \<noteq> tgt"
  shows "length (tabs sp) \<ge> 2 \<or> (\<exists>q. hm_contains (ws_panes ws) q \<and> q \<noteq> s)"
  using assms by blast

lemma split_tab_target_conserves:
  assumes ok: "window_ok aw" and room: "window_room aw"
  shows "\<exists>aw'. split_tab_to_pane_target gtk_ok s d tgt ori before aw = Some aw' \<and> conserves aw aw'"
proof (cases "\<exists>i sp idx. current_ws aw = Some i \<and> s \<noteq> tgt \<and> pane_at i s aw = Some sp \<and>
    hm_contains (ws_panes (workspaces aw ! i)) tgt \<and> tab_index_for_identity sp d = Some idx \<and> gtk_ok")
  case False
  have "split_tab_to_pane_target gtk_ok s d tgt ori before aw = Some aw"
  proof (cases "current_ws aw")
    case (Some i)
    note it = in_tree_ok [OF ok current_ws_less [OF Some]]
    show ?thesis
      using False Some it
      by (cases "pane_at i s aw"; cases "tab_index_for_identity (the (pane_at i s aw)) d")
         (auto simp: split_tab_to_pane_target_def)
  qed (simp add: split_tab_to_pane_target_def)
  with ok show ?thesis by simp
next
  case True
  then obtain i sp idx where c: "current_ws aw = Some i" "s \<noteq> tgt" "pane_at i s aw = Some sp"
    "hm_contains (ws_panes (workspaces aw ! i)) tgt" "tab_index_for_identity sp d = Some idx" gtk_ok
    by blast
  have i: "i < length (workspaces aw)" by (rule current_ws_less [OF c(1)])
  let ?ws = "workspaces aw ! i" and ?np = "next_pane aw" and ?tab = "tabs sp ! idx"
  let ?P = "pane_for_tab ?np ?tab" and ?aw = "aw\<lparr>next_pane := next_pane aw + 1\<rparr>"
  have sp: "hm_get (ws_panes ?ws) s = Some sp" using c(3) by (simp add: pane_at_def)
  note idx = tab_index_facts(1) [OF c(5)]
  have wo: "ws_ok ?ws" by (rule window_okD [OF ok i])
  have tk: "takes (take_tab idx) sp idx"
    using panes_okD [OF ws_okD(2) [OF wo] sp] idx by blast
  obtain ws1 where w1: "ws_take (take_tab idx) s ?ws = Some ws1" "ws_ok ws1" "ws_key ws1 = ws_key ?ws"
    "add_mset ?tab (mset (ws_tabs ws1)) = mset (ws_tabs ?ws)"
    "\<And>p. hm_contains (ws_panes ws1) p \<longleftrightarrow>
        hm_contains (ws_panes ?ws) p \<and> (p = s \<longrightarrow> length (tabs sp) \<ge> 2)"
    "next_id (split_tree ws1) = next_id (split_tree ?ws)"
    using ws_take_ok [OF wo sp idx tk two_panes_exist [OF sp c(4,2)]] by blast
  have nps: "?np \<noteq> s" using pane_not_next [OF ok i] sp by auto
  have clean: "(case pane_at i s aw2 of None \<Rightarrow> None
      | Some p \<Rightarrow> if tabs p = [] then remove_pane_from_split i s aw2 else Some aw2) =
      Some (?aw\<lparr>workspaces := (workspaces ?aw)[i := add_pane ?P ws1]\<rparr>)"
    if "aw2 = modify_ws i (add_pane ?P)
          (modify_pane i s (\<lambda>v. snd (remove_tab_preserving_selection idx v)) ?aw)" for aw2
    by (rule take_then_clean [OF _ _ wo sp tk w1(1) _ _ _ that])
       (use i nps in \<open>simp_all add: add_pane_def pane_for_tab_facts remove_pane_def hm_remove_insert\<close>)
  have tr: "tree_room (split_tree ws1)"
    using window_roomD(5) [OF room i] w1(6) by (simp add: tree_room_def)
  have tc: "hm_contains (ws_panes ws1) tgt" using w1(5) [of tgt] c(2,4) by simp
  have nc: "\<not> hm_contains (ws_panes ws1) ?np" using w1(5) [of ?np] pane_not_next [OF ok i] by simp
  obtain n t where t: "split_gen before tgt ?np ori (split_tree ws1) = Some (Some n, t)"
    "ws_ok ((add_pane ?P ws1)\<lparr>split_tree := t\<rparr>)"
    "mset (ws_tabs ((add_pane ?P ws1)\<lparr>split_tree := t\<rparr>)) = add_mset ?tab (mset (ws_tabs ws1))"
    using ws_give_new [OF w1(2) tr tc nc] by blast
  let ?ws2 = "(add_pane ?P ws1)\<lparr>split_tree := t\<rparr>"
  have st: "split_tree (add_pane ?P ws1) = split_tree ws1" by (simp add: add_pane_def)
  have "split_tab_to_pane_target gtk_ok s d tgt ori before aw = Some (set_pane_active i ?np
      (aw\<lparr>next_pane := ?np + 1, workspaces := (workspaces aw)[i := ?ws2]\<rparr>))"
    using c in_tree_ok [OF ok i] sp t(1) i st
    by (simp add: split_tab_to_pane_target_def next_pane_id_def Let_def clean [OF refl] hm_contains_get
        split_or_panic_def split_gen_cases) (simp add: modify_ws_def)
  moreover have "conserves aw (set_pane_active i ?np
      (aw\<lparr>next_pane := ?np + 1, workspaces := (workspaces aw)[i := ?ws2]\<rparr>))"
  proof (rule conserves_new_pane [OF ok room i t(2)])
    show "hm_contains (ws_panes ?ws2) p \<Longrightarrow> hm_contains (ws_panes ?ws) p \<or> p = ?np" for p
      using w1(5) [of p] by (auto simp: add_pane_def pane_for_tab_facts)
  qed (use w1(3,4) t(3) in \<open>simp_all add: add_pane_def pane_for_tab_facts\<close>)
  ultimately show ?thesis by blast
qed

section \<open>Moving a tab into another pane\<close>

lemma move_tab_conserves:
  assumes ok: "window_ok aw"
  shows "\<exists>aw'. move_tab_to_pane gtk_ok s d tgt ins aw = Some aw' \<and> conserves aw aw'"
proof (cases "\<exists>i sp idx tp tidx. current_ws aw = Some i \<and> s \<noteq> tgt \<and> pane_at i s aw = Some sp \<and>
    pane_at i tgt aw = Some tp \<and> tab_index_for_identity sp d = Some idx \<and>
    insertion_index_for_target tp ins = Some tidx \<and> gtk_ok")
  case False
  have "move_tab_to_pane gtk_ok s d tgt ins aw = Some aw"
  proof (cases "current_ws aw")
    case (Some i)
    note it = in_tree_ok [OF ok current_ws_less [OF Some]]
    show ?thesis
      using False Some it
      by (cases "pane_at i s aw"; cases "tab_index_for_identity (the (pane_at i s aw)) d";
          cases "pane_at i tgt aw"; cases "insertion_index_for_target (the (pane_at i tgt aw)) ins")
         (auto simp: move_tab_to_pane_def)
  qed (simp add: move_tab_to_pane_def)
  with ok show ?thesis by simp
next
  case True
  then obtain i sp idx tp tidx where c: "current_ws aw = Some i" "s \<noteq> tgt" "pane_at i s aw = Some sp"
    "pane_at i tgt aw = Some tp" "tab_index_for_identity sp d = Some idx"
    "insertion_index_for_target tp ins = Some tidx" gtk_ok by blast
  have i: "i < length (workspaces aw)" by (rule current_ws_less [OF c(1)])
  let ?ws = "workspaces aw ! i" and ?tab = "tabs sp ! idx"
  let ?G = "\<lambda>w. w\<lparr>ws_panes := hm_modify tgt (receive_tab tidx ?tab) (ws_panes w)\<rparr>"
  have sp: "hm_get (ws_panes ?ws) s = Some sp" and tp: "hm_get (ws_panes ?ws) tgt = Some tp"
    using c(3,4) by (simp_all add: pane_at_def)
  note idx = tab_index_facts(1) [OF c(5)]
  have wo: "ws_ok ?ws" by (rule window_okD [OF ok i])
  have tc: "hm_contains (ws_panes ?ws) tgt" using tp by blast
  have tk: "takes (take_tab idx) sp idx"
    using panes_okD [OF ws_okD(2) [OF wo] sp] idx by blast
  obtain ws1 where w1: "ws_take (take_tab idx) s ?ws = Some ws1" "ws_ok ws1" "ws_key ws1 = ws_key ?ws"
    "add_mset ?tab (mset (ws_tabs ws1)) = mset (ws_tabs ?ws)"
    "\<And>p. hm_contains (ws_panes ws1) p \<longleftrightarrow>
        hm_contains (ws_panes ?ws) p \<and> (p = s \<longrightarrow> length (tabs sp) \<ge> 2)"
    using ws_take_ok [OF wo sp idx tk two_panes_exist [OF sp tc c(2)]] by blast
  have tp1: "hm_get (ws_panes ws1) tgt = Some tp"
    using w1(1) sp tp c(2) by (auto simp: ws_take_def remove_pane_def split: if_splits Option.bind_splits)
  have clean: "(case pane_at i s aw2 of None \<Rightarrow> None
      | Some p \<Rightarrow> if tabs p = [] then remove_pane_from_split i s aw2 else Some aw2) =
      Some (aw\<lparr>workspaces := (workspaces aw)[i := ?G ws1]\<rparr>)"
    if "aw2 = modify_ws i ?G
          (modify_pane i s (\<lambda>v. snd (remove_tab_preserving_selection idx v)) aw)" for aw2
    by (rule take_then_clean [OF i _ wo sp tk w1(1) _ _ _ that])
       (use c(2) in \<open>simp_all add: remove_pane_def hm_remove_modify_other\<close>)
  have "move_tab_to_pane gtk_ok s d tgt ins aw = Some (set_pane_active i tgt
      (aw\<lparr>workspaces := (workspaces aw)[i := ?G ws1]\<rparr>))"
    using c in_tree_ok [OF ok i] sp tc
    by (simp add: move_tab_to_pane_def Let_def modify_pane_def [of i tgt] clean [OF refl] hm_contains_get)
  moreover have "conserves aw (aw\<lparr>workspaces := (workspaces aw)[i := ?G ws1]\<rparr>)"
  proof (rule conserves_replace [OF ok i])
    note give = ws_give_existing [OF w1(2) tp1 insertion_index_le [OF c(6)],
        where g = "receive_tab tidx ?tab" and tab = ?tab]
    show "ws_ok (?G ws1)" using give by simp
    show "mset (ws_tabs (?G ws1)) = mset (ws_tabs ?ws)"
      using give w1(4) by simp
    show "p \<in> set (pane_ids (?G ws1)) \<Longrightarrow> p \<in> set (pane_ids ?ws) \<or>
        p \<notin> set (win_ids pane_ids (workspaces aw)) \<and> pane_below aw p" for p
      using w1(5) [of p] by (simp add: pane_ids_contains)
  qed (use w1(3) in simp)
  then have "conserves aw (set_pane_active i tgt (aw\<lparr>workspaces := (workspaces aw)[i := ?G ws1]\<rparr>))"
    by (rule conserves_set_active) (use i w1(5) [of tgt] tc c(2) in simp_all)
  ultimately show ?thesis by blast
qed

section \<open>Moving a pane\<close>

lemma move_pane_conserves:
  assumes ok: "window_ok aw" and room: "window_room aw"
  shows "\<exists>aw'. move_pane src tgt before ori aw = Some aw' \<and> conserves aw aw'"
proof (cases "\<exists>i. current_ws aw = Some i \<and> pane_at i src aw \<noteq> None \<and> pane_at i tgt aw \<noteq> None")
  case False
  then have "move_pane src tgt before ori aw = Some aw"
    by (auto simp: move_pane_def split: option.split)
  with ok show ?thesis by simp
next
  case True
  then obtain i where c: "current_ws aw = Some i" "hm_contains (ws_panes (workspaces aw ! i)) src"
    "hm_contains (ws_panes (workspaces aw ! i)) tgt" by (auto simp: pane_at_def)
  have i: "i < length (workspaces aw)" by (rule current_ws_less [OF c(1)])
  let ?ws = "workspaces aw ! i"
  note o = ws_okD [OF window_okD [OF ok i]]
  have tr: "tree_room (split_tree ?ws)" by (rule window_roomD(5) [OF room i])
  have at: "pane_at i src aw \<noteq> None" "pane_at i tgt aw \<noteq> None"
    using c(2,3) by (auto simp: pane_at_def hm_contains_def)
  obtain b t where t: "move_pane_adjacent src tgt before ori (split_tree ?ws) = Some (b, t)"
    "good_tree t" "set (tree_order t) = set (tree_order (split_tree ?ws))"
  proof (cases "src = tgt")
    case True
    with move_refused [OF o(4), of src tgt] o(3) show ?thesis by (intro that) auto
  next
    case False
    have "src \<in> set (tree_order (split_tree ?ws))" "tgt \<in> set (tree_order (split_tree ?ws))"
      using c(2,3) o(6) by auto
    from split_tree.move_perm [OF o(4) tr False this, of before ori] obtain t where
      t: "move_pane_adjacent src tgt before ori (split_tree ?ws) = Some (True, t)"
      "set (tree_order t) = set (tree_order (split_tree ?ws))" by blast
    from good_move [OF o(3) tr t(1)] t show ?thesis by (intro that)
  qed
  let ?aw = "modify_ws i (split_tree_update (\<lambda>_. t)) aw"
  have w: "window_ok ?aw" by (rule window_ok_tree [OF ok i t(2,3)])
  have "mset (win_tabs ?aw) = mset (win_tabs aw)"
    using win_tabs_replace [OF i, of "?ws\<lparr>split_tree := t\<rparr>"] by (simp add: modify_ws_def)
  with w have cs: "conserves aw ?aw" by (simp add: conserves_def)
  have "conserves aw (set_pane_active i src ?aw)"
    by (rule conserves_set_active [OF cs]) (use i c(2) in simp_all)
  with cs c(1) at t(1) ok show ?thesis
    by (auto simp: move_pane_def Let_def)
qed

section \<open>Moving a tab to another workspace\<close>

lemma focus_after_close_workspaces [simp]:
  assumes "i < length (workspaces aw)"
  shows "workspaces (focus_after_close i aw) = workspaces aw"
proof (cases "ws_focused_pane (workspaces aw ! i)")
  case (Some p)
  then have "set_focused_pane p (workspaces aw ! i) = workspaces aw ! i"
    by (simp add: set_focused_pane_def set_focused_def ws_focused_pane_def focused_pane_def)
  with Some assms show ?thesis
    by (simp add: focus_after_close_def set_pane_active_def modify_ws_def list_update_same_conv)
qed (simp add: focus_after_close_def)

lemma focus_after_close_counters [simp]:
  "next_pane (focus_after_close i aw) = next_pane aw" "registry (focus_after_close i aw) = registry aw"
  "next_browser (focus_after_close i aw) = next_browser aw"
  "next_workspace (focus_after_close i aw) = next_workspace aw"
  "current_page (focus_after_close i aw) = current_page aw"
  by (simp_all add: focus_after_close_def set_pane_active_def focus_active_panel_def
      split: option.split)

lemma remove_workspace_at_fields [simp]:
  "workspaces (remove_workspace_at pick i aw) = remove_at i (workspaces aw)"
  "next_pane (remove_workspace_at pick i aw) = next_pane aw"
  "registry (remove_workspace_at pick i aw) = registry aw"
  "next_browser (remove_workspace_at pick i aw) = next_browser aw"
  "next_workspace (remove_workspace_at pick i aw) = next_workspace aw"
  by (simp_all add: remove_workspace_at_def Let_def update_tray_state_def)

lemma window_ok_remove_ws:
  assumes "window_ok aw" "i < length (workspaces aw)"
  shows "window_ok (aw\<lparr>workspaces := remove_at i (workspaces aw)\<rparr>)"
proof -
  have "set (remove_at i (workspaces aw)) \<subseteq> set (workspaces aw)"
    by (auto simp: remove_at_def dest: in_set_takeD in_set_dropD)
  with assms show ?thesis
    using ws_space.alloc_ok_remove [OF _ assms(2)] pane_space.alloc_ok_remove [OF _ assms(2)]
      tab_space.alloc_ok_remove [OF _ assms(2)]
    by (auto simp: window_ok_def ids_ok_def)
qed

text \<open>A well-formed window has a pane to receive a tab dropped on a workspace: the focused one.\<close>

lemma drop_target_ok:
  assumes "ws_ok ws"
  shows "\<exists>p. drop_target_pane ws = Some (Some p) \<and> ws_focused_pane ws = Some p \<and>
    hm_contains (ws_panes ws) p"
proof -
  note o = ws_okD [OF assms]
  have "focus_in (focused (split_tree ws)) (tree_order (split_tree ws))"
    using o(3) by (simp add: good_tree_def)
  then obtain p where "focused (split_tree ws) = Some p" "p \<in> set (tree_order (split_tree ws))"
    using o(5) by (cases "focused (split_tree ws)") auto
  with o(6) show ?thesis
    by (simp add: drop_target_pane_def ws_focused_pane_def focused_pane_def)
qed

text \<open>The source keeps at least one pane: both workspaces are replaced.\<close>

lemma move_between:
  assumes ok: "window_ok aw" and si: "si < length (workspaces aw)" and ti: "ti < length (workspaces aw)"
    and ne: "si \<noteq> ti"
    and S: "ws_ok ws1" "ws_key ws1 = ws_key (workspaces aw ! si)"
      "add_mset tab (mset (ws_tabs ws1)) = mset (ws_tabs (workspaces aw ! si))"
      "\<And>p. hm_contains (ws_panes ws1) p \<Longrightarrow> hm_contains (ws_panes (workspaces aw ! si)) p"
    and T: "ws_ok T1" "ws_key T1 = ws_key (workspaces aw ! ti)"
      "mset (ws_tabs T1) = add_mset tab (mset (ws_tabs (workspaces aw ! ti)))"
      "pane_ids T1 = pane_ids (workspaces aw ! ti)"
  shows "conserves aw (aw\<lparr>workspaces := (workspaces aw)[si := ws1, ti := T1]\<rparr>)"
proof -
  let ?W = "workspaces aw" and ?aw1 = "aw\<lparr>workspaces := (workspaces aw)[si := ws1]\<rparr>"
  have idS: "add_mset (ident tab) (mset (tab_idents ws1)) = mset (tab_idents (?W ! si))"
    using arg_cong [OF S(3), of "image_mset ident"] by (simp add: tab_idents_def)
  have d: "distinct (tab_idents (?W ! si))" by (rule distinct_tab_idents [OF ok si])
  then have dist: "distinct (ident tab # tab_idents ws1)"
    using mset_eq_imp_distinct_iff [of "ident tab # tab_idents ws1" "tab_idents (?W ! si)"] idS by simp
  have setS: "set (tab_idents (?W ! si)) = insert (ident tab) (set (tab_idents ws1))"
    using mset_eq_setD [of "ident tab # tab_idents ws1" "tab_idents (?W ! si)"] idS by simp
  have w1: "window_ok ?aw1"
    by (rule window_ok_replace [OF ok si S(1,2)])
       (use S(4) dist setS in \<open>auto simp: pane_ids_contains\<close>)
  have all: "win_ids tab_idents (?W[si := ws1]) =
      win_ids tab_idents (take si ?W) @ tab_idents ws1 @ win_ids tab_idents (drop (Suc si) ?W)"
    "win_ids tab_idents ?W =
      win_ids tab_idents (take si ?W) @ tab_idents (?W ! si) @ win_ids tab_idents (drop (Suc si) ?W)"
    by (rule win_ids_split [OF si])+
  have okW: "distinct (win_ids tab_idents ?W)" "\<forall>x\<in>set (win_ids tab_idents ?W). ident_below aw x"
    using ok by (simp_all add: window_ok_def ids_ok_def alloc_ok_def)
  have gone: "ident tab \<notin> set (win_ids tab_idents (?W[si := ws1]))"
    using okW(1) dist setS unfolding all by auto
  have bel: "ident_below aw (ident tab)" using okW(2) setS unfolding all(2) by auto
  have tiW: "?W[si := ws1] ! ti = ?W ! ti" using ne by simp
  have idT: "mset (tab_idents T1) = add_mset (ident tab) (mset (tab_idents (?W ! ti)))"
    using arg_cong [OF T(3), of "image_mset ident"] by (simp add: tab_idents_def)
  have ntT: "ident tab \<notin> set (tab_idents (?W ! ti))"
    using gone in_win_ids [of "?W ! ti" "?W[si := ws1]" "ident tab" tab_idents] ti tiW
    by (metis length_list_update nth_mem)
  have dT: "distinct (tab_idents T1)" "set (tab_idents T1) = insert (ident tab) (set (tab_idents (?W ! ti)))"
    using mset_eq_imp_distinct_iff [of "tab_idents T1" "ident tab # tab_idents (?W ! ti)"] idT ntT
      distinct_tab_idents [OF ok ti] mset_eq_setD [of "tab_idents T1" "ident tab # tab_idents (?W ! ti)"]
    by simp_all
  have "ident_below ?aw1 (ident tab)" using bel by (simp only: tab_space.below_frame)
  then have w2: "window_ok (?aw1\<lparr>workspaces := (workspaces ?aw1)[ti := T1]\<rparr>)"
    by (intro window_ok_replace [OF w1, of ti T1]) (use T ti tiW dT gone in simp_all, metis insertE)
  have "mset (win_tabs (?aw1\<lparr>workspaces := (workspaces ?aw1)[ti := T1]\<rparr>)) =
      add_mset tab (mset (win_ids ws_tabs (?W[si := ws1])))"
    using T(3) ti tiW
    by (simp add: win_tabs_def win_ids_split(2) [of ti "?W[si := ws1]"])
       (simp add: win_ids_split(1) [of ti "?W[si := ws1]" ws_tabs])
  also have "\<dots> = mset (win_tabs aw)"
    unfolding win_tabs_def win_ids_split(2) [OF si, of ws_tabs ws1] win_ids_split(1) [OF si, of ws_tabs]
    using S(3) by (simp flip: S(3))
  finally show ?thesis using w2 by (simp add: conserves_def)
qed

text \<open>The source workspace held nothing but the moved tab and disappears.\<close>

lemma remove_at_nth:
  "i < length xs \<Longrightarrow> j < length xs - 1 \<Longrightarrow> remove_at i xs ! j = (if j < i then xs ! j else xs ! Suc j)"
  by (simp add: remove_at_def nth_append min_def)

lemma remove_at_update:
  assumes "si < length xs" "ti < length xs" "si \<noteq> ti"
  defines "ti' \<equiv> (if ti < si then ti else ti - 1)"
  shows "remove_at si (xs[si := x, ti := y]) = (remove_at si xs)[ti' := y]"
    "ti' < length (remove_at si xs)" "remove_at si xs ! ti' = xs ! ti"
proof -
  show t: "ti' < length (remove_at si xs)" "remove_at si xs ! ti' = xs ! ti"
    using assms by (auto simp: remove_at_nth)
  show "remove_at si (xs[si := x, ti := y]) = (remove_at si xs)[ti' := y]"
    by (rule nth_equalityI) (use assms t in \<open>auto simp: remove_at_nth nth_list_update\<close>)
qed

lemma move_last:
  assumes ok: "window_ok aw" and si: "si < length (workspaces aw)" and ti: "ti < length (workspaces aw)"
    and ne: "si \<noteq> ti" and S: "ws_tabs (workspaces aw ! si) = [tab]"
    and T: "ws_ok T1" "ws_key T1 = ws_key (workspaces aw ! ti)"
      "mset (ws_tabs T1) = add_mset tab (mset (ws_tabs (workspaces aw ! ti)))"
      "pane_ids T1 = pane_ids (workspaces aw ! ti)"
  shows "conserves aw (aw\<lparr>workspaces := remove_at si ((workspaces aw)[si := X, ti := T1])\<rparr>)"
proof -
  let ?W = "workspaces aw" and ?R = "remove_at si (workspaces aw)"
  define ti' where "ti' = (if ti < si then ti else ti - 1)"
  let ?aw1 = "aw\<lparr>workspaces := ?R\<rparr>"
  note ru = remove_at_update [OF si ti ne, folded ti'_def]
  have w1: "window_ok ?aw1" by (rule window_ok_remove_ws [OF ok si])
  have okW: "distinct (win_ids tab_idents ?W)" "\<forall>x\<in>set (win_ids tab_idents ?W). ident_below aw x"
    using ok by (simp_all add: window_ok_def ids_ok_def alloc_ok_def)
  have S': "tab_idents (?W ! si) = [ident tab]" using S by (simp add: tab_idents_def)
  have gone: "ident tab \<notin> set (win_ids tab_idents ?R)"
    using okW(1) S' win_ids_split(1) [OF si, of tab_idents] win_ids_split(3) [OF si, of tab_idents] by auto
  have bel: "ident_below ?aw1 (ident tab)"
    using okW(2) S' unfolding win_ids_split(1) [OF si] tab_space.below_frame by simp
  have idT: "mset (tab_idents T1) = add_mset (ident tab) (mset (tab_idents (?W ! ti)))"
    using arg_cong [OF T(3), of "image_mset ident"] by (simp add: tab_idents_def)
  have ntT: "ident tab \<notin> set (tab_idents (?W ! ti))"
    using gone in_win_ids [of "?W ! ti" ?R "ident tab" tab_idents] ru(2,3) by (metis nth_mem)
  have dT: "distinct (tab_idents T1)" "set (tab_idents T1) = insert (ident tab) (set (tab_idents (?W ! ti)))"
    using mset_eq_imp_distinct_iff [of "tab_idents T1" "ident tab # tab_idents (?W ! ti)"] idT ntT
      distinct_tab_idents [OF ok ti] mset_eq_setD [of "tab_idents T1" "ident tab # tab_idents (?W ! ti)"]
    by simp_all
  have w2: "window_ok (?aw1\<lparr>workspaces := (workspaces ?aw1)[ti' := T1]\<rparr>)"
    by (intro window_ok_replace [OF w1, of ti' T1])
       (use T ru dT gone bel in simp_all, metis insertE)
  have "mset (win_ids ws_tabs (?R[ti' := T1])) = add_mset tab (mset (win_ids ws_tabs ?R))"
    using T(3) ru(3)
    by (simp add: win_ids_split(2) [OF ru(2)]) (simp add: win_ids_split(1) [OF ru(2), of ws_tabs])
  also have "\<dots> = mset (win_ids ws_tabs ?W)"
    by (simp add: win_ids_split(3) [OF si] win_ids_split(1) [OF si, of ws_tabs] S)
  finally show ?thesis using w2 by (simp add: conserves_def win_tabs_def ru(1))
qed

lemma conserves_fields:
  assumes "conserves aw aw1" "workspaces aw2 = workspaces aw1" "next_workspace aw2 = next_workspace aw1"
    "next_pane aw2 = next_pane aw1" "next_browser aw2 = next_browser aw1"
    "reg_next_id (registry aw2) = reg_next_id (registry aw1)"
  shows "conserves aw aw2"
  using assms(1,2) window_ok_fields [OF assms(2-)] by (simp add: conserves_def win_tabs_def)

lemma move_cleanup_ok:
  assumes ok: "window_ok aw" and si: "si < length (workspaces aw)" and ti: "ti < length (workspaces aw)"
    and ne: "si \<noteq> ti" and sp: "hm_get (ws_panes (workspaces aw ! si)) s = Some sp"
    and idx: "idx < length (tabs sp)"
    and T: "ws_ok T1" "ws_key T1 = ws_key (workspaces aw ! ti)"
      "mset (ws_tabs T1) = add_mset (tabs sp ! idx) (mset (ws_tabs (workspaces aw ! ti)))"
      "pane_ids T1 = pane_ids (workspaces aw ! ti)"
    and f: "f = take_tab idx"
    and S': "S' = (workspaces aw ! si)\<lparr>ws_panes := hm_modify s f (ws_panes (workspaces aw ! si))\<rparr>"
  shows "\<exists>aw2. move_cleanup pick si s (aw\<lparr>workspaces := (workspaces aw)[si := S', ti := T1]\<rparr>) = Some aw2 \<and>
    conserves aw aw2 \<and> T1 \<in> set (workspaces aw2)"
proof -
  let ?S = "workspaces aw ! si" and ?W = "(workspaces aw)[si := S', ti := T1]"
  let ?aw1 = "aw\<lparr>workspaces := ?W\<rparr>"
  have wo: "ws_ok ?S" by (rule window_okD [OF ok si])
  have po: "pane_ok sp" using panes_okD [OF ws_okD(2) [OF wo] sp] by simp
  note rf = remove_selected_facts [OF po idx]
  have tk: "takes f sp idx" unfolding f using po idx by blast
  have at: "pane_at si s ?aw1 = Some (f sp)" using si ne sp by (simp add: pane_at_def S')
  have tb: "tabs (f sp) = [] \<longleftrightarrow> length (tabs sp) = 1"
    using rf(2) length_remove_at_le [OF idx] by (simp add: f)
  have WS: "?W ! si = S'" using si ne by simp
  have tin: "T1 \<in> set (?W[si := x])" for x
    using ti ne set_update_memI [of ti "(workspaces aw)[si := x]" T1]
    by (simp add: list_update_swap [OF ne])
  show ?thesis
  proof (cases "length (tabs sp) = 1")
    case False
    then have two: "length (tabs sp) \<ge> 2" using idx by linarith
    have "active_panel (f sp) \<noteq> None"
      using rf(4) [OF two] by (simp add: f active_panel_def active_tab_def pane_ok_def get_opt_def)
    then have ev: "move_cleanup pick si s ?aw1 = Some ?aw1" using at tb False by (simp add: move_cleanup_def)
    have "ws_take f s ?S = Some S'" using sp two by (simp add: ws_take_def S')
    with ws_take_ok [OF wo sp idx, of f] tk two have w1: "ws_ok S'" "ws_key S' = ws_key ?S"
      "add_mset (tabs sp ! idx) (mset (ws_tabs S')) = mset (ws_tabs ?S)" by auto
    have "conserves aw ?aw1" by (rule move_between [OF ok si ti ne w1 _ T]) (simp add: S')
    moreover have "T1 \<in> set ?W" using tin [of S'] WS by (metis list_update_id)
    ultimately show ?thesis using ev by simp
  next
    case True
    have sc: "hm_contains (ws_panes ?S) s" using sp by blast
    have sT: "s \<in> set (tree_order (split_tree ?S))" using ws_okD(6) [OF wo] sc by simp
    obtain t where t: "remove s (split_tree ?S) = Some (True, t)"
      using split_tree.remove_present [OF ws_okD(4) [OF wo] sT] by blast
    let ?ws1 = "snd (remove_pane s (?S\<lparr>split_tree := t\<rparr>))"
    let ?aw2 = "aw\<lparr>workspaces := (workspaces aw)[si := ?ws1, ti := T1]\<rparr>"
    have rp: "remove_pane_from_split si s ?aw1 = Some ?aw2"
      using t WS si ne
      by (simp add: remove_pane_from_split_def modify_ws_def S' remove_pane_def list_update_swap [OF ne])
    have W2: "workspaces ?aw2 ! si = ?ws1" using si ne by simp
    show ?thesis
    proof (cases "\<exists>q. hm_contains (ws_panes ?S) q \<and> q \<noteq> s")
      case other: True
      have "ws_take f s ?S = Some ?ws1" using sp True t by (simp add: ws_take_def)
      with ws_take_ok [OF wo sp idx, of f] tk other have w1: "ws_ok ?ws1" "ws_key ?ws1 = ws_key ?S"
        "add_mset (tabs sp ! idx) (mset (ws_tabs ?ws1)) = mset (ws_tabs ?S)" by auto
      have c2: "conserves aw ?aw2" by (rule move_between [OF ok si ti ne w1 _ T]) (simp add: remove_pane_def)
      have "ws_panes ?ws1 \<noteq> []" by (rule ws_ok_panes_ne [OF w1(1)])
      then have "move_cleanup pick si s ?aw1 = Some (focus_after_close si ?aw2)"
        using at tb True rp W2 by (simp add: move_cleanup_def)
      moreover have "conserves aw (focus_after_close si ?aw2)"
        by (rule conserves_fields [OF c2]) (use si in simp_all)
      moreover have "T1 \<in> set (workspaces (focus_after_close si ?aw2))"
        using tin [of ?ws1] si by (simp add: list_update_swap [OF ne])
      ultimately show ?thesis by blast
    next
      case alone: False
      have p1: "ws_panes ?S = [(s, sp)]"
        using alone sp length_hm_ge_2 [OF ws_okD(1) [OF wo] sc]
        by (cases "ws_panes ?S") (auto simp: not_le less_Suc_eq split: if_splits)
      then have tabs1: "ws_tabs ?S = [tabs sp ! idx]"
        using True idx by (cases "tabs sp") (auto simp: ws_tabs_def)
      have "ws_panes ?ws1 = []" using p1 by (simp add: remove_pane_def)
      then have "move_cleanup pick si s ?aw1 = Some (remove_workspace_at pick si ?aw2)"
        using at tb True rp W2 by (simp add: move_cleanup_def)
      moreover have "conserves aw (remove_workspace_at pick si ?aw2)"
        by (rule conserves_fields [OF move_last [OF ok si ti ne tabs1 T, of ?ws1]]) simp_all
      moreover have "T1 \<in> set (workspaces (remove_workspace_at pick si ?aw2))"
        using remove_at_update(1) [OF si ti ne, of ?ws1 T1] remove_at_update(2) [OF si ti ne]
        by (simp add: set_update_memI)
      ultimately show ?thesis by blast
    qed
  qed
qed

lemma ws_of_pane_some:
  assumes "ws_of_pane p aw = Some i"
  shows "i < length (workspaces aw)" "hm_contains (ws_panes (workspaces aw ! i)) p"
  using position_SomeD [of _ "workspaces aw" i] assms by (auto simp: ws_of_pane_def)

lemma ws_position_some:
  assumes "ws_position k aw = Some i"
  shows "i < length (workspaces aw)" "ws_key (workspaces aw ! i) = k"
  using position_SomeD [of _ "workspaces aw" i] assms by (auto simp: ws_position_def)

lemma ws_key_unique:
  assumes "window_ok aw" "i < length (workspaces aw)" "ws \<in> set (workspaces aw)"
    "ws_key ws = ws_key (workspaces aw ! i)"
  shows "ws = workspaces aw ! i"
proof -
  obtain j where j: "j < length (workspaces aw)" "ws = workspaces aw ! j"
    using assms(3) by (metis in_set_conv_nth)
  have "alloc_ok ws_ids ws_below aw" using assms(1) by (simp add: window_ok_def ids_ok_def)
  from ws_space.alloc_ok_unique [OF this assms(2) j(1), of "ws_key ws"] assms(4) j(2)
  show ?thesis by (simp add: ws_ids_def)
qed

lemma move_tab_ws_conserves:
  assumes ok: "window_ok aw"
  shows "\<exists>aw'. move_tab_to_workspace pick gtk_ok s d tw aw = Some aw' \<and> conserves aw aw'"
proof (cases "\<exists>si ti sp idx. ws_of_pane s aw = Some si \<and> ws_position tw aw = Some ti \<and> si \<noteq> ti \<and>
    pane_at si s aw = Some sp \<and> tab_index_for_identity sp d = Some idx \<and> gtk_ok")
  case False
  have "move_tab_to_workspace pick gtk_ok s d tw aw = Some aw"
  proof (cases "\<exists>si ti. ws_of_pane s aw = Some si \<and> ws_position tw aw = Some ti \<and> si \<noteq> ti")
    case True
    then obtain si ti where st: "ws_of_pane s aw = Some si" "ws_position tw aw = Some ti" "si \<noteq> ti" by blast
    note b = ws_of_pane_some(1) [OF st(1)] ws_position_some(1) [OF st(2)]
    obtain p where p: "drop_target_pane (workspaces aw ! ti) = Some (Some p)"
      using drop_target_ok [OF window_okD [OF ok b(2)]] by blast
    show ?thesis
      using False st p in_tree_ok [OF ok b(1)] in_tree_ok [OF ok b(2)]
      by (cases "pane_at si s aw"; cases "tab_index_for_identity (the (pane_at si s aw)) d")
         (auto simp: move_tab_to_workspace_def)
  next
    case False
    then show ?thesis by (auto simp: move_tab_to_workspace_def split: option.split)
  qed
  with ok show ?thesis by simp
next
  case True
  then obtain si ti sp idx where c: "ws_of_pane s aw = Some si" "ws_position tw aw = Some ti" "si \<noteq> ti"
    "pane_at si s aw = Some sp" "tab_index_for_identity sp d = Some idx" gtk_ok by blast
  note si = ws_of_pane_some [OF c(1)] and ti = ws_position_some [OF c(2)]
  let ?W = "workspaces aw" and ?tab = "tabs sp ! idx"
  let ?f = "\<lambda>v. snd (remove_tab_preserving_selection idx v)"
  let ?g = "\<lambda>v. receive_tab (length (tabs v)) ?tab v"
  have woT: "ws_ok (?W ! ti)" by (rule window_okD [OF ok ti(1)])
  obtain tgt where tgt: "drop_target_pane (?W ! ti) = Some (Some tgt)" "hm_contains (ws_panes (?W ! ti)) tgt"
    using drop_target_ok [OF woT] by blast
  obtain tp where tp: "hm_get (ws_panes (?W ! ti)) tgt = Some tp" using tgt(2) by (rule hm_containsE)
  let ?T1 = "(?W ! ti)\<lparr>ws_panes := hm_modify tgt ?g (ws_panes (?W ! ti))\<rparr>"
  let ?S' = "(?W ! si)\<lparr>ws_panes := hm_modify s ?f (ws_panes (?W ! si))\<rparr>"
  note give = ws_give_existing [OF woT tp, where tidx = "length (tabs tp)" and g = ?g and tab = ?tab]
  have sp: "hm_get (ws_panes (?W ! si)) s = Some sp" using c(4) by (simp add: pane_at_def)
  have T: "ws_ok ?T1" "ws_key ?T1 = ws_key (?W ! ti)" "mset (ws_tabs ?T1) = add_mset ?tab (mset (ws_tabs (?W ! ti)))"
    "pane_ids ?T1 = pane_ids (?W ! ti)" using give by simp_all
  obtain aw2 where aw2: "move_cleanup pick si s (aw\<lparr>workspaces := ?W[si := ?S', ti := ?T1]\<rparr>) = Some aw2"
    "conserves aw aw2" "?T1 \<in> set (workspaces aw2)"
    using move_cleanup_ok [OF ok si(1) ti(1) c(3) sp tab_index_facts(1) [OF c(5)] T refl refl] by blast
  have ok2: "window_ok aw2" using aw2(2) by (simp add: conserves_def)
  obtain j where j: "ws_position tw aw2 = Some j"
    using aw2(3) T(2) ti(2) position_Some_ex [of "\<lambda>ws. ws_key ws = tw" "workspaces aw2"]
    unfolding ws_position_def by blast
  note jf = ws_position_some [OF j]
  have Tj: "workspaces aw2 ! j = ?T1"
    using ws_key_unique [OF ok2 jf(1) aw2(3)] T(2) ti(2) jf(2) by simp
  have W: "modify_pane ti tgt ?g (modify_pane si s ?f aw) = aw\<lparr>workspaces := ?W[si := ?S', ti := ?T1]\<rparr>"
    using si(1) ti(1) c(3) by (simp add: modify_pane_def modify_ws_def)
  have "move_tab_to_workspace pick gtk_ok s d tw aw =
      Some (set_pane_active j tgt (aw2\<lparr>current_page := Some j\<rparr>))"
    using c tgt in_tree_ok [OF ok si(1)] in_tree_ok [OF ok ti(1)] si(2) aw2(1) j
    by (simp add: move_tab_to_workspace_def Let_def W)
  moreover have "conserves aw (set_pane_active j tgt (aw2\<lparr>current_page := Some j\<rparr>))"
  proof (rule conserves_set_active)
    show "conserves aw (aw2\<lparr>current_page := Some j\<rparr>)" by (rule conserves_fields [OF aw2(2)]) simp_all
  qed (use jf(1) Tj tgt(2) in simp_all)
  ultimately show ?thesis by blast
qed

end
