(* ===== verification/Window_Live.thy ===== *)
theory Window_Live
  imports Tab_Conserve
begin

text \<open>
  The remaining handlers of the window on a well-formed state: creating and closing workspaces,
  panes and tabs, splitting, navigation and selection. Each returns and keeps the invariant; closing
  removes exactly the closed tab.
\<close>

section \<open>Creating\<close>

lemma window_ok_push:
  assumes ok: "window_ok aw" and ws: "ws_ok ws"
    and key: "ws_key ws \<notin> set (win_ids ws_ids (workspaces aw))" "ws_below aw (ws_key ws)"
    and p: "\<And>p. p \<in> set (pane_ids ws) \<Longrightarrow> p \<notin> set (win_ids pane_ids (workspaces aw)) \<and> pane_below aw p"
    and t: "distinct (tab_idents ws)" "\<And>t. t \<in> set (tab_idents ws) \<Longrightarrow>
       t \<notin> set (win_ids tab_idents (workspaces aw)) \<and> ident_below aw t"
  shows "window_ok (aw\<lparr>workspaces := workspaces aw @ [ws]\<rparr>)"
proof -
  have a: "alloc_ok ws_ids ws_below aw" "alloc_ok pane_ids pane_below aw"
    "alloc_ok tab_idents ident_below aw"
    using ok by (simp_all add: window_ok_def ids_ok_def)
  have "distinct (pane_ids ws)" using ws_okD(1) [OF ws] by (simp add: pane_ids_def hm_ok_def)
  then have "ids_ok (aw\<lparr>workspaces := workspaces aw @ [ws]\<rparr>)"
    unfolding ids_ok_def
    using ws_space.alloc_ok_push [OF a(1), of ws] pane_space.alloc_ok_push [OF a(2) _ p]
      tab_space.alloc_ok_push [OF a(3) t] key
    by (simp add: ws_ids_def)
  with ok ws show ?thesis by (simp add: window_ok_def)
qed

lemma single_pane_ws_ok:
  assumes "ws_panes ws = [(p, Pane_new_with_id p s)]" "split_tree ws = new_with_pane p"
  shows "ws_ok ws" "pane_ids ws = [p]" "tab_idents ws = [SurfaceTab s]" "ws_tabs ws = [fresh_tab (Terminal s)]"
proof -
  have r: "represents (new_with_pane p) (Some (Pane p))" by (rule represents_new_with_pane)
  have "good_tree (new_with_pane p)"
    using good_reachable [OF reach_pane] .
  moreover have "tree_order (new_with_pane p) = [p]" using tree_order_represents [OF r] by simp
  ultimately show "ws_ok ws"
    using assms pane_ok_new(1) [of p s]
    by (auto simp: ws_ok_def panes_ok_def hm_ok_def hm_contains_def Pane_new_with_id_def split: if_splits)
  show "pane_ids ws = [p]" "tab_idents ws = [SurfaceTab s]" "ws_tabs ws = [fresh_tab (Terminal s)]"
    using assms(1)
    by (simp_all add: pane_ids_def tab_idents_def ws_tabs_def Pane_new_with_id_def ident_def fresh_tab_def)
qed

lemma push_single_ok:
  assumes ok: "window_ok aw" and room: "window_room aw"
    and ws: "ws_panes ws = [(next_pane aw, Pane_new_with_id (next_pane aw) (reg_next_id (registry aw)))]"
      "split_tree ws = new_with_pane (next_pane aw)" "ws_key ws = next_workspace aw"
    and aw': "workspaces aw' = workspaces aw @ [ws]" "next_workspace aw' = next_workspace aw + 1"
      "next_pane aw' = next_pane aw + 1" "next_browser aw' = next_browser aw"
      "reg_next_id (registry aw') = reg_next_id (registry aw) + 1"
  shows "window_ok aw'" "win_tabs aw' = win_tabs aw @ [fresh_tab (Terminal (reg_next_id (registry aw)))]"
proof -
  note sp = single_pane_ws_ok [OF ws(1,2)] and r = window_roomD [OF room]
  let ?aw = "aw'\<lparr>workspaces := workspaces aw\<rparr>"
  have b: "window_ok ?aw"
    by (rule window_ok_bump [OF ok]) (use aw' r in auto)
  have "window_ok (?aw\<lparr>workspaces := workspaces ?aw @ [ws]\<rparr>)"
    by (rule window_ok_push [OF b sp(1)])
       (use sp ws(3) fresh_workspace [OF ok] fresh_pane [OF ok] fresh_surface [OF ok] r aw' in
         \<open>simp_all add: ws_below_def pane_below_def ident_below_def\<close>)
  then show "window_ok aw'" by (simp add: aw'(1) [symmetric])
  show "win_tabs aw' = win_tabs aw @ [fresh_tab (Terminal (reg_next_id (registry aw)))]"
    by (simp add: win_tabs_def aw'(1) sp(4))
qed

lemma new_workspace_ok:
  assumes "window_ok aw" "window_room aw"
  shows "window_ok (new_workspace aw)"
    "win_tabs (new_workspace aw) = win_tabs aw @ [fresh_tab (Terminal (reg_next_id (registry aw)))]"
    "length (workspaces (new_workspace aw)) = Suc (length (workspaces aw))"
    "current_page (new_workspace aw) = Some (length (workspaces aw))"
proof -
  let ?ws = "(Workspace_new (next_workspace aw))\<lparr>
      ws_panes := [(next_pane aw, Pane_new_with_id (next_pane aw) (reg_next_id (registry aw)))],
      split_tree := new_with_pane (next_pane aw),
      ws_title := ''Workspace '' @ nat_str (length (workspaces aw) + 1)\<rparr>"
  have k: "workspaces (new_workspace aw) = workspaces aw @ [?ws]"
    "next_workspace (new_workspace aw) = next_workspace aw + 1"
    "next_pane (new_workspace aw) = next_pane aw + 1" "next_browser (new_workspace aw) = next_browser aw"
    "reg_next_id (registry (new_workspace aw)) = reg_next_id (registry aw) + 1"
    "current_page (new_workspace aw) = Some (length (workspaces aw))"
    by (simp_all add: new_workspace_def single_pane_workspace_def alloc_surface_def pre_allocate_id_def
        next_workspace_id_def next_pane_id_def push_workspace_def add_pane_def Let_def
        update_tray_state_def emit_def Workspace_new_def Pane_new_with_id_def)
  have f: "ws_panes ?ws = [(next_pane aw, Pane_new_with_id (next_pane aw) (reg_next_id (registry aw)))]"
    "split_tree ?ws = new_with_pane (next_pane aw)" "ws_key ?ws = next_workspace aw"
    by (simp_all add: Workspace_new_def)
  note p = push_single_ok [OF assms f k(1-5)]
  from p show "window_ok (new_workspace aw)"
    "win_tabs (new_workspace aw) = win_tabs aw @ [fresh_tab (Terminal (reg_next_id (registry aw)))]" .
  show "length (workspaces (new_workspace aw)) = Suc (length (workspaces aw))" by (simp add: k(1))
  show "current_page (new_workspace aw) = Some (length (workspaces aw))" by (rule k(6))
qed

lemma new_remote_workspace_ok:
  assumes "window_ok aw" "window_room aw" "new_remote_workspace fp fi ft cfg aw = (i, aw')"
  shows "window_ok aw'"
proof -
  let ?cfg = "fill_relay fp fi ft cfg"
  let ?ws = "(Workspace_new (next_workspace aw))\<lparr>
      ws_panes := [(next_pane aw, Pane_new_with_id (next_pane aw) (reg_next_id (registry aw)))],
      split_tree := new_with_pane (next_pane aw), remote_config := Some ?cfg, remote_state := Connecting,
      ws_title := display_target ?cfg, custom_title := Some (display_target ?cfg)\<rparr>"
  have aw': "aw' = snd (new_remote_workspace fp fi ft cfg aw)" using assms(3) by simp
  have k: "workspaces aw' = workspaces aw @ [?ws]" "next_workspace aw' = next_workspace aw + 1"
    "next_pane aw' = next_pane aw + 1" "next_browser aw' = next_browser aw"
    "reg_next_id (registry aw') = reg_next_id (registry aw) + 1"
    unfolding aw'
    by (simp_all add: new_remote_workspace_def single_pane_workspace_def alloc_surface_def
        pre_allocate_id_def next_workspace_id_def next_pane_id_def push_workspace_def add_pane_def Let_def
        update_tray_state_def emit_def Workspace_new_def Pane_new_with_id_def)
  have f: "ws_panes ?ws = [(next_pane aw, Pane_new_with_id (next_pane aw) (reg_next_id (registry aw)))]"
    "split_tree ?ws = new_with_pane (next_pane aw)" "ws_key ?ws = next_workspace aw"
    by (simp_all add: Workspace_new_def)
  show ?thesis by (rule push_single_ok(1) [OF assms(1,2) f k])
qed

section \<open>Closing\<close>

lemma find_ws_from_Some:
  assumes "find_ws_from f n wss = Some (i, k, p)"
  shows "\<exists>j. i = n + j \<and> j < length wss \<and> k = ws_key (wss ! j) \<and> f (wss ! j) = Some p"
  using assms
proof (induction wss arbitrary: n)
  case (Cons ws wss)
  show ?case
  proof (cases "f ws")
    case None
    with Cons.prems have "find_ws_from f (Suc n) wss = Some (i, k, p)" by simp
    from Cons.IH [OF this] obtain j where "i = Suc n + j" "j < length wss" "k = ws_key (wss ! j)"
      "f (wss ! j) = Some p" by blast
    then show ?thesis by (intro exI [of _ "Suc j"]) simp
  qed (use Cons.prems in \<open>auto intro!: exI [of _ 0]\<close>)
qed simp

lemma find_ws_from_None: "find_ws_from f n wss = None \<longleftrightarrow> (\<forall>ws\<in>set wss. f ws = None)"
  by (induction wss arbitrary: n) (auto split: option.split)

lemma find_pane_Some:
  assumes "hm_ok m" "map_option fst (find (\<lambda>(_, p). P p) m) = Some k"
  shows "\<exists>v. hm_get m k = Some v \<and> P v"
proof -
  obtain v where "find (\<lambda>(_, p). P p) m = Some (k, v)" using assms(2) by auto
  then have "(k, v) \<in> set m" "P v" by (auto simp: find_Some_iff) (metis nth_mem)
  with hm_get_in [OF assms(1)] show ?thesis by blast
qed

text \<open>What the shared part of the two close handlers does, for a tab at \<open>idx\<close> of pane \<open>p\<close>.\<close>

lemma close_panel_ok:
  assumes ok: "window_ok aw" and i: "i < length (workspaces aw)"
    and sp: "hm_get (ws_panes (workspaces aw ! i)) p = Some sp" and pos: "position P (tabs sp) = Some idx"
  shows "\<exists>aw'. close_panel pick (remove_tab_where P) i p aw = Some aw' \<and> window_ok aw' \<and>
    mset (win_tabs aw) = add_mset (tabs sp ! idx) (mset (win_tabs aw'))"
proof -
  let ?ws = "workspaces aw ! i" and ?f = "\<lambda>v. snd (remove_tab_where P v)"
  have idx: "idx < length (tabs sp)" using position_SomeD [OF pos] by simp
  have wo: "ws_ok ?ws" by (rule window_okD [OF ok i])
  have po: "pane_ok sp" using panes_okD [OF ws_okD(2) [OF wo] sp] by simp
  have pc: "hm_contains (ws_panes ?ws) p" using sp by blast
  note len = length_hm_ge_2 [OF ws_okD(1) [OF wo] pc]
  have replace: "window_ok (aw\<lparr>workspaces := (workspaces aw)[i := ws1]\<rparr>) \<and>
      mset (win_tabs aw) = add_mset (tabs sp ! idx) (mset (win_tabs (aw\<lparr>workspaces := (workspaces aw)[i := ws1]\<rparr>)))"
    if "ws_take ?f p ?ws = Some ws1"
      and other: "length (tabs sp) \<ge> 2 \<or> (\<exists>q. hm_contains (ws_panes ?ws) q \<and> q \<noteq> p)" for ws1
  proof -
    have w1: "ws_ok ws1" "ws_key ws1 = ws_key ?ws"
      "add_mset (tabs sp ! idx) (mset (ws_tabs ws1)) = mset (ws_tabs ?ws)"
      "\<And>q. hm_contains (ws_panes ws1) q \<Longrightarrow> hm_contains (ws_panes ?ws) q"
      using ws_take_ok [OF wo sp idx takes_remove_where [OF po pos] other] that(1) by auto
    have idS: "mset (tab_idents ?ws) = add_mset (ident (tabs sp ! idx)) (mset (tab_idents ws1))"
      using arg_cong [OF w1(3), of "image_mset ident"] by (simp add: tab_idents_def)
    have "distinct (tab_idents ws1)" "set (tab_idents ws1) \<subseteq> set (tab_idents ?ws)"
      using distinct_tab_idents [OF ok i] idS
        mset_eq_imp_distinct_iff [of "tab_idents ?ws" "ident (tabs sp ! idx) # tab_idents ws1"]
        mset_eq_setD [of "tab_idents ?ws" "ident (tabs sp ! idx) # tab_idents ws1"] by auto
    then have "window_ok (aw\<lparr>workspaces := (workspaces aw)[i := ws1]\<rparr>)"
      using w1(4) by (intro window_ok_replace [OF ok i w1(1,2)]) (auto simp: pane_ids_contains)
    moreover have "mset (win_tabs aw) = add_mset (tabs sp ! idx)
        (mset (win_tabs (aw\<lparr>workspaces := (workspaces aw)[i := ws1]\<rparr>)))"
      by (simp add: win_tabs_def win_ids_split(2) [OF i])
         (simp add: win_ids_split(1) [OF i, of ws_tabs] flip: w1(3))
    ultimately show ?thesis by blast
  qed
  consider (several) "length (tabs sp) \<ge> 2"
    | (pane) "length (tabs sp) = 1" "length (ws_panes ?ws) \<ge> 2"
    | (last) "length (tabs sp) = 1" "length (ws_panes ?ws) = 1"
  proof -
    have "length (ws_panes ?ws) \<noteq> 0" using ws_ok_panes_ne [OF wo] by simp
    then show thesis using that idx by linarith
  qed
  then show ?thesis
  proof cases
    case several
    have tk: "ws_take ?f p ?ws = Some (?ws\<lparr>ws_panes := hm_modify p ?f (ws_panes ?ws)\<rparr>)"
      using sp several by (simp add: ws_take_def)
    have "close_panel pick (remove_tab_where P) i p aw = Some (focus_active_panel i p
        (aw\<lparr>workspaces := (workspaces aw)[i := ?ws\<lparr>ws_panes := hm_modify p ?f (ws_panes ?ws)\<rparr>]\<rparr>))"
      using several sp by (simp add: close_panel_def Let_def modify_pane_def modify_ws_def)
    with replace [OF tk] several show ?thesis by simp
  next
    case pane
    then obtain q where q: "hm_contains (ws_panes ?ws) q" "q \<noteq> p" using len by blast
    obtain t where t: "remove p (split_tree ?ws) = Some (True, t)"
      using ws_remove_ok [OF wo pc q] by blast
    let ?ws1 = "snd (remove_pane p (?ws\<lparr>split_tree := t\<rparr>))"
    let ?aw1 = "aw\<lparr>workspaces := (workspaces aw)[i := ?ws1]\<rparr>"
    have tk: "ws_take ?f p ?ws = Some ?ws1" using sp pane t by (simp add: ws_take_def)
    have ev: "close_panel pick (remove_tab_where P) i p aw = Some (focus_after_close i ?aw1)"
      using pane sp t by (simp add: close_panel_def Let_def remove_pane_from_split_def modify_ws_def)
    have r: "window_ok ?aw1" "mset (win_tabs aw) = add_mset (tabs sp ! idx) (mset (win_tabs ?aw1))"
      using replace [OF tk] q by auto
    have "window_ok (focus_after_close i ?aw1)"
      by (subst window_ok_fields [of _ ?aw1]) (use i r(1) in simp_all)
    moreover have "win_tabs (focus_after_close i ?aw1) = win_tabs ?aw1"
      using i by (simp add: win_tabs_def)
    ultimately show ?thesis using ev r(2) by simp
  next
    case last
    have p1: "ws_panes ?ws = [(p, sp)]"
      using last(2) sp by (cases "ws_panes ?ws") (auto split: if_splits)
    then have tabs1: "ws_tabs ?ws = [tabs sp ! idx]"
      using last(1) idx by (cases "tabs sp") (auto simp: ws_tabs_def)
    let ?aw1 = "remove_workspace_at pick i aw"
    have ev: "close_panel pick (remove_tab_where P) i p aw =
        Some (if workspaces ?aw1 = [] then emit CloseWindow ?aw1 else ?aw1)"
      using last sp by (simp add: close_panel_def Let_def)
    have "window_ok ?aw1"
      by (subst window_ok_fields [of _ "aw\<lparr>workspaces := remove_at i (workspaces aw)\<rparr>"])
         (use window_ok_remove_ws [OF ok i] in simp_all)
    moreover have "mset (win_tabs aw) = add_mset (tabs sp ! idx) (mset (win_tabs ?aw1))"
      by (simp add: win_tabs_def win_ids_split(3) [OF i] win_ids_split(1) [OF i, of ws_tabs] tabs1)
    ultimately show ?thesis using ev by simp
  qed
qed

lemma has_panel_position:
  "has_surface s p \<Longrightarrow> \<exists>i. position (\<lambda>t. surface_id t = Some s) (tabs p) = Some i"
  "has_browser b p \<Longrightarrow> \<exists>i. position (\<lambda>t. browser_id t = Some b) (tabs p) = Some i"
  by (auto simp: position_Some_ex has_surface_def has_browser_def list_ex_iff)

lemma in_win_tabs:
  "t \<in> set (win_tabs aw) \<longleftrightarrow>
     (\<exists>ws k p. ws \<in> set (workspaces aw) \<and> (k, p) \<in> set (ws_panes ws) \<and> t \<in> set (tabs p))"
  by (force simp: win_tabs_def win_ids_def ws_tabs_def)

lemma close_surface_ok:
  assumes ok: "window_ok aw"
  shows "\<exists>aw'. close_surface pick s aw = Some aw' \<and> window_ok aw' \<and>
    (if SurfaceTab s \<in> ident ` set (win_tabs aw)
     then \<exists>t. ident t = SurfaceTab s \<and> mset (win_tabs aw) = add_mset t (mset (win_tabs aw'))
     else aw' = aw)"
proof (cases "find_workspace_with_surface s aw")
  case None
  have "pane_for_surface s ws = None" if "ws \<in> set (workspaces aw)" for ws
    using None that by (simp add: find_workspace_with_surface_def find_ws_from_None)
  then have "SurfaceTab s \<notin> ident ` set (win_tabs aw)"
    by (fastforce simp: in_win_tabs pane_for_surface_def find_None_iff has_surface_def list_ex_iff)
  with None ok show ?thesis by (auto simp: close_surface_def)
next
  case (Some r)
  then obtain i k p where r: "find_workspace_with_surface s aw = Some (i, k, p)" by (cases r) auto
  then have i: "i < length (workspaces aw)" "pane_for_surface s (workspaces aw ! i) = Some p"
    using find_ws_from_Some [of "pane_for_surface s" 0 "workspaces aw" i k p]
    by (auto simp: find_workspace_with_surface_def)
  obtain sp where sp: "hm_get (ws_panes (workspaces aw ! i)) p = Some sp" "has_surface s sp"
    using find_pane_Some [OF ws_okD(1) [OF window_okD [OF ok i(1)]]] i(2) unfolding pane_for_surface_def by blast
  obtain idx where idx: "position (\<lambda>t. surface_id t = Some s) (tabs sp) = Some idx"
    using has_panel_position(1) [OF sp(2)] by blast
  note pf = position_SomeD [OF idx]
  let ?aw = "aw\<lparr>registry := snd (unregister s (registry aw))\<rparr>"
  have ok': "window_ok ?aw" using ok by (simp add: unregister_def)
  have wt: "win_tabs ?aw = win_tabs aw" by (simp add: win_tabs_def)
  obtain aw' where aw': "close_panel pick (remove_tab s) i p ?aw = Some aw'" "window_ok aw'"
    "mset (win_tabs ?aw) = add_mset (tabs sp ! idx) (mset (win_tabs aw'))"
    using close_panel_ok [OF ok' _ _ idx, of i p pick, folded remove_tab_def] i(1) sp(1) by auto
  have "tabs sp ! idx \<in> set (win_tabs aw)"
    using aw'(3) wt by (metis insert_iff mset_eq_setD mset.simps(2) list.set(2))
  then have m: "SurfaceTab s \<in> ident ` set (win_tabs aw)" using pf by force
  have "ident (tabs sp ! idx) = SurfaceTab s" using pf by simp
  moreover have "close_surface pick s aw = Some aw'" using r aw'(1) by (simp add: close_surface_def)
  ultimately show ?thesis using aw'(2,3) wt m by auto
qed

lemma close_browser_ok:
  assumes ok: "window_ok aw"
  shows "\<exists>aw'. close_browser pick b aw = Some aw' \<and> window_ok aw' \<and>
    (if BrowserTab b \<in> ident ` set (win_tabs aw)
     then \<exists>t. ident t = BrowserTab b \<and> mset (win_tabs aw) = add_mset t (mset (win_tabs aw'))
     else aw' = aw)"
proof (cases "find_workspace_with_browser b aw")
  case None
  have "pane_for_browser b ws = None" if "ws \<in> set (workspaces aw)" for ws
    using None that by (simp add: find_workspace_with_browser_def find_ws_from_None)
  then have "BrowserTab b \<notin> ident ` set (win_tabs aw)"
    by (fastforce simp: in_win_tabs pane_for_browser_def find_None_iff has_browser_def list_ex_iff)
  with None ok show ?thesis by (auto simp: close_browser_def)
next
  case (Some r)
  then obtain i k p where r: "find_workspace_with_browser b aw = Some (i, k, p)" by (cases r) auto
  then have i: "i < length (workspaces aw)" "pane_for_browser b (workspaces aw ! i) = Some p"
    using find_ws_from_Some [of "pane_for_browser b" 0 "workspaces aw" i k p]
    by (auto simp: find_workspace_with_browser_def)
  obtain sp where sp: "hm_get (ws_panes (workspaces aw ! i)) p = Some sp" "has_browser b sp"
    using find_pane_Some [OF ws_okD(1) [OF window_okD [OF ok i(1)]]] i(2) unfolding pane_for_browser_def by blast
  obtain idx where idx: "position (\<lambda>t. browser_id t = Some b) (tabs sp) = Some idx"
    using has_panel_position(2) [OF sp(2)] by blast
  note pf = position_SomeD [OF idx]
  let ?aw = "aw\<lparr>browsers := removeAll b (browsers aw)\<rparr>"
  have ok': "window_ok ?aw" using ok by simp
  have wt: "win_tabs ?aw = win_tabs aw" by (simp add: win_tabs_def)
  obtain aw' where aw': "close_panel pick (remove_browser_tab b) i p ?aw = Some aw'" "window_ok aw'"
    "mset (win_tabs ?aw) = add_mset (tabs sp ! idx) (mset (win_tabs aw'))"
    using close_panel_ok [OF ok' _ _ idx, of i p pick, folded remove_browser_tab_def] i(1) sp(1) by auto
  have "tabs sp ! idx \<in> set (win_tabs aw)"
    using aw'(3) wt by (metis insert_iff mset_eq_setD mset.simps(2) list.set(2))
  then have m: "BrowserTab b \<in> ident ` set (win_tabs aw)" using pf by force
  have "ident (tabs sp ! idx) = BrowserTab b" using pf by simp
  moreover have "close_browser pick b aw = Some aw'" using r aw'(1) by (simp add: close_browser_def)
  ultimately show ?thesis using aw'(2,3) wt m by auto
qed

lemma request_close_ok:
  assumes "window_ok aw"
  shows "\<exists>aw'. request_close pick k aw = Some aw' \<and> window_ok aw'"
  using assms close_browser_ok [OF assms] by (cases k) (auto simp: request_close_def)

lemma request_close_all_ok:
  "window_ok aw \<Longrightarrow> \<exists>aw'. request_close_all pick ks aw = Some aw' \<and> window_ok aw'"
proof (induction ks arbitrary: aw)
  case (Cons k ks)
  obtain aw1 where a: "request_close pick k aw = Some aw1" "window_ok aw1"
    using request_close_ok [OF Cons.prems] by blast
  with Cons.IH [OF a(2)] show ?case by auto
qed simp

lemma close_workspace_ok:
  assumes "window_ok aw"
  shows "\<exists>aw'. close_workspace pick k aw = Some aw' \<and> window_ok aw'"
    "\<exists>aw'. close_current_workspace pick aw = Some aw' \<and> window_ok aw'"
    "\<exists>b aw'. close_workspace_by_id pick k aw = Some (b, aw') \<and> window_ok aw'"
    "\<exists>aw'. close_pane_tab pick aw = Some aw' \<and> window_ok aw'"
proof -
  note r = request_close_all_ok [OF assms] and r1 = request_close_ok [OF assms]
  show "\<exists>aw'. close_workspace pick k aw = Some aw' \<and> window_ok aw'"
    using assms r by (auto simp: close_workspace_def split: option.split)
  show "\<exists>aw'. close_current_workspace pick aw = Some aw' \<and> window_ok aw'"
    using assms r by (auto simp: close_current_workspace_def split: option.split)
  show "\<exists>b aw'. close_workspace_by_id pick k aw = Some (b, aw') \<and> window_ok aw'"
  proof (cases "find (\<lambda>ws. ws_key ws = k) (workspaces aw)")
    case (Some ws)
    obtain aw1 where "request_close_all pick (all_panels ws) aw = Some aw1" "window_ok aw1"
      using r by blast
    with Some assms show ?thesis by (auto simp: close_workspace_by_id_def)
  qed (use assms in \<open>auto simp: close_workspace_by_id_def\<close>)
  show "\<exists>aw'. close_pane_tab pick aw = Some aw' \<and> window_ok aw'"
    using assms r1 by (auto simp: close_pane_tab_def split: option.split)
qed

section \<open>Splitting\<close>

lemma window_add_pane:
  assumes ok: "window_ok aw" and i: "i < length (workspaces aw)"
    and tr: "tree_room (split_tree (workspaces aw ! i))"
    and tgt: "hm_contains (ws_panes (workspaces aw ! i)) target"
    and pane: "pane_ok pane" "tabs pane = [t]"
    and p: "pane_key pane \<notin> set (win_ids pane_ids (workspaces aw))" "pane_below aw (pane_key pane)"
    and t: "ident t \<notin> set (win_ids tab_idents (workspaces aw))" "ident_below aw (ident t)"
  shows "\<exists>n tr. split_gen before target (pane_key pane) ori (split_tree (workspaces aw ! i)) = Some (Some n, tr) \<and>
    window_ok (modify_ws i (\<lambda>ws. (add_pane pane ws)\<lparr>split_tree := tr\<rparr>) aw) \<and>
    mset (win_tabs (modify_ws i (\<lambda>ws. (add_pane pane ws)\<lparr>split_tree := tr\<rparr>) aw)) =
      add_mset t (mset (win_tabs aw))"
proof -
  let ?ws = "workspaces aw ! i"
  have wo: "ws_ok ?ws" by (rule window_okD [OF ok i])
  have new: "\<not> hm_contains (ws_panes ?ws) (pane_key pane)"
    using p(1) in_win_ids [OF nth_mem [OF i], of _ pane_ids] by (auto simp: pane_ids_contains)
  obtain n tr where tr: "split_gen before target (pane_key pane) ori (split_tree ?ws) = Some (Some n, tr)"
    "ws_ok ((add_pane pane ?ws)\<lparr>split_tree := tr\<rparr>)"
    using ws_split_ok [OF wo tr tgt new pane(1)] by blast
  let ?ws1 = "(add_pane pane ?ws)\<lparr>split_tree := tr\<rparr>"
  have tabs1: "ws_tabs ?ws1 = ws_tabs ?ws @ [t]" using ws_tabs_add_pane [OF new] pane(2) by simp
  have nt: "ident t \<notin> set (tab_idents ?ws)"
    using t(1) in_win_ids [OF nth_mem [OF i], of _ tab_idents] by blast
  have id1: "tab_idents ?ws1 = tab_idents ?ws @ [ident t]" using tabs1 by (simp add: tab_idents_def)
  have "window_ok (aw\<lparr>workspaces := (workspaces aw)[i := ?ws1]\<rparr>)"
  proof (rule window_ok_replace [OF ok i tr(2)])
    show "distinct (tab_idents ?ws1)" using id1 nt distinct_tab_idents [OF ok i] by simp
    show "x \<in> set (pane_ids ?ws1) \<Longrightarrow> x \<in> set (pane_ids ?ws) \<or>
        x \<notin> set (win_ids pane_ids (workspaces aw)) \<and> pane_below aw x" for x
      using p by (auto simp: pane_ids_contains add_pane_def)
  qed (use id1 t in \<open>auto simp: add_pane_def\<close>)
  moreover have "mset (win_tabs (aw\<lparr>workspaces := (workspaces aw)[i := ?ws1]\<rparr>)) = add_mset t (mset (win_tabs aw))"
    using tabs1 by (simp add: win_tabs_def win_ids_split(2) [OF i])
      (simp add: win_ids_split(1) [OF i, of ws_tabs])
  ultimately show ?thesis using tr(1) by (auto simp: modify_ws_def)
qed

lemma focused_contains:
  assumes "ws_ok ws" "ws_focused_pane ws = Some f"
  shows "hm_contains (ws_panes ws) f"
  using drop_target_ok [OF assms(1)] assms(2) by auto

lemma split_focused_ok:
  assumes ok: "window_ok aw" and room: "window_room aw"
  shows "\<exists>aw'. split_focused ori aw = Some aw' \<and> window_ok aw' \<and>
    (if current_ws aw = None then aw' = aw
     else mset (win_tabs aw') =
       add_mset (fresh_tab (Terminal (reg_next_id (registry aw)))) (mset (win_tabs aw)))"
proof (cases "current_ws aw")
  case (Some i)
  have i: "i < length (workspaces aw)" by (rule current_ws_less [OF Some])
  let ?ws = "workspaces aw ! i" and ?s = "reg_next_id (registry aw)" and ?p = "next_pane aw"
  obtain f where f: "ws_focused_pane ?ws = Some f" "hm_contains (ws_panes ?ws) f"
    using drop_target_ok [OF window_okD [OF ok i]] by blast
  let ?wd = "or_else (inherited_dir ?ws) (app_dir aw)"
  define aw0 where "aw0 = snd (alloc_surface ?wd (app_command aw) aw)"
  define aw1 where "aw1 = snd (next_pane_id aw0)"
  have a1: "workspaces aw1 = workspaces aw" "next_pane aw1 = ?p + 1" "reg_next_id (registry aw1) = ?s + 1"
    "next_workspace aw1 = next_workspace aw" "next_browser aw1 = next_browser aw"
    by (simp_all add: aw1_def aw0_def next_pane_id_def alloc_surface_def pre_allocate_id_def)
  note r = window_roomD [OF room]
  have ok1: "window_ok aw1" by (rule window_ok_bump [OF ok]) (use a1 r in auto)
  have k: "pane_key (Pane_new_with_id ?p ?s) = ?p" by (simp add: Pane_new_with_id_def)
  have tb: "tabs (Pane_new_with_id ?p ?s) = [fresh_tab (Terminal ?s)]" by (simp add: Pane_new_with_id_def fresh_tab_def)
  have below: "pane_below aw1 ?p" "ident_below aw1 (ident (fresh_tab (Terminal ?s)))"
    using r a1 by (simp_all add: pane_below_def ident_below_def fresh_tab_def ident_def)
  have fp: "?p \<notin> set (win_ids pane_ids (workspaces aw))" using fresh_pane [OF ok] by blast
  have fs: "ident (fresh_tab (Terminal ?s)) \<notin> set (win_ids tab_idents (workspaces aw))"
    using fresh_surface [OF ok] by (simp add: fresh_tab_def ident_def)
  obtain n t where t: "split_gen False f ?p ori (split_tree ?ws) = Some (Some n, t)"
    "window_ok (modify_ws i (\<lambda>ws. (add_pane (Pane_new_with_id ?p ?s) ws)\<lparr>split_tree := t\<rparr>) aw1)"
    "mset (win_tabs (modify_ws i (\<lambda>ws. (add_pane (Pane_new_with_id ?p ?s) ws)\<lparr>split_tree := t\<rparr>) aw1)) =
      add_mset (fresh_tab (Terminal ?s)) (mset (win_tabs aw1))"
    using window_add_pane [OF ok1, of i f "Pane_new_with_id ?p ?s" "fresh_tab (Terminal ?s)" False ori,
        unfolded a1(1) k, OF i r(5) [OF i] f(2) pane_ok_new(1) tb fp below(1) fs below(2)]
    by blast
  let ?aw2 = "modify_ws i (\<lambda>ws. (add_pane (Pane_new_with_id ?p ?s) ws)\<lparr>split_tree := t\<rparr>) aw1"
  have st: "split_tree (add_pane q ws) = split_tree ws" for q ws by (simp add: add_pane_def)
  have e1: "alloc_surface ?wd (app_command aw) aw = (?s, aw0)"
    by (simp add: aw0_def alloc_surface_def pre_allocate_id_def)
  have e2: "next_pane_id aw0 = (?p, aw1)"
    by (simp add: aw1_def aw0_def next_pane_id_def alloc_surface_def pre_allocate_id_def)
  have ev: "split_focused ori aw = Some (?aw2\<lparr>registry := remove_pending ?s (registry ?aw2)\<rparr>)"
    using Some f(1) t(1) i a1(1)
    by (simp add: split_focused_def e1 e2 split_pane_def st o_def)
  have "window_ok (?aw2\<lparr>registry := remove_pending ?s (registry ?aw2)\<rparr>)" using t(2) by simp
  moreover have "win_tabs (?aw2\<lparr>registry := remove_pending ?s (registry ?aw2)\<rparr>) = win_tabs ?aw2"
    "win_tabs aw1 = win_tabs aw" by (simp_all add: win_tabs_def a1)
  ultimately show ?thesis using ev t(3) Some by simp
qed (use ok in \<open>simp add: split_focused_def\<close>)

lemma split_browser_ok:
  assumes ok: "window_ok aw" and room: "window_room aw" and i: "i < length (workspaces aw)"
    and f: "hm_contains (ws_panes (workspaces aw ! i)) f"
  shows "\<exists>aw'. split_browser_in_workspace i f ori url aw = Some (next_browser aw, aw') \<and> window_ok aw' \<and>
    mset (win_tabs aw') = add_mset (fresh_tab (Browser (next_browser aw) url)) (mset (win_tabs aw))"
proof -
  let ?ws = "workspaces aw ! i" and ?b = "next_browser aw" and ?p = "next_pane aw"
  define aw0 where "aw0 = snd (create_browser aw)"
  define aw1 where "aw1 = snd (next_pane_id aw0)"
  have a1: "workspaces aw1 = workspaces aw" "next_pane aw1 = ?p + 1" "next_browser aw1 = ?b + 1"
    "next_workspace aw1 = next_workspace aw" "registry aw1 = registry aw"
    by (simp_all add: aw1_def aw0_def next_pane_id_def create_browser_def)
  note r = window_roomD [OF room]
  have ok1: "window_ok aw1" by (rule window_ok_bump [OF ok]) (use a1 r in auto)
  let ?P = "Pane_new_browser_with_id ?p ?b url"
  have k: "pane_key ?P = ?p" by (simp add: Pane_new_browser_with_id_def)
  have tb: "tabs ?P = [fresh_tab (Browser ?b url)]" by (simp add: Pane_new_browser_with_id_def fresh_tab_def)
  have below: "pane_below aw1 ?p" "ident_below aw1 (ident (fresh_tab (Browser ?b url)))"
    using r a1 by (simp_all add: pane_below_def ident_below_def fresh_tab_def ident_def)
  have fp: "?p \<notin> set (win_ids pane_ids (workspaces aw))" using fresh_pane [OF ok] by blast
  have fs: "ident (fresh_tab (Browser ?b url)) \<notin> set (win_ids tab_idents (workspaces aw))"
    using fresh_browser [OF ok] by (simp add: fresh_tab_def ident_def)
  obtain n t where t: "split_gen False f ?p ori (split_tree ?ws) = Some (Some n, t)"
    "window_ok (modify_ws i (\<lambda>ws. (add_pane ?P ws)\<lparr>split_tree := t\<rparr>) aw1)"
    "mset (win_tabs (modify_ws i (\<lambda>ws. (add_pane ?P ws)\<lparr>split_tree := t\<rparr>) aw1)) =
      add_mset (fresh_tab (Browser ?b url)) (mset (win_tabs aw1))"
    using window_add_pane [OF ok1, of i f ?P "fresh_tab (Browser ?b url)" False ori,
        unfolded a1(1) k, OF i r(5) [OF i] f pane_ok_new(2) tb fp below(1) fs below(2)]
    by blast
  let ?aw2 = "modify_ws i (\<lambda>ws. (add_pane ?P ws)\<lparr>split_tree := t\<rparr>) aw1"
  have st: "split_tree (add_pane q ws) = split_tree ws" for q ws by (simp add: add_pane_def)
  have e1: "create_browser aw = (?b, aw0)" by (simp add: aw0_def create_browser_def)
  have e2: "next_pane_id aw0 = (?p, aw1)"
    by (simp add: aw1_def aw0_def next_pane_id_def create_browser_def)
  have ev: "split_browser_in_workspace i f ori url aw = Some (?b, set_pane_active i ?p ?aw2)"
    using t(1) i a1(1) by (simp add: split_browser_in_workspace_def e1 e2 split_pane_def st o_def)
  have "window_ok (set_pane_active i ?p ?aw2)"
    by (rule window_ok_set_focus [OF t(2)])
       (use i a1(1) in \<open>simp_all add: add_pane_def Pane_new_browser_with_id_def\<close>)
  moreover have "mset (win_tabs (set_pane_active i ?p ?aw2)) = mset (win_tabs ?aw2)"
    by (rule win_tabs_set_active) (use i a1(1) in simp)
  moreover have "win_tabs aw1 = win_tabs aw" by (simp add: win_tabs_def a1)
  ultimately show ?thesis using ev t(3) by auto
qed

end
