(* ===== verification/Window_Meta.thy ===== *)
theory Window_Meta
  imports App_Window
begin

text \<open>
  The handlers of \<open>app/src/window.rs\<close> that change what the window knows about a workspace, a pane
  or a tab without creating or moving one: titles, working directories, bells, git branches, ports,
  sidebar status, log and progress entries, colours, the remote connection, pinning and the order of
  the workspaces. The \<open>HOME\<close> variable is the argument \<open>home\<close>. The pages of the notebook follow
  the order of \<open>workspaces\<close>; which page it shows after a reordering is the argument \<open>reshow\<close>.
\<close>

section \<open>Addressing\<close>

text \<open>\<open>iter_mut().find(|ws| ws.id == id)\<close> and a write.\<close>

definition modify_ws_id :: "WorkspaceId \<Rightarrow> (Workspace \<Rightarrow> Workspace) \<Rightarrow> AppWindow \<Rightarrow> AppWindow" where
  "modify_ws_id i f aw = aw\<lparr>workspaces := modify_first (\<lambda>ws. ws_key ws = i) f (workspaces aw)\<rparr>"

definition tab_has_handle :: "AppWindow \<Rightarrow> nat \<Rightarrow> Tab \<Rightarrow> bool" where
  "tab_has_handle aw h t = (Option.bind (surface_id t) (get_handle (registry aw)) = Some h)"

definition find_handle :: "nat \<Rightarrow> AppWindow \<Rightarrow> (usize \<times> WorkspaceId \<times> PaneId) option" where
  "find_handle h aw =
     find_ws_from
       (\<lambda>ws. map_option fst (find (\<lambda>(_, p). list_ex (tab_has_handle aw h) (tabs p)) (ws_panes ws)))
       0 (workspaces aw)"

definition modify_handle_tab :: "nat \<Rightarrow> usize \<Rightarrow> PaneId \<Rightarrow> (Tab \<Rightarrow> Tab) \<Rightarrow> AppWindow \<Rightarrow> AppWindow" where
  "modify_handle_tab h i p f aw =
     modify_pane i p (\<lambda>pane. pane\<lparr>tabs := modify_first (tab_has_handle aw h) f (tabs pane)\<rparr>) aw"

section \<open>Titles and directories\<close>

definition extract_directory :: "string option \<Rightarrow> string \<Rightarrow> string option" where
  "extract_directory home title =
     (let path = trim (case rfind CHR '':'' title of Some i \<Rightarrow> drop (i + 1) title | None \<Rightarrow> title)
      in if starts_with ''/'' path \<or> starts_with ''~'' path then
           (if starts_with ''~'' path then
              (case home of Some h \<Rightarrow> Some (h @ tl path) | None \<Rightarrow> Some path)
            else Some path)
         else None)"

text \<open>The edit of the tab whose title changed and the directory that is new, if there is one.\<close>

definition title_dir :: "string option \<Rightarrow> string \<Rightarrow> Tab \<Rightarrow> string option" where
  "title_dir home title t =
     (case extract_directory home title of
        Some d \<Rightarrow> if \<not> dir_from_osc7 t \<and> tab_dir t \<noteq> Some d then Some d else None
      | None \<Rightarrow> None)"

definition retitle :: "string option \<Rightarrow> string \<Rightarrow> Tab \<Rightarrow> Tab" where
  "retitle home title t =
     (case extract_directory home title of
        Some d \<Rightarrow> if \<not> dir_from_osc7 t then t\<lparr>tab_title := title, tab_dir := Some d\<rparr>
                  else t\<lparr>tab_title := title\<rparr>
      | None \<Rightarrow> t\<lparr>tab_title := title\<rparr>)"

definition set_surface_title :: "string option \<Rightarrow> nat \<Rightarrow> string \<Rightarrow> AppWindow \<Rightarrow> AppWindow" where
  "set_surface_title home h title aw =
     (case find_handle h aw of
        None \<Rightarrow> aw
      | Some (i, k, p) \<Rightarrow>
          (case Option.bind (hm_get (ws_panes (workspaces aw ! i)) p)
                  (\<lambda>pane. find (tab_has_handle aw h) (tabs pane)) of
             None \<Rightarrow> aw
           | Some t \<Rightarrow>
               (let aw' = modify_ws i update_title_from_focused
                            (modify_handle_tab h i p (retitle home title) aw);
                    aw' = (case title_dir home title t of
                             Some d \<Rightarrow> emit (DetectGitBranch k d) aw'
                           | None \<Rightarrow> aw')
                in case surface_id t of
                     Some s \<Rightarrow> emit (TitleChanged s title) aw'
                   | None \<Rightarrow> aw')))"

definition report_dir :: "string option \<Rightarrow> string \<Rightarrow> Tab \<Rightarrow> Tab" where
  "report_dir home dir t =
     (if dir = [] then t\<lparr>tab_dir := extract_directory home (tab_title t), dir_from_osc7 := False\<rparr>
      else t\<lparr>tab_dir := Some dir, dir_from_osc7 := True\<rparr>)"

text \<open>The null handle is \<open>0\<close>.\<close>

definition set_surface_working_directory ::
  "string option \<Rightarrow> nat \<Rightarrow> string \<Rightarrow> AppWindow \<Rightarrow> AppWindow" where
  "set_surface_working_directory home h dir aw =
     (if h = 0 then aw
      else case find_handle h aw of
             None \<Rightarrow> aw
           | Some (i, _, p) \<Rightarrow> modify_handle_tab h i p (report_dir home dir) aw)"

definition on_browser_title_changed :: "BrowserPanelId \<Rightarrow> string \<Rightarrow> AppWindow \<Rightarrow> AppWindow" where
  "on_browser_title_changed b title aw =
     (case find_workspace_with_browser b aw of
        None \<Rightarrow> aw
      | Some (i, _, p) \<Rightarrow>
          modify_ws i update_title_from_focused (modify_pane i p (set_browser_tab_title b title) aw))"

definition update_workspace_branch :: "WorkspaceId \<Rightarrow> string option \<Rightarrow> AppWindow \<Rightarrow> AppWindow" where
  "update_workspace_branch i branch = modify_ws_id i (git_branch_update (\<lambda>_. branch))"

section \<open>Bells and focus\<close>

definition handle_bell :: "nat \<Rightarrow> AppWindow \<Rightarrow> AppWindow" where
  "handle_bell h aw =
     (let active_page = unwrap_or (current_page aw) 0 in
      case find_handle h aw of
        None \<Rightarrow> aw
      | Some (i, k, p) \<Rightarrow>
          (let aw = (if i \<noteq> active_page then modify_ws i (ws_bell_update (\<lambda>_. True)) aw else aw);
               is_focused = (ws_focused_pane (workspaces aw ! i) = Some p \<and> i = active_page);
               aw = (if is_focused then aw else modify_pane i p (pane_bell_update (\<lambda>_. True)) aw);
               aw = emit (BellNotification (display_title (workspaces aw ! i)) k) aw;
               aw = update_tray_state aw;
               sid = unwrap_or (Option.bind (hm_get (ws_panes (workspaces aw ! i)) p) active_surface) 0
           in emit (BellFired k sid) aw))"

definition pane_rings :: "usize \<Rightarrow> PaneId \<Rightarrow> AppWindow \<Rightarrow> bool" where
  "pane_rings i p aw =
     (case hm_get (ws_panes (workspaces aw ! i)) p of Some v \<Rightarrow> pane_bell v | None \<Rightarrow> False)"

definition clear_workspace_bell :: "usize \<Rightarrow> AppWindow \<Rightarrow> AppWindow" where
  "clear_workspace_bell page aw =
     (if page \<ge> length (workspaces aw) then aw
      else
        (let aw = (if ws_bell (workspaces aw ! page)
                   then update_tray_state (modify_ws page (ws_bell_update (\<lambda>_. False)) aw) else aw)
         in case ws_focused_pane (workspaces aw ! page) of
              Some p \<Rightarrow> if pane_rings page p aw
                        then emit (ScheduleClearPaneBell (ws_key (workspaces aw ! page)) p) aw else aw
            | None \<Rightarrow> aw))"

definition clear_pane_bell :: "WorkspaceId \<Rightarrow> PaneId \<Rightarrow> AppWindow \<Rightarrow> AppWindow" where
  "clear_pane_bell i p =
     modify_ws_id i (\<lambda>ws. ws\<lparr>ws_panes := hm_modify p (pane_bell_update (\<lambda>_. False)) (ws_panes ws)\<rparr>)"

definition focus_found :: "(usize \<times> WorkspaceId \<times> PaneId) option \<Rightarrow> AppWindow \<Rightarrow> AppWindow" where
  "focus_found r aw =
     (case r of
        None \<Rightarrow> aw
      | Some (i, _, p) \<Rightarrow>
          set_pane_active i p
            (if pane_rings i p aw then modify_pane i p (pane_bell_update (\<lambda>_. False)) aw else aw))"

definition set_focused_surface :: "SurfaceId \<Rightarrow> AppWindow \<Rightarrow> AppWindow" where
  "set_focused_surface s aw = focus_found (find_workspace_with_surface s aw) aw"

definition set_focused_browser :: "BrowserPanelId \<Rightarrow> AppWindow \<Rightarrow> AppWindow" where
  "set_focused_browser b aw = focus_found (find_workspace_with_browser b aw) aw"

section \<open>Sidebar\<close>

definition toggle_sidebar :: "AppWindow \<Rightarrow> AppWindow" where
  "toggle_sidebar aw =
     (if sidebar_visible aw then
        (let pos = sidebar_position aw;
             aw = (if pos > 0 then aw\<lparr>sidebar_last_width := pos\<rparr> else aw)
         in aw\<lparr>sidebar_position := 0, sidebar_visible := False\<rparr>)
      else aw\<lparr>sidebar_position := sidebar_last_width aw, sidebar_visible := True\<rparr>)"

definition set_workspace_status ::
  "WorkspaceId \<Rightarrow> string \<Rightarrow> string \<Rightarrow> string option \<Rightarrow> string option \<Rightarrow> int \<Rightarrow>
   AppWindow \<Rightarrow> AppWindow" where
  "set_workspace_status i key val icon col prio =
     modify_ws_id i (\<lambda>ws. ws\<lparr>status_entries := hm_insert key
       \<lparr>status_key = key, status_value = val, status_icon = icon, status_color = col,
        status_priority = prio\<rparr> (status_entries ws)\<rparr>)"

definition clear_workspace_status :: "WorkspaceId \<Rightarrow> string \<Rightarrow> AppWindow \<Rightarrow> AppWindow" where
  "clear_workspace_status i key =
     modify_ws_id i (\<lambda>ws. ws\<lparr>status_entries := hm_remove key (status_entries ws)\<rparr>)"

definition push_log :: "SidebarLogEntry \<Rightarrow> SidebarLogEntry list \<Rightarrow> SidebarLogEntry list" where
  "push_log e es = (let es = es @ [e] in if length es > 50 then remove_at 0 es else es)"

definition add_workspace_log ::
  "WorkspaceId \<Rightarrow> string \<Rightarrow> LogLevel \<Rightarrow> string option \<Rightarrow> nat \<Rightarrow> AppWindow \<Rightarrow> AppWindow" where
  "add_workspace_log i message level source now =
     modify_ws_id i (\<lambda>ws. ws\<lparr>log_entries := push_log
       \<lparr>log_message = message, log_level = level, log_source = source, log_timestamp = now\<rparr>
       (log_entries ws)\<rparr>)"

definition clear_workspace_log :: "WorkspaceId \<Rightarrow> AppWindow \<Rightarrow> AppWindow" where
  "clear_workspace_log i = modify_ws_id i (log_entries_update (\<lambda>_. []))"

definition set_workspace_progress ::
  "WorkspaceId \<Rightarrow> f64 \<Rightarrow> string option \<Rightarrow> AppWindow \<Rightarrow> AppWindow" where
  "set_workspace_progress i v label =
     modify_ws_id i (ws_progress_update (\<lambda>_. Some \<lparr>progress_value = v, progress_label = label\<rparr>))"

definition clear_workspace_progress :: "WorkspaceId \<Rightarrow> AppWindow \<Rightarrow> AppWindow" where
  "clear_workspace_progress i = modify_ws_id i (ws_progress_update (\<lambda>_. None))"

definition rename_workspace :: "WorkspaceId \<Rightarrow> string \<Rightarrow> AppWindow \<Rightarrow> AppWindow" where
  "rename_workspace i name aw =
     emit (WorkspaceRenamed i name)
       (update_tray_state
         (modify_ws_id i (\<lambda>ws. ws\<lparr>custom_title := Some name, ws_title := name\<rparr>) aw))"

definition set_workspace_color :: "WorkspaceId \<Rightarrow> WorkspaceColor option \<Rightarrow> AppWindow \<Rightarrow> AppWindow" where
  "set_workspace_color i c = modify_ws_id i (ws_color_update (\<lambda>_. c))"

section \<open>Order of the workspaces\<close>

type_synonym page_reshow = "usize option \<Rightarrow> Workspace list \<Rightarrow> Workspace list \<Rightarrow> usize option"

definition reorder_workspace_views :: "page_reshow \<Rightarrow> Workspace list \<Rightarrow> AppWindow \<Rightarrow> AppWindow" where
  "reorder_workspace_views reshow wss aw =
     aw\<lparr>workspaces := wss, current_page := reshow (current_page aw) (workspaces aw) wss\<rparr>"

definition reorder_workspaces_for_pin :: "page_reshow \<Rightarrow> AppWindow \<Rightarrow> AppWindow" where
  "reorder_workspaces_for_pin reshow aw =
     reorder_workspace_views reshow
       (sort_key (\<lambda>ws. if pinned ws then 0 else 1 :: nat) (workspaces aw)) aw"

definition toggle_workspace_pinned :: "page_reshow \<Rightarrow> WorkspaceId \<Rightarrow> AppWindow \<Rightarrow> AppWindow" where
  "toggle_workspace_pinned reshow i aw =
     (if ws_position i aw = None then aw
      else reorder_workspaces_for_pin reshow
             (modify_ws_id i (\<lambda>ws. ws\<lparr>pinned := \<not> pinned ws\<rparr>) aw))"

text \<open>\<open>Vec::insert\<close> panics when the index is beyond the end.\<close>

definition move_workspace ::
  "page_reshow \<Rightarrow> WorkspaceId \<Rightarrow> WorkspaceId \<Rightarrow> bool \<Rightarrow> AppWindow \<Rightarrow> AppWindow run" where
  "move_workspace reshow source target before aw =
     (case (ws_position source aw, ws_position target aw) of
        (Some si, Some ti) \<Rightarrow>
          if pinned (workspaces aw ! si) \<noteq> pinned (workspaces aw ! ti) then Some aw
          else
            (let ws = workspaces aw ! si;
                 rest = remove_at si (workspaces aw);
                 ti = unwrap_or (position (\<lambda>w. ws_key w = target) rest) 0;
                 ins = (if before then ti else ti + 1)
             in if ins > length rest then None
                else Some (reorder_workspace_views reshow (insert_at ins ws rest) aw))
      | _ \<Rightarrow> Some aw)"

section \<open>Remote connection\<close>

definition remote_target :: "WorkspaceId option \<Rightarrow> AppWindow \<Rightarrow> WorkspaceId option" where
  "remote_target i aw =
     or_else i
       (or_else
         (Option.bind (current_page aw)
            (\<lambda>p. case get_opt (workspaces aw) p of
                   Some ws \<Rightarrow> if remote_config ws \<noteq> None then Some (ws_key ws) else None
                 | None \<Rightarrow> None))
         (map_option ws_key (find (\<lambda>ws. remote_config ws \<noteq> None) (workspaces aw))))"

definition disconnect_remote :: "WorkspaceId option \<Rightarrow> bool \<Rightarrow> AppWindow \<Rightarrow> AppWindow" where
  "disconnect_remote i clear aw =
     (case remote_target i aw of
        None \<Rightarrow> aw
      | Some k \<Rightarrow>
          modify_ws_id k
            (\<lambda>ws. (let ws = ws\<lparr>remote_state := Disconnected, remote_daemon_status := None\<rparr>
                   in if clear then ws\<lparr>remote_config := None\<rparr> else ws))
            (emit (ControllerDisconnect k) aw))"

definition reconnect_remote :: "WorkspaceId option \<Rightarrow> AppWindow \<Rightarrow> AppWindow" where
  "reconnect_remote i aw =
     (case remote_target i aw of
        None \<Rightarrow> aw
      | Some k \<Rightarrow>
          (case Option.bind (find (\<lambda>ws. ws_key ws = k) (workspaces aw)) remote_config of
             Some cfg \<Rightarrow> emit (ControllerReconnect k cfg) aw
           | None \<Rightarrow> aw))"

definition update_remote_state ::
  "WorkspaceId \<Rightarrow> RemoteConnectionState \<Rightarrow> RemoteDaemonStatus option \<Rightarrow> AppWindow \<Rightarrow> AppWindow" where
  "update_remote_state i st status =
     modify_ws_id i (\<lambda>ws. ws\<lparr>remote_state := st, remote_daemon_status := status\<rparr>)"

fun emit_all :: "Effect list \<Rightarrow> AppWindow \<Rightarrow> AppWindow" where
  "emit_all [] aw = aw"
| "emit_all (e # es) aw = emit_all es (emit e aw)"

definition update_proxy_endpoint :: "WorkspaceId \<Rightarrow> ProxyEndpoint option \<Rightarrow> AppWindow \<Rightarrow> AppWindow" where
  "update_proxy_endpoint i endpoint aw =
     (case ws_position i aw of
        None \<Rightarrow> aw
      | Some idx \<Rightarrow>
          (let aw = modify_ws idx (proxy_endpoint_update (\<lambda>_. endpoint)) aw
           in emit_all (map (\<lambda>b. SetBrowserProxy b endpoint) (all_browser_ids (workspaces aw ! idx))) aw))"

section \<open>Ports\<close>

definition port_snapshot :: "AppWindow \<Rightarrow> (WorkspaceId \<times> string option) list" where
  "port_snapshot aw =
     map (\<lambda>ws. (ws_key ws, ws_dir ws)) (filter (\<lambda>ws. remote_config ws = None) (workspaces aw))"

definition update_workspace_ports :: "(WorkspaceId \<times> u16 list) list \<Rightarrow> AppWindow \<Rightarrow> AppWindow" where
  "update_workspace_ports results aw =
     (let m = foldl (\<lambda>m (k, v). hm_insert k v m) [] results
      in aw\<lparr>workspaces := map (\<lambda>ws. ws\<lparr>listening_ports := unwrap_or (hm_get m (ws_key ws)) []\<rparr>)
                            (workspaces aw)\<rparr>)"

section \<open>Listing\<close>

text \<open>\<open>url_of\<close> is \<open>browser::get_url\<close>, which asks the web view.\<close>

definition surface_line :: "(BrowserPanelId \<Rightarrow> string option) \<Rightarrow> Workspace \<Rightarrow> Pane \<Rightarrow> Tab \<Rightarrow> string" where
  "surface_line url_of ws pane t =
     (case panel t of
        Terminal s \<Rightarrow>
          ''surface:'' @ u32_str s @ '' workspace:'' @ u32_str (ws_key ws) @ '' pane:'' @
          u32_str (pane_key pane) @ '' terminal'' @
          (case tab_dir t of Some d \<Rightarrow> '' cwd='' @ d | None \<Rightarrow> [])
      | Browser b _ \<Rightarrow>
          ''browser:'' @ u32_str b @ '' workspace:'' @ u32_str (ws_key ws) @ '' pane:'' @
          u32_str (pane_key pane) @ '' browser'' @
          (case url_of b of Some u \<Rightarrow> '' url='' @ u | None \<Rightarrow> []))"

definition list_surfaces_detailed :: "(BrowserPanelId \<Rightarrow> string option) \<Rightarrow> AppWindow \<Rightarrow> string list" where
  "list_surfaces_detailed url_of aw =
     concat (map (\<lambda>ws. concat (map (\<lambda>(_, pane). map (surface_line url_of ws pane) (tabs pane))
       (ws_panes ws))) (workspaces aw))"

end
