(* ===== verification/Drag_Drop.thy ===== *)
theory Drag_Drop
  imports Tab_Moves Window_Meta
begin

text \<open>
  The drop handlers of \<open>app/src/tab_strip.rs\<close> (on a tab strip and on the content of a pane) and of
  \<open>app/src/sidebar.rs\<close> (on the row of a workspace). A handler decodes the payload of the drag, checks
  it against the window and either refuses it or accepts it; the move itself runs from the idle loop,
  on the state the window has then. \<open>Deferred\<close> is the closure that is left behind.
\<close>

datatype DropZone = ZLeft | ZRight | ZTop | ZBottom

fun to_split_params :: "DropZone \<Rightarrow> Orientation \<times> bool" where
  "to_split_params ZLeft = (Horizontal, True)"
| "to_split_params ZRight = (Horizontal, False)"
| "to_split_params ZTop = (Vertical, True)"
| "to_split_params ZBottom = (Vertical, False)"

definition detect_drop_zone :: "f64 \<Rightarrow> f64 \<Rightarrow> f64 \<Rightarrow> f64 \<Rightarrow> DropZone" where
  "detect_drop_zone x y width height =
     (if width \<le> 0 \<or> height \<le> 0 then ZRight
      else
        (let nx = x / width; ny = y / height; above_main = ny < nx; above_anti = ny < 1 - nx
         in case (above_main, above_anti) of
              (True, True) \<Rightarrow> ZTop
            | (False, False) \<Rightarrow> ZBottom
            | (False, True) \<Rightarrow> ZLeft
            | (True, False) \<Rightarrow> ZRight))"

text \<open>The insertion slot; the children of the strip are their positions and widths.\<close>

fun tab_insertion_index :: "(int \<times> int) list \<Rightarrow> f64 \<Rightarrow> usize" where
  "tab_insertion_index [] x = 0"
| "tab_insertion_index ((cx, w) # cs) x =
     (if x < of_int cx + of_int w / 2 then 0 else Suc (tab_insertion_index cs x))"

datatype Deferred =
    DReorder PaneId TabDragIdentity TabInsertion
  | DMoveTab PaneId TabDragIdentity PaneId TabInsertion
  | DSplitTab PaneId TabDragIdentity PaneId Orientation bool
  | DMovePane PaneId PaneId bool Orientation
  | DMoveTabWs PaneId TabDragIdentity WorkspaceId
  | DMoveWs WorkspaceId WorkspaceId bool

section \<open>What each drop target accepts\<close>

definition tab_strip_drop :: "PaneId \<Rightarrow> (int \<times> int) list \<Rightarrow> string \<Rightarrow> f64 \<Rightarrow> AppWindow \<Rightarrow> Deferred option" where
  "tab_strip_drop target children payload x aw =
     (case tab_insertion_for_pane target (tab_insertion_index children x) aw of
        None \<Rightarrow> None
      | Some ins \<Rightarrow>
          (case parse_tab_drag_payload payload of
             None \<Rightarrow> None
           | Some (source, ident) \<Rightarrow>
               if pane_tab_count_for_identity source ident aw = None then None
               else Some (if source = target then DReorder source ident ins
                          else DMoveTab source ident target ins)))"

definition pane_drop ::
  "PaneId \<Rightarrow> string \<Rightarrow> f64 \<Rightarrow> f64 \<Rightarrow> f64 \<Rightarrow> f64 \<Rightarrow> Deferred option" where
  "pane_drop target payload x y w h =
     (case strip_prefix ''pane:'' payload of
        None \<Rightarrow> None
      | Some rest \<Rightarrow>
          (let (ori, before) = to_split_params (detect_drop_zone x y w h) in
           case parse_tab_drag_payload payload of
             Some (source, ident) \<Rightarrow> Some (DSplitTab source ident target ori before)
           | None \<Rightarrow>
               (case parse_u32 rest of
                  None \<Rightarrow> None
                | Some source \<Rightarrow> Some (DMovePane source target before ori))))"

definition sidebar_drop :: "WorkspaceId \<Rightarrow> string \<Rightarrow> f64 \<Rightarrow> f64 \<Rightarrow> AppWindow \<Rightarrow> Deferred option" where
  "sidebar_drop target payload y row_height aw =
     (case parse_tab_drag_payload payload of
        Some (source, ident) \<Rightarrow>
          (case workspace_id_for_pane source aw of
             None \<Rightarrow> None
           | Some source_ws \<Rightarrow>
               if source_ws = target \<or> pane_tab_count_for_identity source ident aw = None then None
               else Some (DMoveTabWs source ident target))
      | None \<Rightarrow>
          (case parse_u32 payload of
             None \<Rightarrow> None
           | Some source \<Rightarrow>
               if source = target then None
               else Some (DMoveWs source target (y < row_height / 2))))"

section \<open>The deferred part\<close>

record gtk_env =
  env_pick :: page_pick
  env_reshow :: page_reshow
  env_lookups :: bool

definition split_tab_drop ::
  "gtk_env \<Rightarrow> PaneId \<Rightarrow> TabDragIdentity \<Rightarrow> PaneId \<Rightarrow> Orientation \<Rightarrow> bool \<Rightarrow> AppWindow \<Rightarrow>
   AppWindow run" where
  "split_tab_drop env source ident target ori before aw =
     (case pane_tab_count_for_identity source ident aw of
        None \<Rightarrow> Some aw
      | Some n \<Rightarrow>
          if source = target then split_tab_to_pane (env_lookups env) source ident ori before aw
          else if n > 1 then split_tab_to_pane_target (env_lookups env) source ident target ori before aw
          else move_pane source target before ori aw)"

fun run_deferred :: "gtk_env \<Rightarrow> Deferred \<Rightarrow> AppWindow \<Rightarrow> AppWindow run" where
  "run_deferred env (DReorder p ident ins) aw = reorder_tab_in_pane (env_lookups env) p ident ins aw"
| "run_deferred env (DMoveTab p ident q ins) aw = move_tab_to_pane (env_lookups env) p ident q ins aw"
| "run_deferred env (DSplitTab p ident q ori before) aw = split_tab_drop env p ident q ori before aw"
| "run_deferred env (DMovePane p q before ori) aw = move_pane p q before ori aw"
| "run_deferred env (DMoveTabWs p ident i) aw =
     move_tab_to_workspace (env_pick env) (env_lookups env) p ident i aw"
| "run_deferred env (DMoveWs i j before) aw = move_workspace (env_reshow env) i j before aw"

end
