(* ===== verification/Meta_Facts.thy ===== *)
theory Meta_Facts
  imports Window_Live Drag_Drop
begin

text \<open>
  The handlers of \<open>Window_Meta\<close> keep the window invariant. They leave the identifiers of every
  workspace alone (\<open>same_shape\<close>), or permute the workspaces.
\<close>

section \<open>Edits that keep the shape\<close>

definition same_shape :: "Workspace \<Rightarrow> Workspace \<Rightarrow> bool" where
  "same_shape ws ws' \<longleftrightarrow> ws_key ws' = ws_key ws \<and> pane_ids ws' = pane_ids ws \<and>
     tab_idents ws' = tab_idents ws \<and> (ws_ok ws \<longrightarrow> ws_ok ws')"

lemma same_shape_refl [simp]: "same_shape ws ws"
  by (simp add: same_shape_def)

lemma same_shape_trans: "same_shape a b \<Longrightarrow> same_shape b c \<Longrightarrow> same_shape a c"
  by (simp add: same_shape_def)

lemma same_shape_fields:
  assumes "ws_key ws' = ws_key ws" "ws_panes ws' = ws_panes ws" "split_tree ws' = split_tree ws"
  shows "same_shape ws ws'"
  using assms by (simp add: same_shape_def pane_ids_def tab_idents_def ws_tabs_def ws_ok_def)

lemma same_shape_pane:
  assumes "\<And>v. tabs (f v) = tabs v \<or> map ident (tabs (f v)) = map ident (tabs v)"
    "\<And>v. pane_key (f v) = pane_key v" "\<And>v. selected_tab (f v) = selected_tab v"
  shows "same_shape ws (ws\<lparr>ws_panes := hm_modify p f (ws_panes ws)\<rparr>)"
proof -
  have t: "map ident (tabs (f v)) = map ident (tabs v)" for v using assms(1) [of v] by metis
  then have l: "length (tabs (f v)) = length (tabs v)" for v by (metis length_map)
  have "concat (map (map ident \<circ> tabs \<circ> snd) (hm_modify p f m)) = concat (map (map ident \<circ> tabs \<circ> snd) m)" for m
    by (rule arg_cong [of _ _ concat]) (auto simp: hm_modify_def t)
  then have "tab_idents (ws\<lparr>ws_panes := hm_modify p f (ws_panes ws)\<rparr>) = tab_idents ws"
    by (simp add: tab_idents_def ws_tabs_def map_concat comp_assoc)
  moreover have "ws_ok ws \<Longrightarrow> ws_ok (ws\<lparr>ws_panes := hm_modify p f (ws_panes ws)\<rparr>)"
    using panes_okD [OF ws_okD(2)] by (intro ws_ok_modify) (auto simp: pane_ok_def assms(2,3) l)
  ultimately show ?thesis by (simp add: same_shape_def)
qed

lemma win_ids_shape:
  assumes "list_all2 same_shape wss wss'"
  shows "win_ids pane_ids wss' = win_ids pane_ids wss" "win_ids tab_idents wss' = win_ids tab_idents wss"
    "win_ids ws_ids wss' = win_ids ws_ids wss" "(\<forall>ws\<in>set wss. ws_ok ws) \<Longrightarrow> (\<forall>ws\<in>set wss'. ws_ok ws)"
  using assms by (induction rule: list_all2_induct) (auto simp: same_shape_def ws_ids_def)

lemma window_ok_shape:
  assumes "list_all2 same_shape (workspaces aw) (workspaces aw')" "window_ok aw"
    "next_workspace aw' = next_workspace aw" "next_pane aw' = next_pane aw"
    "next_browser aw' = next_browser aw" "reg_next_id (registry aw') = reg_next_id (registry aw)"
  shows "window_ok aw'"
proof -
  have "ws_below aw' = ws_below aw" "pane_below aw' = pane_below aw" "ident_below aw' = ident_below aw"
    using assms(3-) by (simp_all add: fun_eq_iff ws_below_def pane_below_def ident_below_def
        split: TabDragIdentity.split)
  with win_ids_shape [OF assms(1)] assms(2) show ?thesis
    by (simp add: window_ok_def ids_ok_def alloc_ok_def)
qed

lemma window_ok_modify_shape:
  assumes "window_ok aw" "\<And>ws. same_shape ws (f ws)"
  shows "window_ok (modify_ws i f aw)" "window_ok (modify_ws_id k f aw)"
proof -
  have "list_all2 same_shape xs (xs[i := f (xs ! i)])" for xs
    using assms(2) by (cases "i < length xs")
      (auto simp: list_all2_conv_all_nth nth_list_update list_update_beyond)
  then show "window_ok (modify_ws i f aw)"
    by (intro window_ok_shape [OF _ assms(1)]) (simp_all add: modify_ws_def)
  have "list_all2 same_shape xs (modify_first P f xs)" for P xs
    using assms(2) by (induction xs) (auto simp: list.rel_refl)
  then show "window_ok (modify_ws_id k f aw)"
    by (intro window_ok_shape [OF _ assms(1)]) (simp_all add: modify_ws_id_def)
qed

lemma window_ok_pane_shape:
  assumes "window_ok aw" "\<And>v. map ident (tabs (f v)) = map ident (tabs v)"
    "\<And>v. pane_key (f v) = pane_key v" "\<And>v. selected_tab (f v) = selected_tab v"
  shows "window_ok (modify_pane i p f aw)"
  unfolding modify_pane_def using assms by (intro window_ok_modify_shape same_shape_pane) auto

lemma window_ok_perm:
  assumes "window_ok aw" "mset W = mset (workspaces aw)"
  shows "window_ok (aw\<lparr>workspaces := W, current_page := x\<rparr>)"
proof -
  have "ids_ok (aw\<lparr>workspaces := W\<rparr>)"
    using assms ws_space.alloc_ok_perm pane_space.alloc_ok_perm tab_space.alloc_ok_perm
    by (simp add: window_ok_def ids_ok_def)
  then have "window_ok (aw\<lparr>workspaces := W\<rparr>)"
    using assms mset_eq_setD [OF assms(2)] by (simp add: window_ok_def)
  moreover have "aw\<lparr>workspaces := W, current_page := x\<rparr> = (aw\<lparr>workspaces := W\<rparr>)\<lparr>current_page := x\<rparr>" by simp
  ultimately show ?thesis by (simp only: window_ok_page)
qed

section \<open>The handlers\<close>

lemma same_shape_title [simp]: "same_shape ws (update_title_from_focused ws)"
  by (rule same_shape_fields) (simp_all add: update_title_from_focused_def Let_def split: option.split)

lemma retitle_ident [simp]: "ident (retitle home title t) = ident t" "ident (report_dir home title t) = ident t"
  by (simp_all add: retitle_def report_dir_def ident_def split: option.split)

lemma emit_all_ok [simp]: "window_ok (emit_all es aw) = window_ok aw"
  by (induction es arbitrary: aw) simp_all

lemma handle_tab_ok:
  assumes "window_ok aw" "\<And>t. ident (f t) = ident t"
  shows "window_ok (modify_handle_tab h i p f aw)"
  unfolding modify_handle_tab_def
  by (rule window_ok_pane_shape [OF assms(1)])
     (simp_all add: modify_first_facts(2) [where g = ident and f = f, OF assms(2)])

lemma set_surface_title_ok: "window_ok aw \<Longrightarrow> window_ok (set_surface_title home h title aw)"
  using window_ok_modify_shape(1) [OF handle_tab_ok [OF _ retitle_ident(1)] same_shape_title]
  by (auto simp: set_surface_title_def Let_def split: option.split)

lemma set_surface_dir_ok: "window_ok aw \<Longrightarrow> window_ok (set_surface_working_directory home h dir aw)"
  using handle_tab_ok by (auto simp: set_surface_working_directory_def split: option.split)

lemma browser_title_ok: "window_ok aw \<Longrightarrow> window_ok (on_browser_title_changed b title aw)"
  unfolding on_browser_title_changed_def
  by (auto split: option.split intro!: window_ok_modify_shape window_ok_pane_shape
      simp: set_browser_tab_title_def modify_first_facts(2) ident_def)

lemma handle_bell_ok: "window_ok aw \<Longrightarrow> window_ok (handle_bell h aw)"
  unfolding handle_bell_def
  by (auto simp: Let_def split: option.split
      intro!: window_ok_pane_shape window_ok_modify_shape(1) same_shape_fields)

lemma clear_workspace_bell_ok: "window_ok aw \<Longrightarrow> window_ok (clear_workspace_bell page aw)"
  unfolding clear_workspace_bell_def
  by (auto simp: Let_def split: option.split intro!: window_ok_modify_shape(1) same_shape_fields)

lemma toggle_sidebar_ok: "window_ok aw \<Longrightarrow> window_ok (toggle_sidebar aw)"
  by (subst window_ok_fields [of _ aw]) (simp_all add: toggle_sidebar_def Let_def)

lemma clear_pane_bell_ok: "window_ok aw \<Longrightarrow> window_ok (clear_pane_bell i p aw)"
  unfolding clear_pane_bell_def by (intro window_ok_modify_shape same_shape_pane) auto

text \<open>The handlers that write fields outside the pane table and the tree of one workspace.\<close>

lemma sidebar_fields_ok:
  assumes "window_ok aw"
  shows "window_ok (update_workspace_branch i br aw)" "window_ok (set_workspace_status i k v ic col pr aw)"
    "window_ok (clear_workspace_status i k aw)" "window_ok (add_workspace_log i m lv src n aw)"
    "window_ok (clear_workspace_log i aw)" "window_ok (set_workspace_progress i pv lb aw)"
    "window_ok (clear_workspace_progress i aw)" "window_ok (set_workspace_color i c aw)"
    "window_ok (update_remote_state i st ds aw)" "window_ok (rename_workspace i nm aw)"
  unfolding update_workspace_branch_def set_workspace_status_def clear_workspace_status_def
    add_workspace_log_def clear_workspace_log_def set_workspace_progress_def clear_workspace_progress_def
    set_workspace_color_def update_remote_state_def rename_workspace_def window_ok_emit window_ok_tray
  by (intro window_ok_modify_shape(2) [OF assms] same_shape_fields; simp)+

lemma remote_ok:
  assumes "window_ok aw"
  shows "window_ok (disconnect_remote i clear aw)" "window_ok (reconnect_remote i aw)"
    "window_ok (update_proxy_endpoint j e aw)" "window_ok (update_workspace_ports res aw)"
proof -
  show "window_ok (disconnect_remote i clear aw)"
    using assms by (auto simp: disconnect_remote_def Let_def split: option.split
        intro!: window_ok_modify_shape(2) same_shape_fields)
  show "window_ok (reconnect_remote i aw)"
    using assms by (auto simp: reconnect_remote_def split: option.split)
  show "window_ok (update_proxy_endpoint j e aw)"
    using assms by (auto simp: update_proxy_endpoint_def Let_def split: option.split
        intro!: window_ok_modify_shape(1) same_shape_fields)
  show "window_ok (update_workspace_ports res aw)"
    by (rule window_ok_shape [OF _ assms])
       (auto simp: update_workspace_ports_def Let_def list_all2_conv_all_nth intro!: same_shape_fields)
qed

section \<open>Order of the workspaces\<close>

lemma toggle_pinned_ok: "window_ok aw \<Longrightarrow> window_ok (toggle_workspace_pinned rs i aw)"
  using window_ok_perm [OF window_ok_modify_shape(2) [of aw "\<lambda>ws. ws\<lparr>pinned := \<not> pinned ws\<rparr>" i]]
  by (simp add: toggle_workspace_pinned_def reorder_workspaces_for_pin_def reorder_workspace_views_def
      same_shape_fields del: window_ok_page)

lemma win_ws_ids: "win_ids ws_ids wss = map ws_key wss"
  by (induction wss) (simp_all add: ws_ids_def)

lemma in_remove_at: "i < length xs \<Longrightarrow> j < length xs \<Longrightarrow> i \<noteq> j \<Longrightarrow> xs ! j \<in> set (remove_at i xs)"
proof -
  assume a: "i < length xs" "j < length xs" "i \<noteq> j"
  have "remove_at i xs ! (if j < i then j else j - 1) = xs ! j"
    using a by (auto simp: remove_at_def nth_append min_def)
  moreover have "(if j < i then j else j - 1) < length (remove_at i xs)" using a by auto
  ultimately show ?thesis by (metis nth_mem)
qed

lemma ws_position_unique:
  assumes "window_ok aw" "i < length (workspaces aw)"
  shows "ws_position (ws_key (workspaces aw ! i)) aw = Some i"
proof -
  have d: "distinct (map ws_key (workspaces aw))"
    using assms(1) by (simp add: window_ok_def ids_ok_def alloc_ok_def win_ws_ids)
  obtain j where j: "ws_position (ws_key (workspaces aw ! i)) aw = Some j"
    unfolding ws_position_def using position_Some_ex [of _ "workspaces aw"] assms(2) nth_mem by blast
  from position_SomeD [OF this [unfolded ws_position_def]] d assms(2) have "j = i"
    by (auto simp: distinct_conv_nth)
  with j show ?thesis by simp
qed

lemma move_workspace_ok:
  assumes ok: "window_ok aw" and ne: "source \<noteq> target"
  shows "\<exists>aw'. move_workspace rs source target before aw = Some aw' \<and> window_ok aw' \<and>
    mset (workspaces aw') = mset (workspaces aw)"
proof (cases "\<exists>si ti. ws_position source aw = Some si \<and> ws_position target aw = Some ti \<and>
    pinned (workspaces aw ! si) = pinned (workspaces aw ! ti)")
  case False
  then have "move_workspace rs source target before aw = Some aw"
    by (auto simp: move_workspace_def split: option.split)
  with ok show ?thesis by simp
next
  case True
  then obtain si ti where p: "ws_position source aw = Some si" "ws_position target aw = Some ti"
    "pinned (workspaces aw ! si) = pinned (workspaces aw ! ti)" by blast
  note s = position_SomeD [OF p(1) [unfolded ws_position_def]] and t = position_SomeD [OF p(2) [unfolded ws_position_def]]
  let ?rest = "remove_at si (workspaces aw)"
  have ts: "si \<noteq> ti" using s t ne by auto
  have "workspaces aw ! ti \<in> set ?rest"
    using in_remove_at [of si "workspaces aw" ti] s t ts by blast
  then obtain k where k: "position (\<lambda>w. ws_key w = target) ?rest = Some k"
    using position_Some_ex [of "\<lambda>w. ws_key w = target" ?rest] t by blast
  have kl: "k < length ?rest" using position_SomeD [OF k] by simp
  let ?W = "insert_at (if before then k else k + 1) (workspaces aw ! si) ?rest"
  have ev: "move_workspace rs source target before aw = Some (reorder_workspace_views rs ?W aw)"
    using p k kl by (simp add: move_workspace_def Let_def)
  have m: "mset ?W = mset (workspaces aw)"
    using mset_remove_at_add [of si "workspaces aw"] s by (simp add: mset_insert_at)
  from window_ok_perm [OF ok m] ev m show ?thesis by (simp add: reorder_workspace_views_def)
qed

end
