(* ===== verification/Window_Reach.thy ===== *)
theory Window_Reach
  imports Meta_Facts
begin

text \<open>
  The remaining handlers on a well-formed window, and the window as a state machine: a command is one
  call of a handler, \<open>exec\<close> runs it, and \<open>reachable_window\<close> is what sequences of commands from
  the empty window reach.
\<close>

section \<open>Splitting off browsers, navigation\<close>

lemma split_focused_browser_ok:
  assumes "window_ok aw" "window_room aw"
  shows "\<exists>aw'. split_focused_browser ori url aw = Some aw' \<and> window_ok aw'"
proof (cases "\<exists>i f. current_ws aw = Some i \<and> ws_focused_pane (workspaces aw ! i) = Some f")
  case True
  then obtain i f where i: "current_ws aw = Some i" "ws_focused_pane (workspaces aw ! i) = Some f" by blast
  note il = current_ws_less [OF i(1)]
  from split_browser_ok [OF assms il focused_contains [OF window_okD [OF assms(1) il] i(2)], of ori url]
  show ?thesis using i by (auto simp: split_focused_browser_def)
next
  case False
  then have "split_focused_browser ori url aw = Some aw"
    by (auto simp: split_focused_browser_def split: option.split)
  with assms(1) show ?thesis by simp
qed

lemma open_browser_popup_ok:
  assumes ok: "window_ok aw" and room: "window_room aw"
  shows "\<exists>r aw'. open_browser_popup known b url aw = Some (r, aw') \<and> window_ok aw'"
proof -
  let ?tgt = "case find_workspace_with_browser b aw of
      Some (i, _, p) \<Rightarrow> Some (i, p)
    | None \<Rightarrow> (let page = unwrap_or (current_page aw) 0
               in if page \<ge> length (workspaces aw) then None
                  else map_option (Pair page) (ws_focused_pane (workspaces aw ! page)))"
  have tgt: "i < length (workspaces aw) \<and> hm_contains (ws_panes (workspaces aw ! i)) p"
    if "?tgt = Some (i, p)" for i p
  proof (cases "find_workspace_with_browser b aw")
    case None
    with that have "i < length (workspaces aw)" "ws_focused_pane (workspaces aw ! i) = Some p"
      by (auto simp: Let_def split: if_splits)
    with focused_contains [OF window_okD [OF ok]] show ?thesis by blast
  next
    case (Some r)
    with that obtain k where "find_workspace_with_browser b aw = Some (i, k, p)" by (cases r) auto
    then have i: "i < length (workspaces aw)" "pane_for_browser b (workspaces aw ! i) = Some p"
      using find_ws_from_Some [of "pane_for_browser b" 0 "workspaces aw" i k p]
      by (auto simp: find_workspace_with_browser_def)
    with find_pane_Some [OF ws_okD(1) [OF window_okD [OF ok i(1)]]] show ?thesis
      unfolding pane_for_browser_def hm_contains_def by fastforce
  qed
  show ?thesis
  proof (cases "known \<and> ?tgt \<noteq> None")
    case True
    then obtain i p where t: "?tgt = Some (i, p)" by auto
    with tgt have "i < length (workspaces aw)" "hm_contains (ws_panes (workspaces aw ! i)) p" by blast+
    from split_browser_ok [OF ok room this, of Horizontal url] this t True show ?thesis
      by (auto simp: open_browser_popup_def)
  next
    case False
    then have "\<not> known \<or> ?tgt = None" by blast
    then have "open_browser_popup known b url aw = Some (None, aw)"
      by (elim disjE) (simp_all only: open_browser_popup_def if_True if_False not_False_eq_True option.case
          simp_thms split: if_split)
    with ok show ?thesis by simp
  qed
qed

text \<open>A new tree over the same panes.\<close>

lemma new_tree_conserves:
  assumes ok: "window_ok aw" and i: "i < length (workspaces aw)" and t: "good_tree t"
    "set (tree_order t) = set (tree_order (split_tree (workspaces aw ! i)))"
  shows "conserves aw (modify_ws i (split_tree_update (\<lambda>_. t)) aw)"
  unfolding conserves_def
proof
  show "window_ok (modify_ws i (split_tree_update (\<lambda>_. t)) aw)" by (rule window_ok_tree [OF ok i t])
  show "mset (win_tabs (modify_ws i (split_tree_update (\<lambda>_. t)) aw)) = mset (win_tabs aw)"
    unfolding modify_ws_def by (rule win_tabs_replace [OF i]) simp
qed

lemma conserves_focus [simp]: "conserves aw (focus_active_panel i p aw') = conserves aw aw'"
  by (simp add: conserves_def)

lemma navigate_split_ok:
  assumes ok: "window_ok aw"
  shows "\<exists>aw'. navigate_split fwd aw = Some aw' \<and> conserves aw aw'"
proof (cases "current_ws aw")
  case (Some i)
  note il = current_ws_less [OF Some]
  let ?t = "split_tree (workspaces aw ! i)"
  have g: "good_tree ?t" "wf_tree ?t" using ws_okD(3,4) [OF window_okD [OF ok il]] .
  obtain r fo where n: "navigate fwd ?t = Some (r, ?t\<lparr>focused := fo\<rparr>)"
    using navigate_shape [OF g(2)] by blast
  from new_tree_conserves [OF ok il good_navigate [OF g(1) n]] Some n
  show ?thesis by (cases r) (simp_all add: navigate_split_def)
qed (use ok in \<open>simp add: navigate_split_def\<close>)

lemma navigate_direction_ok:
  assumes ok: "window_ok aw"
  shows "\<exists>aw'. navigate_direction d aw = Some aw' \<and> conserves aw aw'"
proof (cases "current_ws aw")
  case (Some i)
  note il = current_ws_less [OF Some]
  let ?t = "split_tree (workspaces aw ! i)"
  note o = ws_okD [OF window_okD [OF ok il]]
  obtain r fo where n: "navigate_directional d ?t = Some (r, ?t\<lparr>focused := fo\<rparr>)" "r \<noteq> None \<longrightarrow> fo = r"
    using navigate_directional_shape [OF o(3)] by blast
  note g = good_directional [OF o(3) n(1)]
  let ?aw = "modify_ws i (split_tree_update (\<lambda>_. ?t\<lparr>focused := fo\<rparr>)) aw"
  have c: "conserves aw ?aw" by (rule new_tree_conserves [OF ok il g]) simp
  show ?thesis
  proof (cases r)
    case (Some p)
    with g n(2) have "p \<in> set (tree_order ?t)" by (auto simp: good_tree_def)
    with o(6) [of p] have p: "hm_contains (ws_panes (workspaces ?aw ! i)) p" using il by simp
    have "window_ok (set_pane_active i p ?aw)"
      by (rule window_ok_set_focus) (use c p il in \<open>simp_all add: conserves_def\<close>)
    moreover have "mset (win_tabs (set_pane_active i p ?aw)) = mset (win_tabs ?aw)"
      by (rule win_tabs_set_active) (use il in simp)
    ultimately show ?thesis using \<open>current_ws aw = Some i\<close> n(1) Some c
      by (simp add: navigate_direction_def conserves_def)
  qed (use c Some n(1) in \<open>simp add: navigate_direction_def\<close>)
qed (use ok in \<open>simp add: navigate_direction_def\<close>)

lemma split_tree_update_at: "split_tree_update f ws = ws\<lparr>split_tree := f (split_tree ws)\<rparr>"
  by (cases ws) simp

lemma equalize_ok:
  assumes ok: "window_ok aw"
  shows "conserves aw (equalize_splits aw)"
proof (cases "current_ws aw")
  case (Some i)
  note il = current_ws_less [OF Some]
  let ?t = "split_tree (workspaces aw ! i)"
  have g: "good_tree ?t" using ws_okD(3) [OF window_okD [OF ok il]] .
  have "tree_order (equalize ?t) = tree_order ?t"
  proof -
    obtain L where L: "represents ?t L" using g by (rule good_treeE)
    from tree_order_represents [OF equalize_refines [OF L]] tree_order_represents [OF L]
    show ?thesis by (cases L) simp_all
  qed
  from new_tree_conserves [OF ok il good_step [OF step_equalize g]] this
  have "conserves aw (modify_ws i (split_tree_update (\<lambda>_. equalize ?t)) aw)" by simp
  moreover have "modify_ws i (split_tree_update (\<lambda>_. equalize ?t)) aw = modify_ws i (split_tree_update equalize) aw"
    by (simp add: modify_ws_def split_tree_update_at [of equalize])
  ultimately show ?thesis using Some by (simp add: equalize_splits_def)
qed (use ok in \<open>simp add: equalize_splits_def\<close>)

section \<open>Switching workspaces, tabs of a pane\<close>

lemma switch_ok:
  assumes "window_ok aw"
  shows "window_ok (goto_workspace n aw)" "window_ok (goto_workspace_relative fwd aw)"
    "window_ok (goto_tab n aw)" "window_ok (snd (select_workspace_by_id k aw))"
  using assms by (simp_all add: goto_workspace_def goto_workspace_relative_def goto_tab_def Let_def
      select_workspace_by_id_def split: option.split)

lemma ws_of_paneD:
  assumes "ws_of_pane p aw = Some i"
  shows "i < length (workspaces aw)" "hm_contains (ws_panes (workspaces aw ! i)) p"
  using position_SomeD [OF assms [unfolded ws_of_pane_def]] by auto

lemma focus_pane_ok:
  assumes "window_ok aw"
  shows "window_ok (snd (focus_pane_by_id p aw))"
proof (cases "ws_of_pane p aw")
  case (Some i)
  note d = ws_of_paneD [OF Some]
  show ?thesis using Some assms d
    by (auto simp: focus_pane_by_id_def Let_def intro!: window_ok_set_focus)
qed (use assms in \<open>simp add: focus_pane_by_id_def\<close>)

lemma select_pane_tab_ok:
  assumes "window_ok aw"
  shows "window_ok (select_pane_tab_generic p idx k aw)"
proof (cases "ws_of_pane p aw")
  case (Some i)
  note d = ws_of_paneD [OF Some]
  have "window_ok (modify_pane i p (select_tab idx) aw)"
    by (rule window_ok_modify_pane_mset [OF assms d(1)]) (simp add: select_tab_facts)
  then have "window_ok (set_pane_active i p (modify_pane i p (select_tab idx) aw))"
    by (rule window_ok_set_focus) (use d in \<open>simp_all add: modify_pane_def\<close>)
  then show ?thesis using Some by (simp add: select_pane_tab_generic_def)
qed (use assms in \<open>simp add: select_pane_tab_generic_def\<close>)

lemma cycle_pane_tab_ok:
  assumes "window_ok aw"
  shows "window_ok (cycle_pane_tab fwd aw)"
  using assms current_ws_less
  by (auto simp: cycle_pane_tab_def cycle_tab_facts split: option.split intro!: window_ok_modify_pane_mset)

lemma rename_tab_ok:
  assumes "window_ok aw"
  shows "window_ok (rename_tab p idx name aw)"
proof -
  have "map ident (xs[idx := (xs ! idx)\<lparr>tab_title := name\<rparr>]) = map ident xs" if "idx < length xs" for xs
    using that by (simp add: map_update ident_def) (metis list_update_id map_update nth_map ident_def)
  then show ?thesis using assms
    by (auto simp: rename_tab_def split: option.split intro!: window_ok_pane_shape)
qed

text \<open>The focused pane gets a new tab at its end.\<close>

lemma new_pane_tab_ok:
  assumes ok: "window_ok aw" and room: "window_room aw"
  shows "window_ok (new_pane_tab aw) \<and>
    (if current_ws aw = None then new_pane_tab aw = aw
     else mset (win_tabs (new_pane_tab aw)) =
       add_mset (fresh_tab (Terminal (reg_next_id (registry aw)))) (mset (win_tabs aw)))"
proof (cases "current_ws aw")
  case (Some i)
  have i: "i < length (workspaces aw)" by (rule current_ws_less [OF Some])
  let ?ws = "workspaces aw ! i" and ?s = "reg_next_id (registry aw)"
  have wo: "ws_ok ?ws" by (rule window_okD [OF ok i])
  obtain f where f: "ws_focused_pane ?ws = Some f" "hm_contains (ws_panes ?ws) f"
    using drop_target_ok [OF wo] by blast
  then obtain v where v: "hm_get (ws_panes ?ws) f = Some v" by (auto simp: hm_contains_def)
  let ?g = "\<lambda>pane. snd (add_tab ?s pane)" and ?t = "fresh_tab (Terminal ?s)"
  define aw1 where "aw1 = snd (alloc_surface (or_else (inherited_dir ?ws) (app_dir aw)) (app_command aw) aw)"
  have a1: "workspaces aw1 = workspaces aw" "next_pane aw1 = next_pane aw" "reg_next_id (registry aw1) = ?s + 1"
    "next_workspace aw1 = next_workspace aw" "next_browser aw1 = next_browser aw"
    by (simp_all add: aw1_def alloc_surface_def pre_allocate_id_def)
  have ok1: "window_ok aw1" by (rule window_ok_bump [OF ok]) (use a1 window_roomD [OF room] in auto)
  let ?ws1 = "?ws\<lparr>ws_panes := hm_modify f ?g (ws_panes ?ws)\<rparr>"
  obtain A B where AB: "ws_tabs ?ws = A @ tabs v @ B" "ws_tabs ?ws1 = A @ (tabs v @ [?t]) @ B"
    using ws_tabs_edit [OF ws_okD(1) [OF wo] v] add_tab_of_facts(2) unfolding add_tab_def by metis
  have m: "mset (ws_tabs ?ws1) = add_mset ?t (mset (ws_tabs ?ws))" by (simp add: AB)
  have idt: "ident ?t = SurfaceTab ?s" by (simp add: ident_def fresh_tab_def)
  have mi: "mset (tab_idents ?ws1) = mset (SurfaceTab ?s # tab_idents ?ws)"
    using arg_cong [OF m, of "image_mset ident"] by (simp add: tab_idents_def idt)
  have fs: "SurfaceTab ?s \<notin> set (win_ids tab_idents (workspaces aw))" by (rule fresh_surface [OF ok])
  then have nt: "SurfaceTab ?s \<notin> set (tab_idents ?ws)"
    using in_win_ids [OF nth_mem [OF i], of _ tab_idents] by blast
  have "window_ok (aw1\<lparr>workspaces := (workspaces aw1)[i := ?ws1]\<rparr>)"
  proof (rule window_ok_replace [OF ok1])
    show "ws_ok ?ws1"
      using panes_okD [OF ws_okD(2) [OF wo]]
      by (intro ws_ok_modify [OF wo]) (simp add: add_tab_def add_tab_of_facts)
    show "distinct (tab_idents ?ws1)"
      using mset_eq_imp_distinct_iff [OF mi] nt distinct_tab_idents [OF ok i] by simp
    show "t \<in> set (tab_idents ?ws1) \<Longrightarrow> t \<in> set (tab_idents (workspaces aw1 ! i)) \<or>
        t \<notin> set (win_ids tab_idents (workspaces aw1)) \<and> ident_below aw1 t" for t
      using mset_eq_setD [OF mi] fs window_roomD(4) [OF room] by (auto simp: a1 ident_below_def)
  qed (use i a1 in simp_all)
  moreover have "modify_pane i f ?g aw1 = aw1\<lparr>workspaces := (workspaces aw1)[i := ?ws1]\<rparr>"
    using a1(1) by (simp add: modify_pane_def modify_ws_def)
  ultimately have ok2: "window_ok (modify_pane i f ?g aw1)" by simp
  have tm: "mset (win_tabs (modify_pane i f ?g aw1)) = add_mset ?t (mset (win_tabs aw))"
    by (simp add: modify_pane_def modify_ws_def a1(1) win_tabs_def win_ids_split(2) [OF i] m)
       (simp add: win_ids_split(1) [OF i, of ws_tabs])
  have e1: "alloc_surface (or_else (inherited_dir ?ws) (app_dir aw)) (app_command aw) aw = (?s, aw1)"
    by (simp add: aw1_def alloc_surface_def pre_allocate_id_def)
  let ?aw2 = "modify_pane i f ?g aw1"
  have ev: "new_pane_tab aw = ?aw2\<lparr>registry := remove_pending ?s (registry ?aw2)\<rparr>"
    using Some f(1) by (simp add: new_pane_tab_def e1 Let_def)
  have "win_tabs (?aw2\<lparr>registry := remove_pending ?s (registry ?aw2)\<rparr>) = win_tabs ?aw2"
    by (simp add: win_tabs_def)
  with ok2 tm Some show ?thesis unfolding ev by simp
qed (use ok in \<open>simp add: new_pane_tab_def\<close>)

lemma focus_found_ok:
  assumes ok: "window_ok aw"
  shows "window_ok (set_focused_surface s aw)" "window_ok (set_focused_browser b aw)"
proof -
  have gen: "window_ok (focus_found (Some (i, k, p)) aw)"
    if "i < length (workspaces aw)" "hm_contains (ws_panes (workspaces aw ! i)) p" for i k p
  proof -
    have "window_ok (if pane_rings i p aw then modify_pane i p (pane_bell_update (\<lambda>_. False)) aw else aw)"
      using ok by (auto intro!: window_ok_pane_shape)
    from window_ok_set_focus [OF this] that show ?thesis
      by (auto simp: focus_found_def modify_pane_def)
  qed
  show "window_ok (set_focused_surface s aw)"
  proof (cases "find_workspace_with_surface s aw")
    case (Some r)
    then obtain i k p where r: "r = (i, k, p)" by (cases r) auto
    then have i: "i < length (workspaces aw)" "pane_for_surface s (workspaces aw ! i) = Some p"
      using Some find_ws_from_Some [of "pane_for_surface s" 0 "workspaces aw" i k p]
      by (auto simp: find_workspace_with_surface_def)
    then have "hm_contains (ws_panes (workspaces aw ! i)) p"
      using find_pane_Some [OF ws_okD(1) [OF window_okD [OF ok i(1)]]]
      unfolding pane_for_surface_def hm_contains_def by fastforce
    with gen [OF i(1)] Some r show ?thesis by (simp add: set_focused_surface_def)
  qed (use ok in \<open>simp add: set_focused_surface_def focus_found_def\<close>)
  show "window_ok (set_focused_browser b aw)"
  proof (cases "find_workspace_with_browser b aw")
    case (Some r)
    then obtain i k p where r: "r = (i, k, p)" by (cases r) auto
    then have i: "i < length (workspaces aw)" "pane_for_browser b (workspaces aw ! i) = Some p"
      using Some find_ws_from_Some [of "pane_for_browser b" 0 "workspaces aw" i k p]
      by (auto simp: find_workspace_with_browser_def)
    then have "hm_contains (ws_panes (workspaces aw ! i)) p"
      using find_pane_Some [OF ws_okD(1) [OF window_okD [OF ok i(1)]]]
      unfolding pane_for_browser_def hm_contains_def by fastforce
    with gen [OF i(1)] Some r show ?thesis by (simp add: set_focused_browser_def)
  qed (use ok in \<open>simp add: set_focused_browser_def focus_found_def\<close>)
qed

end
