(* ===== verification/Step_Machine.thy ===== *)
theory Step_Machine
  imports Limux_Prelude
begin

text \<open>
  Components that run commands: \<open>exec c s\<close> is the state after command \<open>c\<close>, \<open>None\<close> when the
  code panics or does not return. The contract \<open>machine\<close> asks for progress and preservation of an
  invariant on the commands that are enabled; its client lemmas lift both to sequences of commands
  and reachable states. \<open>conserving_machine\<close> extends it with an observation that commands keep.
\<close>

inductive reach :: "('c \<Rightarrow> 's \<Rightarrow> 's option) \<Rightarrow> ('c \<Rightarrow> 's \<Rightarrow> bool) \<Rightarrow> 's \<Rightarrow> 's \<Rightarrow> bool"
  for exec enabled s0 where
  reach_refl: "reach exec enabled s0 s0"
| reach_step: "reach exec enabled s0 s \<Longrightarrow> enabled c s \<Longrightarrow> exec c s = Some s' \<Longrightarrow>
    reach exec enabled s0 s'"

fun exec_all :: "('c \<Rightarrow> 's \<Rightarrow> 's option) \<Rightarrow> 'c list \<Rightarrow> 's \<Rightarrow> 's option" where
  "exec_all exec [] s = Some s"
| "exec_all exec (c # cs) s = (case exec c s of None \<Rightarrow> None | Some s' \<Rightarrow> exec_all exec cs s')"

lemma exec_all_append:
  "exec_all exec (cs @ ds) s = Option.bind (exec_all exec cs s) (exec_all exec ds)"
  by (induction cs arbitrary: s) (auto split: option.split)

lemma exec_all_reach:
  assumes "exec_all exec cs s = Some s'" "\<And>c s. c \<in> set cs \<Longrightarrow> enabled c s" "reach exec enabled s0 s"
  shows "reach exec enabled s0 s'"
  using assms
proof (induction cs arbitrary: s)
  case (Cons c cs)
  then obtain s1 where s1: "exec c s = Some s1" "exec_all exec cs s1 = Some s'"
    by (auto split: option.splits)
  have "reach exec enabled s0 s1"
    by (rule reach_step [OF Cons.prems(3) _ s1(1)]) (simp add: Cons.prems(2))
  with Cons.IH [OF s1(2)] Cons.prems(2) show ?case by simp
qed simp

text \<open>A run that checks the guard of every command.\<close>

definition guarded :: "('c \<Rightarrow> 's \<Rightarrow> 's option) \<Rightarrow> ('c \<Rightarrow> 's \<Rightarrow> bool) \<Rightarrow> 'c \<Rightarrow> 's \<Rightarrow> 's option" where
  "guarded exec enabled c s = (if enabled c s then exec c s else None)"

lemma guarded_Some: "guarded exec enabled c s = Some s' \<longleftrightarrow> enabled c s \<and> exec c s = Some s'"
  by (simp add: guarded_def)

lemma guarded_run_reach:
  assumes "exec_all (guarded exec enabled) cs s = Some s'" "reach exec enabled s0 s"
  shows "reach exec enabled s0 s'"
  using assms
proof (induction cs arbitrary: s)
  case (Cons c cs)
  then obtain s1 where s1: "enabled c s" "exec c s = Some s1" "exec_all (guarded exec enabled) cs s1 = Some s'"
    by (auto simp: guarded_Some split: option.splits)
  from Cons.IH [OF s1(3)] reach_step [OF Cons.prems(2) s1(1,2)] show ?case by blast
qed simp

locale machine =
  fixes exec :: "'c \<Rightarrow> 's \<Rightarrow> 's option" and enabled :: "'c \<Rightarrow> 's \<Rightarrow> bool" and inv :: "'s \<Rightarrow> bool"
  assumes progress: "inv s \<Longrightarrow> enabled c s \<Longrightarrow> \<exists>s'. exec c s = Some s'"
    and preservation: "inv s \<Longrightarrow> enabled c s \<Longrightarrow> exec c s = Some s' \<Longrightarrow> inv s'"
begin

lemma reach_inv:
  assumes "reach exec enabled s0 s" "inv s0"
  shows "inv s"
  using assms(1) by (induction rule: reach.induct) (use assms(2) preservation in blast)+

lemma never_stuck:
  assumes "reach exec enabled s0 s" "inv s0" "enabled c s"
  shows "\<exists>s'. exec c s = Some s' \<and> inv s'"
  using progress preservation reach_inv [OF assms(1,2)] assms(3) by blast

end

locale conserving_machine = machine exec enabled inv
  for exec :: "'c \<Rightarrow> 's \<Rightarrow> 's option" and enabled :: "'c \<Rightarrow> 's \<Rightarrow> bool" and inv :: "'s \<Rightarrow> bool" +
  fixes content :: "'s \<Rightarrow> 'o"
  assumes conserve: "inv s \<Longrightarrow> enabled c s \<Longrightarrow> exec c s = Some s' \<Longrightarrow> content s' = content s"
begin

lemma reach_content:
  assumes "reach exec enabled s0 s" "inv s0"
  shows "content s = content s0"
  using assms(1)
proof (induction rule: reach.induct)
  case (reach_step s c s')
  with conserve [OF reach_inv [OF reach_step(1) assms(2)] reach_step(2,3)] show ?case by simp
qed simp

end

end
