(* ===== verification/Window_Machine.thy ===== *)
theory Window_Machine
  imports Window_Reach Step_Machine
begin

text \<open>
  The window as a state machine. A \<open>Command\<close> is one call of a handler of \<open>window.rs\<close> with its
  arguments, \<open>exec\<close> runs it; \<open>None\<close> stands for a panic or a walk that does not end. Every
  command returns on a window that satisfies the invariant and keeps it, so no sequence of commands
  from the empty window panics.
\<close>

datatype Command =
    NewWorkspace
  | NewRemoteWorkspace "u16 option" string string RemoteConfiguration
  | CloseSurface SurfaceId
  | CloseBrowser BrowserPanelId
  | CloseWorkspace WorkspaceId
  | CloseCurrentWorkspace
  | ClosePaneTab
  | SplitFocused Orientation
  | SplitFocusedBrowser Orientation string
  | OpenBrowserPopup bool BrowserPanelId string
  | NavigateSplit bool
  | NavigateDirection Direction
  | EqualizeSplits
  | GotoWorkspace int
  | GotoWorkspaceRelative bool
  | GotoTab int
  | SelectWorkspaceById WorkspaceId
  | FocusPaneById PaneId
  | NewPaneTab
  | CyclePaneTab bool
  | SelectPaneTab PaneId usize PanelKind
  | RenameTab PaneId usize string
  | Drop Deferred
  | SetSurfaceTitle "string option" nat string
  | SetSurfaceDirectory "string option" nat string
  | BrowserTitle BrowserPanelId string
  | Bell nat
  | ClearWorkspaceBell usize
  | ClearPaneBell WorkspaceId PaneId
  | FocusSurface SurfaceId
  | FocusBrowser BrowserPanelId
  | ToggleSidebar
  | ToggleWorkspacePinned WorkspaceId
  | RenameWorkspace WorkspaceId string
  | SetWorkspaceColor WorkspaceId "WorkspaceColor option"
  | SetStatus WorkspaceId string string "string option" "string option" int
  | ClearStatus WorkspaceId string
  | AddLog WorkspaceId string LogLevel "string option" nat
  | ClearLog WorkspaceId
  | SetProgress WorkspaceId f64 "string option"
  | ClearProgress WorkspaceId
  | UpdateBranch WorkspaceId "string option"
  | UpdatePorts "(WorkspaceId \<times> u16 list) list"
  | DisconnectRemote "WorkspaceId option" bool
  | ReconnectRemote "WorkspaceId option"
  | UpdateRemoteState WorkspaceId RemoteConnectionState "RemoteDaemonStatus option"
  | UpdateProxyEndpoint WorkspaceId "ProxyEndpoint option"

fun exec :: "gtk_env \<Rightarrow> Command \<Rightarrow> AppWindow \<Rightarrow> AppWindow run" where
  "exec env NewWorkspace aw = Some (new_workspace aw)"
| "exec env (NewRemoteWorkspace p i t cfg) aw = Some (snd (new_remote_workspace p i t cfg aw))"
| "exec env (CloseSurface s) aw = close_surface (env_pick env) s aw"
| "exec env (CloseBrowser b) aw = close_browser (env_pick env) b aw"
| "exec env (CloseWorkspace i) aw = map_option snd (close_workspace_by_id (env_pick env) i aw)"
| "exec env CloseCurrentWorkspace aw = close_current_workspace (env_pick env) aw"
| "exec env ClosePaneTab aw = close_pane_tab (env_pick env) aw"
| "exec env (SplitFocused ori) aw = split_focused ori aw"
| "exec env (SplitFocusedBrowser ori url) aw = split_focused_browser ori url aw"
| "exec env (OpenBrowserPopup known b url) aw = map_option snd (open_browser_popup known b url aw)"
| "exec env (NavigateSplit fwd) aw = navigate_split fwd aw"
| "exec env (NavigateDirection d) aw = navigate_direction d aw"
| "exec env EqualizeSplits aw = Some (equalize_splits aw)"
| "exec env (GotoWorkspace n) aw = Some (goto_workspace n aw)"
| "exec env (GotoWorkspaceRelative fwd) aw = Some (goto_workspace_relative fwd aw)"
| "exec env (GotoTab n) aw = Some (goto_tab n aw)"
| "exec env (SelectWorkspaceById i) aw = Some (snd (select_workspace_by_id i aw))"
| "exec env (FocusPaneById p) aw = Some (snd (focus_pane_by_id p aw))"
| "exec env NewPaneTab aw = Some (new_pane_tab aw)"
| "exec env (CyclePaneTab fwd) aw = Some (cycle_pane_tab fwd aw)"
| "exec env (SelectPaneTab p idx k) aw = Some (select_pane_tab_generic p idx k aw)"
| "exec env (RenameTab p idx name) aw = Some (rename_tab p idx name aw)"
| "exec env (Drop d) aw = run_deferred env d aw"
| "exec env (SetSurfaceTitle home h title) aw = Some (set_surface_title home h title aw)"
| "exec env (SetSurfaceDirectory home h dir) aw = Some (set_surface_working_directory home h dir aw)"
| "exec env (BrowserTitle b title) aw = Some (on_browser_title_changed b title aw)"
| "exec env (Bell h) aw = Some (handle_bell h aw)"
| "exec env (ClearWorkspaceBell page) aw = Some (clear_workspace_bell page aw)"
| "exec env (ClearPaneBell i p) aw = Some (clear_pane_bell i p aw)"
| "exec env (FocusSurface s) aw = Some (set_focused_surface s aw)"
| "exec env (FocusBrowser b) aw = Some (set_focused_browser b aw)"
| "exec env ToggleSidebar aw = Some (toggle_sidebar aw)"
| "exec env (ToggleWorkspacePinned i) aw = Some (toggle_workspace_pinned (env_reshow env) i aw)"
| "exec env (RenameWorkspace i name) aw = Some (rename_workspace i name aw)"
| "exec env (SetWorkspaceColor i c) aw = Some (set_workspace_color i c aw)"
| "exec env (SetStatus i k v ic col pr) aw = Some (set_workspace_status i k v ic col pr aw)"
| "exec env (ClearStatus i k) aw = Some (clear_workspace_status i k aw)"
| "exec env (AddLog i m lv src now) aw = Some (add_workspace_log i m lv src now aw)"
| "exec env (ClearLog i) aw = Some (clear_workspace_log i aw)"
| "exec env (SetProgress i v lb) aw = Some (set_workspace_progress i v lb aw)"
| "exec env (ClearProgress i) aw = Some (clear_workspace_progress i aw)"
| "exec env (UpdateBranch i br) aw = Some (update_workspace_branch i br aw)"
| "exec env (UpdatePorts res) aw = Some (update_workspace_ports res aw)"
| "exec env (DisconnectRemote i clear) aw = Some (disconnect_remote i clear aw)"
| "exec env (ReconnectRemote i) aw = Some (reconnect_remote i aw)"
| "exec env (UpdateRemoteState i st ds) aw = Some (update_remote_state i st ds aw)"
| "exec env (UpdateProxyEndpoint i e) aw = Some (update_proxy_endpoint i e aw)"

section \<open>Drops\<close>

text \<open>A drop that the handlers can leave behind: a workspace is never dropped on itself.\<close>

fun drop_ok :: "Deferred \<Rightarrow> bool" where
  "drop_ok (DMoveWs i j _) = (i \<noteq> j)"
| "drop_ok _ = True"

lemma accepted_drops:
  "tab_strip_drop target children payload x aw = Some d \<Longrightarrow> drop_ok d"
  "pane_drop target payload x y w h = Some d \<Longrightarrow> drop_ok d"
  "sidebar_drop tws payload y rh aw = Some d \<Longrightarrow> drop_ok d"
  by (auto simp: tab_strip_drop_def pane_drop_def sidebar_drop_def
      split: option.splits if_splits prod.splits)

lemma win_tabs_perm:
  assumes "mset (workspaces aw') = mset (workspaces aw)"
  shows "mset (win_tabs aw') = mset (win_tabs aw)"
  unfolding win_tabs_def by (rule mset_win_ids_perm [OF assms])

lemma run_deferred_conserves:
  assumes ok: "window_ok aw" and room: "window_room aw" and d: "drop_ok d"
  shows "\<exists>aw'. run_deferred env d aw = Some aw' \<and> conserves aw aw'"
proof (cases d)
  case (DSplitTab p k q ori before)
  have "\<exists>aw'. split_tab_drop env p k q ori before aw = Some aw' \<and> conserves aw aw'"
  proof (cases "pane_tab_count_for_identity p k aw")
    case (Some n)
    then show ?thesis
      using split_tab_conserves [OF ok room] split_tab_target_conserves [OF ok room]
        move_pane_conserves [OF ok room]
      by (simp add: split_tab_drop_def)
  qed (use ok in \<open>simp add: split_tab_drop_def\<close>)
  then show ?thesis using DSplitTab by simp
next
  case (DMoveWs i j before)
  with d have "i \<noteq> j" by simp
  from move_workspace_ok [OF ok this, of "env_reshow env" before] obtain aw' where
    m: "move_workspace (env_reshow env) i j before aw = Some aw'" "window_ok aw'"
      "mset (workspaces aw') = mset (workspaces aw)" by blast
  from win_tabs_perm [OF m(3)] m(1,2) DMoveWs show ?thesis by (simp add: conserves_def)
qed (use reorder_tab_conserves [OF ok] move_tab_conserves [OF ok] move_pane_conserves [OF ok room]
    move_tab_ws_conserves [OF ok] in simp_all)

section \<open>Every command returns and keeps the invariant\<close>

fun command_ok :: "Command \<Rightarrow> bool" where
  "command_ok (Drop d) = drop_ok d"
| "command_ok _ = True"

lemma exec_ok:
  assumes ok: "window_ok aw" and room: "window_room aw" and c: "command_ok c"
  shows "\<exists>aw'. exec env c aw = Some aw' \<and> window_ok aw'"
proof (cases c)
  case (NewRemoteWorkspace p i t cfg)
  then show ?thesis
    using new_remote_workspace_ok [OF ok room, of p i t cfg] by (metis exec.simps(2) prod.collapse)
next
  case (CloseSurface s)
  then show ?thesis using close_surface_ok [OF ok, of "env_pick env" s] by auto
next
  case (CloseBrowser b)
  then show ?thesis using close_browser_ok [OF ok, of "env_pick env" b] by auto
next
  case (CloseWorkspace i)
  then show ?thesis using close_workspace_ok(3) [OF ok, of "env_pick env" i] by auto
next
  case (SplitFocused ori)
  then show ?thesis using split_focused_ok [OF ok room, of ori] by auto
next
  case (OpenBrowserPopup known b url)
  then show ?thesis using open_browser_popup_ok [OF ok room, of known b url] by auto
next
  case (NavigateSplit fwd)
  then show ?thesis using navigate_split_ok [OF ok, of fwd] by (auto simp: conserves_def)
next
  case (NavigateDirection d)
  then show ?thesis using navigate_direction_ok [OF ok, of d] by (auto simp: conserves_def)
next
  case (Drop d)
  then show ?thesis using run_deferred_conserves [OF ok room, of d env] c by (auto simp: conserves_def)
qed (use ok in \<open>simp_all add: new_workspace_ok [OF ok room] close_workspace_ok [OF ok]
    split_focused_browser_ok [OF ok room] equalize_ok [OF ok, unfolded conserves_def] switch_ok [OF ok] focus_pane_ok [OF ok]
    new_pane_tab_ok [OF ok room] cycle_pane_tab_ok [OF ok] select_pane_tab_ok [OF ok] rename_tab_ok [OF ok]
    set_surface_title_ok set_surface_dir_ok browser_title_ok handle_bell_ok clear_workspace_bell_ok
    clear_pane_bell_ok focus_found_ok [OF ok] toggle_sidebar_ok toggle_pinned_ok sidebar_fields_ok [OF ok]
    remote_ok [OF ok]\<close>)

section \<open>The machines\<close>

definition command_enabled :: "Command \<Rightarrow> AppWindow \<Rightarrow> bool" where
  "command_enabled c aw \<longleftrightarrow> window_room aw \<and> command_ok c"

definition drop_enabled :: "Deferred \<Rightarrow> AppWindow \<Rightarrow> bool" where
  "drop_enabled d aw \<longleftrightarrow> window_room aw \<and> drop_ok d"

interpretation window: machine "exec env" command_enabled window_ok
  by unfold_locales (metis exec_ok command_enabled_def option.inject)+

interpretation drops: conserving_machine "run_deferred env" drop_enabled window_ok "\<lambda>aw. mset (win_tabs aw)"
  by unfold_locales (metis run_deferred_conserves drop_enabled_def conserves_def option.inject)+

abbreviation reachable_window :: "gtk_env \<Rightarrow> AppWindow \<Rightarrow> AppWindow \<Rightarrow> bool" where
  "reachable_window env \<equiv> reach (exec env) command_enabled"

lemma window_ok_new [simp]: "window_ok (AppWindow_new dir cmd)"
  by (simp add: window_ok_def ids_ok_def alloc_ok_def AppWindow_new_def)

end
