(* ===== verification/Window_Props.thy ===== *)
theory Window_Props
  imports Window_Machine
begin

text \<open>
  The properties of the window: its invariant over all sequences of commands, the conservation of tabs
  under drag and drop, and the exact effect of the handlers that create and close tabs.
\<close>

section \<open>Examples for the witnesses\<close>

definition demo_env :: gtk_env where
  "demo_env = \<lparr>env_pick = (\<lambda>_ _ n. if n = 0 then None else Some 0), env_reshow = (\<lambda>p _ _. p), env_lookups = True\<rparr>"

definition demo_window :: AppWindow where
  "demo_window = new_workspace (AppWindow_new None None)"

lemma demo_reachable: "reachable_window env (AppWindow_new None None) demo_window"
proof (rule reach_step [OF reach_refl])
  show "exec env NewWorkspace (AppWindow_new None None) = Some demo_window" by (simp add: demo_window_def)
qed (simp add: command_enabled_def window_room_def AppWindow_new_def SurfaceRegistry_new_def)

lemma demo_ok: "window_ok demo_window"
  by (rule window.reach_inv [OF demo_reachable [of demo_env]]) simp

lemma demo_fields:
  "workspaces demo_window = [(Workspace_new 0)\<lparr>ws_title := ''Workspace 1'', ws_panes := [(0, Pane_new_with_id 0 0)],
     split_tree := new_with_pane 0\<rparr>]"
  "current_page demo_window = Some 0" "reg_next_id (registry demo_window) = 1"
  "next_pane demo_window = 1" "next_workspace demo_window = 1" "next_browser demo_window = 0"
  by (simp_all add: demo_window_def new_workspace_def single_pane_workspace_def alloc_surface_def
      pre_allocate_id_def next_workspace_id_def next_pane_id_def push_workspace_def Let_def
      update_tray_state_def emit_def AppWindow_new_def SurfaceRegistry_new_def add_pane_def
      Pane_new_with_id_def Workspace_new_def remove_pending_def digit_char nat_str.simps [of "Suc 0"])

lemma demo_room: "window_room demo_window"
  by (simp add: window_room_def demo_fields tree_room_def new_with_pane_def alloc_id_def insert_node_def SplitTree_new_def)

section \<open>The invariant over all command sequences\<close>

text \<open>
  C9. Whatever sequence of commands (new, remote and closed workspaces, splits, tabs, drops, titles,
  bells, remote state, ...) runs from the window that \<open>init\<close> builds, as long as the identifier
  counters do not wrap, the window is well formed: in every workspace the pane table and the split
  tree hold the same panes and the focus is one of them, every pane has a valid selected tab, and no
  workspace, pane or panel identifier occurs twice. In such a state every further command returns
  (no panic, no endless tree walk).
\<close>

theorem window_commands_safe:
  assumes "reachable_window env (AppWindow_new dir cmd) aw"
  shows "window_ok aw \<and> (\<forall>c. command_enabled c aw \<longrightarrow> (\<exists>aw'. exec env c aw = Some aw' \<and> window_ok aw'))"
  using window.reach_inv [OF assms] window.never_stuck [OF assms] by simp

theorem window_commands_safe_witness:
  "reachable_window demo_env (AppWindow_new None None) demo_window \<and> window_ok demo_window \<and>
   (\<exists>aw'. exec demo_env (SplitFocused Vertical) demo_window = Some aw' \<and> window_ok aw')"
proof -
  have "command_enabled (SplitFocused Vertical) demo_window" by (simp add: command_enabled_def demo_room)
  with window_commands_safe [OF demo_reachable [of demo_env]] demo_reachable [of demo_env] show ?thesis by blast
qed

text \<open>
  C10. Drag and drop never loses, duplicates or alters a tab: after any sequence of accepted drops
  (reordering, moving a tab to a pane or a workspace, splitting a tab off, moving a pane, moving a
  workspace), whatever the widget lookups and the notebook answer, the tabs of the window are the
  same multiset, with their titles and directories, and the window is still well formed.
\<close>

theorem drops_conserve_tabs:
  assumes "window_ok aw" "reach (run_deferred env) drop_enabled aw aw'"
  shows "mset (win_tabs aw') = mset (win_tabs aw) \<and> window_ok aw'"
  using drops.reach_content [OF assms(2,1)] drops.reach_inv [OF assms(2,1)] by blast

theorem drops_conserve_tabs_witness:
  "window_ok demo_window \<and> (\<exists>aw'. run_deferred demo_env (DMovePane 0 1 True Vertical) demo_window = Some aw' \<and>
     mset (win_tabs aw') = mset (win_tabs demo_window) \<and> window_ok aw')"
proof -
  have e: "drop_enabled (DMovePane 0 1 True Vertical) demo_window" by (simp add: drop_enabled_def demo_room)
  then obtain aw' where r: "run_deferred demo_env (DMovePane 0 1 True Vertical) demo_window = Some aw'"
    using run_deferred_conserves [OF demo_ok demo_room] unfolding drop_enabled_def by blast
  have "reach (run_deferred demo_env) drop_enabled demo_window aw'"
    by (rule reach_step [where c = "DMovePane 0 1 True Vertical", OF reach_refl]) (fact e, fact r)
  from drops_conserve_tabs [OF demo_ok this] r demo_ok show ?thesis by blast
qed

text \<open>
  What the drop targets accept never panics: the closure left behind by the tab strip, the pane
  content or the sidebar row, run on the same or a later well-formed window, returns and conserves
  the tabs.
\<close>

theorem accepted_drop_runs:
  assumes "tab_strip_drop p children payload x aw0 = Some d \<or> pane_drop p payload x y w h = Some d \<or>
      sidebar_drop i payload y rh aw0 = Some d"
    and "window_ok aw" "window_room aw"
  shows "\<exists>aw'. run_deferred env d aw = Some aw' \<and> window_ok aw' \<and> mset (win_tabs aw') = mset (win_tabs aw)"
proof -
  have "drop_ok d" using assms(1) accepted_drops by blast
  from run_deferred_conserves [OF assms(2,3) this] show ?thesis by (simp add: conserves_def)
qed

theorem accepted_drop_runs_witness:
  "pane_drop 0 ''pane:0'' 1 2 10 10 = Some (DMovePane 0 0 True Horizontal) \<and> window_ok demo_window \<and>
   (\<exists>aw'. run_deferred demo_env (DMovePane 0 0 True Horizontal) demo_window = Some aw' \<and> window_ok aw')"
proof -
  have "parse_u32 ''0'' = Some 0" by (simp add: number_eval)
  then have p: "pane_drop 0 ''pane:0'' 1 2 10 10 = Some (DMovePane 0 0 True Horizontal)"
    by (simp add: pane_drop_def parse_tab_drag_payload_def detect_drop_zone_def Let_def)
  from accepted_drop_runs [OF disjI2 [OF disjI1 [OF p]] demo_ok demo_room, of demo_env] p demo_ok
  show ?thesis by blast
qed

section \<open>Creating and closing\<close>

text \<open>
  C11. Closing a terminal removes exactly its tab. If the surface is in the window, \<open>close_surface\<close>
  returns, the window stays well formed, and the tabs are the old ones without the one that shows the
  surface (the pane goes with its last tab and the workspace with its last pane); otherwise nothing
  changes.
\<close>

theorem close_surface_exact:
  assumes "window_ok aw"
  shows "\<exists>aw'. close_surface pick s aw = Some aw' \<and> window_ok aw' \<and>
    (if SurfaceTab s \<in> ident ` set (win_tabs aw)
     then \<exists>t. ident t = SurfaceTab s \<and> mset (win_tabs aw) = add_mset t (mset (win_tabs aw'))
     else aw' = aw)"
  by (rule close_surface_ok [OF assms])

theorem close_surface_exact_witness:
  "window_ok demo_window \<and> (\<exists>aw'. close_surface (env_pick demo_env) 0 demo_window = Some aw' \<and> win_tabs aw' = [])"
proof -
  have t: "win_tabs demo_window = [fresh_tab (Terminal 0)]"
    by (simp add: win_tabs_def demo_fields ws_tabs_def Pane_new_with_id_def)
  then have "SurfaceTab 0 \<in> ident ` set (win_tabs demo_window)" by (simp add: ident_def fresh_tab_def)
  with close_surface_exact [OF demo_ok, of "env_pick demo_env" 0] t demo_ok show ?thesis
    by (auto simp: add_mset_eq_singleton_iff)
qed

text \<open>
  Closing a browser panel removes exactly its tab, in the same sense.
\<close>

theorem close_browser_exact:
  assumes "window_ok aw"
  shows "\<exists>aw'. close_browser pick b aw = Some aw' \<and> window_ok aw' \<and>
    (if BrowserTab b \<in> ident ` set (win_tabs aw)
     then \<exists>t. ident t = BrowserTab b \<and> mset (win_tabs aw) = add_mset t (mset (win_tabs aw'))
     else aw' = aw)"
  by (rule close_browser_ok [OF assms])

theorem close_browser_exact_witness:
  "window_ok demo_window \<and> close_browser (env_pick demo_env) 3 demo_window = Some demo_window"
proof -
  have "BrowserTab 3 \<notin> ident ` set (win_tabs demo_window)"
    by (simp add: win_tabs_def demo_fields ws_tabs_def Pane_new_with_id_def ident_def fresh_tab_def)
  with close_browser_exact [OF demo_ok, of "env_pick demo_env" 3] demo_ok show ?thesis by auto
qed

text \<open>
  Splitting the focused pane returns, keeps the window well formed and adds exactly one tab, a new
  terminal; without a current workspace it changes nothing.
\<close>

theorem split_focused_adds_terminal:
  assumes "window_ok aw" "window_room aw"
  shows "\<exists>aw'. split_focused ori aw = Some aw' \<and> window_ok aw' \<and>
    (if current_ws aw = None then aw' = aw
     else mset (win_tabs aw') =
       add_mset (fresh_tab (Terminal (reg_next_id (registry aw)))) (mset (win_tabs aw)))"
  by (rule split_focused_ok [OF assms])

theorem split_focused_adds_terminal_witness:
  "window_ok demo_window \<and> window_room demo_window \<and>
   (\<exists>aw'. split_focused Vertical demo_window = Some aw' \<and> size (mset (win_tabs aw')) = 2)"
proof -
  have "current_ws demo_window = Some 0" "win_tabs demo_window = [fresh_tab (Terminal 0)]"
    by (simp_all add: current_ws_def demo_fields win_tabs_def ws_tabs_def Pane_new_with_id_def)
  with split_focused_adds_terminal [OF demo_ok demo_room, of Vertical] obtain aw' where
    "split_focused Vertical demo_window = Some aw'"
    "mset (win_tabs aw') = {#fresh_tab (Terminal 1), fresh_tab (Terminal 0)#}"
    by (auto simp: demo_fields)
  moreover from this(2) have "size (mset (win_tabs aw')) = 2" by (simp only:) simp
  ultimately show ?thesis using demo_ok demo_room by blast
qed

text \<open>
  \<open>new_pane_tab\<close> adds exactly one tab, a new terminal, and leaves the window well formed.
\<close>

theorem new_pane_tab_adds_terminal:
  assumes "window_ok aw" "window_room aw"
  shows "window_ok (new_pane_tab aw) \<and>
    (if current_ws aw = None then new_pane_tab aw = aw
     else mset (win_tabs (new_pane_tab aw)) =
       add_mset (fresh_tab (Terminal (reg_next_id (registry aw)))) (mset (win_tabs aw)))"
  by (rule new_pane_tab_ok [OF assms])

theorem new_pane_tab_adds_terminal_witness:
  "window_ok (new_pane_tab demo_window) \<and> mset (win_tabs (new_pane_tab demo_window)) =
     {#fresh_tab (Terminal 1), fresh_tab (Terminal 0)#}"
proof -
  have "current_ws demo_window = Some 0" "win_tabs demo_window = [fresh_tab (Terminal 0)]"
    by (simp_all add: current_ws_def demo_fields win_tabs_def ws_tabs_def Pane_new_with_id_def)
  with new_pane_tab_adds_terminal [OF demo_ok demo_room] show ?thesis by (simp add: demo_fields)
qed

end
