(* ===== verification/Window_Detail.thy ===== *)
theory Window_Detail
  imports Window_Machine
begin

text \<open>
  Properties of single operations of the window: the text form of a drag, reordering tabs, pinned
  workspaces, the sidebar log, working directories, drop zones and bells.
\<close>

section \<open>Drag payloads\<close>

lemma split_on_digits:
  assumes "list_all is_digit a"
  shows "split_on CHR '':'' (a @ CHR '':'' # r) = a # split_on CHR '':'' r" "split_on CHR '':'' a = [a]"
proof -
  have "c \<noteq> CHR '':''" if "c \<in> set a" for c
    using assms that by (auto simp: is_digit_def code_def list_all_iff)
  then show "split_on CHR '':'' (a @ CHR '':'' # r) = a # split_on CHR '':'' r" "split_on CHR '':'' a = [a]"
    by (induction a) auto
qed

lemma u32_str_digits: "list_all is_digit (u32_str x)"
  by (simp add: u32_str_def nat_str_digits)

lemma payload_fields:
  "split_on CHR '':'' (u32_str p @ '':surface:'' @ u32_str x) = [u32_str p, ''surface'', u32_str x]"
  "split_on CHR '':'' (u32_str p @ '':browser:'' @ u32_str x) = [u32_str p, ''browser'', u32_str x]"
  by (simp_all add: split_on_digits [OF u32_str_digits])

text \<open>
  The text that a tab drag carries identifies the tab: decoding it gives back the pane and the
  identity of the panel, for every pane and panel, so two drags carry the same text only when they
  drag the same panel of the same pane. A bare workspace number, the payload of a sidebar row, never
  decodes as a tab drag.
\<close>

theorem drag_payload_roundtrip:
  "parse_tab_drag_payload (tab_drag_payload p k) = Some (p, panel_drag_identity k) \<and>
   parse_tab_drag_payload (u32_str i) = None"
proof
  have "strip_prefix ''pane:'' (''pane:'' @ u32_str p @ r) = Some (u32_str p @ r)" for r by simp
  then show "parse_tab_drag_payload (tab_drag_payload p k) = Some (p, panel_drag_identity k)"
    by (cases k) (simp_all add: parse_tab_drag_payload_def tab_drag_payload_def payload_fields del: append_Cons)
  obtain c r where e: "u32_str i = c # r" using nat_str_not_Nil by (cases "u32_str i") (auto simp: u32_str_def)
  then have "is_digit c" using u32_str_chars [of c i] by simp
  then have "c \<noteq> CHR ''p''" by (auto simp: is_digit_def code_def)
  with e show "parse_tab_drag_payload (u32_str i) = None" by (simp add: parse_tab_drag_payload_def)
qed

section \<open>Reordering tabs\<close>

lemma insert_remove_at_cases:
  assumes "from < length xs" "i \<le> length xs"
  defines "dest \<equiv> (if i > from then i - 1 else i)"
  shows "insert_at dest x (remove_at from xs) =
    (if from < i then take from xs @ drop (Suc from) (take i xs) @ x # drop i xs
     else take i xs @ x # drop i (take from xs) @ drop (Suc from) xs)"
proof (cases "from < i")
  case True
  then have "i - 1 = from \<or> from < i - 1" by linarith
  with True assms(1,2) show ?thesis
    by (auto simp: insert_at_def remove_at_def dest_def take_drop min_def)
next
  case False
  with assms(1,2) show ?thesis
    by (auto simp: insert_at_def remove_at_def dest_def min_def)
qed

text \<open>
  Reordering a tab inside its pane keeps the same tab selected, wherever the dragged tab comes from
  and goes to: the dragged tab moves to the insertion slot, the other tabs keep their order, and
  nothing happens exactly when the slot is directly before or after the tab.
\<close>

theorem reorder_keeps_selection:
  assumes "pane_ok p" "from < length (tabs p)"
  shows "let i = min ins (length (tabs p)); xs = tabs p in case reorder_tabs from ins p of
      None \<Rightarrow> i = from \<or> i = Suc from
    | Some p' \<Rightarrow> i \<noteq> from \<and> i \<noteq> Suc from \<and> pane_ok p' \<and>
        tabs p' ! selected_tab p' = tabs p ! selected_tab p \<and>
        tabs p' = (if from < i then take from xs @ drop (Suc from) (take i xs) @ xs ! from # drop i xs
                   else take i xs @ xs ! from # drop i (take from xs) @ drop (Suc from) xs)"
proof (cases "reorder_tabs from ins p")
  case None
  then show ?thesis by (auto simp: reorder_tabs_def Let_def split: if_splits)
next
  case (Some p')
  define i where "i = min ins (length (tabs p))"
  let ?dest = "if i > from then i - 1 else i"
  have "?dest \<noteq> from" "tabs p' = insert_at ?dest (tabs p ! from) (remove_at from (tabs p))"
    using Some by (auto simp: reorder_tabs_def Let_def i_def split: if_splits)
  with insert_remove_at_cases [OF assms(2), of i] reorder_tabs_facts(3,4) [OF Some assms(1,2)] Some show ?thesis
    by (auto simp: i_def Let_def)
qed

theorem reorder_keeps_selection_witness:
  "case reorder_tabs 0 2 (snd (add_tab 8 (Pane_new_with_id 1 7))) of
     None \<Rightarrow> False
   | Some p' \<Rightarrow> tabs p' ! selected_tab p' = fresh_tab (Terminal 8) \<and>
       tabs p' = [fresh_tab (Terminal 8), fresh_tab (Terminal 7)]"
proof -
  have p: "snd (add_tab 8 (Pane_new_with_id 1 7)) =
      \<lparr>pane_key = 1, tabs = [fresh_tab (Terminal 7), fresh_tab (Terminal 8)], selected_tab = 1, pane_bell = False\<rparr>"
    by (simp add: add_tab_def add_tab_of_def Pane_new_with_id_def Let_def)
  from reorder_keeps_selection [of "snd (add_tab 8 (Pane_new_with_id 1 7))" 0 2]
  show ?thesis unfolding p by (auto simp: pane_ok_def Let_def split: option.splits)
qed

text \<open>
  When a tab other than the selected one is dragged away from its pane, the selected tab stays
  selected; closing a terminal does not have this property: closing a tab to the left of the selected
  one makes the next tab the selected one.
\<close>

theorem close_shifts_selection:
  assumes "pane_ok p" "position (\<lambda>t. surface_id t = Some s) (tabs p) = Some i" "i < selected_tab p"
    "Suc (selected_tab p) < length (tabs p)"
  shows "active_tab (snd (remove_tab s p)) = Some (tabs p ! Suc (selected_tab p)) \<and>
    active_tab (snd (remove_tab_preserving_selection i p)) = Some (tabs p ! selected_tab p)"
proof -
  let ?ts = "remove_at i (tabs p)" and ?sel = "selected_tab p"
  have i: "i < length (tabs p)" using assms(3,4) by simp
  have len: "length ?ts = length (tabs p) - 1" using i by simp
  have "?ts ! ?sel = tabs p ! Suc ?sel" "?ts ! (?sel - 1) = tabs p ! ?sel"
    using assms(3,4) i by (auto simp: remove_at_def nth_append)
  moreover have "0 < length ?ts" using assms(3,4) len by linarith
  then have "?ts \<noteq> []" by simp
  ultimately show ?thesis using assms(2-4) len
    by (auto simp: remove_tab_def remove_tab_where_def remove_tab_preserving_selection_def active_tab_def
        get_opt_def Let_def)
qed

theorem close_shifts_selection_witness:
  "active_tab (snd (remove_tab 7 \<lparr>pane_key = 1, tabs = map (\<lambda>s. fresh_tab (Terminal s)) [7, 8, 9],
      selected_tab = 1, pane_bell = False\<rparr>)) = Some (fresh_tab (Terminal 9))"
  using close_shifts_selection [of "\<lparr>pane_key = 1, tabs = map (\<lambda>s. fresh_tab (Terminal s)) [7, 8, 9],
      selected_tab = 1, pane_bell = False\<rparr>" 7 0]
  by (simp add: pane_ok_def ident_def fresh_tab_def)

section \<open>Pinned workspaces\<close>

definition pinned_first :: "Workspace list \<Rightarrow> bool" where
  "pinned_first wss \<longleftrightarrow> sorted (map (\<lambda>ws. if pinned ws then 0 else 1 :: nat) wss)"

lemma sorted_remove_at:
  fixes f :: "'a \<Rightarrow> nat"
  assumes "sorted (map f xs)" "i < length xs"
  shows "sorted (map f (remove_at i xs))"
proof -
  have "sorted (map f (take i xs @ xs ! i # drop (Suc i) xs))"
    using assms(1) id_take_nth_drop [OF assms(2)] by simp
  then show ?thesis by (simp add: remove_at_def sorted_append)
qed

lemma in_set_remove_at: "x \<in> set (remove_at i xs) \<Longrightarrow> x \<in> set xs"
  by (auto simp: remove_at_def dest: in_set_takeD in_set_dropD)

lemma sorted_insert_beside:
  fixes f :: "'a \<Rightarrow> nat"
  assumes "sorted (map f ys)" "k < length ys" "f x = f (ys ! k)" "j = k \<or> j = Suc k"
  shows "sorted (map f (insert_at j x ys))"
proof -
  have ys: "ys = take k ys @ ys ! k # drop (Suc k) ys" by (rule id_take_nth_drop [OF assms(2)])
  then have s: "sorted (map f (take k ys @ ys ! k # drop (Suc k) ys))" using assms(1) by simp
  from assms(4) show ?thesis
  proof
    assume "j = k"
    then have "insert_at j x ys = take k ys @ x # ys ! k # drop (Suc k) ys"
      using assms(2) by (simp add: insert_at_def Cons_nth_drop_Suc)
    with s assms(3) show ?thesis by (auto simp: sorted_append)
  next
    assume "j = Suc k"
    then have "insert_at j x ys = take k ys @ ys ! k # x # drop (Suc k) ys"
      using assms(2) by (simp add: insert_at_def take_Suc_conv_app_nth)
    with s assms(3) show ?thesis by (auto simp: sorted_append)
  qed
qed

text \<open>
  The sidebar keeps pinned workspaces on top. Pinning or unpinning a workspace gives an order with
  all pinned workspaces first, in which every group keeps its relative order; a drop of one workspace
  on another keeps such an order, loses no workspace, and a drop between the two groups is refused.
\<close>

theorem pinned_stay_first:
  assumes "window_ok aw" "pinned_first (workspaces aw)" "i \<noteq> j"
  shows "pinned_first (workspaces (toggle_workspace_pinned rs k aw)) \<and>
    (\<forall>q. filter (\<lambda>ws. pinned ws = q) (workspaces (toggle_workspace_pinned rs k aw)) =
       filter (\<lambda>ws. pinned ws = q) (workspaces (modify_ws_id k (\<lambda>ws. ws\<lparr>pinned := \<not> pinned ws\<rparr>) aw))) \<and>
    (\<exists>aw'. move_workspace rs i j before aw = Some aw' \<and> pinned_first (workspaces aw') \<and>
       mset (workspaces aw') = mset (workspaces aw))"
proof (intro conjI allI)
  let ?f = "\<lambda>ws. if pinned ws then 0 else 1 :: nat"
  let ?M = "modify_ws_id k (\<lambda>ws. ws\<lparr>pinned := \<not> pinned ws\<rparr>) aw"
  have absent: "workspaces ?M = workspaces aw" if "ws_position k aw = None"
  proof -
    have "modify_first P g xs = xs" if "\<forall>x\<in>set xs. \<not> P x" for P :: "Workspace \<Rightarrow> bool" and g xs
      using that by (induction xs) auto
    with that show ?thesis by (simp add: modify_ws_id_def ws_position_def position_None)
  qed
  show "pinned_first (workspaces (toggle_workspace_pinned rs k aw))"
    using assms(2) by (simp add: toggle_workspace_pinned_def reorder_workspaces_for_pin_def
        reorder_workspace_views_def pinned_first_def)
  fix q
  have e: "(\<lambda>ws. pinned ws = q) = (\<lambda>ws. ?f ws = (if q then 0 else 1))" by auto
  have st: "filter (\<lambda>ws. pinned ws = q) (sort_key ?f xs) = filter (\<lambda>ws. pinned ws = q) xs" for xs
    unfolding e by (rule sort_key_stable)
  show "filter (\<lambda>ws. pinned ws = q) (workspaces (toggle_workspace_pinned rs k aw)) =
      filter (\<lambda>ws. pinned ws = q) (workspaces ?M)"
  proof (cases "ws_position k aw = None")
    case False
    then have "workspaces (toggle_workspace_pinned rs k aw) = sort_key ?f (workspaces ?M)"
      by (auto simp: toggle_workspace_pinned_def reorder_workspaces_for_pin_def reorder_workspace_views_def)
    then show ?thesis by (simp only: st)
  qed (simp add: toggle_workspace_pinned_def absent)
next
  obtain aw' where aw': "move_workspace rs i j before aw = Some aw'" "mset (workspaces aw') = mset (workspaces aw)"
    using move_workspace_ok [OF assms(1,3)] by blast
  have "pinned_first (workspaces aw')"
  proof (cases "aw' = aw")
    case False
    with aw'(1) obtain si ti where p: "ws_position i aw = Some si" "ws_position j aw = Some ti"
      "pinned (workspaces aw ! si) = pinned (workspaces aw ! ti)"
      by (auto simp: move_workspace_def split: option.splits if_splits)
    note s = position_SomeD [OF p(1) [unfolded ws_position_def]]
      and t = position_SomeD [OF p(2) [unfolded ws_position_def]]
    let ?f = "\<lambda>ws. if pinned ws then 0 else 1 :: nat" and ?rest = "remove_at si (workspaces aw)"
    have "si \<noteq> ti" using s t assms(3) by auto
    then have m: "workspaces aw ! ti \<in> set ?rest" using in_remove_at s t by blast
    then obtain k where k: "position (\<lambda>w. ws_key w = j) ?rest = Some k"
      using position_Some_ex [of "\<lambda>w. ws_key w = j" ?rest] t by blast
    note kk = position_SomeD [OF k]
    have "?rest ! k = workspaces aw ! ti"
    proof -
      obtain n where n: "n < length (workspaces aw)" "?rest ! k = workspaces aw ! n"
        using kk nth_mem [of k ?rest] by (metis in_set_conv_nth in_set_remove_at)
      with kk ws_position_unique [OF assms(1) n(1)] p(2) show ?thesis by auto
    qed
    then have "sorted (map ?f (insert_at (if before then k else k + 1) (workspaces aw ! si) ?rest))"
      using sorted_insert_beside [of ?f ?rest k "workspaces aw ! si"] kk p(3)
        sorted_remove_at [of ?f "workspaces aw" si] assms(2) s by (auto simp: pinned_first_def)
    with aw'(1) p k kk show ?thesis
      by (auto simp: move_workspace_def Let_def pinned_first_def reorder_workspace_views_def split: if_splits)
  qed (use assms(2) in simp)
  with aw' show "\<exists>aw'. move_workspace rs i j before aw = Some aw' \<and> pinned_first (workspaces aw') \<and>
      mset (workspaces aw') = mset (workspaces aw)" by blast
qed

definition two_workspaces :: AppWindow where
  "two_workspaces = new_workspace (new_workspace (AppWindow_new None None))"

lemma two_workspaces_facts:
  "window_ok two_workspaces" "map ws_key (workspaces two_workspaces) = [0, 1]"
  "map pinned (workspaces two_workspaces) = [False, False]"
proof -
  have r: "window_room (AppWindow_new None None)"
    by (simp add: window_room_def AppWindow_new_def SurfaceRegistry_new_def)
  let ?n = "\<lambda>aw. new_workspace aw"
  have f: "workspaces (?n aw) = workspaces aw @ [(Workspace_new (next_workspace aw))\<lparr>
      ws_panes := [(next_pane aw, Pane_new_with_id (next_pane aw) (reg_next_id (registry aw)))],
      split_tree := new_with_pane (next_pane aw), ws_title := ''Workspace '' @ nat_str (length (workspaces aw) + 1)\<rparr>]"
    "next_workspace (?n aw) = next_workspace aw + 1" "next_pane (?n aw) = next_pane aw + 1"
    "next_browser (?n aw) = next_browser aw" "reg_next_id (registry (?n aw)) = reg_next_id (registry aw) + 1" for aw
    by (simp_all add: new_workspace_def single_pane_workspace_def alloc_surface_def pre_allocate_id_def
        next_workspace_id_def next_pane_id_def push_workspace_def add_pane_def Let_def
        update_tray_state_def emit_def Workspace_new_def Pane_new_with_id_def)
  have "window_room (?n (AppWindow_new None None))"
    by (simp add: window_room_def f AppWindow_new_def SurfaceRegistry_new_def tree_room_def new_with_pane_def
        alloc_id_def insert_node_def SplitTree_new_def)
  from new_workspace_ok(1) [OF new_workspace_ok(1) [OF window_ok_new r] this]
  show "window_ok two_workspaces" by (simp add: two_workspaces_def)
  show "map ws_key (workspaces two_workspaces) = [0, 1]" "map pinned (workspaces two_workspaces) = [False, False]"
    by (simp_all add: two_workspaces_def f AppWindow_new_def Workspace_new_def)
qed

theorem pinned_stay_first_witness:
  "\<exists>aw'. move_workspace (\<lambda>p _ _. p) 1 0 True two_workspaces = Some aw' \<and> pinned_first (workspaces aw')"
proof -
  have "pinned_first (workspaces two_workspaces)"
    using two_workspaces_facts(3) by (auto simp: pinned_first_def map_eq_Cons_conv)
  from pinned_stay_first [OF two_workspaces_facts(1) this, of 1 0 "\<lambda>p _ _. p" 0 True] show ?thesis by auto
qed

section \<open>The sidebar log\<close>

lemma find_modify_first:
  assumes "\<And>x. P (f x) = P x"
  shows "find P (modify_first P f xs) = map_option f (find P xs)"
  by (induction xs) (auto simp: assms)

definition add_logs :: "WorkspaceId \<Rightarrow> SidebarLogEntry list \<Rightarrow> AppWindow \<Rightarrow> AppWindow" where
  "add_logs i es aw =
     foldl (\<lambda>aw e. add_workspace_log i (log_message e) (log_level e) (log_source e) (log_timestamp e) aw) aw es"

lemma push_log_drop: "length old \<le> 50 \<Longrightarrow> push_log e old = drop (Suc (length old) - 50) (old @ [e])"
proof -
  assume "length old \<le> 50"
  then have "length old < 50 \<or> length old - 49 = 1 \<and> length old = 50" by linarith
  then show ?thesis by (auto simp: push_log_def remove_at_def Let_def drop_Suc)
qed

lemma push_logs_drop:
  "length old \<le> 50 \<Longrightarrow> foldl (\<lambda>l e. push_log e l) old es = drop (length (old @ es) - 50) (old @ es)"
proof (induction es arbitrary: old)
  case (Cons e es)
  have p: "push_log e old = drop (Suc (length old) - 50) (old @ [e])" by (rule push_log_drop [OF Cons.prems])
  then have "length (push_log e old) \<le> 50" using Cons.prems by auto
  from Cons.IH [OF this] show ?case
    using Cons.prems by (cases "length old = 50") (auto simp: p drop_Suc neq_Nil_conv)
qed simp

text \<open>
  C20. The log of a workspace holds its latest 50 entries, oldest first: after any number of
  \<open>add_workspace_log\<close> calls the entries are the last 50 of the old ones followed by the new ones.
\<close>

theorem log_keeps_latest:
  assumes "find (\<lambda>ws. ws_key ws = i) (workspaces aw) = Some ws" "length (log_entries ws) \<le> 50"
  shows "map_option log_entries (find (\<lambda>ws. ws_key ws = i) (workspaces (add_logs i es aw))) =
    Some (drop (length (log_entries ws @ es) - 50) (log_entries ws @ es))"
proof -
  have "map_option log_entries (find (\<lambda>ws. ws_key ws = i) (workspaces (add_logs i es aw))) =
      Some (foldl (\<lambda>l e. push_log e l) (log_entries ws) es)"
    using assms(1)
  proof (induction es arbitrary: aw ws)
    case (Cons e es)
    let ?f = "\<lambda>ws. ws\<lparr>log_entries := push_log e (log_entries ws)\<rparr>"
    have s: "add_logs i (e # es) aw = add_logs i es (modify_ws_id i ?f aw)"
      by (cases e) (simp add: add_logs_def add_workspace_log_def)
    have "find (\<lambda>ws. ws_key ws = i) (workspaces (modify_ws_id i ?f aw)) = Some (?f ws)"
      using find_modify_first [of "\<lambda>ws. ws_key ws = i" ?f "workspaces aw"] Cons.prems
      by (simp add: modify_ws_id_def)
    from Cons.IH [OF this] show ?case unfolding s by simp
  qed (simp add: add_logs_def)
  with push_logs_drop [OF assms(2)] show ?thesis by simp
qed

theorem log_keeps_latest_witness:
  "map_option log_entries (find (\<lambda>ws. ws_key ws = 0) (workspaces (add_logs 0
     (replicate 60 \<lparr>log_message = [], log_level = Info, log_source = None, log_timestamp = 0\<rparr>)
     two_workspaces))) =
   Some (replicate 50 \<lparr>log_message = [], log_level = Info, log_source = None, log_timestamp = 0\<rparr>)"
proof -
  let ?ws = "hd (workspaces two_workspaces)"
  have w: "log_entries ?ws = []" "find (\<lambda>ws. ws_key ws = 0) (workspaces two_workspaces) = Some ?ws"
    by (simp_all add: two_workspaces_def new_workspace_def single_pane_workspace_def alloc_surface_def
        pre_allocate_id_def next_workspace_id_def next_pane_id_def push_workspace_def add_pane_def Let_def
        update_tray_state_def emit_def Workspace_new_def AppWindow_new_def)
  let ?e = "\<lparr>log_message = [], log_level = Info, log_source = None, log_timestamp = 0\<rparr> :: SidebarLogEntry"
  have "drop (length (log_entries ?ws @ replicate 60 ?e) - 50) (log_entries ?ws @ replicate 60 ?e) = replicate 50 ?e"
    by (simp add: w(1) drop_replicate)
  with log_keeps_latest [OF w(2), of "replicate 60 ?e"] w(1) show ?thesis by simp
qed

section \<open>Working directories\<close>

text \<open>
  A directory the shell reports (OSC 7) is authoritative: no later title changes it, whatever path
  the title shows, until the shell reports an empty directory; from then on the latest title with a
  path decides again.
\<close>

theorem reported_directory_wins:
  "(d \<noteq> [] \<longrightarrow> tab_dir (foldl (\<lambda>t title. retitle home title t) (report_dir home d t) titles) = Some d) \<and>
   tab_dir (retitle home title (report_dir home [] t)) =
     or_else (extract_directory home title) (extract_directory home (tab_title t))"
proof (intro conjI impI)
  assume d: "d \<noteq> []"
  have "tab_dir (foldl (\<lambda>t title. retitle home title t) t' titles) = Some d"
    if "tab_dir t' = Some d" "dir_from_osc7 t'" for t'
    using that by (induction titles arbitrary: t') (auto simp: retitle_def split: option.split)
  then show "tab_dir (foldl (\<lambda>t title. retitle home title t) (report_dir home d t) titles) = Some d"
    using d by (simp add: report_dir_def)
qed (simp add: retitle_def report_dir_def split: option.split)

theorem reported_directory_wins_witness:
  "tab_dir (foldl (\<lambda>t title. retitle None title t) (report_dir None ''/srv'' (fresh_tab (Terminal 1)))
     [''me@host:/tmp'', ''/home'']) = Some ''/srv''"
  using reported_directory_wins [of "''/srv''" None "fresh_tab (Terminal 1)" "[''me@host:/tmp'', ''/home'']" "[]"]
  by simp

section \<open>Drop zones\<close>

fun edge_distance :: "DropZone \<Rightarrow> f64 \<Rightarrow> f64 \<Rightarrow> f64" where
  "edge_distance ZLeft nx ny = nx"
| "edge_distance ZRight nx ny = 1 - nx"
| "edge_distance ZTop nx ny = ny"
| "edge_distance ZBottom nx ny = 1 - ny"

text \<open>
  The drop zone is the edge of the pane nearest to the pointer, in distances relative to the size
  of the pane; an empty pane counts as a drop on its right.
\<close>

theorem drop_zone_nearest_edge:
  "if w \<le> 0 \<or> h \<le> 0 then detect_drop_zone x y w h = ZRight
   else edge_distance (detect_drop_zone x y w h) (x / w) (y / h) \<le> edge_distance z (x / w) (y / h)"
proof -
  define nx ny where "nx = x / w" and "ny = y / h"
  have "detect_drop_zone x y w h = (if ny < nx then if ny < 1 - nx then ZTop else ZRight
      else if ny < 1 - nx then ZLeft else ZBottom)" if "\<not> (w \<le> 0 \<or> h \<le> 0)"
    using that by (simp add: detect_drop_zone_def Let_def nx_def ny_def)
  then show ?thesis unfolding nx_def [symmetric] ny_def [symmetric]
    by (cases z) (auto simp: detect_drop_zone_def)
qed

section \<open>Bells\<close>

lemma pane_rings_modify:
  "i < length (workspaces aw) \<Longrightarrow> hm_contains (ws_panes (workspaces aw ! i)) p \<Longrightarrow>
     pane_rings i p (modify_pane i p (pane_bell_update (\<lambda>_. b)) aw) = b"
  by (auto simp: pane_rings_def modify_pane_def hm_contains_def)

lemma find_handleD:
  assumes "window_ok aw" "find_handle h aw = Some (i, k, p)"
  shows "i < length (workspaces aw)" "k = ws_key (workspaces aw ! i)"
    "hm_contains (ws_panes (workspaces aw ! i)) p"
proof -
  let ?f = "\<lambda>ws. map_option fst (find (\<lambda>(_, p). list_ex (tab_has_handle aw h) (tabs p)) (ws_panes ws))"
  have i: "i < length (workspaces aw)" "k = ws_key (workspaces aw ! i)" "?f (workspaces aw ! i) = Some p"
    using find_ws_from_Some [of ?f 0 "workspaces aw" i k p] assms(2) by (auto simp: find_handle_def)
  then show "i < length (workspaces aw)" "k = ws_key (workspaces aw ! i)" by simp_all
  from find_pane_Some [OF ws_okD(1) [OF window_okD [OF assms(1) i(1)]] i(3)]
  show "hm_contains (ws_panes (workspaces aw ! i)) p" by (auto simp: hm_contains_def)
qed

text \<open>
  A bell marks what the user does not see: the workspace gets its badge exactly when it is not the
  one shown (or had it before), the pane its highlight exactly when it is not the focused pane of the
  shown workspace (or had it before), and the last signal names the workspace.
\<close>

theorem bell_marks_unseen:
  assumes "window_ok aw" "find_handle h aw = Some (i, k, p)"
  shows "let aw' = handle_bell h aw; shown = (unwrap_or (current_page aw) 0 = i);
             seen = (shown \<and> ws_focused_pane (workspaces aw ! i) = Some p)
         in ws_bell (workspaces aw' ! i) = (\<not> shown \<or> ws_bell (workspaces aw ! i)) \<and>
            pane_rings i p aw' = (\<not> seen \<or> pane_rings i p aw) \<and>
            (\<exists>s. last (effects aw') = BellFired k s) \<and> window_ok aw'"
proof -
  note f = find_handleD [OF assms]
  let ?shown = "unwrap_or (current_page aw) 0 = i"
  define aw1 where "aw1 = (if i \<noteq> unwrap_or (current_page aw) 0 then modify_ws i (ws_bell_update (\<lambda>_. True)) aw else aw)"
  define seen where "seen = (ws_focused_pane (workspaces aw1 ! i) = Some p \<and> i = unwrap_or (current_page aw) 0)"
  define aw2 where "aw2 = (if seen then aw1 else modify_pane i p (pane_bell_update (\<lambda>_. True)) aw1)"
  have a1: "workspaces aw1 ! i = (workspaces aw ! i)\<lparr>ws_bell := \<not> ?shown \<or> ws_bell (workspaces aw ! i)\<rparr>"
    "length (workspaces aw1) = length (workspaces aw)"
    using f(1) by (auto simp: aw1_def modify_ws_def)
  have foc: "ws_focused_pane (workspaces aw1 ! i) = ws_focused_pane (workspaces aw ! i)"
    by (simp add: a1(1) ws_focused_pane_def)
  have r1: "pane_rings i p aw1 = pane_rings i p aw" by (simp add: pane_rings_def a1(1))
  have b2: "ws_bell (workspaces aw2 ! i) = ws_bell (workspaces aw1 ! i)"
    using f(1) a1(2) by (auto simp: aw2_def modify_pane_def)
  have r2: "pane_rings i p aw2 = (\<not> seen \<or> pane_rings i p aw)"
    using pane_rings_modify [of i aw1 p True] f(1,3) a1 r1 by (simp add: aw2_def)
  let ?aw3 = "update_tray_state (emit (BellNotification (display_title (workspaces aw2 ! i)) k) aw2)"
  let ?s = "unwrap_or (Option.bind (hm_get (ws_panes (workspaces ?aw3 ! i)) p) active_surface) 0"
  have hb: "handle_bell h aw = emit (BellFired k ?s) ?aw3"
    unfolding handle_bell_def Let_def assms(2) option.case prod.case aw1_def [symmetric]
      seen_def [symmetric] aw2_def [symmetric] by (rule refl)
  have "workspaces (handle_bell h aw) = workspaces aw2" unfolding hb by (simp add: update_tray_state_def)
  then have "ws_bell (workspaces (handle_bell h aw) ! i) = ws_bell (workspaces aw2 ! i)"
    "pane_rings i p (handle_bell h aw) = pane_rings i p aw2" by (simp_all add: pane_rings_def)
  moreover have "last (effects (handle_bell h aw)) = BellFired k ?s" unfolding hb by (simp add: emit_def)
  ultimately show ?thesis
    using handle_bell_ok [OF assms(1), of h] r2 b2 a1(1) foc by (auto simp: Let_def seen_def)
qed

theorem bell_marks_unseen_witness:
  "let aw0 = two_workspaces\<lparr>registry := register_with_id 0 \<lparr>surface_handle = 5, gl_area = 1\<rparr> (registry two_workspaces)\<rparr>
   in window_ok aw0 \<and> find_handle 5 aw0 = Some (0, 0, 0) \<and> ws_bell (workspaces (handle_bell 5 aw0) ! 0)"
proof -
  define aw0 where "aw0 = two_workspaces\<lparr>registry :=
    register_with_id 0 \<lparr>surface_handle = 5, gl_area = 1\<rparr> (registry two_workspaces)\<rparr>"
  have ok: "window_ok aw0" using two_workspaces_facts(1) by (simp add: aw0_def)
  have f: "find_handle 5 aw0 = Some (0, 0, 0)" "current_page aw0 = Some 1"
    by (simp_all add: aw0_def two_workspaces_def new_workspace_def single_pane_workspace_def alloc_surface_def
        pre_allocate_id_def next_workspace_id_def next_pane_id_def push_workspace_def add_pane_def Let_def
        update_tray_state_def emit_def Workspace_new_def AppWindow_new_def SurfaceRegistry_new_def
        find_handle_def tab_has_handle_def get_handle_def register_with_id_def Pane_new_with_id_def
        remove_pending_def surface_id_def fresh_tab_def)
  have "ws_bell (workspaces (handle_bell 5 aw0) ! 0)" using bell_marks_unseen [OF ok f(1)] f(2) by (simp add: Let_def)
  with ok f(1) show ?thesis unfolding Let_def aw0_def [symmetric] by blast
qed

end
