(* ===== verification/Session.thy ===== *)
theory Session
  imports Window_Meta
begin

text \<open>
  Model of session persistence: the snapshot types of \<open>app/src/session.rs\<close> and the code of
  \<open>app/src/window.rs\<close> that takes a snapshot of the window and rebuilds workspaces from one. The JSON
  file between the two is written and read by serde and is the identity here. The scrollback text
  and the current URL of a panel come from Ghostty and WebKit and are arguments, as are the fresh
  relay credentials, the clock, the page the notebook shows after a page was appended, and the
  iteration order of the node table of a tree (\<open>order\<close>), which \<open>merge\<close> follows.
\<close>

section \<open>Snapshots\<close>

record StatusEntrySnapshot =
  ses_key :: string
  ses_value :: string
  ses_icon :: "string option"
  ses_color :: "string option"
  ses_priority :: int

record LogEntrySnapshot =
  les_message :: string
  les_level :: string
  les_source :: "string option"

record ProgressSnapshot =
  prs_value :: f64
  prs_label :: "string option"

record PaneTabSnapshot =
  pts_dir :: "string option"
  pts_title :: "string option"
  pts_scrollback :: "string option"
  pts_kind :: "string option"
  pts_url :: "string option"

datatype LayoutSnapshot =
    LSingle "PaneTabSnapshot list"
  | LSplit string f64 LayoutSnapshot LayoutSnapshot

record WorkspaceSnapshot =
  wss_title :: string
  wss_custom_title :: "string option"
  wss_dir :: "string option"
  wss_color :: "string option"
  wss_pinned :: "bool option"
  wss_layout :: LayoutSnapshot
  wss_status :: "StatusEntrySnapshot list option"
  wss_log :: "LogEntrySnapshot list option"
  wss_progress :: "ProgressSnapshot option"
  wss_remote :: "RemoteConfiguration option"

record SessionSnapshot =
  ss_version :: u32
  ss_workspaces :: "WorkspaceSnapshot list"
  ss_selected :: "usize option"
  ss_sidebar_width :: "int option"
  ss_sidebar_visible :: "bool option"

definition pts_is_browser :: "PaneTabSnapshot \<Rightarrow> bool" where
  "pts_is_browser t = (pts_kind t = Some ''browser'')"

record readers =
  scrollback_reader :: "SurfaceId \<Rightarrow> string option"
  url_reader :: "BrowserPanelId \<Rightarrow> string option"

definition to_snapshot :: "readers \<Rightarrow> Tab \<Rightarrow> PaneTabSnapshot" where
  "to_snapshot rd t =
     (let (kind, url, scrollback) =
            (case panel t of
               Terminal s \<Rightarrow> (''terminal'', None, scrollback_reader rd s)
             | Browser b url \<Rightarrow> (''browser'', Some (unwrap_or (url_reader rd b) url), None))
      in \<lparr>pts_dir = tab_dir t,
          pts_title = (if tab_title t = [] then None else Some (tab_title t)),
          pts_scrollback = scrollback, pts_kind = Some kind, pts_url = url\<rparr>)"

definition truncate_to_last_n_lines :: "string \<Rightarrow> nat \<Rightarrow> string" where
  "truncate_to_last_n_lines text n =
     (let line_count = length (lines text)
      in if line_count \<le> n then text else join [CHR 0x0A] (drop (line_count - n) (lines text)))"

definition MAX_SCROLLBACK_LINES :: nat where
  "MAX_SCROLLBACK_LINES = 5000"

text \<open>\<open>text\<close> is what Ghostty returned for the whole screen, \<open>None\<close> when it returned nothing.\<close>

definition read_surface_scrollback :: "AppWindow \<Rightarrow> (nat \<Rightarrow> string option) \<Rightarrow> SurfaceId \<Rightarrow> string option" where
  "read_surface_scrollback aw screen s =
     do { h \<leftarrow> get_handle (registry aw) s;
          text \<leftarrow> screen h;
          let truncated = truncate_to_last_n_lines text MAX_SCROLLBACK_LINES;
          if truncated = [] then None else Some truncated }"

section \<open>Taking a snapshot\<close>

partial_function (option) snapshot_layout_node ::
  "readers \<Rightarrow> node_table \<Rightarrow> (PaneId, Pane) hashmap \<Rightarrow> NodeId \<Rightarrow> LayoutSnapshot run" where
  "snapshot_layout_node rd h ps n =
     (case h n of
        Some (Leaf p) \<Rightarrow>
          Some (LSingle (case hm_get ps p of
                           None \<Rightarrow> []
                         | Some pane \<Rightarrow> map (to_snapshot rd) (tabs pane)))
      | Some (Split ori r a b) \<Rightarrow>
          do { x \<leftarrow> snapshot_layout_node rd h ps a;
               y \<leftarrow> snapshot_layout_node rd h ps b;
               Some (LSplit (case ori of Horizontal \<Rightarrow> ''horizontal'' | Vertical \<Rightarrow> ''vertical'') r x y) }
      | None \<Rightarrow> Some (LSingle []))"

definition status_snapshot :: "SidebarStatusEntry \<Rightarrow> StatusEntrySnapshot" where
  "status_snapshot e =
     \<lparr>ses_key = status_key e, ses_value = status_value e, ses_icon = status_icon e,
      ses_color = status_color e, ses_priority = status_priority e\<rparr>"

definition log_snapshot :: "SidebarLogEntry \<Rightarrow> LogEntrySnapshot" where
  "log_snapshot e =
     \<lparr>les_message = log_message e, les_level = log_level_str (log_level e), les_source = log_source e\<rparr>"

definition non_empty :: "'a list \<Rightarrow> 'a list option" where
  "non_empty xs = (if xs = [] then None else Some xs)"

definition workspace_snapshot :: "readers \<Rightarrow> Workspace \<Rightarrow> WorkspaceSnapshot run" where
  "workspace_snapshot rd ws =
     do { layout \<leftarrow> (case tree_root (split_tree ws) of
                       Some r \<Rightarrow> snapshot_layout_node rd (nodes (split_tree ws)) (ws_panes ws) r
                     | None \<Rightarrow> Some (LSingle []));
          Some \<lparr>wss_title = ws_title ws, wss_custom_title = custom_title ws, wss_dir = ws_dir ws,
                wss_color = map_option color_str (ws_color ws), wss_pinned = Some (pinned ws),
                wss_layout = layout,
                wss_status = non_empty (map (status_snapshot \<circ> snd) (status_entries ws)),
                wss_log = non_empty (map log_snapshot (log_entries ws)),
                wss_progress = map_option (\<lambda>p. \<lparr>prs_value = progress_value p, prs_label = progress_label p\<rparr>)
                                 (ws_progress ws),
                wss_remote = remote_config ws\<rparr> }"

fun collect_run :: "'a run list \<Rightarrow> 'a list run" where
  "collect_run [] = Some []"
| "collect_run (x # xs) = do { y \<leftarrow> x; ys \<leftarrow> collect_run xs; Some (y # ys) }"

definition session_snapshot :: "readers \<Rightarrow> AppWindow \<Rightarrow> SessionSnapshot run" where
  "session_snapshot rd aw =
     do { wss \<leftarrow> collect_run (map (workspace_snapshot rd) (workspaces aw));
          Some \<lparr>ss_version = 1, ss_workspaces = wss, ss_selected = current_page aw,
                ss_sidebar_width = Some (if sidebar_visible aw then sidebar_position aw
                                         else sidebar_last_width aw),
                ss_sidebar_visible = Some (sidebar_visible aw)\<rparr> }"

section \<open>Rebuilding the layout of a workspace\<close>

text \<open>
  One pane. The code adds the pane to the workspace right after its first tab and edits it there; here
  the finished pane is added. The list holds the surfaces that are pending until the idle callback.
\<close>

definition restore_first_tab ::
  "string option \<Rightarrow> PaneId \<Rightarrow> PaneTabSnapshot \<Rightarrow> AppWindow \<Rightarrow> Pane \<times> SurfaceId list \<times> AppWindow" where
  "restore_first_tab dwd p t aw =
     (if pts_is_browser t then
        (let url = unwrap_or (pts_url t) []; (b, aw) = create_browser aw
         in (Pane_new_browser_with_id p b url, [], aw))
      else
        (let (s, aw) = alloc_surface (or_else (pts_dir t) dwd) (app_command aw) aw
         in (Pane_new_with_id p s, [s], aw)))"

definition restore_tab ::
  "string option \<Rightarrow> PaneTabSnapshot \<Rightarrow> Pane \<times> SurfaceId list \<times> AppWindow \<Rightarrow>
   Pane \<times> SurfaceId list \<times> AppWindow" where
  "restore_tab dwd t st =
     (let (pane, pend, aw) = st in
      if pts_is_browser t then
        (let url = unwrap_or (pts_url t) []; (b, aw) = create_browser aw;
             pane = snd (add_browser_tab b url pane);
             pane = (case pts_title t of Some title \<Rightarrow> set_browser_tab_title b title pane | None \<Rightarrow> pane)
         in (pane, pend, aw))
      else
        (let (s, aw) = alloc_surface (or_else (pts_dir t) dwd) (app_command aw) aw;
             pane = snd (add_tab s pane);
             pane = (case pts_title t of Some title \<Rightarrow> set_tab_title s title pane | None \<Rightarrow> pane);
             pane = (case pts_dir t of Some d \<Rightarrow> set_tab_directory s d pane | None \<Rightarrow> pane)
         in (pane, pend @ [s], aw)))"

definition restore_pane ::
  "string option \<Rightarrow> PaneTabSnapshot list \<Rightarrow> AppWindow \<Rightarrow> Pane \<times> SurfaceId list \<times> AppWindow" where
  "restore_pane dwd ts aw =
     (case ts of
        [] \<Rightarrow> (let (s, aw) = alloc_surface dwd (app_command aw) aw; (p, aw) = next_pane_id aw
               in (Pane_new_with_id p s, [s], aw))
      | t # ts \<Rightarrow>
          (let (p, aw) = next_pane_id aw;
               (pane, pend, aw) = foldl (\<lambda>st t. restore_tab dwd t st) (restore_first_tab dwd p t aw) ts
           in (select_tab 0 pane, pend, aw)))"

definition parse_orientation :: "string \<Rightarrow> Orientation" where
  "parse_orientation s = (if s = ''vertical'' then Vertical else Horizontal)"

record layout_build =
  lb_tree :: SplitTree
  lb_ws :: Workspace
  lb_paneds :: "NodeId list"
  lb_pending :: "SurfaceId list"
  lb_win :: AppWindow

text \<open>\<open>lb_paneds\<close> are the keys of \<open>split_paneds\<close>, the node each divider reports its ratio to.\<close>

fun build_layout_widget ::
  "(SplitTree \<Rightarrow> NodeId list) \<Rightarrow> string option \<Rightarrow> LayoutSnapshot \<Rightarrow> Workspace \<Rightarrow> AppWindow \<Rightarrow>
   layout_build run" where
  "build_layout_widget order dwd (LSingle ts) ws aw =
     (let (pane, pend, aw) = restore_pane dwd ts aw
      in Some \<lparr>lb_tree = new_with_pane (pane_key pane), lb_ws = add_pane pane ws, lb_paneds = [],
               lb_pending = pend, lb_win = aw\<rparr>)"
| "build_layout_widget order dwd (LSplit ori r a b) ws aw =
     do { x \<leftarrow> build_layout_widget order dwd a ws aw;
          y \<leftarrow> build_layout_widget order dwd b (lb_ws x) (lb_win x);
          t \<leftarrow> merge (order (lb_tree x)) (order (lb_tree y)) (lb_tree x) (lb_tree y)
                 (parse_orientation ori) r;
          Some \<lparr>lb_tree = t, lb_ws = lb_ws y,
                lb_paneds = lb_paneds x @ lb_paneds y @ (case tree_root t of Some n \<Rightarrow> [n] | None \<Rightarrow> []),
                lb_pending = lb_pending x @ lb_pending y, lb_win = lb_win y\<rparr> }"

section \<open>Restoring\<close>

record restore_env =
  re_order :: "SplitTree \<Rightarrow> NodeId list"
  re_now :: nat
  re_credentials :: "WorkspaceId \<Rightarrow> u16 option \<times> string \<times> string"
  re_appended :: "usize option \<Rightarrow> usize \<Rightarrow> usize option"

definition restore_status :: "StatusEntrySnapshot \<Rightarrow> SidebarStatusEntry" where
  "restore_status e =
     \<lparr>status_key = ses_key e, status_value = ses_value e, status_icon = ses_icon e,
      status_color = ses_color e, status_priority = ses_priority e\<rparr>"

definition restore_log :: "nat \<Rightarrow> LogEntrySnapshot \<Rightarrow> SidebarLogEntry" where
  "restore_log now e =
     \<lparr>log_message = les_message e, log_level = log_level_from_str (les_level e),
      log_source = les_source e, log_timestamp = now\<rparr>"

definition restore_meta :: "nat \<Rightarrow> WorkspaceSnapshot \<Rightarrow> Workspace \<Rightarrow> Workspace" where
  "restore_meta now s ws =
     (let ws = ws\<lparr>status_entries := foldl (\<lambda>m e. hm_insert (ses_key e) (restore_status e) m)
                    (status_entries ws) (unwrap_or (wss_status s) [])\<rparr>;
          ws = ws\<lparr>log_entries := log_entries ws @ map (restore_log now) (unwrap_or (wss_log s) [])\<rparr>
      in case wss_progress s of
           Some p \<Rightarrow> ws\<lparr>ws_progress := Some \<lparr>progress_value = prs_value p, progress_label = prs_label p\<rparr>\<rparr>
         | None \<Rightarrow> ws)"

definition fresh_credentials :: "u16 option \<times> string \<times> string \<Rightarrow> RemoteConfiguration \<Rightarrow> RemoteConfiguration" where
  "fresh_credentials cr cfg =
     (let (port, rid, tok) = cr
      in cfg\<lparr>relay_port := port, relay_id := Some rid, relay_token := Some tok, local_socket_path := None\<rparr>)"

definition restore_workspace_from_layout ::
  "restore_env \<Rightarrow> WorkspaceSnapshot \<Rightarrow> AppWindow \<Rightarrow> AppWindow run" where
  "restore_workspace_from_layout env s aw =
     (let (k, aw) = next_workspace_id aw;
          title = unwrap_or (wss_custom_title s) (''Workspace '' @ nat_str (length (workspaces aw) + 1));
          ws = (Workspace_new k)\<lparr>custom_title := wss_custom_title s, ws_title := title,
                 ws_dir := wss_dir s, ws_color := Option.bind (wss_color s) from_name,
                 pinned := unwrap_or (wss_pinned s) False, remote_config := wss_remote s\<rparr>
      in do {
           b \<leftarrow> build_layout_widget (re_order env) (app_dir aw) (wss_layout s) ws aw;
           let ws = restore_meta (re_now env) s ((lb_ws b)\<lparr>split_tree := lb_tree b\<rparr>);
           let aw = lb_win b;
           let idx = length (workspaces aw);
           let aw = aw\<lparr>workspaces := workspaces aw @ [ws],
                        current_page := re_appended env (current_page aw) idx\<rparr>;
           let aw = (case or_else (ws_focused_pane ws) (first_opt (hm_keys (ws_panes ws))) of
                       Some p \<Rightarrow> set_pane_active idx p aw
                     | None \<Rightarrow> aw);
           let cfg = map_option (fresh_credentials (re_credentials env k)) (remote_config ws);
           let aw = (case cfg of
                       Some c \<Rightarrow> modify_ws idx (\<lambda>ws. ws\<lparr>remote_config := Some c, remote_state := Connecting\<rparr>) aw
                     | None \<Rightarrow> aw);
           let aw = aw\<lparr>registry := foldl (\<lambda>r s. remove_pending s r) (registry aw) (lb_pending b)\<rparr>;
           Some (case cfg of Some c \<Rightarrow> emit (ControllerConnect k c) aw | None \<Rightarrow> aw) })"

fun restore_workspaces :: "restore_env \<Rightarrow> WorkspaceSnapshot list \<Rightarrow> AppWindow \<Rightarrow> AppWindow run" where
  "restore_workspaces env [] aw = Some aw"
| "restore_workspaces env (s # ss) aw =
     do { aw \<leftarrow> restore_workspace_from_layout env s aw; restore_workspaces env ss aw }"

definition restore_session :: "restore_env \<Rightarrow> SessionSnapshot \<Rightarrow> AppWindow \<Rightarrow> AppWindow run" where
  "restore_session env snap aw =
     do { aw \<leftarrow> restore_workspaces env (ss_workspaces snap) aw;
          let aw = (case ss_selected snap of
                      Some idx \<Rightarrow> goto_workspace (sint (of_nat idx :: 32 word)) aw
                    | None \<Rightarrow> aw);
          let aw = (case ss_sidebar_width snap of
                      Some w \<Rightarrow> (let aw = aw\<lparr>sidebar_last_width := w\<rparr>
                                 in if sidebar_visible aw then aw\<lparr>sidebar_position := w\<rparr> else aw)
                    | None \<Rightarrow> aw);
          Some (if ss_sidebar_visible snap = Some False then toggle_sidebar aw else aw) }"

end
