(* ===== verification/Session_Facts.thy ===== *)
theory Session_Facts
  imports Window_Live Session
begin

text \<open>
  Restoring a layout: what \<open>build_layout_widget\<close> builds, for every snapshot, every iteration order of
  the node tables and every state of the counters with room for the new identifiers.
\<close>

section \<open>Counters\<close>

definition spare :: "nat \<Rightarrow> AppWindow \<Rightarrow> bool" where
  "spare n aw \<longleftrightarrow> unat (next_pane aw) + n < 2 ^ 32 \<and> unat (next_browser aw) + n < 2 ^ 32 \<and>
     unat (reg_next_id (registry aw)) + n < 2 ^ 32"

definition grows :: "AppWindow \<Rightarrow> AppWindow \<Rightarrow> bool" where
  "grows aw aw' \<longleftrightarrow> workspaces aw' = workspaces aw \<and> current_page aw' = current_page aw \<and>
     app_dir aw' = app_dir aw \<and> app_command aw' = app_command aw \<and> next_workspace aw' = next_workspace aw \<and>
     next_pane aw \<le> next_pane aw' \<and> next_browser aw \<le> next_browser aw' \<and>
     reg_next_id (registry aw) \<le> reg_next_id (registry aw')"

lemma grows_refl [simp]: "grows aw aw"
  by (simp add: grows_def)

lemma grows_trans: "grows a b \<Longrightarrow> grows b c \<Longrightarrow> grows a c"
  unfolding grows_def by (simp add: order_trans [where y = "_ b"]) (meson order_trans)

lemma spare_mono: "spare n aw \<Longrightarrow> m \<le> n \<Longrightarrow> spare m aw"
  by (auto simp: spare_def)

lemma u32_bump:
  assumes "unat (x :: u32) + Suc n < 2 ^ 32"
  shows "unat (x + 1) + n < 2 ^ 32" "x < x + 1" "x \<le> x + 1"
proof -
  have "unat x + 1 < 2 ^ 32" using assms by linarith
  then have "unat (x + 1) = unat x + 1" using unat_u32_add [of x 1] by simp
  then show "unat (x + 1) + n < 2 ^ 32" "x < x + 1" "x \<le> x + 1"
    using assms by (simp_all add: word_less_nat_alt word_le_nat_alt)
qed

lemma alloc_surface_spec:
  assumes "spare (Suc n) aw"
  shows "\<exists>aw'. alloc_surface wd c aw = (reg_next_id (registry aw), aw') \<and> grows aw aw' \<and> spare n aw' \<and>
    next_pane aw' = next_pane aw \<and> reg_next_id (registry aw) < reg_next_id (registry aw')"
  using assms u32_bump [of "reg_next_id (registry aw)" n]
  by (auto simp: spare_def grows_def alloc_surface_def pre_allocate_id_def emit_def)

lemma create_browser_spec:
  assumes "spare (Suc n) aw"
  shows "\<exists>aw'. create_browser aw = (next_browser aw, aw') \<and> grows aw aw' \<and> spare n aw' \<and>
    next_pane aw' = next_pane aw \<and> next_browser aw < next_browser aw'"
  using assms u32_bump [of "next_browser aw" n] by (auto simp: spare_def grows_def create_browser_def)

lemma grows_below:
  assumes "grows aw aw'"
  shows "ident_below aw x \<Longrightarrow> ident_below aw' x" "pane_below aw p \<Longrightarrow> pane_below aw' p"
  using assms by (auto simp: grows_def ident_below_def pane_below_def split: TabDragIdentity.splits)

section \<open>One pane\<close>

text \<open>The tab a snapshot becomes; the first tab of a pane gets neither title nor directory.\<close>

definition restored_tab :: "bool \<Rightarrow> PaneTabSnapshot \<Rightarrow> PanelKind \<Rightarrow> Tab" where
  "restored_tab is_first t k =
     \<lparr>panel = k, tab_title = (if is_first then [] else unwrap_or (pts_title t) []),
      tab_dir = (if is_first \<or> pts_is_browser t then None else pts_dir t), dir_from_osc7 = False\<rparr>"

definition kind_matches :: "PaneTabSnapshot \<Rightarrow> PanelKind \<Rightarrow> bool" where
  "kind_matches t k =
     (case k of
        Terminal _ \<Rightarrow> \<not> pts_is_browser t
      | Browser _ url \<Rightarrow> pts_is_browser t \<and> url = unwrap_or (pts_url t) [])"

definition tab_of :: "bool \<Rightarrow> PaneTabSnapshot \<Rightarrow> Tab \<Rightarrow> bool" where
  "tab_of is_first t t' \<longleftrightarrow> t' = restored_tab is_first t (panel t') \<and> kind_matches t (panel t')"

definition fresh_tabs :: "AppWindow \<Rightarrow> AppWindow \<Rightarrow> Tab list \<Rightarrow> bool" where
  "fresh_tabs aw aw' ts \<longleftrightarrow> distinct (map ident ts) \<and>
     (\<forall>t\<in>set ts. \<not> ident_below aw (ident t) \<and> ident_below aw' (ident t))"

lemma fresh_tabs_append:
  assumes "fresh_tabs a b xs" "fresh_tabs b c ys" "grows a b" "grows b c"
  shows "fresh_tabs a c (xs @ ys)"
  using assms grows_below(1) [OF assms(3)] grows_below(1) [OF assms(4)]
  by (fastforce simp: fresh_tabs_def)

lemma modify_first_last:
  "(\<And>x. x \<in> set xs \<Longrightarrow> \<not> P x) \<Longrightarrow> P y \<Longrightarrow> modify_first P f (xs @ [y]) = xs @ [f y]"
  by (induction xs) auto

lemma restore_tab_spec:
  assumes below: "\<And>x. x \<in> set (tabs pane) \<Longrightarrow> ident_below aw (ident x)" and sp: "spare (Suc n) aw"
  shows "\<exists>t' pane' pend' aw'. restore_tab dwd t (pane, pend, aw) = (pane', pend', aw') \<and>
    tabs pane' = tabs pane @ [t'] \<and> pane_key pane' = pane_key pane \<and> tab_of False t t' \<and>
    fresh_tabs aw aw' [t'] \<and> grows aw aw' \<and> spare n aw' \<and> next_pane aw' = next_pane aw"
proof (cases "pts_is_browser t")
  case True
  obtain aw' where c: "create_browser aw = (next_browser aw, aw')" "grows aw aw'" "spare n aw'"
    "next_pane aw' = next_pane aw" "next_browser aw < next_browser aw'"
    using create_browser_spec [OF sp] by blast
  have old: "ident x \<noteq> BrowserTab (next_browser aw)" if "x \<in> set (tabs pane)" for x
    using below [OF that] by (auto simp: ident_below_def)
  show ?thesis using True c old
    by (cases "pts_title t")
      (simp_all add: restore_tab_def add_browser_tab_def add_tab_of_def Let_def set_browser_tab_title_def
        modify_first_last tab_of_def restored_tab_def kind_matches_def fresh_tabs_def ident_def fresh_tab_def
        ident_below_def)
next
  case False
  obtain aw' where c: "alloc_surface (or_else (pts_dir t) dwd) (app_command aw) aw = (reg_next_id (registry aw), aw')"
    "grows aw aw'" "spare n aw'" "next_pane aw' = next_pane aw"
    "reg_next_id (registry aw) < reg_next_id (registry aw')"
    using alloc_surface_spec [OF sp] by blast
  have old: "ident x \<noteq> SurfaceTab (reg_next_id (registry aw))" if "x \<in> set (tabs pane)" for x
    using below [OF that] by (auto simp: ident_below_def)
  show ?thesis using False c old
    by (cases "pts_title t"; cases "pts_dir t")
      (simp_all add: restore_tab_def add_tab_def add_tab_of_def Let_def set_tab_title_def set_tab_directory_def
        modify_first_last tab_of_def restored_tab_def kind_matches_def fresh_tabs_def ident_def fresh_tab_def
        ident_below_def)
qed

lemma restore_tabs_spec:
  assumes "\<And>x. x \<in> set (tabs pane) \<Longrightarrow> ident_below aw (ident x)" "spare (length ts + n) aw"
  shows "\<exists>ts' pane' pend' aw'. foldl (\<lambda>st t. restore_tab dwd t st) (pane, pend, aw) ts = (pane', pend', aw') \<and>
    tabs pane' = tabs pane @ ts' \<and> pane_key pane' = pane_key pane \<and> list_all2 (tab_of False) ts ts' \<and>
    fresh_tabs aw aw' ts' \<and> grows aw aw' \<and> spare n aw' \<and> next_pane aw' = next_pane aw"
  using assms
proof (induction ts arbitrary: pane pend aw)
  case Nil
  then show ?case by (simp add: fresh_tabs_def)
next
  case (Cons t ts)
  have "spare (Suc (length ts + n)) aw" using Cons.prems(2) by simp
  from restore_tab_spec [OF Cons.prems(1) this, where dwd = dwd and t = t and pend = pend] obtain t1 p1 pend1 aw1 where
    a: "restore_tab dwd t (pane, pend, aw) = (p1, pend1, aw1)" "tabs p1 = tabs pane @ [t1]"
      "pane_key p1 = pane_key pane" "tab_of False t t1" "fresh_tabs aw aw1 [t1]" "grows aw aw1"
      "spare (length ts + n) aw1" "next_pane aw1 = next_pane aw" by blast
  have "ident_below aw1 (ident x)" if "x \<in> set (tabs p1)" for x
    using that a(2,5) Cons.prems(1) grows_below(1) [OF a(6)] by (auto simp: fresh_tabs_def)
  from Cons.IH [OF this a(7), where pend = pend1] obtain ts' p' pend' aw' where
    b: "foldl (\<lambda>st t. restore_tab dwd t st) (p1, pend1, aw1) ts = (p', pend', aw')" "tabs p' = tabs p1 @ ts'"
      "pane_key p' = pane_key p1" "list_all2 (tab_of False) ts ts'" "fresh_tabs aw1 aw' ts'" "grows aw1 aw'"
      "spare n aw'" "next_pane aw' = next_pane aw1" by blast
  have "fresh_tabs aw aw' (t1 # ts')" using fresh_tabs_append [OF a(5) b(5) a(6) b(6)] by simp
  then show ?case using a b grows_trans [OF a(6) b(6)]
    by (intro exI [of _ "t1 # ts'"] exI [of _ p'] exI [of _ pend'] exI [of _ aw']) simp
qed

definition tabs_of :: "PaneTabSnapshot list \<Rightarrow> Tab list \<Rightarrow> bool" where
  "tabs_of ts ts' =
     (case ts of
        [] \<Rightarrow> \<exists>s. ts' = [fresh_tab (Terminal s)]
      | t # r \<Rightarrow> \<exists>t' r'. ts' = t' # r' \<and> tab_of True t t' \<and> list_all2 (tab_of False) r r')"

definition tab_slots :: "PaneTabSnapshot list \<Rightarrow> nat" where
  "tab_slots ts = length ts + 1"

lemma restore_first_spec:
  assumes "spare (Suc n) aw"
  shows "\<exists>t' pane pend aw'. restore_first_tab dwd p t aw = (pane, pend, aw') \<and> tabs pane = [t'] \<and>
    pane_key pane = p \<and> tab_of True t t' \<and> fresh_tabs aw aw' [t'] \<and> grows aw aw' \<and> spare n aw' \<and>
    next_pane aw' = next_pane aw"
  using create_browser_spec [OF assms] alloc_surface_spec [OF assms, of "or_else (pts_dir t) dwd" "app_command aw"]
  by (cases "pts_is_browser t")
    (auto simp: restore_first_tab_def Let_def Pane_new_browser_with_id_def Pane_new_with_id_def tab_of_def
      restored_tab_def kind_matches_def fresh_tabs_def ident_def fresh_tab_def ident_below_def)

lemma fresh_tabs_pane:
  assumes "grows a b" "next_browser b = next_browser a" "registry b = registry a"
  shows "fresh_tabs b c ts = fresh_tabs a c ts" "fresh_tabs c a ts = fresh_tabs c b ts"
proof -
  have "ident_below b = ident_below a"
    using assms(2,3) by (auto simp: fun_eq_iff ident_below_def split: TabDragIdentity.split)
  then show "fresh_tabs b c ts = fresh_tabs a c ts" "fresh_tabs c a ts = fresh_tabs c b ts"
    by (simp_all add: fresh_tabs_def)
qed

lemma restore_pane_spec:
  assumes sp: "spare (tab_slots ts + n) aw"
  shows "\<exists>pane pend aw'. restore_pane dwd ts aw = (pane, pend, aw') \<and> pane_key pane = next_pane aw \<and>
    pane_ok pane \<and> tabs_of ts (tabs pane) \<and> fresh_tabs aw aw' (tabs pane) \<and> grows aw aw' \<and>
    next_pane aw < next_pane aw' \<and> spare n aw'"
proof (cases ts)
  case Nil
  then have sp1: "spare (Suc n) aw" using sp by (simp add: tab_slots_def)
  obtain aw1 where a: "alloc_surface dwd (app_command aw) aw = (reg_next_id (registry aw), aw1)" "grows aw aw1"
    "spare n aw1" "next_pane aw1 = next_pane aw" "reg_next_id (registry aw) < reg_next_id (registry aw1)"
    using alloc_surface_spec [OF sp1] by blast
  let ?aw' = "aw1\<lparr>next_pane := next_pane aw1 + 1\<rparr>" and ?s = "reg_next_id (registry aw)"
  have "unat (next_pane aw) + Suc n < 2 ^ 32" using sp1 by (simp add: spare_def)
  note u = u32_bump [OF this]
  have g: "grows aw ?aw'" "spare n ?aw'" using a(2-4) u by (auto simp: grows_def spare_def)
  have ft: "fresh_tabs aw ?aw' [fresh_tab (Terminal ?s)]"
    using a(5) by (simp add: fresh_tabs_def ident_def fresh_tab_def ident_below_def)
  have "restore_pane dwd ts aw = (Pane_new_with_id (next_pane aw) ?s, [?s], ?aw')"
    using Nil a(1,4) by (simp add: restore_pane_def next_pane_id_def)
  then show ?thesis using Nil g ft u a(4) pane_ok_new(1) [of "next_pane aw" ?s]
    by (auto simp: tabs_of_def Pane_new_with_id_def)
next
  case (Cons t r)
  then have sp1: "spare (Suc (Suc (length r + n))) aw" using sp by (simp add: tab_slots_def)
  let ?aw1 = "aw\<lparr>next_pane := next_pane aw + 1\<rparr>"
  have "unat (next_pane aw) + Suc (Suc (length r + n)) < 2 ^ 32" using sp1 by (simp add: spare_def)
  note u = u32_bump [OF this]
  have g1: "grows aw ?aw1" using u by (simp add: grows_def)
  note ft = fresh_tabs_pane [OF g1]
  define aw1 where "aw1 = ?aw1"
  have sp2: "spare (Suc (length r + n)) aw1"
    using sp1 u by (simp add: spare_def aw1_def)
  obtain t1 p1 pend1 aw2 where f: "restore_first_tab dwd (next_pane aw) t aw1 = (p1, pend1, aw2)" "tabs p1 = [t1]"
    "pane_key p1 = next_pane aw" "tab_of True t t1" "fresh_tabs aw1 aw2 [t1]" "grows aw1 aw2"
    "spare (length r + n) aw2" "next_pane aw2 = next_pane aw1"
    using restore_first_spec [OF sp2] by blast
  have "ident_below aw2 (ident x)" if "x \<in> set (tabs p1)" for x
    using that f(2,5) by (auto simp: fresh_tabs_def)
  from restore_tabs_spec [OF this f(7), where pend = pend1 and dwd = dwd] obtain ts' p2 pend2 aw3 where
    l: "foldl (\<lambda>st t. restore_tab dwd t st) (p1, pend1, aw2) r = (p2, pend2, aw3)" "tabs p2 = tabs p1 @ ts'"
      "pane_key p2 = pane_key p1" "list_all2 (tab_of False) r ts'" "fresh_tabs aw2 aw3 ts'" "grows aw2 aw3"
      "spare n aw3" "next_pane aw3 = next_pane aw2" by blast
  have "restore_pane dwd ts aw = (select_tab 0 p2, pend2, aw3)"
    using Cons f(1) l(1) by (simp add: restore_pane_def next_pane_id_def aw1_def)
  moreover have "pane_ok (select_tab 0 p2)" using f(2) l(2) by (simp add: pane_ok_def select_tab_def)
  moreover have "fresh_tabs aw1 aw3 (tabs p2)" using fresh_tabs_append [OF f(5) l(5) f(6) l(6)] f(2) l(2) by simp
  then have "fresh_tabs aw aw3 (tabs p2)" using ft(1) by (simp add: aw1_def)
  moreover have "grows aw aw3" using grows_trans [OF grows_trans [OF g1 f(6) [unfolded aw1_def]] l(6)] .
  moreover have "tabs_of ts (tabs p2)" using Cons f(2,4) l(2,4) by (simp add: tabs_of_def)
  ultimately show ?thesis using f l u by (simp add: select_tab_facts aw1_def)
qed

end
