(* ===== verification/Session_Build.thy ===== *)
theory Session_Build
  imports Session_Facts
begin

text \<open>
  The whole layout: \<open>build_layout_widget\<close> returns for every snapshot, and the workspace it fills and the
  tree it builds have the shape of the snapshot.
\<close>

section \<open>Sizes\<close>

fun ls_leaves :: "LayoutSnapshot \<Rightarrow> nat" where
  "ls_leaves (LSingle _) = 1"
| "ls_leaves (LSplit _ _ a b) = ls_leaves a + ls_leaves b"

fun ls_slots :: "LayoutSnapshot \<Rightarrow> nat" where
  "ls_slots (LSingle ts) = tab_slots ts"
| "ls_slots (LSplit _ _ a b) = ls_slots a + ls_slots b"

lemma ls_leaves_pos [simp]: "0 < ls_leaves ls"
  by (induction ls) auto

lemma length_ids: "length (ids u) = 2 * length (ipanes u) - 1"
proof (induction u)
  case (ISplit n ori r a b)
  obtain x y where "length (ipanes a) = Suc x" "length (ipanes b) = Suc y"
    using lpanes_not_Nil [of "erase a"] lpanes_not_Nil [of "erase b"]
    by (cases "ipanes a"; cases "ipanes b") auto
  with ISplit show ?case by simp
qed simp

definition order_ok :: "(SplitTree \<Rightarrow> NodeId list) \<Rightarrow> bool" where
  "order_ok order \<longleftrightarrow>
     (\<forall>t. finite (dom (nodes t)) \<longrightarrow> distinct (order t) \<and> set (order t) = dom (nodes t))"

lemma order_represents:
  assumes "order_ok order" "represents T (Some L)"
  shows "distinct (order T)" "set (order T) = dom (nodes T)" "length (order T) = 2 * length (lpanes L) - 1"
proof -
  obtain u where u: "owns T u" "erase u = L" using assms(2) by auto
  note o = ownsD [OF u(1)]
  have "finite (dom (nodes T))" using o(3) by simp
  with assms(1) show d: "distinct (order T)" "set (order T) = dom (nodes T)" by (auto simp: order_ok_def)
  have "length (order T) = card (set (ids u))" using distinct_card [OF d(1)] d(2) o(3) by simp
  then show "length (order T) = 2 * length (lpanes L) - 1"
    using distinct_card [OF o(4)] length_ids [of u] u(2) by simp
qed

lemma square_step:
  fixes a b :: nat
  assumes "0 < a" "0 < b"
  shows "max (a\<^sup>2) (b\<^sup>2) + (2 * a - 1) + (2 * b - 1) + 1 \<le> (a + b)\<^sup>2"
proof -
  obtain a' b' where ab: "a = Suc a'" "b = Suc b'" using assms by (cases a; cases b) auto
  show ?thesis unfolding ab power2_eq_square by (simp add: algebra_simps max_def)
qed

section \<open>Shape\<close>

fun restores :: "(PaneId, Pane) hashmap \<Rightarrow> LayoutSnapshot \<Rightarrow> layout \<Rightarrow> bool" where
  "restores m (LSingle ts) (Pane p) = (\<exists>pane. hm_get m p = Some pane \<and> tabs_of ts (tabs pane))"
| "restores m (LSplit ori r a b) (Tile ori' r' x y) =
     (ori' = parse_orientation ori \<and> r' = r \<and> restores m a x \<and> restores m b y)"
| "restores m _ _ = False"

lemma restores_cong:
  "(\<And>p. p \<in> set (lpanes L) \<Longrightarrow> hm_get m' p = hm_get m p) \<Longrightarrow> restores m ls L = restores m' ls L"
  by (induction m ls L rule: restores.induct) auto

definition built ::
  "AppWindow \<Rightarrow> LayoutSnapshot \<Rightarrow> Workspace \<Rightarrow> layout_build \<Rightarrow> (PaneId, Pane) hashmap \<Rightarrow> layout \<Rightarrow> bool" where
  "built aw ls ws b new L \<longleftrightarrow>
     lb_ws b = ws\<lparr>ws_panes := ws_panes ws @ new\<rparr> \<and>
     represents (lb_tree b) (Some L) \<and> lpanes L = map fst new \<and> length new = ls_leaves ls \<and>
     focused (lb_tree b) = first_opt (map fst new) \<and>
     (\<forall>(p, v)\<in>set new. pane_key v = p \<and> pane_ok v \<and> \<not> pane_below aw p \<and> pane_below (lb_win b) p) \<and>
     fresh_tabs aw (lb_win b) (concat (map (tabs \<circ> snd) new)) \<and> restores new ls L \<and>
     grows aw (lb_win b) \<and> unat (next_id (lb_tree b)) \<le> (ls_leaves ls)\<^sup>2 \<and>
     (\<forall>n\<in>set (lb_paneds b). n < next_id (lb_tree b)) \<and>
     (case ls of LSingle _ \<Rightarrow> lb_paneds b = []
      | LSplit _ _ _ _ \<Rightarrow> Some (last (lb_paneds b)) = tree_root (lb_tree b) \<and>
          length (lb_paneds b) = ls_leaves ls - 1 \<and> set (butlast (lb_paneds b)) \<inter> dom (nodes (lb_tree b)) = {})"

lemma builtD:
  assumes "built aw ls ws b new L"
  shows "lb_ws b = ws\<lparr>ws_panes := ws_panes ws @ new\<rparr>" "represents (lb_tree b) (Some L)"
    "lpanes L = map fst new" "length new = ls_leaves ls" "focused (lb_tree b) = first_opt (map fst new)"
    "(p, v) \<in> set new \<Longrightarrow> pane_key v = p \<and> pane_ok v \<and> \<not> pane_below aw p \<and> pane_below (lb_win b) p"
    "fresh_tabs aw (lb_win b) (concat (map (tabs \<circ> snd) new))" "restores new ls L" "grows aw (lb_win b)"
    "unat (next_id (lb_tree b)) \<le> (ls_leaves ls)\<^sup>2"
    "\<And>n. n \<in> set (lb_paneds b) \<Longrightarrow> n < next_id (lb_tree b)"
    "(case ls of LSingle _ \<Rightarrow> lb_paneds b = []
      | LSplit _ _ _ _ \<Rightarrow> Some (last (lb_paneds b)) = tree_root (lb_tree b) \<and>
          length (lb_paneds b) = ls_leaves ls - 1 \<and> set (butlast (lb_paneds b)) \<inter> dom (nodes (lb_tree b)) = {})"
  using assms unfolding built_def by (auto simp del: represents.simps)

lemma distinct_lpanes: "represents T (Some L) \<Longrightarrow> distinct (lpanes L)"
  by (auto dest: ownsD(5))

lemma root_in_nodes: "represents T (Some L) \<Longrightarrow> \<exists>n. tree_root T = Some n \<and> n \<in> dom (nodes T) \<and> n < next_id T"
  using ownsD(1,3,6) by fastforce

lemma build_single:
  assumes "\<And>p. hm_contains (ws_panes ws) p \<Longrightarrow> pane_below aw p" "spare (tab_slots ts + n) aw"
  shows "\<exists>b new L. build_layout_widget order dwd (LSingle ts) ws aw = Some b \<and>
    built aw (LSingle ts) ws b new L \<and> spare n (lb_win b)"
proof -
  obtain pane pend aw' where r: "restore_pane dwd ts aw = (pane, pend, aw')" "pane_key pane = next_pane aw"
    "pane_ok pane" "tabs_of ts (tabs pane)" "fresh_tabs aw aw' (tabs pane)" "grows aw aw'"
    "next_pane aw < next_pane aw'" "spare n aw'"
    using restore_pane_spec [OF assms(2)] by blast
  have new: "\<not> hm_contains (ws_panes ws) (next_pane aw)" using assms(1) by (auto simp: pane_below_def)
  have ins: "hm_insert (next_pane aw) pane (ws_panes ws) = ws_panes ws @ [(next_pane aw, pane)]"
    by (rule hm_insert_fresh) (use new in \<open>simp add: hm_contains_keys\<close>)
  have rep: "represents (new_with_pane (next_pane aw)) (Some (Pane (next_pane aw)))"
    by (rule represents_new_with_pane)
  have "next_id (new_with_pane (next_pane aw)) = 1" "focused (new_with_pane (next_pane aw)) = Some (next_pane aw)"
    by (simp_all add: new_with_pane_def alloc_id_def insert_node_def SplitTree_new_def Let_def)
  then show ?thesis using r new rep ins
    by (intro exI conjI) (auto simp: built_def add_pane_def pane_below_def simp del: represents.simps)
qed

lemma build_merge:
  assumes x: "built aw a ws x nx Lx" and y: "built (lb_win x) b (lb_ws x) y ny Ly"
    and order: "order_ok order" and size: "(ls_leaves a + ls_leaves b)\<^sup>2 < 2 ^ 32"
  shows "\<exists>T. merge (order (lb_tree x)) (order (lb_tree y)) (lb_tree x) (lb_tree y) ori r = Some T \<and>
    represents T (Some (Tile ori r Lx Ly)) \<and> focused T = first_opt (map fst (nx @ ny)) \<and>
    unat (next_id T) \<le> (ls_leaves a + ls_leaves b)\<^sup>2 \<and>
    (\<forall>n\<in>dom (nodes T). next_id (lb_tree x) \<le> n \<and> next_id (lb_tree y) \<le> n) \<and>
    next_id (lb_tree x) \<le> next_id T \<and> next_id (lb_tree y) \<le> next_id T"
proof -
  note dx = builtD [OF x] and dy = builtD [OF y]
  note ox = order_represents [OF order dx(2)] and oy = order_represents [OF order dy(2)]
  have lx: "length (lpanes Lx) = ls_leaves a" "length (lpanes Ly) = ls_leaves b"
    using dx(3,4) dy(3,4) by simp_all
  have disj: "set (lpanes Lx) \<inter> set (lpanes Ly) = {}"
    using dx(6) dy(6) unfolding dx(3) dy(3) by fastforce
  have sq: "max (unat (next_id (lb_tree x))) (unat (next_id (lb_tree y))) + length (order (lb_tree x)) +
      length (order (lb_tree y)) + 1 \<le> (ls_leaves a + ls_leaves b)\<^sup>2"
  proof -
    have "max (unat (next_id (lb_tree x))) (unat (next_id (lb_tree y))) \<le> max ((ls_leaves a)\<^sup>2) ((ls_leaves b)\<^sup>2)"
      using dx(10) dy(10) by (rule max.mono)
    then show ?thesis using square_step [OF ls_leaves_pos ls_leaves_pos, of a b] unfolding ox(3) oy(3) lx by linarith
  qed
  then have room: "max (unat (next_id (lb_tree x))) (unat (next_id (lb_tree y))) + length (order (lb_tree x)) +
      length (order (lb_tree y)) + 1 < 2 ^ 32" using size by linarith
  obtain T where T: "merge (order (lb_tree x)) (order (lb_tree y)) (lb_tree x) (lb_tree y) ori r = Some T"
    "represents T (Some (Tile ori r Lx Ly))" "focused T = first_opt (lpanes Lx @ lpanes Ly)"
    "unat (next_id T) = max (unat (next_id (lb_tree x))) (unat (next_id (lb_tree y))) +
       length (order (lb_tree x)) + length (order (lb_tree y)) + 1"
    "\<forall>n\<in>dom (nodes T). next_id (lb_tree x) \<le> n \<and> next_id (lb_tree y) \<le> n"
    using merge_refines_ids [OF dx(2) dy(2) ox(1,2) oy(1,2) disj room] by blast
  moreover have "next_id (lb_tree x) \<le> next_id T" "next_id (lb_tree y) \<le> next_id T"
    using T(4) by (simp_all add: word_le_nat_alt)
  moreover have "first_opt (lpanes Lx @ lpanes Ly) = first_opt (map fst (nx @ ny))" by (simp add: dx(3) dy(3))
  ultimately show ?thesis using sq by auto
qed

lemma build_spec:
  assumes "hm_ok (ws_panes ws)" "\<And>p. hm_contains (ws_panes ws) p \<Longrightarrow> pane_below aw p"
    "spare (ls_slots ls + n) aw" "order_ok order" "(ls_leaves ls)\<^sup>2 < 2 ^ 32"
  shows "\<exists>b new L. build_layout_widget order dwd ls ws aw = Some b \<and> built aw ls ws b new L \<and> spare n (lb_win b)"
  using assms
proof (induction ls arbitrary: ws aw n)
  case (LSingle ts)
  from build_single [OF LSingle(2), where ts = ts and n = n] LSingle(3) show ?case by simp
next
  case (LSplit ori r a b)
  have "(ls_leaves a)\<^sup>2 \<le> (ls_leaves a + ls_leaves b)\<^sup>2" "(ls_leaves b)\<^sup>2 \<le> (ls_leaves a + ls_leaves b)\<^sup>2"
    by (rule power_mono; simp)+
  then have sq: "(ls_leaves a)\<^sup>2 < 2 ^ 32" "(ls_leaves b)\<^sup>2 < 2 ^ 32"
    using LSplit.prems(5) unfolding ls_leaves.simps by linarith+
  have "spare (ls_slots a + (ls_slots b + n)) aw" using LSplit.prems(3) by (simp add: add.assoc)
  from LSplit.IH(1) [OF LSplit.prems(1,2) this LSplit.prems(4) sq(1)]
  obtain x nx Lx where x: "build_layout_widget order dwd a ws aw = Some x" "built aw a ws x nx Lx"
    "spare (ls_slots b + n) (lb_win x)" by blast
  note dx = builtD [OF x(2)]
  have dnx: "distinct (map fst nx)" using distinct_lpanes [OF dx(2)] by (simp add: dx(3))
  have "p \<notin> fst ` set nx" if "p \<in> fst ` set (ws_panes ws)" for p
    using that LSplit.prems(2) [of p] dx(6) by (auto simp: hm_contains_keys)
  then have "hm_ok (ws_panes (lb_ws x))"
    using LSplit.prems(1) dx(1) dnx by (auto simp: hm_ok_def)
  moreover have "pane_below (lb_win x) p" if "hm_contains (ws_panes (lb_ws x)) p" for p
    using that LSplit.prems(2) dx(1,6) grows_below(2) [OF dx(9)] by (auto simp: hm_contains_keys)
  ultimately obtain y ny Ly where y: "build_layout_widget order dwd b (lb_ws x) (lb_win x) = Some y"
    "built (lb_win x) b (lb_ws x) y ny Ly" "spare n (lb_win y)"
    using LSplit.IH(2) [OF _ _ x(3) LSplit.prems(4) sq(2)] by blast
  note dy = builtD [OF y(2)]
  obtain T where T: "merge (order (lb_tree x)) (order (lb_tree y)) (lb_tree x) (lb_tree y) (parse_orientation ori) r = Some T"
    "represents T (Some (Tile (parse_orientation ori) r Lx Ly))" "focused T = first_opt (map fst (nx @ ny))"
    "unat (next_id T) \<le> (ls_leaves a + ls_leaves b)\<^sup>2"
    "\<forall>n\<in>dom (nodes T). next_id (lb_tree x) \<le> n \<and> next_id (lb_tree y) \<le> n"
    "next_id (lb_tree x) \<le> next_id T" "next_id (lb_tree y) \<le> next_id T"
    using build_merge [OF x(2) y(2) LSplit.prems(4,5) [unfolded ls_leaves.simps], of "parse_orientation ori" r]
    by blast
  obtain rt where rt: "tree_root T = Some rt" "rt \<in> dom (nodes T)" "rt < next_id T" using root_in_nodes [OF T(2)] by blast
  let ?b = "\<lparr>lb_tree = T, lb_ws = lb_ws y, lb_paneds = lb_paneds x @ lb_paneds y @ [rt],
      lb_pending = lb_pending x @ lb_pending y, lb_win = lb_win y\<rparr>"
  have ev: "build_layout_widget order dwd (LSplit ori r a b) ws aw = Some ?b"
    using x(1) y(1) T(1) rt(1) by simp
  have keys: "p \<notin> fst ` set nx" if "p \<in> fst ` set ny" for p using that dx(6) dy(6) by fastforce
  have "hm_get (nx @ ny) p = hm_get nx p" if "p \<in> set (lpanes Lx)" for p
  proof -
    have "hm_get nx p \<noteq> None" using that unfolding dx(3) by (simp add: map_of_eq_None_iff)
    then show ?thesis by (auto simp: map_add_def)
  qed
  then have r1: "restores (nx @ ny) a Lx" using dx(8) restores_cong [of Lx "nx @ ny" nx] by blast
  have "hm_get (nx @ ny) p = hm_get ny p" if "p \<in> set (lpanes Ly)" for p
  proof -
    have "hm_get nx p = None" using that keys [of p] unfolding dy(3) by (simp add: map_of_eq_None_iff)
    then show ?thesis by (simp add: map_add_def)
  qed
  then have r2: "restores (nx @ ny) b Ly" using dy(8) restores_cong [of Ly "nx @ ny" ny] by blast
  have ft: "fresh_tabs aw (lb_win y) (concat (map (tabs \<circ> snd) (nx @ ny)))"
    using fresh_tabs_append [OF dx(7) dy(7) dx(9) dy(9)] by simp
  have pans: "\<forall>(p, v)\<in>set (nx @ ny). pane_key v = p \<and> pane_ok v \<and> \<not> pane_below aw p \<and> pane_below (lb_win y) p"
    using dx(6) dy(6) grows_below(2) [OF dx(9)] grows_below(2) [OF dy(9)] by fastforce
  have stale: "m \<notin> dom (nodes T)" if "m \<in> set (lb_paneds x) \<union> set (lb_paneds y)" for m
    using that dx(11) dy(11) T(5) by (meson UnE leD)
  have "built aw (LSplit ori r a b) ws ?b (nx @ ny) (Tile (parse_orientation ori) r Lx Ly)"
    unfolding built_def
  proof (intro conjI)
    show "\<forall>n\<in>set (lb_paneds ?b). n < next_id (lb_tree ?b)"
      using dx(11) dy(11) T(6,7) rt(3) by (auto intro: less_le_trans)
    have "length (lb_paneds x) = ls_leaves a - 1" "length (lb_paneds y) = ls_leaves b - 1"
      using dx(12) dy(12) by (auto split: LayoutSnapshot.splits)
    then have "length (lb_paneds ?b) = ls_leaves (LSplit ori r a b) - 1"
      by (simp add: Suc_leI)
    then show "case LSplit ori r a b of LSingle _ \<Rightarrow> lb_paneds ?b = []
      | LSplit _ _ _ _ \<Rightarrow> Some (last (lb_paneds ?b)) = tree_root (lb_tree ?b) \<and>
          length (lb_paneds ?b) = ls_leaves (LSplit ori r a b) - 1 \<and>
          set (butlast (lb_paneds ?b)) \<inter> dom (nodes (lb_tree ?b)) = {}"
      using stale rt by (auto simp: butlast_append)
  qed (use T ft pans r1 r2 dx(1,3,4) dy(1,3,4) grows_trans [OF dx(9) dy(9)] in
       \<open>simp_all del: represents.simps\<close>)
  with ev y(3) show ?case by auto
qed

end
