(* ===== verification/Session_Props.thy ===== *)
theory Session_Props
  imports Session_Build
begin

text \<open>
  Saving and restoring: a snapshot always exists, restoring it always succeeds and gives a well-formed
  window, and the restored workspace has the saved layout, panels and metadata.
\<close>

section \<open>What a round trip keeps\<close>

text \<open>The snapshot of a tab that was just restored, in a window whose panels show what they were created with.\<close>

definition no_readers :: readers where
  "no_readers = \<lparr>scrollback_reader = (\<lambda>_. None), url_reader = (\<lambda>_. None)\<rparr>"

definition kept_title :: "string option \<Rightarrow> string option" where
  "kept_title t = (if t = Some [] then None else t)"

definition forget_tab :: "bool \<Rightarrow> PaneTabSnapshot \<Rightarrow> PaneTabSnapshot" where
  "forget_tab is_first t =
     (if pts_is_browser t
      then \<lparr>pts_dir = None, pts_title = (if is_first then None else kept_title (pts_title t)),
            pts_scrollback = None, pts_kind = Some ''browser'', pts_url = Some (unwrap_or (pts_url t) [])\<rparr>
      else \<lparr>pts_dir = (if is_first then None else pts_dir t),
            pts_title = (if is_first then None else kept_title (pts_title t)),
            pts_scrollback = None, pts_kind = Some ''terminal'', pts_url = None\<rparr>)"

fun forget :: "LayoutSnapshot \<Rightarrow> LayoutSnapshot" where
  "forget (LSingle []) =
     LSingle [\<lparr>pts_dir = None, pts_title = None, pts_scrollback = None, pts_kind = Some ''terminal'', pts_url = None\<rparr>]"
| "forget (LSingle (t # ts)) = LSingle (forget_tab True t # map (forget_tab False) ts)"
| "forget (LSplit ori r a b) =
     LSplit (if ori = ''vertical'' then ''vertical'' else ''horizontal'') r (forget a) (forget b)"

fun snap :: "readers \<Rightarrow> (PaneId, Pane) hashmap \<Rightarrow> layout \<Rightarrow> LayoutSnapshot" where
  "snap rd m (Pane p) =
     LSingle (case hm_get m p of None \<Rightarrow> [] | Some pane \<Rightarrow> map (to_snapshot rd) (tabs pane))"
| "snap rd m (Tile ori r a b) =
     LSplit (case ori of Horizontal \<Rightarrow> ''horizontal'' | Vertical \<Rightarrow> ''vertical'') r (snap rd m a) (snap rd m b)"

lemma snapshot_repr:
  "repr h u \<Longrightarrow> snapshot_layout_node rd h m (nid u) = Some (snap rd m (erase u))"
  by (induction u) (subst snapshot_layout_node.simps; simp)+

lemma snapshot_represents:
  assumes "represents T (Some L)"
  shows "(case tree_root T of Some r \<Rightarrow> snapshot_layout_node rd (nodes T) m r | None \<Rightarrow> Some (LSingle [])) =
    Some (snap rd m L)"
  using assms snapshot_repr ownsD(1,2) by fastforce

lemma workspace_snapshot_Some:
  assumes "represents (split_tree ws) (Some L)"
  shows "\<exists>s. workspace_snapshot rd ws = Some s \<and> wss_layout s = snap rd (ws_panes ws) L \<and>
    wss_title s = ws_title ws \<and> wss_custom_title s = custom_title ws \<and> wss_dir s = ws_dir ws \<and>
    wss_color s = map_option color_str (ws_color ws) \<and> wss_pinned s = Some (pinned ws) \<and>
    wss_status s = non_empty (map (status_snapshot \<circ> snd) (status_entries ws)) \<and>
    wss_log s = non_empty (map log_snapshot (log_entries ws)) \<and>
    wss_progress s = map_option (\<lambda>p. \<lparr>prs_value = progress_value p, prs_label = progress_label p\<rparr>)
      (ws_progress ws) \<and> wss_remote s = remote_config ws"
  unfolding workspace_snapshot_def snapshot_represents [OF assms] by simp

lemma snapshot_restored_tab: "tab_of f t t' \<Longrightarrow> to_snapshot no_readers t' = forget_tab f t"
  by (cases "panel t'"; cases "pts_title t")
    (auto simp: tab_of_def to_snapshot_def no_readers_def forget_tab_def restored_tab_def kind_matches_def
      kept_title_def)

lemma snapshot_restored_tabs: "list_all2 (tab_of f) ts ts' \<Longrightarrow> map (to_snapshot no_readers) ts' = map (forget_tab f) ts"
  by (induction rule: list_all2_induct) (auto dest: snapshot_restored_tab)

lemma snap_restores: "restores m ls L \<Longrightarrow> snap no_readers m L = forget ls"
proof (induction m ls L rule: restores.induct)
  case (1 m ts p)
  then obtain pane where "hm_get m p = Some pane" "tabs_of ts (tabs pane)" by auto
  moreover have "to_snapshot no_readers (fresh_tab (Terminal i)) =
      \<lparr>pts_dir = None, pts_title = None, pts_scrollback = None, pts_kind = Some ''terminal'', pts_url = None\<rparr>" for i
    by (simp add: to_snapshot_def no_readers_def fresh_tab_def)
  ultimately show ?case
    by (cases ts) (auto simp: tabs_of_def snapshot_restored_tab snapshot_restored_tabs)
qed (auto simp: parse_orientation_def split: if_splits)

lemma forget_idem: "forget (forget ls) = forget ls"
proof (induction ls rule: forget.induct)
  case (2 t ts)
  then show ?case by (auto simp: forget_tab_def pts_is_browser_def kept_title_def)
qed (auto simp: forget_tab_def pts_is_browser_def kept_title_def)

section \<open>The restored workspace\<close>

lemma from_name_str [simp]: "from_name (color_str c) = Some c"
  by (cases c) (simp_all add: from_name_def to_lowercase_def ascii_lower_def code_def Let_def)

lemma log_level_str_inv [simp]: "log_level_from_str (log_level_str l) = l"
  by (cases l) (simp_all add: log_level_from_str_def)

lemma restore_meta_fields [simp]:
  "ws_panes (restore_meta now s ws) = ws_panes ws" "split_tree (restore_meta now s ws) = split_tree ws"
  "ws_key (restore_meta now s ws) = ws_key ws" "custom_title (restore_meta now s ws) = custom_title ws"
  "ws_title (restore_meta now s ws) = ws_title ws" "ws_dir (restore_meta now s ws) = ws_dir ws"
  "ws_color (restore_meta now s ws) = ws_color ws" "pinned (restore_meta now s ws) = pinned ws"
  "remote_config (restore_meta now s ws) = remote_config ws"
  by (simp_all add: restore_meta_def Let_def split: option.split)

lemma built_ws_ok:
  assumes b: "built aw ls ws b new L" and ws: "ws_panes ws = []"
  shows "ws_ok ((lb_ws b)\<lparr>split_tree := lb_tree b\<rparr>)"
proof -
  note d = builtD [OF b]
  have dn: "distinct (map fst new)" using distinct_lpanes [OF d(2)] by (simp add: d(3))
  have ne: "new \<noteq> []" using d(4) ls_leaves_pos [of ls] by (metis list.size(3) less_irrefl)
  have to: "tree_order (lb_tree b) = map fst new" using tree_order_represents [OF d(2)] d(3) by simp
  have "good_tree (lb_tree b)"
    by (rule good_treeI [OF d(2)]) (use d(3,5) ne in \<open>cases new; simp\<close>)
  moreover have "panes_ok new" using dn d(6) by (auto simp: panes_ok_def hm_ok_def dest: map_of_SomeD)
  ultimately show ?thesis using d(1) ws to ne by (simp add: ws_ok_def hm_contains_keys)
qed

lemma built_push_ok:
  assumes ok: "window_ok aw" and b: "built aw1 ls ws b new L" and ws: "ws_panes ws = []" "ws_key ws = next_workspace aw"
    and aw1: "aw1 = aw\<lparr>next_workspace := next_workspace aw + 1\<rparr>" "unat (next_workspace aw) + 1 < 2 ^ 32"
    and ws': "ws_panes ws' = ws_panes (lb_ws b)" "split_tree ws' = lb_tree b" "ws_key ws' = ws_key ws"
  shows "window_ok ((lb_win b)\<lparr>workspaces := workspaces aw @ [ws']\<rparr>)"
proof -
  note d = builtD [OF b]
  note g = d(9) [unfolded grows_def aw1(1)]
  have n1: "next_workspace aw < next_workspace aw + 1" by (rule u32_less_Suc [OF aw1(2)])
  have okw: "window_ok (lb_win b)" by (rule window_ok_bump [OF ok]) (use g n1 in simp_all)
  have wsok: "ws_ok ws'" using built_ws_ok [OF b ws(1)] ws' by (simp add: ws_ok_def)
  have panes: "ws_panes ws' = new" using ws'(1) d(1) ws(1) by simp
  have tabs: "tab_idents ws' = map ident (concat (map (tabs \<circ> snd) new))"
    by (simp add: tab_idents_def ws_tabs_def panes)
  have W: "workspaces (lb_win b) = workspaces aw" using g by simp
  have below: "ident_below aw1 = ident_below aw" "pane_below aw1 = pane_below aw"
    by (auto simp: aw1(1) fun_eq_iff ident_below_def pane_below_def split: TabDragIdentity.split)
  have old: "\<And>x. x \<in> set (win_ids tab_idents (workspaces aw)) \<Longrightarrow> ident_below aw x"
    "\<And>x. x \<in> set (win_ids pane_ids (workspaces aw)) \<Longrightarrow> pane_below aw x"
    using ok by (auto simp: window_ok_def ids_ok_def alloc_ok_def)
  have ft: "distinct (tab_idents ws')" "\<And>x. x \<in> set (tab_idents ws') \<Longrightarrow> \<not> ident_below aw x \<and> ident_below (lb_win b) x"
    using d(7) unfolding fresh_tabs_def below(1) tabs by auto
  have "window_ok ((lb_win b)\<lparr>workspaces := workspaces (lb_win b) @ [ws']\<rparr>)"
  proof (rule window_ok_push [OF okw wsok])
    show "ws_key ws' \<notin> set (win_ids ws_ids (workspaces (lb_win b)))"
      using fresh_workspace [OF ok] W ws(2) ws'(3) by simp
    show "ws_below (lb_win b) (ws_key ws')" using g n1 ws(2) ws'(3) by (simp add: ws_below_def)
    show "p \<notin> set (win_ids pane_ids (workspaces (lb_win b))) \<and> pane_below (lb_win b) p" if "p \<in> set (pane_ids ws')" for p
      using that d(6) old(2) W below(2) by (fastforce simp: pane_ids_def panes)
    show "distinct (tab_idents ws')" by (rule ft(1))
    show "t \<notin> set (win_ids tab_idents (workspaces (lb_win b))) \<and> ident_below (lb_win b) t" if "t \<in> set (tab_idents ws')" for t
      using ft(2) [OF that] old(1) W by auto
  qed
  then show ?thesis by (simp add: W)
qed

lemma foldl_pending [simp]: "reg_next_id (foldl (\<lambda>r s. remove_pending s r) r ss) = reg_next_id r"
  by (induction ss arbitrary: r) simp_all

text \<open>
  \<open>restored_from env s ws\<close>: the workspace \<open>ws\<close> is what the snapshot \<open>s\<close> describes. Its own snapshot has
  the layout of \<open>s\<close> up to what \<open>forget\<close> drops, and the metadata is the saved one.
\<close>

definition restored_from :: "restore_env \<Rightarrow> WorkspaceSnapshot \<Rightarrow> Workspace \<Rightarrow> bool" where
  "restored_from env s ws \<longleftrightarrow>
     map_option wss_layout (workspace_snapshot no_readers ws) = Some (forget (wss_layout s)) \<and>
     custom_title ws = wss_custom_title s \<and> ws_dir ws = wss_dir s \<and>
     ws_color ws = Option.bind (wss_color s) from_name \<and> pinned ws = unwrap_or (wss_pinned s) False \<and>
     status_entries ws = foldl (\<lambda>m e. hm_insert (ses_key e) (restore_status e) m) [] (unwrap_or (wss_status s) []) \<and>
     log_entries ws = map (restore_log (re_now env)) (unwrap_or (wss_log s) []) \<and>
     ws_progress ws = map_option (\<lambda>p. \<lparr>progress_value = prs_value p, progress_label = prs_label p\<rparr>) (wss_progress s) \<and>
     remote_config ws = map_option (fresh_credentials (re_credentials env (ws_key ws))) (wss_remote s) \<and>
     ws_focused_pane ws = first_opt (map fst (ws_panes ws))"

lemma restore_workspace_spec:
  assumes ok: "window_ok aw" and sp: "spare (ls_slots (wss_layout s) + n) aw" "unat (next_workspace aw) + 1 < 2 ^ 32"
    and order: "order_ok (re_order env)" and size: "(ls_leaves (wss_layout s))\<^sup>2 < 2 ^ 32"
  shows "\<exists>aw' ws'. restore_workspace_from_layout env s aw = Some aw' \<and> window_ok aw' \<and>
    workspaces aw' = workspaces aw @ [ws'] \<and> restored_from env s ws' \<and>
    spare n aw' \<and> next_workspace aw' = next_workspace aw + 1"
proof -
  let ?k = "next_workspace aw"
  define aw1 where "aw1 = aw\<lparr>next_workspace := ?k + 1\<rparr>"
  define ws where "ws = (Workspace_new ?k)\<lparr>custom_title := wss_custom_title s,
     ws_title := unwrap_or (wss_custom_title s) (''Workspace '' @ nat_str (length (workspaces aw1) + 1)),
     ws_dir := wss_dir s, ws_color := Option.bind (wss_color s) from_name,
     pinned := unwrap_or (wss_pinned s) False, remote_config := wss_remote s\<rparr>"
  have wf: "ws_panes ws = []" "ws_key ws = ?k" "status_entries ws = []" "log_entries ws = []" "ws_progress ws = None"
    by (simp_all add: ws_def Workspace_new_def)
  have "spare (ls_slots (wss_layout s) + n) aw1" using sp(1) by (simp add: spare_def aw1_def)
  from build_spec [OF _ _ this order size, of ws "app_dir aw1"] obtain b new L where
    b: "build_layout_widget (re_order env) (app_dir aw1) (wss_layout s) ws aw1 = Some b"
      "built aw1 (wss_layout s) ws b new L" "spare n (lb_win b)"
    using wf(1) by (auto simp: hm_ok_def)
  note d = builtD [OF b(2)]
  define ws1 where "ws1 = restore_meta (re_now env) s ((lb_ws b)\<lparr>split_tree := lb_tree b\<rparr>)"
  define cfg where "cfg = map_option (fresh_credentials (re_credentials env ?k)) (wss_remote s)"
  define ws2 where "ws2 = (case cfg of Some c \<Rightarrow> ws1\<lparr>remote_config := Some c, remote_state := Connecting\<rparr> | None \<Rightarrow> ws1)"
  have W: "workspaces (lb_win b) = workspaces aw" using d(9) by (simp add: grows_def aw1_def)
  let ?i = "length (workspaces aw)"
  have f1: "ws_panes ws1 = new" "split_tree ws1 = lb_tree b" "ws_key ws1 = ?k" "remote_config ws1 = wss_remote s"
    "custom_title ws1 = wss_custom_title s" "ws_dir ws1 = wss_dir s"
    "ws_color ws1 = Option.bind (wss_color s) from_name" "pinned ws1 = unwrap_or (wss_pinned s) False"
    unfolding ws1_def using d(1) wf(1,2) by (simp_all add: ws_def Workspace_new_def)
  have f2: "ws_panes ws2 = new" "split_tree ws2 = lb_tree b" "ws_key ws2 = ?k"
    using f1 by (simp_all add: ws2_def split: option.split)
  obtain p0 where p0: "first_opt (map fst new) = Some p0"
    using d(4) ls_leaves_pos [of "wss_layout s"] by (cases new) auto
  have foc: "ws_focused_pane ws1 = Some p0" using d(5) f1(2) p0 by (simp add: ws_focused_pane_def focused_pane_def)
  have same: "set_focused p0 (lb_tree b) = lb_tree b" using d(5) p0 by (simp add: set_focused_def)
  have "window_ok ((lb_win b)\<lparr>workspaces := workspaces aw @ [ws2]\<rparr>)"
    by (rule built_push_ok [OF ok b(2) wf(1,2) aw1_def sp(2)]) (use f2 d(1) wf in simp_all)
  note ok2 = this
  let ?aw2 = "(lb_win b)\<lparr>workspaces := workspaces aw @ [ws1],
     current_page := re_appended env (current_page (lb_win b)) ?i\<rparr>"
  define aw3 where "aw3 = set_pane_active ?i p0 ?aw2"
  have "set_focused_pane p0 ws1 = ws1" using same f1(2) by (simp add: set_focused_pane_def)
  then have a3: "workspaces aw3 = workspaces aw @ [ws1]" "next_workspace aw3 = next_workspace (lb_win b)"
    "next_pane aw3 = next_pane (lb_win b)" "next_browser aw3 = next_browser (lb_win b)" "registry aw3 = registry (lb_win b)"
    by (simp_all add: aw3_def set_pane_active_def modify_ws_def focus_active_panel_def emit_def split: option.split)
  define aw4 where "aw4 = (case cfg of
     Some c \<Rightarrow> modify_ws ?i (\<lambda>ws. ws\<lparr>remote_config := Some c, remote_state := Connecting\<rparr>) aw3 | None \<Rightarrow> aw3)"
  have a4: "workspaces aw4 = workspaces aw @ [ws2]" "next_workspace aw4 = next_workspace (lb_win b)"
    "next_pane aw4 = next_pane (lb_win b)" "next_browser aw4 = next_browser (lb_win b)" "registry aw4 = registry (lb_win b)"
    using a3 by (simp_all add: aw4_def ws2_def modify_ws_def split: option.split)
  let ?aw5 = "aw4\<lparr>registry := foldl (\<lambda>r s. remove_pending s r) (registry aw4) (lb_pending b)\<rparr>"
  define aw' where "aw' = (case cfg of Some c \<Rightarrow> emit (ControllerConnect ?k c) ?aw5 | None \<Rightarrow> ?aw5)"
  have ev: "restore_workspace_from_layout env s aw = Some aw'"
    unfolding restore_workspace_from_layout_def next_workspace_id_def Let_def prod.case aw1_def [symmetric]
      ws_def [symmetric] b(1) bind.simps ws1_def [symmetric] W foc or_else.simps option.case f1(4)
      cfg_def [symmetric] aw3_def [symmetric] aw4_def [symmetric] aw'_def [symmetric] ..
  have a': "workspaces aw' = workspaces aw @ [ws2]" "next_workspace aw' = next_workspace (lb_win b)"
    "next_pane aw' = next_pane (lb_win b)" "next_browser aw' = next_browser (lb_win b)"
    "reg_next_id (registry aw') = reg_next_id (registry (lb_win b))"
    using a4 by (simp_all add: aw'_def split: option.split)
  have okf: "window_ok aw'"
    by (subst window_ok_fields [of _ "(lb_win b)\<lparr>workspaces := workspaces aw @ [ws2]\<rparr>"]) (use a' ok2 in simp_all)
  have "represents (split_tree ws2) (Some L)" using d(2) f2(2) by simp
  from workspace_snapshot_Some [OF this, of no_readers]
  have "map_option wss_layout (workspace_snapshot no_readers ws2) = Some (forget (wss_layout s))"
    using snap_restores [OF d(8)] f2(1) by auto
  moreover have "custom_title ws2 = wss_custom_title s" "ws_dir ws2 = wss_dir s"
    "ws_color ws2 = Option.bind (wss_color s) from_name" "pinned ws2 = unwrap_or (wss_pinned s) False"
    "remote_config ws2 = map_option (fresh_credentials (re_credentials env (ws_key ws2))) (wss_remote s)"
    using f1 f2(3) by (simp_all add: ws2_def cfg_def split: option.split)
  moreover have "log_entries ws2 = map (restore_log (re_now env)) (unwrap_or (wss_log s) [])"
    "ws_progress ws2 = map_option (\<lambda>p. \<lparr>progress_value = prs_value p, progress_label = prs_label p\<rparr>) (wss_progress s)"
    "status_entries ws2 = foldl (\<lambda>m e. hm_insert (ses_key e) (restore_status e) m) [] (unwrap_or (wss_status s) [])"
    using wf d(1) by (simp_all add: ws2_def ws1_def restore_meta_def Let_def split: option.split)
  moreover have "ws_focused_pane ws2 = first_opt (map fst (ws_panes ws2))"
    using f2 d(5) by (simp add: ws_focused_pane_def focused_pane_def)
  ultimately have "restored_from env s ws2" unfolding restored_from_def by blast
  moreover have "spare n aw'" using b(3) a' by (simp add: spare_def)
  moreover have "next_workspace aw' = next_workspace aw + 1" using a'(2) d(9) by (simp add: grows_def aw1_def)
  ultimately show ?thesis using ev okf a'(1) by blast
qed

section \<open>The whole session\<close>

lemma restore_workspaces_spec:
  assumes "window_ok aw" "spare (\<Sum>s\<leftarrow>ss. ls_slots (wss_layout s)) aw"
    "unat (next_workspace aw) + length ss < 2 ^ 32" "order_ok (re_order env)"
    "\<And>s. s \<in> set ss \<Longrightarrow> (ls_leaves (wss_layout s))\<^sup>2 < 2 ^ 32"
  shows "\<exists>aw' wss. restore_workspaces env ss aw = Some aw' \<and> window_ok aw' \<and>
    workspaces aw' = workspaces aw @ wss \<and> list_all2 (restored_from env) ss wss"
  using assms
proof (induction ss arbitrary: aw)
  case (Cons s ss)
  have "spare (ls_slots (wss_layout s) + (\<Sum>s\<leftarrow>ss. ls_slots (wss_layout s))) aw" using Cons.prems(2) by simp
  moreover have "unat (next_workspace aw) + 1 < 2 ^ 32" using Cons.prems(3) by simp
  ultimately obtain aw1 ws1 where r: "restore_workspace_from_layout env s aw = Some aw1" "window_ok aw1"
    "workspaces aw1 = workspaces aw @ [ws1]" "restored_from env s ws1"
    "spare (\<Sum>s\<leftarrow>ss. ls_slots (wss_layout s)) aw1" "next_workspace aw1 = next_workspace aw + 1"
    using restore_workspace_spec [OF Cons.prems(1) _ _ Cons.prems(4) Cons.prems(5)] by (meson list.set_intros(1))
  have "unat (next_workspace aw) + Suc (length ss) < 2 ^ 32" using Cons.prems(3) by simp
  from u32_bump(1) [OF this] have "unat (next_workspace aw1) + length ss < 2 ^ 32" by (simp add: r(6))
  from Cons.IH [OF r(2,5) this Cons.prems(4)] Cons.prems(5) obtain aw' wss where
    "restore_workspaces env ss aw1 = Some aw'" "window_ok aw'" "workspaces aw' = workspaces aw1 @ wss"
    "list_all2 (restored_from env) ss wss" by auto
  with r show ?case by (intro exI [of _ aw'] exI [of _ "ws1 # wss"]) simp
qed simp

lemma same_workspaces [simp]:
  "workspaces (goto_workspace n aw) = workspaces aw" "workspaces (toggle_sidebar aw) = workspaces aw"
  by (simp_all add: goto_workspace_def toggle_sidebar_def Let_def)

end
