(* ===== verification/Session_Claims.thy ===== *)
theory Session_Claims
  imports Session_Props Window_Props
begin

text \<open>
  The properties of session persistence: every well-formed window has a snapshot, every snapshot can be
  restored, what the pair keeps and what it drops, and which dividers of a restored layout still report
  to a node of the split tree.
\<close>

section \<open>Facts for the properties\<close>

lemma ws_ok_layout:
  assumes "ws_ok ws"
  obtains L where "represents (split_tree ws) (Some L)"
proof -
  obtain L where "represents (split_tree ws) L" "tree_order (split_tree ws) = layout_panes L"
    using assms unfolding ws_ok_def by (blast elim: good_treeE)
  then show ?thesis using that assms by (cases L) (simp_all add: ws_ok_def del: represents.simps)
qed

lemma collect_run_map:
  assumes "\<And>x. x \<in> set xs \<Longrightarrow> \<exists>y. f x = Some y"
  shows "\<exists>ys. collect_run (map f xs) = Some ys \<and> list_all2 (\<lambda>x y. f x = Some y) xs ys"
  using assms
proof (induction xs)
  case (Cons x xs)
  obtain y where "f x = Some y" using Cons.prems by auto
  moreover obtain ys where "collect_run (map f xs) = Some ys" "list_all2 (\<lambda>x y. f x = Some y) xs ys"
    using Cons by auto
  ultimately show ?case by (intro exI [of _ "y # ys"]) simp
qed simp

lemma restore_status_inv [simp]: "restore_status (status_snapshot e) = e" "ses_key (status_snapshot e) = status_key e"
  by (simp_all add: restore_status_def status_snapshot_def)

lemma status_foldl:
  assumes "distinct (hm_keys (acc @ m))" "\<And>k e. (k, e) \<in> set m \<Longrightarrow> status_key e = k"
  shows "foldl (\<lambda>m e. hm_insert (ses_key e) (restore_status e) m) acc (map (status_snapshot \<circ> snd) m) = acc @ m"
  using assms
proof (induction m arbitrary: acc)
  case (Cons x m)
  obtain k e where x: "x = (k, e)" by fastforce
  have k: "status_key e = k" using Cons.prems(2) x by simp
  have "hm_insert k e acc = acc @ [(k, e)]" using Cons.prems(1) x by (intro hm_insert_fresh) auto
  moreover have
    "foldl (\<lambda>m e. hm_insert (ses_key e) (restore_status e) m) (acc @ [x]) (map (status_snapshot \<circ> snd) m) = (acc @ [x]) @ m"
    by (rule Cons.IH [OF _ Cons.prems(2)]) (use Cons.prems(1) in simp_all)
  ultimately show ?case by (simp add: x k comp_def)
qed simp

text \<open>The entries of a log without their times, which a snapshot does not hold.\<close>

definition untimed :: "SidebarLogEntry \<Rightarrow> string \<times> LogLevel \<times> string option" where
  "untimed e = (log_message e, log_level e, log_source e)"

lemma untimed_restored [simp]: "untimed (restore_log now (log_snapshot e)) = untimed e"
  by (simp add: untimed_def restore_log_def log_snapshot_def)

lemma unwrap_non_empty [simp]: "unwrap_or (non_empty xs) [] = xs"
  by (simp add: non_empty_def)


text \<open>
  \<open>survives env rd ws ws'\<close>: the workspace \<open>ws'\<close> restored in a later session carries what \<open>ws\<close> had.
\<close>

definition survives :: "restore_env \<Rightarrow> readers \<Rightarrow> Workspace \<Rightarrow> Workspace \<Rightarrow> bool" where
  "survives env rd ws ws' \<longleftrightarrow>
     map_option wss_layout (workspace_snapshot no_readers ws') =
       map_option (forget \<circ> wss_layout) (workspace_snapshot rd ws) \<and>
     custom_title ws' = custom_title ws \<and> ws_dir ws' = ws_dir ws \<and> ws_color ws' = ws_color ws \<and>
     pinned ws' = pinned ws \<and> hm_get (status_entries ws') = hm_get (status_entries ws) \<and>
     map untimed (log_entries ws') = map untimed (log_entries ws) \<and> ws_progress ws' = ws_progress ws \<and>
     remote_config ws' = map_option (fresh_credentials (re_credentials env (ws_key ws'))) (remote_config ws)"

text \<open>\<open>status_entries\<close> is filled under the key of the entry only.\<close>

definition status_keyed :: "Workspace \<Rightarrow> bool" where
  "status_keyed ws \<longleftrightarrow> hm_ok (status_entries ws) \<and> (\<forall>(k, e)\<in>set (status_entries ws). status_key e = k)"

lemma restored_survives:
  assumes "ws_ok ws" "status_keyed ws"
  shows "\<exists>s. workspace_snapshot rd ws = Some s \<and> (\<forall>ws'. restored_from env s ws' \<longrightarrow> survives env rd ws ws')"
proof -
  obtain L where L: "represents (split_tree ws) (Some L)" using assms(1) by (rule ws_ok_layout)
  obtain s where s: "workspace_snapshot rd ws = Some s" "wss_custom_title s = custom_title ws" "wss_dir s = ws_dir ws"
    "wss_color s = map_option color_str (ws_color ws)" "wss_pinned s = Some (pinned ws)"
    "wss_status s = non_empty (map (status_snapshot \<circ> snd) (status_entries ws))"
    "wss_log s = non_empty (map log_snapshot (log_entries ws))"
    "wss_progress s = map_option (\<lambda>p. \<lparr>prs_value = progress_value p, prs_label = progress_label p\<rparr>) (ws_progress ws)"
    "wss_remote s = remote_config ws"
    using workspace_snapshot_Some [OF L, of rd] by blast
  have st: "foldl (\<lambda>m e. hm_insert (ses_key e) (restore_status e) m) [] (map (status_snapshot \<circ> snd) (status_entries ws)) =
      status_entries ws"
    using status_foldl [of "[]" "status_entries ws"] assms(2) by (auto simp: status_keyed_def hm_ok_def)
  have "survives env rd ws ws'" if "restored_from env s ws'" for ws'
    using that [unfolded restored_from_def s(2-9) unwrap_non_empty st] s(1) unfolding survives_def
    by (cases "ws_color ws"; cases "ws_progress ws") (simp_all add: comp_def)
  with s(1) show ?thesis by blast
qed

text \<open>The counters leave room for the panes, panels and workspaces of the snapshot.\<close>

definition session_fits :: "SessionSnapshot \<Rightarrow> AppWindow \<Rightarrow> bool" where
  "session_fits saved aw \<longleftrightarrow>
     spare (\<Sum>s\<leftarrow>ss_workspaces saved. ls_slots (wss_layout s)) aw \<and>
     unat (next_workspace aw) + length (ss_workspaces saved) < 2 ^ 32 \<and>
     (\<forall>s\<in>set (ss_workspaces saved). (ls_leaves (wss_layout s))\<^sup>2 < 2 ^ 32)"

lemma restore_session_spec:
  assumes "window_ok aw" "session_fits saved aw" "order_ok (re_order env)"
  shows "\<exists>aw' wss. restore_session env saved aw = Some aw' \<and> window_ok aw' \<and>
    workspaces aw' = workspaces aw @ wss \<and> list_all2 (restored_from env) (ss_workspaces saved) wss"
proof -
  obtain aw1 wss where r: "restore_workspaces env (ss_workspaces saved) aw = Some aw1" "window_ok aw1"
    "workspaces aw1 = workspaces aw @ wss" "list_all2 (restored_from env) (ss_workspaces saved) wss"
    using restore_workspaces_spec [OF assms(1) _ _ assms(3)] assms(2) unfolding session_fits_def by blast
  define aw2 where "aw2 = (case ss_selected saved of
      Some idx \<Rightarrow> goto_workspace (sint (of_nat idx :: 32 word)) aw1 | None \<Rightarrow> aw1)"
  have 2: "window_ok aw2" "workspaces aw2 = workspaces aw1"
    using r(2) switch_ok(1) by (simp_all add: aw2_def split: option.split)
  define aw3 where "aw3 = (case ss_sidebar_width saved of
      Some w \<Rightarrow> (let aw = aw2\<lparr>sidebar_last_width := w\<rparr>
                 in if sidebar_visible aw then aw\<lparr>sidebar_position := w\<rparr> else aw) | None \<Rightarrow> aw2)"
  have 3: "window_ok aw3" "workspaces aw3 = workspaces aw2"
    by (subst window_ok_fields [of _ aw2]) (use 2 in \<open>simp_all add: aw3_def Let_def split: option.split\<close>)
  have "restore_session env saved aw = Some (if ss_sidebar_visible saved = Some False then toggle_sidebar aw3 else aw3)"
    unfolding restore_session_def r(1) bind.simps Let_def aw2_def [symmetric] aw3_def [unfolded Let_def, symmetric] ..
  then show ?thesis using r 2 3 toggle_sidebar_ok by auto
qed

section \<open>The properties\<close>

text \<open>
  C12. Restoring never fails and never damages the window: any session snapshot, also one with empty panes,
  unknown orientations or colours, is restored into any well-formed window whose counters have room; the window
  stays well formed, its own workspaces stay, and one workspace is appended for every saved one, in order, with
  the saved layout, tabs and metadata.
\<close>

theorem session_restores:
  assumes "window_ok aw" "session_fits saved aw" "order_ok (re_order env)"
  shows "\<exists>aw' wss. restore_session env saved aw = Some aw' \<and> window_ok aw' \<and>
    workspaces aw' = workspaces aw @ wss \<and> list_all2 (restored_from env) (ss_workspaces saved) wss"
  by (rule restore_session_spec [OF assms])

definition demo_restore :: restore_env where
  "demo_restore = \<lparr>re_order = (\<lambda>t. sorted_list_of_set (dom (nodes t))), re_now = 7,
     re_credentials = (\<lambda>_. (None, ''id'', ''token'')), re_appended = (\<lambda>page n. if page = None then Some n else page)\<rparr>"

definition demo_saved :: SessionSnapshot where
  "demo_saved = \<lparr>ss_version = 1, ss_workspaces =
     [\<lparr>wss_title = ''w'', wss_custom_title = None, wss_dir = None, wss_color = Some ''red'', wss_pinned = Some True,
       wss_layout = LSplit ''vertical'' 0 (LSingle []) (LSingle []), wss_status = None, wss_log = None,
       wss_progress = None, wss_remote = None\<rparr>],
     ss_selected = Some 0, ss_sidebar_width = None, ss_sidebar_visible = None\<rparr>"

lemma demo_order: "order_ok (re_order demo_restore)"
  by (simp add: order_ok_def demo_restore_def)

lemma demo_fits: "session_fits demo_saved demo_window"
  by (simp add: session_fits_def demo_saved_def spare_def demo_fields tab_slots_def power2_eq_square)

theorem session_restores_witness:
  "window_ok demo_window \<and> session_fits demo_saved demo_window \<and>
   (\<exists>aw'. restore_session demo_restore demo_saved demo_window = Some aw' \<and> length (workspaces aw') = 2)"
proof -
  obtain aw' wss where "restore_session demo_restore demo_saved demo_window = Some aw'"
    "workspaces aw' = workspaces demo_window @ wss" "list_all2 (restored_from demo_restore) (ss_workspaces demo_saved) wss"
    using session_restores [OF demo_ok demo_fits demo_order] by blast
  moreover from this(3) have "length wss = 1" by (auto dest: list_all2_lengthD simp: demo_saved_def)
  ultimately show ?thesis using demo_ok demo_fits by (simp add: demo_fields)
qed

text \<open>
  C12. The round trip of a session: a well-formed window has a snapshot, and wherever it is restored, every
  workspace comes back in order with its custom title, directory, colour, pin, status entries, log, progress and
  split layout (orientations, ratios and the kind, URL, title and directory of every tab), except for what
  \<open>forget\<close> drops: the title and directory of the first tab of each pane, and the times of the log.
\<close>

theorem session_roundtrip:
  assumes "window_ok aw" "\<And>ws. ws \<in> set (workspaces aw) \<Longrightarrow> status_keyed ws" "order_ok (re_order env)"
  shows "\<exists>saved. session_snapshot rd aw = Some saved \<and>
    (\<forall>aw0. window_ok aw0 \<and> session_fits saved aw0 \<longrightarrow>
      (\<exists>aw' wss. restore_session env saved aw0 = Some aw' \<and> window_ok aw' \<and>
        workspaces aw' = workspaces aw0 @ wss \<and> list_all2 (survives env rd) (workspaces aw) wss))"
proof -
  have ok: "ws_ok ws" if "ws \<in> set (workspaces aw)" for ws using assms(1) that by (simp add: window_ok_def)
  obtain ss where ss: "collect_run (map (workspace_snapshot rd) (workspaces aw)) = Some ss"
    "list_all2 (\<lambda>ws s. workspace_snapshot rd ws = Some s) (workspaces aw) ss"
    using collect_run_map [of "workspaces aw" "workspace_snapshot rd"] restored_survives [OF ok assms(2)] by blast
  obtain saved where saved: "session_snapshot rd aw = Some saved" "ss_workspaces saved = ss"
    using ss(1) by (simp add: session_snapshot_def)
  have "survives env rd ws ws'" if "ws \<in> set (workspaces aw)" "workspace_snapshot rd ws = Some s" "restored_from env s ws'"
    for ws s ws' using that restored_survives [OF ok assms(2), of ws rd env] by auto
  then have "list_all2 (survives env rd) (workspaces aw) wss" if "list_all2 (restored_from env) ss wss" for wss
    using ss(2) that unfolding list_all2_conv_all_nth by (metis nth_mem)
  then show ?thesis using saved restore_session_spec [OF _ _ assms(3)] by (metis (no_types, lifting))
qed

lemma demo_session_fits:
  "session_snapshot no_readers demo_window = Some saved \<Longrightarrow> session_fits saved (AppWindow_new None None)"
  by (auto simp: session_snapshot_def demo_fields workspace_snapshot_def new_with_pane_def alloc_id_def insert_node_def
      SplitTree_new_def snapshot_layout_node.simps [of _ _ _ 0] session_fits_def spare_def AppWindow_new_def
      SurfaceRegistry_new_def tab_slots_def Pane_new_with_id_def)

theorem session_roundtrip_witness:
  "window_ok demo_window \<and> (\<exists>saved aw'. session_snapshot no_readers demo_window = Some saved \<and>
     restore_session demo_restore saved (AppWindow_new None None) = Some aw' \<and> length (workspaces aw') = 1)"
proof -
  have "status_keyed ws" if "ws \<in> set (workspaces demo_window)" for ws
    using that by (simp add: demo_fields status_keyed_def Workspace_new_def hm_ok_def)
  from session_roundtrip [OF demo_ok this demo_order, of no_readers] obtain saved where
    s: "session_snapshot no_readers demo_window = Some saved"
    "\<And>aw0. window_ok aw0 \<and> session_fits saved aw0 \<Longrightarrow>
      (\<exists>aw' wss. restore_session demo_restore saved aw0 = Some aw' \<and> window_ok aw' \<and>
        workspaces aw' = workspaces aw0 @ wss \<and> list_all2 (survives demo_restore no_readers) (workspaces demo_window) wss)"
    by blast
  have "window_ok (AppWindow_new None None)" by simp
  with s(2) [of "AppWindow_new None None"] demo_session_fits [OF s(1)] obtain aw' wss where
    r: "restore_session demo_restore saved (AppWindow_new None None) = Some aw'"
    "workspaces aw' = workspaces (AppWindow_new None None) @ wss" "length wss = length (workspaces demo_window)"
    by (metis list_all2_lengthD)
  have "length (workspaces aw') = 1" unfolding r(2) by (simp add: r(3) demo_fields AppWindow_new_def)
  with s(1) r(1) demo_ok show ?thesis by blast
qed

text \<open>
  Saving is stable: once a workspace was restored, saving it and restoring it again loses nothing more
  of the layout and the tabs.
\<close>

theorem resave_stable:
  assumes "restored_from env s ws" "workspace_snapshot no_readers ws = Some s'" "restored_from env' s' ws'"
  shows "map_option wss_layout (workspace_snapshot no_readers ws') = Some (wss_layout s')"
  using assms by (simp add: restored_from_def forget_idem)

theorem resave_stable_witness:
  "\<exists>ws s' ws'. restored_from demo_restore (hd (ss_workspaces demo_saved)) ws \<and>
     workspace_snapshot no_readers ws = Some s' \<and> restored_from demo_restore s' ws' \<and>
     map_option wss_layout (workspace_snapshot no_readers ws') =
       Some (LSplit ''vertical'' 0 (forget (LSingle [])) (forget (LSingle [])))"
proof -
  have one: "\<exists>ws. restored_from demo_restore s ws" if "wss_layout s = LSplit ''vertical'' 0 a b" "ls_slots a + ls_slots b \<le> 8"
    "ls_leaves a = 1" "ls_leaves b = 1" for s a b
  proof -
    have "spare (ls_slots (wss_layout s) + 0) demo_window" "unat (next_workspace demo_window) + 1 < 2 ^ 32"
      "(ls_leaves (wss_layout s))\<^sup>2 < 2 ^ 32"
      using that by (simp_all add: spare_def demo_fields power2_eq_square)
    from restore_workspace_spec [OF demo_ok this(1,2) demo_order this(3)] show ?thesis by blast
  qed
  obtain ws where ws: "restored_from demo_restore (hd (ss_workspaces demo_saved)) ws"
    using one [of "hd (ss_workspaces demo_saved)"] by (auto simp: demo_saved_def tab_slots_def)
  then obtain s' where s': "workspace_snapshot no_readers ws = Some s'"
    "wss_layout s' = LSplit ''vertical'' 0 (forget (LSingle [])) (forget (LSingle []))"
    by (auto simp: restored_from_def demo_saved_def)
  obtain ws' where "restored_from demo_restore s' ws'" using one [OF s'(2)] by (auto simp: tab_slots_def)
  with ws s' resave_stable [OF ws s'(1) this] show ?thesis by auto
qed

text \<open>
  C24. The dividers of a restored layout: one is created for every split, the outermost one reports to the root
  of the split tree, and all others report to a node that the tree does not have, since \<open>merge\<close> renumbers the
  nodes of both halves after their dividers were connected. Dragging an inner divider leaves the tree unchanged, so the
  new ratio is not recorded (and not saved).
\<close>

theorem restored_dividers_stale:
  assumes "ws_panes ws = []" "spare (ls_slots (LSplit ori q x y)) aw" "order_ok order"
    "(ls_leaves (LSplit ori q x y))\<^sup>2 < 2 ^ 32"
  shows "\<exists>b. build_layout_widget order dwd (LSplit ori q x y) ws aw = Some b \<and>
    length (lb_paneds b) = ls_leaves x + ls_leaves y - 1 \<and> Some (last (lb_paneds b)) = tree_root (lb_tree b) \<and>
    (\<forall>n\<in>set (butlast (lb_paneds b)). set_ratio n r (lb_tree b) = lb_tree b)"
proof -
  have "spare (ls_slots (LSplit ori q x y) + 0) aw" using assms(2) by simp
  from build_spec [OF _ _ this assms(3,4), of ws dwd] obtain b new L where
    b: "build_layout_widget order dwd (LSplit ori q x y) ws aw = Some b" "built aw (LSplit ori q x y) ws b new L"
    using assms(1) by (auto simp: hm_ok_def hm_contains_keys)
  from builtD(12) [OF b(2)] show ?thesis using b(1)
    by (auto simp: set_ratio_def split: option.split)
qed

theorem restored_dividers_stale_witness:
  "\<exists>b n. build_layout_widget (re_order demo_restore) None
      (LSplit ''vertical'' 0 (LSplit ''horizontal'' 0 (LSingle []) (LSingle [])) (LSingle [])) (Workspace_new 0) demo_window = Some b \<and>
     n \<in> set (lb_paneds b) \<and> set_ratio n 1 (lb_tree b) = lb_tree b"
proof -
  have "ws_panes (Workspace_new 0) = []" by (simp add: Workspace_new_def)
  from restored_dividers_stale [OF this _ demo_order, of "''vertical''" 0 "LSplit ''horizontal'' 0 (LSingle []) (LSingle [])"
      "LSingle []" demo_window None 1] obtain b where
    b: "build_layout_widget (re_order demo_restore) None
      (LSplit ''vertical'' 0 (LSplit ''horizontal'' 0 (LSingle []) (LSingle [])) (LSingle [])) (Workspace_new 0) demo_window = Some b"
    "length (lb_paneds b) = 2" "\<forall>n\<in>set (butlast (lb_paneds b)). set_ratio n 1 (lb_tree b) = lb_tree b"
    by (auto simp: spare_def demo_fields tab_slots_def power2_eq_square)
  then obtain n m where "lb_paneds b = [n, m]" by (auto simp: numeral_2_eq_2 length_Suc_conv)
  with b show ?thesis by (intro exI [of _ b] exI [of _ n]) simp
qed

section \<open>Saved scrollback\<close>

lemma length_lines_le: "length (lines s) \<le> length (split_on (CHR 0x0A) s)"
  by (simp add: lines_def Let_def)

lemma lines_no_newline: "l \<in> set (lines s) \<Longrightarrow> CHR 0x0A \<notin> set l"
proof -
  assume "l \<in> set (lines s)"
  then consider "l = last (split_on (CHR 0x0A) s)" | f where "f \<in> set (split_on (CHR 0x0A) s)" "l = strip_cr f"
    by (auto simp: lines_def Let_def split: if_splits dest: in_set_butlastD)
  then obtain f where "f \<in> set (split_on (CHR 0x0A) s)" "l = f \<or> l = strip_cr f"
    by cases (metis last_in_set split_on_not_Nil)+
  then show ?thesis using split_on_fields by (auto simp: strip_cr_def dest: in_set_butlastD split: if_splits)
qed

text \<open>
  The scrollback saved for a terminal has at most \<open>n\<close> lines, is left as it is when it fits, and otherwise
  consists of the last \<open>n\<close> lines of the terminal, one per line.
\<close>

theorem scrollback_bounded:
  "length (lines (truncate_to_last_n_lines text n)) \<le> n \<and>
   (if length (lines text) \<le> n then truncate_to_last_n_lines text n = text
    else 0 < n \<longrightarrow> split_on (CHR 0x0A) (truncate_to_last_n_lines text n) = drop (length (lines text) - n) (lines text))"
proof (cases "length (lines text) \<le> n \<or> n = 0")
  case True
  then show ?thesis by (auto simp: truncate_to_last_n_lines_def Let_def lines_def)
next
  case False
  let ?d = "drop (length (lines text) - n) (lines text)"
  have "length (lines text) - n < length (lines text)" using False by auto
  then have "?d \<noteq> []" by simp
  then have s: "split_on (CHR 0x0A) (join [CHR 0x0A] ?d) = ?d"
    by (rule split_on_join) (auto dest: in_set_dropD lines_no_newline)
  have t: "truncate_to_last_n_lines text n = join [CHR 0x0A] ?d"
    using False by (simp add: truncate_to_last_n_lines_def Let_def)
  have "length ?d = n" using False by simp
  with length_lines_le [of "join [CHR 0x0A] ?d"] s have "length (lines (join [CHR 0x0A] ?d)) \<le> n" by simp
  with False s t show ?thesis by simp
qed

theorem scrollback_bounded_witness:
  "split_on (CHR 0x0A) (truncate_to_last_n_lines (''a'' @ [CHR 0x0A] @ ''b'' @ [CHR 0x0A] @ ''c'') 2) = [''b'', ''c'']"
proof -
  have "lines (''a'' @ [CHR 0x0A] @ ''b'' @ [CHR 0x0A] @ ''c'') = [''a'', ''b'', ''c'']"
    by (simp add: lines_def strip_cr_def)
  with scrollback_bounded [of "''a'' @ [CHR 0x0A] @ ''b'' @ [CHR 0x0A] @ ''c''" 2] show ?thesis by simp
qed

end
