(* ===== verification/Remote_Claims.thy ===== *)
theory Remote_Claims
  imports Remote_Config
begin

text \<open>
  Properties of the command lines built for a remote workspace, of the pasted paths of dropped files and of
  the key under which connections are shared.
\<close>

section \<open>Words of a joined command line\<close>

text \<open>A word the shell reads literally: no blank, no quote, no character with a meaning to it.\<close>

definition plain_word :: "string \<Rightarrow> bool" where
  "plain_word w \<longleftrightarrow> w \<noteq> [] \<and> \<not> list_ex shell_special w"

lemma plain_word_append [simp]:
  "plain_word (a @ b) \<longleftrightarrow> (a = [] \<and> plain_word b) \<or> (b = [] \<and> plain_word a) \<or> (plain_word a \<and> plain_word b)"
  by (auto simp: plain_word_def)

lemma sh_words_joined:
  assumes "\<And>w. w \<in> set ws \<Longrightarrow> plain_word w"
  shows "sh_words Plain None (join '' '' (ws @ [single_quote s])) = Some (ws @ [s])"
  using assms
proof (induction ws)
  case Nil
  then show ?case using sh_words_single_quote [of None s "[]"] by simp
next
  case (Cons w ws)
  have w: "w \<noteq> []" "\<not> list_ex shell_special w" using Cons.prems by (auto simp: plain_word_def)
  have "join '' '' ((w # ws) @ [single_quote s]) = w @ CHR '' '' # join '' '' (ws @ [single_quote s])"
    by (cases "ws @ [single_quote s]") auto
  then have "sh_words Plain None (join '' '' ((w # ws) @ [single_quote s])) =
      map_option ((#) w) (sh_words Plain None (join '' '' (ws @ [single_quote s])))"
    using sh_words_plain [OF w(2,1)] by (simp add: is_whitespace_def code_def)
  with Cons show ?case by simp
qed

text \<open>The fields of a configuration that reach a command line.\<close>

definition plain_config :: "RemoteConfiguration \<Rightarrow> bool" where
  "plain_config cfg \<longleftrightarrow> plain_word (destination cfg) \<and> (\<forall>i\<in>set_option (identity_file cfg). plain_word i) \<and>
     (\<forall>opt\<in>set (ssh_options cfg). plain_word opt)"

lemma digit_not_special: "is_digit c \<Longrightarrow> \<not> shell_special c"
  by (auto simp: is_digit_def shell_special_def is_whitespace_def code_def)

lemma u16_plain [simp]: "plain_word (u16_str p)"
  using digit_not_special u16_str_chars by (auto simp: plain_word_def list_ex_iff u16_str_def)

lemma set_append_connection_args:
  "set (append_connection_args cfg args) = set args \<union> (\<Union>p\<in>set_option (port cfg). {''-p'', u16_str p}) \<union>
     (\<Union>i\<in>set_option (identity_file cfg). {''-i'', i}) \<union> (\<Union>opt\<in>set (ssh_options cfg). {''-o'', opt})"
  by (auto simp: append_connection_args_def split: option.splits)

lemma literal_words [simp]:
  "plain_word ''ssh''" "plain_word ''-t''" "plain_word ''-p''" "plain_word ''-i''" "plain_word ''-o''"
  "plain_word ''ServerAliveInterval=20''" "plain_word ''ServerAliveCountMax=2''"
  "plain_word ''StrictHostKeyChecking=accept-new''"
  by code_simp+

lemma plain_interactive:
  "plain_config cfg \<Longrightarrow> \<forall>w\<in>set (''ssh'' # ssh_interactive_args cfg @ [''-t'', destination cfg]). plain_word w"
  unfolding ssh_interactive_args_def set_append_connection_args set_append list.set plain_config_def host_key_args_def
  by auto

section \<open>The properties\<close>

text \<open>
  C13. The startup command of a remote terminal is one string that a shell splits into words. When the
  destination, the identity file and the options have no character with a meaning to the shell, the words are exactly
  \<open>ssh\<close>, the interactive arguments, \<open>-t\<close>, the destination and the whole bootstrap script as one argument,
  quotes and newlines included.
\<close>

theorem startup_command_words:
  assumes "plain_config cfg"
  shows "sh_words Plain None (generate_startup_command cfg p) =
    Some (''ssh'' # ssh_interactive_args cfg @ [''-t'', destination cfg, generate_bootstrap_script p])"
  using sh_words_joined [of "''ssh'' # ssh_interactive_args cfg @ [''-t'', destination cfg]" "generate_bootstrap_script p"]
    plain_interactive [OF assms] by (simp add: generate_startup_command_def)

definition demo_config :: RemoteConfiguration where
  "demo_config = \<lparr>destination = ''me@host'', port = Some 22, identity_file = None,
     ssh_options = [''Compression=yes''], terminal_startup_command = None, relay_port = None, relay_id = None,
     relay_token = None, local_socket_path = None\<rparr>"

theorem startup_command_words_witness:
  "plain_config demo_config \<and> sh_words Plain None (generate_startup_command demo_config 9) =
    Some (''ssh'' # ssh_interactive_args demo_config @ [''-t'', ''me@host'', generate_bootstrap_script 9])"
proof -
  have "plain_config demo_config"
    by (simp add: plain_config_def demo_config_def plain_word_def shell_special_def is_whitespace_def code_def)
  with startup_command_words [OF this, of 9] show ?thesis by (simp add: demo_config_def)
qed

text \<open>
  Dropped files are pasted so that the shell reads back exactly the list of paths, whatever characters
  the paths have (blanks, quotes, newlines, metacharacters).
\<close>

theorem dropped_paths_words:
  assumes "\<forall>p\<in>set ps. p \<noteq> []"
  shows "sh_words Plain None (shell_escape_paths ps) = Some ps"
  by (rule sh_words_escaped [OF assms])

theorem dropped_paths_words_witness:
  "sh_words Plain None (shell_escape_paths [''/tmp/a b'', ''/x$(rm)'']) = Some [''/tmp/a b'', ''/x$(rm)'']"
  using dropped_paths_words [of "[''/tmp/a b'', ''/x$(rm)'']"] by simp

text \<open>
  Two configurations share a connection (have the same transport key) when they agree on destination, port,
  identity file and, in any order, on the options; the relay settings and the startup command do not matter.
\<close>

theorem transport_key_order:
  assumes "destination a = destination b" "port a = port b" "identity_file a = identity_file b"
    "mset (ssh_options a) = mset (ssh_options b)"
  shows "transport_key a = transport_key b"
  using assms properties_for_sort [of "sort (ssh_options b)" "ssh_options a"] by (simp add: transport_key_def)

theorem transport_key_order_witness:
  "transport_key (demo_config\<lparr>ssh_options := [''A=1'', ''B=2'']\<rparr>) =
   transport_key (demo_config\<lparr>ssh_options := [''B=2'', ''A=1''], relay_token := Some ''t''\<rparr>)"
  by (rule transport_key_order) (simp_all add: demo_config_def)

text \<open>The key does not determine the configuration: a separator inside a field reads like a field.\<close>

theorem transport_key_collision:
  "transport_key (demo_config\<lparr>port := None, ssh_options := [''A=1'', ''B=2'']\<rparr>) =
   transport_key (demo_config\<lparr>port := None, ssh_options := [''A=1|opt=B=2'']\<rparr>)"
  by (simp add: transport_key_def demo_config_def)

end
