(* ===== verification/Proxy_Broker.thy ===== *)
theory Proxy_Broker
  imports Remote_Config Rust_Map Step_Machine
begin

text \<open>
  Model of \<open>app/src/remote/proxy_broker.rs\<close>: the table of shared tunnels, \<open>acquire\<close>, \<open>release\<close> (the drop
  of a lease) and the management task of each tunnel. Every access to the table holds its lock, so
  the code between two \<open>.await\<close> points is one step. A task waits at one of the points of \<open>wait\<close>; the runtime
  resumes it with an \<open>outcome\<close> of what it waited for, and it then runs to the next point. Aborting
  removes a waiting task at once; a task that is already resumed still runs its current stretch and is dropped at the next
  point. RPC connections and tunnels are numbered handles, the callbacks of the subscribers are names, and
  what the callbacks are told is a log. \<open>tunnels_up\<close> are the tunnels whose accept loop runs: it starts with \<open>start_tunnel\<close>
  and stops with \<open>shutdown\<close>, which the drop of a \<open>ProxyTunnel\<close> calls too.
\<close>

section \<open>State\<close>

datatype ProxyState =
    PConnecting | PReady ProxyEndpoint | PError string

type_synonym ProxyCallback = nat
type_synonym RpcHandle = nat
type_synonym TunnelHandle = nat
type_synonym TaskId = nat

record BrokerEntry =
  subscriber_count :: usize
  be_tunnel :: "TunnelHandle option"
  be_rpc :: "RpcHandle option"
  be_endpoint :: "ProxyEndpoint option"
  be_callbacks :: "ProxyCallback list"
  be_task :: "TaskId option"

datatype wait =
    Starting
  | PollSleep RpcHandle
  | Pinging RpcHandle
  | Restarting RpcHandle
  | Backoff
  | Quitting RpcHandle

datatype outcome =
    Started RpcHandle TunnelHandle ProxyEndpoint
  | StartFailed string
  | Awake
  | Pong
  | PingFailed
  | ShutDown

record Task =
  task_key :: string
  task_retry :: u32
  task_at :: wait
  task_resumed :: "outcome option"
  task_aborted :: bool

record Broker =
  entries :: "(string, BrokerEntry) hashmap"
  tasks :: "TaskId \<rightharpoonup> Task"
  next_task :: TaskId
  told :: "(ProxyCallback \<times> ProxyState) list"
  tunnels_up :: "TunnelHandle set"
  rpcs_shut :: "RpcHandle list"

definition Broker_new :: Broker where
  "Broker_new = \<lparr>entries = [], tasks = Map.empty, next_task = 0, told = [], tunnels_up = {}, rpcs_shut = []\<rparr>"

definition tell :: "ProxyCallback list \<Rightarrow> ProxyState \<Rightarrow> Broker \<Rightarrow> Broker" where
  "tell cbs st b = b\<lparr>told := told b @ map (\<lambda>cb. (cb, st)) cbs\<rparr>"

definition stop_tunnel :: "TunnelHandle option \<Rightarrow> Broker \<Rightarrow> Broker" where
  "stop_tunnel t b = b\<lparr>tunnels_up := tunnels_up b - set_option t\<rparr>"

definition shutdown_rpc :: "RpcHandle option \<Rightarrow> Broker \<Rightarrow> Broker" where
  "shutdown_rpc r b = b\<lparr>rpcs_shut := rpcs_shut b @ (case r of Some h \<Rightarrow> [h] | None \<Rightarrow> [])\<rparr>"

section \<open>Leases\<close>

definition spawn :: "Task \<Rightarrow> Broker \<Rightarrow> TaskId \<times> Broker" where
  "spawn t b = (next_task b, b\<lparr>tasks := (tasks b)(next_task b \<mapsto> t), next_task := next_task b + 1\<rparr>)"

definition abort :: "TaskId \<Rightarrow> Broker \<Rightarrow> Broker" where
  "abort i b =
     (case tasks b i of
        None \<Rightarrow> b
      | Some t \<Rightarrow>
          if task_resumed t = None then b\<lparr>tasks := (tasks b)(i := None)\<rparr>
          else b\<lparr>tasks := (tasks b)(i \<mapsto> t\<lparr>task_aborted := True\<rparr>)\<rparr>)"

definition acquire :: "RemoteConfiguration \<Rightarrow> ProxyCallback \<Rightarrow> Broker \<Rightarrow> string \<times> Broker" where
  "acquire cfg callback b =
     (let key = transport_key cfg in
      case hm_get (entries b) key of
        Some entry \<Rightarrow>
          (let b = b\<lparr>entries := hm_modify key (\<lambda>e. e\<lparr>subscriber_count := subscriber_count e + 1,
                       be_callbacks := be_callbacks e @ [callback]\<rparr>) (entries b)\<rparr>
           in (key, case be_endpoint entry of
                      Some ep \<Rightarrow> tell [callback] (PReady ep) b
                    | None \<Rightarrow> tell [callback] PConnecting b))
      | None \<Rightarrow>
          (let b = tell [callback] PConnecting b;
               b = b\<lparr>entries := hm_insert key \<lparr>subscriber_count = 1, be_tunnel = None, be_rpc = None,
                      be_endpoint = None, be_callbacks = [callback], be_task = None\<rparr> (entries b)\<rparr>;
               (handle, b) = spawn \<lparr>task_key = key, task_retry = 0, task_at = Starting, task_resumed = None,
                               task_aborted = False\<rparr> b
           in (key, b\<lparr>entries := hm_modify key (\<lambda>e. e\<lparr>be_task := Some handle\<rparr>) (entries b)\<rparr>)))"

definition release :: "string \<Rightarrow> Broker \<Rightarrow> Broker" where
  "release key b =
     (case hm_get (entries b) key of
        None \<Rightarrow> b
      | Some entry \<Rightarrow>
          (let n = subscriber_count entry - 1 in
           if n = 0 then
             (let b = (case be_task entry of Some t \<Rightarrow> abort t b | None \<Rightarrow> b);
                  b = shutdown_rpc (be_rpc entry) (stop_tunnel (be_tunnel entry) b)
              in b\<lparr>entries := hm_remove key (entries b)\<rparr>)
           else
             b\<lparr>entries := hm_modify key (\<lambda>e. e\<lparr>subscriber_count := n, be_callbacks := butlast (be_callbacks e)\<rparr>)
                 (entries b)\<rparr>))"

section \<open>The management task\<close>

text \<open>Seconds before the next attempt after the \<open>n\<close>-th failure in a row: 3, 6, 12, ... up to 60.\<close>

definition tunnel_delay :: "u32 \<Rightarrow> nat" where
  "tunnel_delay n = min (3 * 2 ^ (unat n - 1)) 60"

text \<open>One stretch of the task: where it waits next (\<open>None\<close> when it ends) and what it did.\<close>

fun tunnel_task :: "Task \<Rightarrow> outcome \<Rightarrow> Broker \<Rightarrow> Task option \<times> Broker" where
  "tunnel_task t (Started rpc tun ep) b =
     (let t = t\<lparr>task_retry := 0\<rparr> in
      case hm_get (entries b) (task_key t) of
        Some entry \<Rightarrow>
          (Some (t\<lparr>task_at := PollSleep rpc\<rparr>),
           tell (be_callbacks entry) (PReady ep)
             ((stop_tunnel (be_tunnel entry) b)\<lparr>entries := hm_modify (task_key t) (\<lambda>e. e\<lparr>be_tunnel := Some tun, be_rpc := Some rpc,
                be_endpoint := Some ep\<rparr>) (entries b)\<rparr>))
      | None \<Rightarrow> (Some (t\<lparr>task_at := Quitting rpc\<rparr>), shutdown_rpc (Some rpc) (stop_tunnel (Some tun) b)))"
| "tunnel_task t (StartFailed e) b =
     (let t = t\<lparr>task_retry := task_retry t + 1\<rparr> in
      case hm_get (entries b) (task_key t) of
        Some entry \<Rightarrow> (Some (t\<lparr>task_at := Backoff\<rparr>), tell (be_callbacks entry) (PError e) b)
      | None \<Rightarrow> (None, b))"
| "tunnel_task t Awake b =
     (case task_at t of
        PollSleep rpc \<Rightarrow>
          if hm_contains (entries b) (task_key t) then (Some (t\<lparr>task_at := Pinging rpc\<rparr>), b)
          else (Some (t\<lparr>task_at := Quitting rpc\<rparr>), shutdown_rpc (Some rpc) b)
      | _ \<Rightarrow>
          if hm_contains (entries b) (task_key t) then (Some (t\<lparr>task_at := Starting\<rparr>), b) else (None, b))"
| "tunnel_task t Pong b =
     (case task_at t of Pinging rpc \<Rightarrow> (Some (t\<lparr>task_at := PollSleep rpc\<rparr>), b) | _ \<Rightarrow> (None, b))"
| "tunnel_task t PingFailed b =
     (case (task_at t, hm_get (entries b) (task_key t)) of
        (Pinging rpc, Some entry) \<Rightarrow>
          (Some (t\<lparr>task_at := Restarting rpc\<rparr>),
           shutdown_rpc (Some rpc) (tell (be_callbacks entry) PConnecting
             ((stop_tunnel (be_tunnel entry) b)\<lparr>entries := hm_modify (task_key t) (\<lambda>e. e\<lparr>be_tunnel := None, be_rpc := None,
                be_endpoint := None\<rparr>) (entries b)\<rparr>)))
      | _ \<Rightarrow> (None, b))"
| "tunnel_task t ShutDown b =
     (case task_at t of
        Restarting rpc \<Rightarrow> (Some (t\<lparr>task_retry := task_retry t + 1, task_at := Starting\<rparr>), b)
      | _ \<Rightarrow> (None, b))"

text \<open>What a task can be resumed with at each point.\<close>

fun outcome_for :: "wait \<Rightarrow> outcome \<Rightarrow> bool" where
  "outcome_for Starting (Started _ _ _) = True"
| "outcome_for Starting (StartFailed _) = True"
| "outcome_for (PollSleep _) Awake = True"
| "outcome_for Backoff Awake = True"
| "outcome_for (Pinging _) Pong = True"
| "outcome_for (Pinging _) PingFailed = True"
| "outcome_for (Restarting _) ShutDown = True"
| "outcome_for (Quitting _) ShutDown = True"
| "outcome_for _ _ = False"

text \<open>A tunnel that \<open>start_tunnel\<close> returned is up; its handle is a new one.\<close>

fun started :: "outcome \<Rightarrow> TunnelHandle set" where
  "started (Started _ tun _) = {tun}"
| "started _ = {}"

definition resume :: "TaskId \<Rightarrow> outcome \<Rightarrow> Broker \<Rightarrow> Broker option" where
  "resume i out b =
     (case tasks b i of
        Some t \<Rightarrow> if task_resumed t = None \<and> outcome_for (task_at t) out \<and> started out \<inter> tunnels_up b = {}
                   then Some (b\<lparr>tasks := (tasks b)(i \<mapsto> t\<lparr>task_resumed := Some out\<rparr>),
                                tunnels_up := tunnels_up b \<union> started out\<rparr>) else None
      | None \<Rightarrow> None)"

definition run_stretch :: "TaskId \<Rightarrow> Broker \<Rightarrow> Broker option" where
  "run_stretch i b =
     (case tasks b i of
        Some t \<Rightarrow>
          (case task_resumed t of
             Some out \<Rightarrow>
               (let (t', b') = tunnel_task t out b
                in Some (b'\<lparr>tasks := (tasks b')(i := (if task_aborted t then None
                     else map_option (\<lambda>t. t\<lparr>task_resumed := None\<rparr>) t'))\<rparr>))
           | None \<Rightarrow> None)
      | None \<Rightarrow> None)"

section \<open>The broker and its leases\<close>

text \<open>The leases that are alive, each with the callback it was acquired with.\<close>

record BrokerSys =
  broker :: Broker
  leases :: "(string \<times> ProxyCallback) list"

datatype BrokerCmd =
    Acquire RemoteConfiguration ProxyCallback
  | DropLease string ProxyCallback
  | Resume TaskId outcome
  | RunStretch TaskId

fun broker_exec :: "BrokerCmd \<Rightarrow> BrokerSys \<Rightarrow> BrokerSys option" where
  "broker_exec (Acquire cfg cb) s =
     (let (key, b) = acquire cfg cb (broker s) in Some \<lparr>broker = b, leases = (key, cb) # leases s\<rparr>)"
| "broker_exec (DropLease key cb) s =
     (if (key, cb) \<in> set (leases s)
      then Some \<lparr>broker = release key (broker s), leases = remove1 (key, cb) (leases s)\<rparr> else None)"
| "broker_exec (Resume i out) s = map_option (\<lambda>b. s\<lparr>broker := b\<rparr>) (resume i out (broker s))"
| "broker_exec (RunStretch i) s = map_option (\<lambda>b. s\<lparr>broker := b\<rparr>) (run_stretch i (broker s))"

definition BrokerSys_new :: BrokerSys where
  "BrokerSys_new = \<lparr>broker = Broker_new, leases = []\<rparr>"

end
