(* ===== verification/Broker_Facts.thy ===== *)
theory Broker_Facts
  imports Proxy_Broker
begin

text \<open>
  The invariant of the proxy broker: the table has an entry exactly for the keys with a live lease, its
  subscriber count is the number of these leases, every entry has one management task of its own, and a running
  tunnel belongs to an entry or to a task that is about to store or drop it.
\<close>

definition lease_count :: "string \<Rightarrow> (string \<times> ProxyCallback) list \<Rightarrow> nat" where
  "lease_count key ls = length (filter (\<lambda>l. fst l = key) ls)"

definition entry_ok :: "Broker \<Rightarrow> (string \<times> ProxyCallback) list \<Rightarrow> string \<Rightarrow> BrokerEntry \<Rightarrow> bool" where
  "entry_ok b ls key e \<longleftrightarrow> subscriber_count e = lease_count key ls \<and> 0 < subscriber_count e \<and>
     length (be_callbacks e) = subscriber_count e \<and>
     (\<exists>i t. be_task e = Some i \<and> tasks b i = Some t \<and> \<not> task_aborted t \<and> task_key t = key)"

definition task_ok :: "Broker \<Rightarrow> TaskId \<Rightarrow> Task \<Rightarrow> bool" where
  "task_ok b i t \<longleftrightarrow> i < next_task b \<and>
     (case task_resumed t of None \<Rightarrow> \<not> task_aborted t | Some out \<Rightarrow> outcome_for (task_at t) out) \<and>
     (\<not> task_aborted t \<longrightarrow> (\<forall>r. task_at t \<noteq> Quitting r) \<and>
        (\<exists>e. hm_get (entries b) (task_key t) = Some e \<and> be_task e = Some i))"

definition tunnel_owned :: "Broker \<Rightarrow> TunnelHandle \<Rightarrow> bool" where
  "tunnel_owned b x \<longleftrightarrow> (\<exists>k e. hm_get (entries b) k = Some e \<and> be_tunnel e = Some x) \<or>
     (\<exists>i t out. tasks b i = Some t \<and> task_resumed t = Some out \<and> x \<in> started out)"

definition broker_ok :: "BrokerSys \<Rightarrow> bool" where
  "broker_ok s \<longleftrightarrow> hm_ok (entries (broker s)) \<and>
     (\<forall>key. case hm_get (entries (broker s)) key of None \<Rightarrow> lease_count key (leases s) = 0
            | Some e \<Rightarrow> entry_ok (broker s) (leases s) key e) \<and>
     (\<forall>i t. tasks (broker s) i = Some t \<longrightarrow> task_ok (broker s) i t) \<and>
     (\<forall>x\<in>tunnels_up (broker s). tunnel_owned (broker s) x)"

lemma broker_okI:
  assumes "hm_ok (entries b)"
    "\<And>key. hm_get (entries b) key = None \<Longrightarrow> lease_count key ls = 0"
    "\<And>key e. hm_get (entries b) key = Some e \<Longrightarrow> entry_ok b ls key e"
    "\<And>i t. tasks b i = Some t \<Longrightarrow> task_ok b i t"
    "\<And>x. x \<in> tunnels_up b \<Longrightarrow> tunnel_owned b x"
  shows "broker_ok \<lparr>broker = b, leases = ls\<rparr>"
  using assms by (auto simp: broker_ok_def split: option.split)

lemma broker_okD:
  assumes "broker_ok s"
  shows "hm_ok (entries (broker s))"
    "hm_get (entries (broker s)) key = None \<Longrightarrow> lease_count key (leases s) = 0"
    "hm_get (entries (broker s)) key = Some e \<Longrightarrow> entry_ok (broker s) (leases s) key e"
    "tasks (broker s) i = Some t \<Longrightarrow> task_ok (broker s) i t"
    "x \<in> tunnels_up (broker s) \<Longrightarrow> tunnel_owned (broker s) x"
  using assms unfolding broker_ok_def by (auto dest: spec [where x = key])

lemma lease_count_simps [simp]:
  "lease_count key [] = 0"
  "lease_count key (l # ls) = (if fst l = key then Suc (lease_count key ls) else lease_count key ls)"
  by (simp_all add: lease_count_def)

lemma lease_count_remove1:
  "l \<in> set ls \<Longrightarrow> lease_count key (remove1 l ls) = (if fst l = key then lease_count key ls - 1 else lease_count key ls)"
proof (induction ls)
  case (Cons a ls)
  have "fst l = key \<Longrightarrow> l \<in> set ls \<Longrightarrow> 0 < lease_count key ls"
    by (auto simp: lease_count_def filter_empty_conv)
  with Cons show ?case by auto
qed simp

lemma effects_frame [simp]:
  "entries (tell c st b) = entries b" "tasks (tell c st b) = tasks b" "next_task (tell c st b) = next_task b"
  "tunnels_up (tell c st b) = tunnels_up b"
  "entries (stop_tunnel t b) = entries b" "tasks (stop_tunnel t b) = tasks b" "next_task (stop_tunnel t b) = next_task b"
  "tunnels_up (stop_tunnel t b) = tunnels_up b - set_option t"
  "entries (shutdown_rpc r b) = entries b" "tasks (shutdown_rpc r b) = tasks b"
  "next_task (shutdown_rpc r b) = next_task b" "tunnels_up (shutdown_rpc r b) = tunnels_up b"
  by (simp_all add: tell_def stop_tunnel_def shutdown_rpc_def)

lemma tunnel_owned_mono:
  assumes "tunnel_owned b x"
    "\<And>k e. hm_get (entries b) k = Some e \<Longrightarrow> be_tunnel e = Some x \<Longrightarrow> \<exists>e'. hm_get (entries b') k = Some e' \<and> be_tunnel e' = Some x"
    "\<And>i t. tasks b i = Some t \<Longrightarrow> task_resumed t \<noteq> None \<Longrightarrow> \<exists>t'. tasks b' i = Some t' \<and> task_resumed t' = task_resumed t"
  shows "tunnel_owned b' x"
  using assms(1) unfolding tunnel_owned_def by (elim disjE exE conjE) (metis assms(2), metis assms(3) option.distinct(1))

section \<open>Leases\<close>

lemma acquire_ok:
  assumes "broker_ok s" "acquire cfg cb (broker s) = (key, b)"
  shows "broker_ok \<lparr>broker = b, leases = (key, cb) # leases s\<rparr>"
proof (cases "hm_get (entries (broker s)) (transport_key cfg)")
  case (Some e)
  note d = broker_okD [OF assms(1)]
  have eq: "key = transport_key cfg" "entries b = hm_modify key (\<lambda>e. e\<lparr>subscriber_count := subscriber_count e + 1,
      be_callbacks := be_callbacks e @ [cb]\<rparr>) (entries (broker s))" "tasks b = tasks (broker s)"
    "next_task b = next_task (broker s)" "tunnels_up b = tunnels_up (broker s)"
    using assms(2) Some by (auto simp: acquire_def Let_def split: option.splits)
  show ?thesis
  proof (rule broker_okI)
    show "entry_ok b ((key, cb) # leases s) k e'" if "hm_get (entries b) k = Some e'" for k e'
      using that d(3) [of k] d(3) [OF Some] Some by (auto simp: eq entry_ok_def split: if_splits)
    show "task_ok b i t" if "tasks b i = Some t" for i t
      using d(4) [of i t] that by (auto simp: eq(2-) task_ok_def split: option.split)
    show "tunnel_owned b x" if "x \<in> tunnels_up b" for x
      by (rule tunnel_owned_mono [OF d(5) [of x]]) (use that in \<open>auto simp: eq(2-)\<close>)
  qed (use d(1,2) Some in \<open>auto simp: eq split: if_splits\<close>)
next
  case None
  note d = broker_okD [OF assms(1)]
  let ?t = "\<lparr>task_key = transport_key cfg, task_retry = 0, task_at = Starting, task_resumed = None, task_aborted = False\<rparr>"
  let ?i = "next_task (broker s)"
  have eq: "key = transport_key cfg" "\<And>k. hm_get (entries b) k = (if k = key then Some \<lparr>subscriber_count = 1, be_tunnel = None,
        be_rpc = None, be_endpoint = None, be_callbacks = [cb], be_task = Some ?i\<rparr> else hm_get (entries (broker s)) k)"
    "tasks b = (tasks (broker s))(?i \<mapsto> ?t)" "next_task b = ?i + 1" "tunnels_up b = tunnels_up (broker s)"
    "hm_ok (entries b)"
    using assms(2) None d(1) by (auto simp: acquire_def spawn_def Let_def)
  show ?thesis
  proof (rule broker_okI)
    show "entry_ok b ((key, cb) # leases s) k e'" if "hm_get (entries b) k = Some e'" for k e'
    proof (cases "k = key")
      case True
      with that d(2) [OF None] show ?thesis by (auto simp: eq entry_ok_def)
    next
      case False
      then have "entry_ok (broker s) (leases s) k e'" using that d(3) by (simp add: eq)
      moreover from this obtain j u where "be_task e' = Some j" "tasks (broker s) j = Some u" by (auto simp: entry_ok_def)
      moreover from this have "j \<noteq> ?i" using d(4) [of j u] by (auto simp: task_ok_def)
      ultimately show ?thesis using False by (auto simp: eq entry_ok_def)
    qed
    show "task_ok b i t" if "tasks b i = Some t" for i t
      using d(4) [of i t] that None by (auto simp: eq task_ok_def split: if_splits option.splits)
    show "tunnel_owned b x" if x: "x \<in> tunnels_up b" for x
    proof -
      have "\<And>i t. tasks (broker s) i = Some t \<Longrightarrow> i \<noteq> ?i" using d(4) by (fastforce simp: task_ok_def)
      then show ?thesis by (intro tunnel_owned_mono [OF d(5) [of x]]) (use x None in \<open>auto simp: eq\<close>)
    qed
  qed (use d(2) eq in \<open>auto split: if_splits\<close>)
qed

lemma release_shared_ok:
  assumes "broker_ok s" "l \<in> set (leases s)" "hm_get (entries (broker s)) (fst l) = Some e" "subscriber_count e \<noteq> 1"
  shows "broker_ok \<lparr>broker = release (fst l) (broker s), leases = remove1 l (leases s)\<rparr>"
proof (rule broker_okI)
  let ?b = "release (fst l) (broker s)"
  note d = broker_okD [OF assms(1)]
  have n: "1 < subscriber_count e" using d(3) [OF assms(3)] assms(4) by (auto simp: entry_ok_def)
  then have eq: "?b = (broker s)\<lparr>entries := hm_modify (fst l) (\<lambda>e'. e'\<lparr>subscriber_count := subscriber_count e - 1,
      be_callbacks := butlast (be_callbacks e')\<rparr>) (entries (broker s))\<rparr>"
    using assms(3) by (simp add: release_def)
  show "hm_ok (entries ?b)" using d(1) by (simp add: eq)
  show "lease_count k (remove1 l (leases s)) = 0" if "hm_get (entries ?b) k = None" for k
    using that d(2) [of k] assms(2,3) by (auto simp: eq lease_count_remove1 split: if_splits)
  show "entry_ok ?b (remove1 l (leases s)) k e'" if "hm_get (entries ?b) k = Some e'" for k e'
    using that d(3) [OF assms(3)] d(3) [of k] n assms(2,3) by (auto simp: eq lease_count_remove1 entry_ok_def split: if_splits)
  show "task_ok ?b i t" if "tasks ?b i = Some t" for i t
    using d(4) [of i t] that by (auto simp: eq task_ok_def split: option.split)
  show "tunnel_owned ?b x" if "x \<in> tunnels_up ?b" for x
    by (rule tunnel_owned_mono [OF d(5) [of x]]) (use that in \<open>auto simp: eq\<close>)
qed

text \<open>The last lease of a key: its entry goes, and its task is gone or runs its last stretch.\<close>

lemma release_last:
  assumes "broker_ok s" "hm_get (entries (broker s)) key = Some e" "subscriber_count e = 1"
  shows "\<exists>i t. be_task e = Some i \<and> tasks (broker s) i = Some t \<and> task_key t = key \<and> \<not> task_aborted t \<and>
    release key (broker s) = (shutdown_rpc (be_rpc e) (stop_tunnel (be_tunnel e) (broker s)))\<lparr>
      tasks := (tasks (broker s))(i := (if task_resumed t = None then None else Some (t\<lparr>task_aborted := True\<rparr>))),
      entries := hm_remove key (entries (broker s))\<rparr>"
proof -
  obtain i t where it: "be_task e = Some i" "tasks (broker s) i = Some t" "\<not> task_aborted t" "task_key t = key"
    using broker_okD(3) [OF assms(1,2)] by (auto simp: entry_ok_def)
  then show ?thesis using assms(2,3)
    by (auto simp: release_def abort_def Let_def stop_tunnel_def shutdown_rpc_def)
qed

lemma release_last_ok:
  assumes "broker_ok s" "l \<in> set (leases s)" "hm_get (entries (broker s)) (fst l) = Some e" "subscriber_count e = 1"
  shows "broker_ok \<lparr>broker = release (fst l) (broker s), leases = remove1 l (leases s)\<rparr>"
proof (rule broker_okI)
  let ?b = "release (fst l) (broker s)"
  note d = broker_okD [OF assms(1)]
  obtain i t where it: "be_task e = Some i" "tasks (broker s) i = Some t" "task_key t = fst l" "\<not> task_aborted t"
    and eq: "?b = (shutdown_rpc (be_rpc e) (stop_tunnel (be_tunnel e) (broker s)))\<lparr>
      tasks := (tasks (broker s))(i := (if task_resumed t = None then None else Some (t\<lparr>task_aborted := True\<rparr>))),
      entries := hm_remove (fst l) (entries (broker s))\<rparr>"
    using release_last [OF assms(1,3,4)] by blast
  show "hm_ok (entries ?b)" using d(1) by (simp add: eq)
  show "lease_count k (remove1 l (leases s)) = 0" if "hm_get (entries ?b) k = None" for k
    using that d(2) [of k] d(3) [OF assms(3)] assms(2,4)
    by (auto simp: eq lease_count_remove1 entry_ok_def split: if_splits)
  show "entry_ok ?b (remove1 l (leases s)) k e'" if "hm_get (entries ?b) k = Some e'" for k e'
  proof -
    have k: "k \<noteq> fst l" "entry_ok (broker s) (leases s) k e'" using that d(3) by (auto simp: eq split: if_splits)
    then obtain j u where j: "be_task e' = Some j" "tasks (broker s) j = Some u" "\<not> task_aborted u" "task_key u = k"
      by (auto simp: entry_ok_def)
    moreover have "j \<noteq> i" using j(2,4) it(2,3) k(1) by auto
    ultimately show ?thesis using k assms(2) by (auto simp: eq lease_count_remove1 entry_ok_def)
  qed
  show "task_ok ?b j u" if u: "tasks ?b j = Some u" for j u
  proof (cases "j = i")
    case True
    with u d(4) [OF it(2)] show ?thesis by (auto simp: eq task_ok_def split: if_splits option.splits)
  next
    case False
    with u d(4) [of j u] assms(3) it(1) show ?thesis by (auto simp: eq task_ok_def split: option.splits)
  qed
  show "tunnel_owned ?b x" if x: "x \<in> tunnels_up ?b" for x
  proof -
    have "tunnel_owned (broker s) x" "be_tunnel e \<noteq> Some x" using x d(5) by (auto simp: eq)
    then show ?thesis by (elim tunnel_owned_mono) (use assms(3) it(2) in \<open>auto simp: eq\<close>)
  qed
qed

lemma release_ok:
  assumes "broker_ok s" "(key, cb) \<in> set (leases s)"
  shows "broker_ok \<lparr>broker = release key (broker s), leases = remove1 (key, cb) (leases s)\<rparr>"
proof -
  have "lease_count key (leases s) \<noteq> 0" using assms(2) by (force simp: lease_count_def filter_empty_conv)
  then obtain e where "hm_get (entries (broker s)) key = Some e"
    using broker_okD(2) [OF assms(1), of key] by fastforce
  then show ?thesis using release_shared_ok [OF assms] release_last_ok [OF assms] by (cases "subscriber_count e = 1") auto
qed

section \<open>Tasks\<close>

lemma resume_ok:
  assumes "broker_ok s" "resume i out (broker s) = Some b"
  shows "broker_ok (s\<lparr>broker := b\<rparr>)"
proof -
  note d = broker_okD [OF assms(1)]
  obtain t where t: "tasks (broker s) i = Some t" "task_resumed t = None" "outcome_for (task_at t) out"
    and b: "b = (broker s)\<lparr>tasks := (tasks (broker s))(i \<mapsto> t\<lparr>task_resumed := Some out\<rparr>),
      tunnels_up := tunnels_up (broker s) \<union> started out\<rparr>"
    using assms(2) by (auto simp: resume_def split: option.splits if_splits)
  have "broker_ok \<lparr>broker = b, leases = leases s\<rparr>"
  proof (rule broker_okI)
    show "entry_ok b (leases s) k e" if "hm_get (entries b) k = Some e" for k e
      using that d(3) [of k e] t by (auto simp: b entry_ok_def)
    show "task_ok b j u" if "tasks b j = Some u" for j u
      using that d(4) [of j] d(4) [OF t(1)] t by (auto simp: b task_ok_def split: if_splits)
    show "tunnel_owned b x" if x: "x \<in> tunnels_up b" for x
    proof (cases "x \<in> started out")
      case False
      with x d(5) [of x] have "tunnel_owned (broker s) x" by (auto simp: b)
      then show ?thesis by (rule tunnel_owned_mono) (use t in \<open>auto simp: b\<close>)
    qed (auto simp: b tunnel_owned_def)
  qed (use d(1,2) in \<open>auto simp: b\<close>)
  then show ?thesis by (cases s) simp
qed

text \<open>What a stretch of a task may do.\<close>

definition same_lease :: "BrokerEntry \<Rightarrow> BrokerEntry \<Rightarrow> bool" where
  "same_lease e e' \<longleftrightarrow> subscriber_count e' = subscriber_count e \<and> be_callbacks e' = be_callbacks e \<and> be_task e' = be_task e"

lemma tunnel_task_frame:
  assumes "tunnel_task t out b = (t', b')"
  shows "tasks b' = tasks b" "next_task b' = next_task b" "hm_ok (entries b') = hm_ok (entries b)"
    "rel_option same_lease (hm_get (entries b) k) (hm_get (entries b') k)"
    "t' = Some u \<Longrightarrow> task_key u = task_key t \<and> task_aborted u = task_aborted t"
  using assms
  by (cases out; auto simp: Let_def same_lease_def rel_option_iff split: option.splits wait.splits if_splits)+

lemma tunnel_task_continues:
  assumes "tunnel_task t out b = (t', b')" "outcome_for (task_at t) out" "\<And>r. task_at t \<noteq> Quitting r"
    "hm_get (entries b) (task_key t) = Some e"
  shows "\<exists>u. t' = Some u \<and> (\<forall>r. task_at u \<noteq> Quitting r)"
  using assms by (cases out; cases "task_at t") (auto simp: Let_def hm_contains_def)

lemma tunnel_task_tunnels:
  assumes "tunnel_task t out b = (t', b')" "x \<in> tunnels_up b'"
  shows "x \<in> tunnels_up b"
    "x \<in> started out \<Longrightarrow> \<exists>e. hm_get (entries b') (task_key t) = Some e \<and> be_tunnel e = Some x"
    "hm_get (entries b) k = Some e \<Longrightarrow> be_tunnel e = Some x \<Longrightarrow>
       \<exists>e'. hm_get (entries b') k = Some e' \<and> be_tunnel e' = Some x"
  using assms by (cases out; auto simp: Let_def split: option.splits wait.splits if_splits)+

lemma run_stretch_ok:
  assumes "broker_ok s" "run_stretch i (broker s) = Some b"
  shows "broker_ok (s\<lparr>broker := b\<rparr>)"
proof -
  note d = broker_okD [OF assms(1)]
  obtain t out where t: "tasks (broker s) i = Some t" "task_resumed t = Some out"
    using assms(2) by (auto simp: run_stretch_def split: option.splits)
  obtain t' b' where run: "tunnel_task t out (broker s) = (t', b')" by fastforce
  note fr = tunnel_task_frame [OF run] and tn = tunnel_task_tunnels [OF run]
  have b: "b = b'\<lparr>tasks := (tasks (broker s))(i := (if task_aborted t then None
      else map_option (\<lambda>t. t\<lparr>task_resumed := None\<rparr>) t'))\<rparr>"
    using assms(2) t run fr(1) by (simp add: run_stretch_def)
  have out: "outcome_for (task_at t) out" using d(4) [OF t(1)] t(2) by (simp add: task_ok_def)
  have live: "\<exists>u e. t' = Some u \<and> (\<forall>r. task_at u \<noteq> Quitting r) \<and> task_key u = task_key t \<and> \<not> task_aborted u \<and>
      hm_get (entries (broker s)) (task_key t) = Some e \<and> be_task e = Some i" if na: "\<not> task_aborted t"
  proof -
    obtain e where e: "hm_get (entries (broker s)) (task_key t) = Some e" "be_task e = Some i"
      and q: "\<And>r. task_at t \<noteq> Quitting r" using d(4) [OF t(1)] na by (auto simp: task_ok_def)
    with tunnel_task_continues [OF run out q e(1)] fr(5) na show ?thesis by auto
  qed
  have "broker_ok \<lparr>broker = b, leases = leases s\<rparr>"
  proof (rule broker_okI)
    show "hm_ok (entries b)" using fr(3) d(1) by (simp add: b)
    show "lease_count k (leases s) = 0" if "hm_get (entries b) k = None" for k
      using that fr(4) [of k] d(2) [of k] by (simp add: b)
    show "entry_ok b (leases s) k e'" if g: "hm_get (entries b) k = Some e'" for k e'
    proof -
      obtain e where e: "hm_get (entries (broker s)) k = Some e" "same_lease e e'"
        using g fr(4) [of k] by (auto simp: b rel_option_iff split: option.splits)
      note eo = d(3) [OF e(1)]
      then obtain j u where j: "be_task e = Some j" "tasks (broker s) j = Some u" "\<not> task_aborted u" "task_key u = k"
        by (auto simp: entry_ok_def)
      have "\<exists>u. tasks b j = Some u \<and> \<not> task_aborted u \<and> task_key u = k"
        using j t live by (cases "j = i") (auto simp: b)
      with eo e(2) j(1) show ?thesis by (auto simp: entry_ok_def same_lease_def)
    qed
    show "task_ok b j u" if u: "tasks b j = Some u" for j u
    proof (cases "j = i")
      case True
      with u have na: "\<not> task_aborted t" by (auto simp: b)
      with live obtain v e where v: "t' = Some v" "\<forall>r. task_at v \<noteq> Quitting r" "task_key v = task_key t" "\<not> task_aborted v"
        "hm_get (entries (broker s)) (task_key t) = Some e" "be_task e = Some i" by blast
      moreover from v(5,6) fr(4) [of "task_key t"] obtain e' where "hm_get (entries b') (task_key t) = Some e'" "be_task e' = Some i"
        by (auto simp: rel_option_iff same_lease_def split: option.splits)
      ultimately show ?thesis using u True d(4) [OF t(1)] na fr(2) by (auto simp: b task_ok_def)
    next
      case False
      with u have tu: "tasks (broker s) j = Some u" by (simp add: b)
      have "\<exists>e'. hm_get (entries b') k = Some e' \<and> be_task e' = be_task e" if "hm_get (entries (broker s)) k = Some e" for k e
        using that fr(4) [of k] by (auto simp: rel_option_iff same_lease_def split: option.splits)
      then show ?thesis using d(4) [OF tu] fr(2) by (fastforce simp: b task_ok_def split: option.splits)
    qed
    show "tunnel_owned b x" if x: "x \<in> tunnels_up b" for x
    proof (cases "x \<in> started out")
      case True
      with tn(2) [of x] x show ?thesis by (auto simp: b tunnel_owned_def)
    next
      case False
      have "tunnel_owned (broker s) x" using x tn(1) d(5) by (simp add: b)
      then consider k e where "hm_get (entries (broker s)) k = Some e" "be_tunnel e = Some x"
        | j u o' where "tasks (broker s) j = Some u" "task_resumed u = Some o'" "x \<in> started o'"
        unfolding tunnel_owned_def by blast
      then show ?thesis
      proof cases
        case 1
        have "x \<in> tunnels_up b'" using x by (simp add: b)
        from tn(3) [OF this 1] have "\<exists>e'. hm_get (entries b) k = Some e' \<and> be_tunnel e' = Some x" by (simp add: b)
        then show ?thesis unfolding tunnel_owned_def by blast
      next
        case 2
        moreover from this False t have "j \<noteq> i" by auto
        ultimately show ?thesis by (auto simp: b tunnel_owned_def)
      qed
    qed
  qed
  then show ?thesis by (cases s) simp
qed

section \<open>The broker as a machine\<close>

definition broker_enabled :: "BrokerCmd \<Rightarrow> BrokerSys \<Rightarrow> bool" where
  "broker_enabled c s \<longleftrightarrow>
     (case c of
        Acquire cfg cb \<Rightarrow> True
      | DropLease key cb \<Rightarrow> (key, cb) \<in> set (leases s)
      | Resume i out \<Rightarrow> (\<exists>t. tasks (broker s) i = Some t \<and> task_resumed t = None \<and> outcome_for (task_at t) out) \<and>
          started out \<inter> tunnels_up (broker s) = {}
      | RunStretch i \<Rightarrow> \<exists>t. tasks (broker s) i = Some t \<and> task_resumed t \<noteq> None)"

lemma broker_ok_new [simp]: "broker_ok BrokerSys_new"
  by (simp add: broker_ok_def BrokerSys_new_def Broker_new_def hm_ok_def)

lemma broker_progress: "broker_enabled c s \<Longrightarrow> \<exists>s'. broker_exec c s = Some s'"
  by (cases c) (auto simp: broker_enabled_def resume_def run_stretch_def split: prod.split)

lemma broker_preservation: "broker_ok s \<Longrightarrow> broker_exec c s = Some s' \<Longrightarrow> broker_ok s'"
  using acquire_ok release_ok resume_ok run_stretch_ok
  by (cases c) (auto simp: Let_def split: prod.splits if_splits)

interpretation broker: machine broker_exec broker_enabled broker_ok
  using broker_progress broker_preservation by unfold_locales blast+

abbreviation reachable_broker :: "BrokerSys \<Rightarrow> bool" where
  "reachable_broker \<equiv> reach broker_exec broker_enabled BrokerSys_new"

lemma broker_exec_enabled: "broker_exec c s = Some s' \<Longrightarrow> broker_enabled c s"
  by (cases c) (auto simp: broker_enabled_def resume_def run_stretch_def split: option.splits if_splits)

lemma broker_trace:
  assumes "exec_all broker_exec cs s = Some s'" "reachable_broker s"
  shows "reachable_broker s'"
  using assms
proof (induction cs arbitrary: s)
  case (Cons c cs)
  then obtain s1 where "broker_exec c s = Some s1" "exec_all broker_exec cs s1 = Some s'"
    by (auto split: option.splits)
  with Cons show ?case by (blast intro: reach_step broker_exec_enabled)
qed simp

end
