(* ===== verification/Broker_Claims.thy ===== *)
theory Broker_Claims
  imports Broker_Facts
begin

text \<open>
  The properties of the proxy broker over all interleavings of acquired and dropped leases with the steps of the
  management tasks, and two states that such interleavings reach.
\<close>

lemma broker_unique_task:
  assumes "broker_ok s" "hm_get (entries (broker s)) key = Some e"
  shows "\<exists>!i. \<exists>t. tasks (broker s) i = Some t \<and> task_key t = key \<and> \<not> task_aborted t"
proof -
  note d = broker_okD [OF assms(1)]
  obtain i t where i: "be_task e = Some i" "tasks (broker s) i = Some t" "\<not> task_aborted t" "task_key t = key"
    using d(3) [OF assms(2)] by (auto simp: entry_ok_def)
  moreover have "j = i" if "tasks (broker s) j = Some u" "task_key u = key" "\<not> task_aborted u" for j u
    using d(4) [OF that(1)] that i(1) assms(2) by (auto simp: task_ok_def)
  ultimately show ?thesis by blast
qed

lemma lease_count_pos: "0 < lease_count key ls \<longleftrightarrow> key \<in> fst ` set ls"
  by (force simp: lease_count_def filter_empty_conv)

definition demo_remote :: RemoteConfiguration where
  "demo_remote = \<lparr>destination = ''h'', port = None, identity_file = None, ssh_options = [],
     terminal_startup_command = None, relay_port = None, relay_id = None, relay_token = None, local_socket_path = None\<rparr>"

definition demo_endpoint :: ProxyEndpoint where
  "demo_endpoint = \<lparr>proxy_host = ''127.0.0.1'', proxy_port = 1080\<rparr>"

lemma demo_key [simp]: "transport_key demo_remote = ''dest=h''"
  by (simp add: transport_key_def demo_remote_def)

lemmas broker_eval = BrokerSys_new_def Broker_new_def acquire_def release_def abort_def resume_def run_stretch_def
  spawn_def tell_def stop_tunnel_def shutdown_rpc_def hm_modify_def Let_def broker_enabled_def

text \<open>
  C14. The proxy broker shares tunnels: in every state that acquiring and dropping leases, in any interleaving with the
  management tasks, can reach, a key has an entry exactly while a lease on it is alive, the subscriber count is the number of
  live leases, exactly one task manages the key, and no task manages a key without an entry.
\<close>

theorem broker_shares_tunnels:
  assumes "reachable_broker s"
  shows "(\<forall>key. hm_contains (entries (broker s)) key \<longleftrightarrow> key \<in> fst ` set (leases s)) \<and>
    (\<forall>key e. hm_get (entries (broker s)) key = Some e \<longrightarrow> subscriber_count e = lease_count key (leases s) \<and>
       (\<exists>!i. \<exists>t. tasks (broker s) i = Some t \<and> task_key t = key \<and> \<not> task_aborted t)) \<and>
    (\<forall>i t. tasks (broker s) i = Some t \<and> \<not> task_aborted t \<longrightarrow> hm_contains (entries (broker s)) (task_key t))"
proof -
  have ok: "broker_ok s" using broker.reach_inv [OF assms] by simp
  note d = broker_okD [OF ok]
  have "hm_contains (entries (broker s)) key \<longleftrightarrow> 0 < lease_count key (leases s)" for key
    using d(2) [of key] d(3) [of key] by (cases "hm_get (entries (broker s)) key") (auto simp: hm_contains_def entry_ok_def)
  moreover have "subscriber_count e = lease_count key (leases s)" if "hm_get (entries (broker s)) key = Some e" for key e
    using d(3) [OF that] by (simp add: entry_ok_def)
  moreover have "hm_contains (entries (broker s)) (task_key t)" if "tasks (broker s) i = Some t" "\<not> task_aborted t" for i t
    using d(4) [OF that(1)] that(2) by (auto simp: task_ok_def hm_contains_def)
  ultimately show ?thesis using broker_unique_task [OF ok] unfolding lease_count_pos by blast
qed

lemma demo_two_leases:
  "\<exists>s. reachable_broker s \<and> leases s = [(''dest=h'', 2), (''dest=h'', 1)] \<and> told (broker s) = [(1, PConnecting), (2, PConnecting)] \<and>
    entries (broker s) = [(''dest=h'', \<lparr>subscriber_count = 2, be_tunnel = None, be_rpc = None, be_endpoint = None,
      be_callbacks = [1, 2], be_task = Some 0\<rparr>)]"
proof -
  have "\<exists>s. exec_all broker_exec [Acquire demo_remote 1, Acquire demo_remote 2] BrokerSys_new = Some s \<and>
    leases s = [(''dest=h'', 2), (''dest=h'', 1)] \<and> told (broker s) = [(1, PConnecting), (2, PConnecting)] \<and>
    entries (broker s) = [(''dest=h'', \<lparr>subscriber_count = 2, be_tunnel = None, be_rpc = None, be_endpoint = None,
      be_callbacks = [1, 2], be_task = Some 0\<rparr>)]"
    by (simp add: broker_eval numeral_2_eq_2)
  then show ?thesis using broker_trace [OF _ reach_refl] by blast
qed

theorem broker_shares_tunnels_witness:
  "\<exists>s. reachable_broker s \<and> leases s = [(''dest=h'', 2), (''dest=h'', 1)] \<and>
    (\<exists>e. hm_get (entries (broker s)) ''dest=h'' = Some e \<and> subscriber_count e = 2 \<and>
      (\<exists>!i. \<exists>t. tasks (broker s) i = Some t \<and> task_key t = ''dest=h'' \<and> \<not> task_aborted t))"
proof -
  obtain s where s: "reachable_broker s" "leases s = [(''dest=h'', 2), (''dest=h'', 1)]"
    "entries (broker s) = [(''dest=h'', \<lparr>subscriber_count = 2, be_tunnel = None, be_rpc = None, be_endpoint = None,
      be_callbacks = [1, 2], be_task = Some 0\<rparr>)]" using demo_two_leases by blast
  with broker_shares_tunnels [OF s(1)] show ?thesis by (intro exI [of _ s]) (simp add: hm_contains_def)
qed

text \<open>
  C15. No tunnel outlives its leases: once all leases are dropped the table is empty and every task that is left was aborted in
  the middle of its last stretch; when these stretches have run, no task is left and no tunnel is up.
\<close>

theorem broker_teardown:
  assumes "reachable_broker s" "leases s = []"
  shows "entries (broker s) = [] \<and>
    (\<forall>i t. tasks (broker s) i = Some t \<longrightarrow> task_aborted t \<and> task_resumed t \<noteq> None) \<and>
    (\<forall>i b. run_stretch i (broker s) = Some b \<longrightarrow> tasks b i = None) \<and>
    (tasks (broker s) = Map.empty \<longrightarrow> tunnels_up (broker s) = {})"
proof -
  have ok: "broker_ok s" using broker.reach_inv [OF assms(1)] by simp
  note d = broker_okD [OF ok]
  have "hm_get (entries (broker s)) key = None" for key
    using d(3) [of key] assms(2) by (cases "hm_get (entries (broker s)) key") (auto simp: entry_ok_def)
  then have e: "entries (broker s) = []" by (metis map_of_eq_empty_iff ext)
  have t: "task_aborted t \<and> task_resumed t \<noteq> None" if "tasks (broker s) i = Some t" for i t
    using d(4) [OF that] e by (auto simp: task_ok_def split: option.splits)
  have "tasks b i = None" if "run_stretch i (broker s) = Some b" for i b
    using that t by (auto simp: run_stretch_def split: option.splits prod.splits)
  with e t d(5) show ?thesis by (auto simp: tunnel_owned_def)
qed

theorem broker_teardown_witness:
  "\<exists>s b. reachable_broker s \<and> leases s = [] \<and> tunnels_up (broker s) = {3} \<and> entries (broker s) = [] \<and>
    run_stretch 0 (broker s) = Some b \<and> tasks b 0 = None"
proof -
  obtain s b where s: "exec_all broker_exec [Acquire demo_remote 1, Resume 0 (Started 5 3 demo_endpoint), DropLease ''dest=h'' 1]
      BrokerSys_new = Some s" "leases s = []" "tunnels_up (broker s) = {3}" "run_stretch 0 (broker s) = Some b"
    by (simp add: broker_eval)
  have r: "reachable_broker s" by (rule broker_trace [OF s(1) reach_refl])
  show ?thesis using broker_teardown [OF r s(2)] r s by blast
qed

section \<open>Two states the code reaches\<close>

text \<open>
  Dropping a lease removes the callback that was added last, whoever holds the lease: of two subscribers the first one
  leaves, and from then on its callback is told every state change and the remaining subscriber none.
\<close>

theorem dropped_lease_keeps_callback:
  "\<exists>s e. reachable_broker s \<and> leases s = [(''dest=h'', 2)] \<and> hm_get (entries (broker s)) ''dest=h'' = Some e \<and>
     be_callbacks e = [1] \<and> (1, PReady demo_endpoint) \<in> set (told (broker s)) \<and>
     filter (\<lambda>x. fst x = 2) (told (broker s)) = [(2, PConnecting)]"
proof -
  have "\<exists>s e. exec_all broker_exec [Acquire demo_remote 1, Acquire demo_remote 2, DropLease ''dest=h'' 1,
        Resume 0 (Started 5 3 demo_endpoint), RunStretch 0] BrokerSys_new = Some s \<and>
      leases s = [(''dest=h'', 2)] \<and> hm_get (entries (broker s)) ''dest=h'' = Some e \<and>
      be_callbacks e = [1] \<and> (1, PReady demo_endpoint) \<in> set (told (broker s)) \<and>
      filter (\<lambda>x. fst x = 2) (told (broker s)) = [(2, PConnecting)]"
    by (simp add: broker_eval)
  then show ?thesis using broker_trace [OF _ reach_refl] by blast
qed

text \<open>
  A task that was resumed before its abort stores its tunnel in the entry of the next tenant of the key: the entry has an
  endpoint although its own task is still starting.
\<close>

theorem aborted_task_stores_tunnel:
  "\<exists>s e t. reachable_broker s \<and> hm_get (entries (broker s)) ''dest=h'' = Some e \<and>
     be_endpoint e = Some demo_endpoint \<and> be_task e = Some 1 \<and> tasks (broker s) 0 = None \<and> tasks (broker s) 1 = Some t \<and> task_at t = Starting"
proof -
  have "\<exists>s e t. exec_all broker_exec [Acquire demo_remote 1, Resume 0 (Started 5 3 demo_endpoint), DropLease ''dest=h'' 1,
        Acquire demo_remote 2, RunStretch 0] BrokerSys_new = Some s \<and>
      hm_get (entries (broker s)) ''dest=h'' = Some e \<and> be_endpoint e = Some demo_endpoint \<and> be_task e = Some 1 \<and>
      tasks (broker s) 0 = None \<and> tasks (broker s) 1 = Some t \<and> task_at t = Starting"
    by (simp add: broker_eval)
  then show ?thesis using broker_trace [OF _ reach_refl] by blast
qed

end
