(* ===== verification/Rust_Args.thy ===== *)
theory Rust_Args
  imports Rust_Str Rust_Map
begin

text \<open>
  More of Rust's \<open>str\<close>, used by the command parsers: splitting into words and pairs, signed numbers, the
  \<open>Debug\<close> format of a string.
\<close>

section \<open>Splitting\<close>

text \<open>\<open>splitn(2, d)\<close>: the part before the first separator, and the part after it if there is one.\<close>

definition splitn2 :: "char \<Rightarrow> string \<Rightarrow> string \<times> string option" where
  "splitn2 d s =
     (let a = takeWhile (\<lambda>c. c \<noteq> d) s
      in (a, if a = s then None else Some (drop (length a + 1) s)))"

definition split_once :: "char \<Rightarrow> string \<Rightarrow> (string \<times> string) option" where
  "split_once d s = (case splitn2 d s of (a, Some b) \<Rightarrow> Some (a, b) | (a, None) \<Rightarrow> None)"

fun words_acc :: "string \<Rightarrow> string \<Rightarrow> string list" where
  "words_acc w [] = (if w = [] then [] else [rev w])"
| "words_acc w (c # s) =
     (if is_whitespace c then (if w = [] then words_acc [] s else rev w # words_acc [] s)
      else words_acc (c # w) s)"

definition split_whitespace :: "string \<Rightarrow> string list" where
  "split_whitespace s = words_acc [] s"

definition split_first :: "string \<Rightarrow> string option" where
  "split_first s = first_opt (split_whitespace s)"

lemma takeWhile_ne: "d \<notin> set a \<Longrightarrow> takeWhile (\<lambda>c. c \<noteq> d) (a @ s) = a @ takeWhile (\<lambda>c. c \<noteq> d) s"
  by (induction a) auto

lemma splitn2_none: "d \<notin> set s \<Longrightarrow> splitn2 d s = (s, None)"
  using takeWhile_ne [of d s "[]"] by (simp add: splitn2_def)

lemma splitn2_some: "d \<notin> set a \<Longrightarrow> splitn2 d (a @ d # b) = (a, Some b)"
  by (simp add: splitn2_def takeWhile_ne)

lemma words_acc_word: "\<forall>c\<in>set s. \<not> is_whitespace c \<Longrightarrow> words_acc w (s @ r) = words_acc (rev s @ w) r"
  by (induction s arbitrary: w) auto

section \<open>Signed numbers\<close>

definition parse_i32 :: "string \<Rightarrow> int option" where
  "parse_i32 s =
     (case s of
        c # r \<Rightarrow>
          if c = CHR ''-'' then
            (case parse_digits r of Some n \<Rightarrow> if n \<le> 2 ^ 31 then Some (- int n) else None | None \<Rightarrow> None)
          else map_option int (parse_bounded (2 ^ 31) s)
      | [] \<Rightarrow> None)"

section \<open>The Debug format\<close>

text \<open>\<open>format!("{s:?}")\<close> on the ASCII range: quotes around the string, escapes for quotes, backslashes and control
  characters. Other bytes are left alone.\<close>

definition debug_char :: "char \<Rightarrow> string" where
  "debug_char c =
     (if c = CHR 0x22 \<or> c = CHR 0x5C then [CHR 0x5C, c]
      else if code c = 0 then [CHR 0x5C, CHR ''0'']
      else if code c = 9 then [CHR 0x5C, CHR ''t'']
      else if code c = 10 then [CHR 0x5C, CHR ''n'']
      else if code c = 13 then [CHR 0x5C, CHR ''r'']
      else if code c < 32 \<or> code c = 127 then
        [CHR 0x5C, CHR ''u'', CHR 0x7B] @
        (if code c < 16 then [] else [char_of (48 + code c div 16)]) @
        [let d = code c mod 16 in if d < 10 then char_of (48 + d) else char_of (87 + d)] @ [CHR 0x7D]
      else [c])"

definition debug_str :: "string \<Rightarrow> string" where
  "debug_str s = [CHR 0x22] @ concat (map debug_char s) @ [CHR 0x22]"

end
