(* ===== verification/Socket.thy ===== *)
theory Socket
  imports Window_Machine Session Rust_Args
begin

text \<open>
  Model of the control socket, \<open>app/src/socket.rs\<close>: the command interpreter and the line framing of a
  connection. Commands that change the window run the handlers of \<open>window.rs\<close>; calls that leave the model
  (text for a terminal, browser actions, the tray) are recorded. Arguments stand for what the process asks the
  outside for: the URL of a web view, the text of a screen, the clock, fresh relay credentials, the JSON printer of
  serde and the parser for floating point numbers. Invalid UTF-8 and failing writes are not modelled.
\<close>

section \<open>State\<close>

datatype Call =
    SendText nat string
  | BrowserNavigate BrowserPanelId string
  | BrowserBack BrowserPanelId
  | BrowserForward BrowserPanelId
  | BrowserReload BrowserPanelId
  | EvaluateJs BrowserPanelId string
  | TrayNotifications bool

record SockState =
  sk_win :: AppWindow
  sk_notify :: bool
  sk_calls :: "Call list"

record remote_info =
  ri_workspace :: WorkspaceId
  ri_state :: string
  ri_destination :: "string option"
  ri_daemon :: "RemoteDaemonStatus option"

record sock_env =
  se_gtk :: gtk_env
  se_version :: string
  se_url :: "BrowserPanelId \<Rightarrow> string option"
  se_screen :: "nat \<Rightarrow> string option"
  se_now :: nat
  se_relay :: "u16 option \<times> string \<times> string"
  se_json :: "remote_info \<Rightarrow> string"
  se_f64 :: "string \<Rightarrow> f64 option"

type_synonym reply = "(string \<times> SockState) run"

definition NL :: char where
  "NL = CHR 0x0A"

definition reply_ok :: "SockState \<Rightarrow> reply" where
  "reply_ok st = Some (''OK'', st)"

definition reply_data :: "string \<Rightarrow> SockState \<Rightarrow> reply" where
  "reply_data d st = Some (''OK '' @ d, st)"

definition reply_text :: "string \<Rightarrow> SockState \<Rightarrow> reply" where
  "reply_text text st = Some (''OK+'' @ nat_str (length text) @ [NL] @ text, st)"

definition reply_error :: "string \<Rightarrow> SockState \<Rightarrow> reply" where
  "reply_error m st = Some (''ERROR: '' @ m, st)"

text \<open>Runs a handler of the window and answers with what follows.\<close>

definition run_win :: "sock_env \<Rightarrow> Command \<Rightarrow> (SockState \<Rightarrow> reply) \<Rightarrow> SockState \<Rightarrow> reply" where
  "run_win env c k st = do { aw \<leftarrow> exec (se_gtk env) c (sk_win st); k (st\<lparr>sk_win := aw\<rparr>) }"

definition call_out :: "Call \<Rightarrow> SockState \<Rightarrow> SockState" where
  "call_out c st = st\<lparr>sk_calls := sk_calls st @ [c]\<rparr>"

section \<open>Arguments\<close>

record ParsedOpts =
  positional :: "string list"
  opts :: "(string, string) hashmap"

definition parse_part :: "string \<Rightarrow> ParsedOpts \<Rightarrow> ParsedOpts" where
  "parse_part part p =
     (case strip_prefix ''--'' part of
        Some kv \<Rightarrow>
          (case split_once (CHR ''='') kv of
             Some (k, v) \<Rightarrow> p\<lparr>opts := hm_insert k v (opts p)\<rparr>
           | None \<Rightarrow> p)
      | None \<Rightarrow> p\<lparr>positional := positional p @ [part]\<rparr>)"

definition parse_opts :: "string \<Rightarrow> ParsedOpts" where
  "parse_opts args = foldl (\<lambda>p part. parse_part part p) \<lparr>positional = [], opts = []\<rparr> (split_whitespace args)"

definition parse_arg :: "string \<Rightarrow> string \<Rightarrow> (u32 \<Rightarrow> SockState \<Rightarrow> reply) \<Rightarrow> SockState \<Rightarrow> reply" where
  "parse_arg s name k st =
     (case parse_u32 (trim s) of Some v \<Rightarrow> k v st | None \<Rightarrow> reply_error (''invalid '' @ name) st)"

definition two_args :: "string \<Rightarrow> string \<Rightarrow> (string \<Rightarrow> string \<Rightarrow> SockState \<Rightarrow> reply) \<Rightarrow> SockState \<Rightarrow> reply" where
  "two_args usage args k st =
     (case splitn2 (CHR '' '') args of
        (a, Some b) \<Rightarrow> k a b st
      | (a, None) \<Rightarrow> reply_error (''usage: '' @ usage) st)"

definition with_focused :: "(WorkspaceId \<Rightarrow> SockState \<Rightarrow> reply) \<Rightarrow> SockState \<Rightarrow> reply" where
  "with_focused k st =
     (case focused_workspace_id (sk_win st) of
        Some i \<Rightarrow> k i st
      | None \<Rightarrow> reply_error ''no focused workspace'' st)"

section \<open>Commands\<close>

definition reply_lines :: "string list \<Rightarrow> SockState \<Rightarrow> reply" where
  "reply_lines ls st = (if ls = [] then reply_ok st else reply_text (join [NL] ls) st)"

definition workspace_line :: "WorkspaceId \<times> string \<times> usize \<times> bool \<times> string option \<Rightarrow> string" where
  "workspace_line e =
     (let (i, title, n, pin, col) = e
      in ''id:'' @ u32_str i @ '' title:'' @ debug_str title @ '' panes:'' @ nat_str n @
         (if pin then '' pinned'' else []) @
         (case col of Some c \<Rightarrow> '' color='' @ c | None \<Rightarrow> []))"

definition do_set_color :: "sock_env \<Rightarrow> string \<Rightarrow> SockState \<Rightarrow> reply" where
  "do_set_color env args =
     two_args ''workspace_set_color <id> <color|none>'' args
       (\<lambda>a b. parse_arg a ''workspace id''
          (\<lambda>i st. if b = ''none'' then run_win env (SetWorkspaceColor i None) reply_ok st
                  else case from_name b of
                         Some c \<Rightarrow> run_win env (SetWorkspaceColor i (Some c)) reply_ok st
                       | None \<Rightarrow> reply_error ''unknown color'' st))"

definition do_set_status :: "sock_env \<Rightarrow> string \<Rightarrow> SockState \<Rightarrow> reply" where
  "do_set_status env args =
     with_focused (\<lambda>i st.
       (let parsed = parse_opts args in
        case positional parsed of
          key # v # vs \<Rightarrow>
            run_win env (SetStatus i key (join '' '' (v # vs)) (hm_get (opts parsed) ''icon'') (hm_get (opts parsed) ''color'')
              (unwrap_or (Option.bind (hm_get (opts parsed) ''priority'') parse_i32) 0)) reply_ok st
        | _ \<Rightarrow> reply_error ''usage: set_status <key> <value> [--icon=X] [--color=X] [--priority=N]'' st))"

definition do_clear_status :: "sock_env \<Rightarrow> string \<Rightarrow> SockState \<Rightarrow> reply" where
  "do_clear_status env args =
     with_focused (\<lambda>i st.
       (let key = trim args
        in if key = [] then reply_error ''usage: clear_status <key>'' st
           else run_win env (ClearStatus i key) reply_ok st))"

definition do_set_progress :: "sock_env \<Rightarrow> string \<Rightarrow> SockState \<Rightarrow> reply" where
  "do_set_progress env args =
     with_focused (\<lambda>i st.
       (let parsed = parse_opts args in
        case positional parsed of
          p # ps \<Rightarrow>
            (case se_f64 env (trim p) of
               Some v \<Rightarrow> run_win env (SetProgress i v (hm_get (opts parsed) ''label'')) reply_ok st
             | None \<Rightarrow> reply_error ''invalid progress value'' st)
        | [] \<Rightarrow> reply_error ''usage: set_progress <0.0-1.0> [--label=X]'' st))"

definition do_log :: "sock_env \<Rightarrow> string \<Rightarrow> SockState \<Rightarrow> reply" where
  "do_log env args =
     with_focused (\<lambda>i st.
       (let parsed = parse_opts args in
        if positional parsed = [] then reply_error ''usage: log <message> [--level=info|warning|error|success]'' st
        else run_win env (AddLog i (join '' '' (positional parsed))
               (log_level_from_str (unwrap_or (hm_get (opts parsed) ''level'') ''info'')) None (se_now env)) reply_ok st))"

definition do_select_workspace :: "sock_env \<Rightarrow> string \<Rightarrow> SockState \<Rightarrow> reply" where
  "do_select_workspace env args =
     parse_arg args ''workspace id''
       (\<lambda>i st. (let found = fst (select_workspace_by_id i (sk_win st))
                in run_win env (SelectWorkspaceById i)
                     (if found then reply_ok else reply_error ''workspace not found'') st))"

definition do_close_workspace :: "sock_env \<Rightarrow> string \<Rightarrow> SockState \<Rightarrow> reply" where
  "do_close_workspace env args st =
     (let close = (\<lambda>i st. do { (closed, aw) \<leftarrow> close_workspace_by_id (env_pick (se_gtk env)) i (sk_win st);
                    (if closed then reply_ok else reply_error ''workspace not found or pinned'') (st\<lparr>sk_win := aw\<rparr>) });
          id_str = trim args
      in if id_str = [] then with_focused close st
         else case parse_u32 id_str of
                Some i \<Rightarrow> close i st
              | None \<Rightarrow> reply_error ''invalid workspace id'' st)"

definition do_list_panes :: "string \<Rightarrow> SockState \<Rightarrow> reply" where
  "do_list_panes args st =
     (let a = trim args in
      case (if a = [] then focused_workspace_id (sk_win st) else parse_u32 a) of
        None \<Rightarrow> reply_error ''no workspace'' st
      | Some i \<Rightarrow>
          (case list_panes i (sk_win st) of
             Some ps \<Rightarrow> reply_data (join '','' (map u32_str ps)) st
           | None \<Rightarrow> reply_error ''workspace not found'' st))"

definition do_focus_pane :: "sock_env \<Rightarrow> string \<Rightarrow> SockState \<Rightarrow> reply" where
  "do_focus_pane env args =
     parse_arg args ''pane id''
       (\<lambda>p st. (let found = fst (focus_pane_by_id p (sk_win st))
                in run_win env (FocusPaneById p) (if found then reply_ok else reply_error ''pane not found'') st))"

definition do_send :: "string \<Rightarrow> SockState \<Rightarrow> reply" where
  "do_send args =
     two_args ''send <surface_id> <text>'' args
       (\<lambda>a text. parse_arg a ''surface id''
          (\<lambda>s st. case get_handle (registry (sk_win st)) s of
                    Some h \<Rightarrow> reply_ok (call_out (SendText h text) st)
                  | None \<Rightarrow> reply_error ''surface not found'' st))"

definition do_read_screen :: "sock_env \<Rightarrow> string \<Rightarrow> SockState \<Rightarrow> reply" where
  "do_read_screen env args =
     parse_arg args ''surface id''
       (\<lambda>s st. case read_surface_scrollback (sk_win st) (se_screen env) s of
                 Some text \<Rightarrow> reply_text text st
               | None \<Rightarrow> reply_error ''surface not found'' st)"

definition do_browser :: "string \<Rightarrow> (BrowserPanelId \<Rightarrow> Call) \<Rightarrow> SockState \<Rightarrow> reply" where
  "do_browser args c = parse_arg args ''browser_id'' (\<lambda>b st. reply_ok (call_out (c b) st))"

definition do_notify :: "bool \<Rightarrow> SockState \<Rightarrow> reply" where
  "do_notify on st = reply_ok (call_out (TrayNotifications on) (st\<lparr>sk_notify := on\<rparr>))"

definition do_remote_connect :: "sock_env \<Rightarrow> string \<Rightarrow> SockState \<Rightarrow> reply" where
  "do_remote_connect env args st =
     (let parsed = parse_opts args in
      case positional parsed of
        [] \<Rightarrow> reply_error ''remote_connect requires a destination'' st
      | dest # _ \<Rightarrow>
          (let cfg = \<lparr>destination = dest, port = Option.bind (hm_get (opts parsed) ''port'') parse_u16,
                      identity_file = hm_get (opts parsed) ''identity'',
                      ssh_options = (case hm_get (opts parsed) ''ssh-option'' of Some v \<Rightarrow> [v] | None \<Rightarrow> []),
                      terminal_startup_command = hm_get (opts parsed) ''command'',
                      relay_port = None, relay_id = None, relay_token = None, local_socket_path = None\<rparr>;
               (p, rid, tok) = se_relay env;
               i = fst (new_remote_workspace p rid tok cfg (sk_win st))
           in run_win env (NewRemoteWorkspace p rid tok cfg) (reply_data (u32_str i)) st))"

definition do_remote_disconnect :: "sock_env \<Rightarrow> string \<Rightarrow> SockState \<Rightarrow> reply" where
  "do_remote_disconnect env args st =
     (let parsed = parse_opts args
      in run_win env (DisconnectRemote (Option.bind (first_opt (positional parsed)) parse_u32)
           (hm_contains (opts parsed) ''clear'')) reply_ok st)"

definition remote_status_info :: "sock_env \<Rightarrow> WorkspaceId option \<Rightarrow> AppWindow \<Rightarrow> string option" where
  "remote_status_info env i aw =
     do { k \<leftarrow> remote_target i aw;
          ws \<leftarrow> find (\<lambda>ws. ws_key ws = k) (workspaces aw);
          Some (se_json env \<lparr>ri_workspace = ws_key ws, ri_state = conn_state_str (remote_state ws),
                  ri_destination = map_option display_target (remote_config ws),
                  ri_daemon = remote_daemon_status ws\<rparr>) }"

definition do_remote_status :: "sock_env \<Rightarrow> string \<Rightarrow> SockState \<Rightarrow> reply" where
  "do_remote_status env args st =
     (case remote_status_info env (Option.bind (split_first args) parse_u32) (sk_win st) of
        Some json \<Rightarrow> reply_text json st
      | None \<Rightarrow> reply_error ''workspace not found or not remote'' st)"

section \<open>The interpreter\<close>

definition handle_command :: "sock_env \<Rightarrow> string \<Rightarrow> SockState \<Rightarrow> reply" where
  "handle_command env cmd st =
     (let (command, rest) = splitn2 (CHR '' '') cmd; args = unwrap_or rest []; aw = sk_win st in
      if command = ''ping'' then reply_data ''pong'' st
      else if command = ''version'' then reply_data (''limux '' @ se_version env) st
      else if command = ''list_surfaces'' then reply_lines (list_surfaces_detailed (se_url env) aw) st
      else if command = ''new_workspace'' \<or> command = ''new_tab'' then run_win env NewWorkspace reply_ok st
      else if command = ''new_pane_tab'' then run_win env NewPaneTab reply_ok st
      else if command = ''workspace_count'' \<or> command = ''tab_count'' then
        reply_data (nat_str (length (workspaces aw))) st
      else if command = ''list_workspaces'' then reply_lines (map workspace_line (list_workspaces_detailed aw)) st
      else if command = ''workspace_set_color'' then do_set_color env args st
      else if command = ''workspace_pin'' then
        parse_arg args ''workspace id'' (\<lambda>i. run_win env (ToggleWorkspacePinned i) reply_ok) st
      else if command = ''toggle_sidebar'' then run_win env ToggleSidebar reply_ok st
      else if command = ''split_right'' then run_win env (SplitFocused Horizontal) reply_ok st
      else if command = ''split_down'' then run_win env (SplitFocused Vertical) reply_ok st
      else if command = ''set_status'' then do_set_status env args st
      else if command = ''clear_status'' then do_clear_status env args st
      else if command = ''set_progress'' then do_set_progress env args st
      else if command = ''clear_progress'' then with_focused (\<lambda>i. run_win env (ClearProgress i) reply_ok) st
      else if command = ''log'' then do_log env args st
      else if command = ''clear_log'' then with_focused (\<lambda>i. run_win env (ClearLog i) reply_ok) st
      else if command = ''select_workspace'' then do_select_workspace env args st
      else if command = ''close_workspace'' then do_close_workspace env args st
      else if command = ''current_workspace'' then
        (case current_workspace_info aw of
           Some (i, title) \<Rightarrow> reply_data (u32_str i @ '' '' @ title) st
         | None \<Rightarrow> reply_error ''no focused workspace'' st)
      else if command = ''list_panes'' then do_list_panes args st
      else if command = ''focus_pane'' then do_focus_pane env args st
      else if command = ''rename_workspace'' then
        two_args ''rename_workspace <id> <name>'' args
          (\<lambda>a b. parse_arg a ''workspace id'' (\<lambda>i. run_win env (RenameWorkspace i (trim b)) reply_ok)) st
      else if command = ''send'' then do_send args st
      else if command = ''read_screen'' then do_read_screen env args st
      else if command = ''open_browser'' then
        run_win env (SplitFocusedBrowser Horizontal (trim args)) reply_ok st
      else if command = ''navigate'' then
        two_args ''navigate <browser_id> <url>'' args (\<lambda>a b. do_browser a (\<lambda>i. BrowserNavigate i (trim b))) st
      else if command = ''browser_back'' then do_browser args BrowserBack st
      else if command = ''browser_forward'' then do_browser args BrowserForward st
      else if command = ''browser_reload'' then do_browser args BrowserReload st
      else if command = ''get_url'' then
        parse_arg args ''browser_id''
          (\<lambda>b st. case se_url env b of Some url \<Rightarrow> reply_data url st | None \<Rightarrow> reply_error ''browser not found'' st) st
      else if command = ''js_eval'' then
        two_args ''js_eval <browser_id> <script>'' args (\<lambda>a b. do_browser a (\<lambda>i. EvaluateJs i b)) st
      else if command = ''notify_enable'' then do_notify True st
      else if command = ''notify_disable'' then do_notify False st
      else if command = ''notify_status'' then
        reply_data (if sk_notify st then ''enabled'' else ''disabled'') st
      else if command = ''remote_connect'' then do_remote_connect env args st
      else if command = ''remote_disconnect'' then do_remote_disconnect env args st
      else if command = ''remote_reconnect'' then
        run_win env (ReconnectRemote (Option.bind (split_first args) parse_u32)) reply_ok st
      else if command = ''remote_status'' then do_remote_status env args st
      else reply_error (''unknown command: '' @ command) st)"

section \<open>A connection\<close>

text \<open>A response goes out with a line feed at its end, unless it carries its own length.\<close>

definition frame :: "string \<Rightarrow> string" where
  "frame response = (if starts_with ''OK+'' response then response else response @ [NL])"

text \<open>The second loop of the callback: every complete line of the buffer, from the left.\<close>

function process_lines :: "sock_env \<Rightarrow> string \<Rightarrow> SockState \<Rightarrow> (string \<times> string \<times> SockState) run" where
  "process_lines env buf st =
     (if NL \<notin> set buf then Some (buf, [], st)
      else do {
        let line = takeWhile (\<lambda>c. c \<noteq> NL) buf;
        (response, st) \<leftarrow> handle_command env (trim line) st;
        (rest, out, st) \<leftarrow> process_lines env (drop (length line + 1) buf) st;
        Some (rest, frame response @ out, st) })"
  by pat_completeness auto
termination by (relation "measure (length \<circ> (\<lambda>(_, buf, _). buf))") (auto intro: diff_less)

declare process_lines.simps [simp del]

text \<open>How the loop of reads ends: no more data now, end of the stream, or an error.\<close>

datatype read_end = WouldBlock | Eof | ReadError

fun drain :: "string list \<Rightarrow> read_end \<Rightarrow> string \<Rightarrow> string option" where
  "drain [] e buf = (if e = WouldBlock then Some buf else None)"
| "drain (c # cs) e buf = (if length (buf @ c) > 2 ^ 20 then None else drain cs e (buf @ c))"

record Conn =
  conn_open :: bool
  conn_buf :: string
  conn_out :: string

definition handle_client :: "sock_env \<Rightarrow> string list \<Rightarrow> read_end \<Rightarrow> Conn \<times> SockState \<Rightarrow> (Conn \<times> SockState) run" where
  "handle_client env chunks e cs =
     (let (conn, st) = cs in
      case drain chunks e (conn_buf conn) of
        None \<Rightarrow> Some (conn\<lparr>conn_open := False\<rparr>, st)
      | Some buf \<Rightarrow>
          do { (rest, out, st) \<leftarrow> process_lines env buf st;
               Some (conn\<lparr>conn_buf := rest, conn_out := conn_out conn @ out\<rparr>, st) })"

definition Conn_new :: Conn where
  "Conn_new = \<lparr>conn_open = True, conn_buf = [], conn_out = []\<rparr>"

fun serve :: "sock_env \<Rightarrow> (string list \<times> read_end) list \<Rightarrow> Conn \<times> SockState \<Rightarrow> (Conn \<times> SockState) run" where
  "serve env [] cs = Some cs"
| "serve env ((chunks, e) # evs) cs =
     (if conn_open (fst cs)
      then do { cs \<leftarrow> handle_client env chunks e cs; serve env evs cs }
      else Some cs)"

end
