(* ===== verification/Socket_Facts.thy ===== *)
theory Socket_Facts
  imports Socket
begin

text \<open>
  Every command of the control socket is answered, the answer has one of the four forms of the protocol, and the
  window stays well formed; processing lines does not depend on how the bytes arrive.
\<close>

section \<open>Answers\<close>

definition well_framed :: "string \<Rightarrow> bool" where
  "well_framed r \<longleftrightarrow> r = ''OK'' \<or> (\<exists>d. r = ''OK '' @ d) \<or> (\<exists>d. r = ''OK+'' @ nat_str (length d) @ [NL] @ d) \<or>
     (\<exists>c m. r = ''ERROR: '' @ c # m \<and> \<not> is_whitespace c)"

definition replies :: "reply \<Rightarrow> bool" where
  "replies r \<longleftrightarrow> (\<exists>resp st. r = Some (resp, st) \<and> well_framed resp \<and> window_ok (sk_win st))"

named_theorems replies_intros

lemma replies_basic [replies_intros]:
  assumes "window_ok (sk_win st)"
  shows "replies (reply_ok st)" "replies (reply_data d st)" "replies (reply_text d st)" "replies (reply_lines ls st)"
    "\<not> is_whitespace c \<Longrightarrow> replies (reply_error (c # m) st)"
  using assms by (auto simp: replies_def reply_ok_def reply_data_def reply_text_def reply_lines_def reply_error_def well_framed_def)

lemma replies_run_win [replies_intros]:
  assumes "window_ok (sk_win st)" "window_room (sk_win st)" "command_ok c"
    "\<And>aw. window_ok aw \<Longrightarrow> replies (k (st\<lparr>sk_win := aw\<rparr>))"
  shows "replies (run_win env c k st)"
proof -
  obtain aw where "exec (se_gtk env) c (sk_win st) = Some aw" "window_ok aw"
    using exec_ok [OF assms(1,2,3)] by blast
  with assms(4) show ?thesis by (simp add: run_win_def)
qed

lemma replies_parse_arg [replies_intros]:
  "window_ok (sk_win st) \<Longrightarrow> (\<And>v. replies (k v st)) \<Longrightarrow> replies (parse_arg s name k st)"
  by (auto simp: parse_arg_def is_whitespace_def code_def intro!: replies_intros split: option.split)

lemma replies_two_args [replies_intros]:
  "window_ok (sk_win st) \<Longrightarrow> (\<And>a b. replies (k a b st)) \<Longrightarrow> replies (two_args usage args k st)"
  by (auto simp: two_args_def is_whitespace_def code_def intro!: replies_intros split: prod.split option.split)

lemma replies_with_focused [replies_intros]:
  "window_ok (sk_win st) \<Longrightarrow> (\<And>i. replies (k i st)) \<Longrightarrow> replies (with_focused k st)"
  by (auto simp: with_focused_def is_whitespace_def code_def intro!: replies_intros split: option.split)

lemma call_out_win [simp]: "sk_win (call_out c st) = sk_win st"
  by (simp add: call_out_def)

lemma replies_do_browser [replies_intros]: "window_ok (sk_win st) \<Longrightarrow> replies (do_browser args c st)"
  by (simp add: do_browser_def replies_intros)

lemma first_nonblank [simp]:
  "\<not> is_whitespace (CHR ''w'')" "\<not> is_whitespace (CHR ''u'')" "\<not> is_whitespace (CHR ''n'')" "\<not> is_whitespace (CHR ''i'')"
  "\<not> is_whitespace (CHR ''p'')" "\<not> is_whitespace (CHR ''s'')" "\<not> is_whitespace (CHR ''b'')" "\<not> is_whitespace (CHR ''r'')"
  by (simp_all add: is_whitespace_def code_def)

lemma replies_commands [replies_intros]:
  assumes "window_ok (sk_win st)" "window_room (sk_win st)"
  shows "replies (do_set_color env args st)" "replies (do_set_status env args st)" "replies (do_clear_status env args st)"
    "replies (do_set_progress env args st)" "replies (do_log env args st)" "replies (do_select_workspace env args st)"
    "replies (do_list_panes args st)" "replies (do_focus_pane env args st)" "replies (do_send args st)"
    "replies (do_read_screen env args st)" "replies (do_notify on st)" "replies (do_remote_connect env args st)"
    "replies (do_remote_disconnect env args st)" "replies (do_remote_status env args st)"
  unfolding do_set_color_def do_set_status_def do_clear_status_def do_set_progress_def do_log_def do_select_workspace_def
    do_list_panes_def do_focus_pane_def do_send_def do_read_screen_def do_notify_def do_remote_connect_def
    do_remote_disconnect_def do_remote_status_def Let_def
  by (auto intro!: replies_intros split: option.split list.split prod.split simp: assms)

lemma replies_close_workspace [replies_intros]:
  assumes "window_ok (sk_win st)"
  shows "replies (do_close_workspace env args st)"
proof -
  have "replies (do { (closed, aw) \<leftarrow> close_workspace_by_id (env_pick (se_gtk env)) i (sk_win st);
      (if closed then reply_ok else reply_error ''workspace not found or pinned'') (st\<lparr>sk_win := aw\<rparr>) })" for i
    using close_workspace_ok(3) [OF assms, of "env_pick (se_gtk env)" i] by (auto intro!: replies_intros)
  then show ?thesis unfolding do_close_workspace_def Let_def
    by (auto intro!: replies_intros split: option.split simp: assms)
qed

lemma replies_if: "replies a \<Longrightarrow> replies b \<Longrightarrow> replies (if c then a else b)"
  by simp

lemma replies_case [replies_intros]:
  "window_ok (sk_win st) \<Longrightarrow> replies (case x of Some url \<Rightarrow> reply_data (f url) st | None \<Rightarrow> reply_error ''browser not found'' st)"
  "window_ok (sk_win st) \<Longrightarrow>
     replies (case y of Some p \<Rightarrow> reply_data (g p) st | None \<Rightarrow> reply_error ''no focused workspace'' st)"
  by (auto intro!: replies_intros split: option.split)

lemma replies_unknown [replies_intros]: "window_ok (sk_win st) \<Longrightarrow> replies (reply_error (''unknown command: '' @ c) st)"
  by (simp add: replies_intros)

lemma handle_command_replies:
  assumes ok: "window_ok (sk_win st)" and room: "window_room (sk_win st)"
  shows "replies (handle_command env cmd st)"
  unfolding handle_command_def Let_def prod.case_eq_if
  by (intro replies_if replies_intros ok room command_ok.simps(2-) [THEN iffD2] TrueI) simp_all

section \<open>Lines\<close>

lemma process_lines_incomplete: "NL \<notin> set buf \<Longrightarrow> process_lines env buf st = Some (buf, [], st)"
  by (simp add: process_lines.simps)

lemma process_lines_line:
  assumes "NL \<notin> set line"
  shows "process_lines env (line @ NL # buf) st =
    do { (response, st) \<leftarrow> handle_command env (trim line) st;
         (rest, out, st) \<leftarrow> process_lines env buf st;
         Some (rest, frame response @ out, st) }"
proof -
  have "takeWhile (\<lambda>c. c \<noteq> NL) (line @ NL # buf) = line" using assms by (simp add: takeWhile_ne)
  then show ?thesis by (subst process_lines.simps) (simp add: Let_def)
qed

lemma process_lines_append:
  "process_lines env (a @ b) st =
    do { (rest, out, st) \<leftarrow> process_lines env a st;
         (rest', out', st) \<leftarrow> process_lines env (rest @ b) st;
         Some (rest', out @ out', st) }"
proof (induction env a st rule: process_lines.induct)
  case (1 env buf st)
  show ?case
  proof (cases "NL \<in> set buf")
    case False
    then show ?thesis by (simp add: process_lines_incomplete case_prod_beta')
  next
    case True
    then obtain line r where buf: "buf = line @ NL # r" "NL \<notin> set line" by (meson split_list_first)
    have tw: "takeWhile (\<lambda>c. c \<noteq> NL) buf = line" using buf by (simp add: takeWhile_ne)
    have IH: "process_lines env (r @ b) st' =
        do { (rest, out, st) \<leftarrow> process_lines env r st'; (rest', out', st) \<leftarrow> process_lines env (rest @ b) st;
             Some (rest', out @ out', st) }" if "handle_command env (trim line) st = Some (resp, st')" for resp st'
    proof -
      have "drop (length line + 1) buf = r" by (simp add: buf(1))
      with 1 [OF _ tw [symmetric] that refl] True show ?thesis by simp
    qed
    show ?thesis
    proof (cases "handle_command env (trim line) st")
      case (Some x)
      obtain resp st' where x: "x = (resp, st')" by fastforce
      note l = process_lines_line [OF buf(2)] and IH' = IH [OF Some [unfolded x]]
      have e: "process_lines env (buf @ b) st =
          do { (rest, out, st) \<leftarrow> process_lines env (r @ b) st'; Some (rest, frame resp @ out, st) }"
        "process_lines env buf st = do { (rest, out, st) \<leftarrow> process_lines env r st'; Some (rest, frame resp @ out, st) }"
        using l [of env r st] l [of env "r @ b" st] by (simp_all add: buf(1) Some x)
      have "?thesis" if "process_lines env r st' = None" using that e by (simp add: IH')
      moreover have "?thesis" if r: "process_lines env r st' = Some (rest, out, st2)" for rest out st2
      proof (cases "process_lines env (rest @ b) st2")
        case (Some y)
        then show ?thesis using e by (cases y) (simp add: IH' r)
      qed (use e in \<open>simp add: IH' r\<close>)
      ultimately show ?thesis by (metis option.exhaust prod_cases3)
    qed (simp add: buf(1) process_lines_line [OF buf(2)])
  qed
qed

end
