(* ===== verification/Cli.thy ===== *)
theory Cli
  imports Socket_Facts
begin

text \<open>
  Model of the command line client, \<open>cli/src\<close>: the text each subcommand sends (\<open>cli/src/commands\<close>,
  \<open>cli/src/main.rs\<close>) and how \<open>cli/src/socket.rs\<close> reads the answer. The parsing of the process arguments by clap and
  the socket itself are not modelled. The value of \<open>SetProgress\<close> is the text Rust prints for it.
\<close>

section \<open>Requests\<close>

datatype WorkspaceCmd =
    CliNewWorkspace
  | WorkspaceCount
  | ListWorkspaces
  | WorkspaceSetColor u32 string
  | WorkspacePin u32
  | SelectWorkspace u32
  | CliCloseWorkspace "u32 option"
  | CurrentWorkspace
  | ListPanes "u32 option"
  | FocusPane u32
  | CliRenameWorkspace u32 string
  | CliToggleSidebar

datatype SplitCmd =
    SplitRight
  | SplitDown

datatype BrowserCmd =
    OpenBrowser string
  | CliNavigate u32 string
  | CliBrowserBack u32
  | CliBrowserForward u32
  | CliBrowserReload u32
  | GetUrl u32
  | JsEval u32 string

datatype MetadataCmd =
    CliSetStatus string string "string option" "string option" "int option"
  | CliClearStatus string
  | CliSetProgress string "string option"
  | CliClearProgress
  | Log string string
  | CliClearLog
  | NotifyEnable
  | NotifyDisable
  | NotifyStatus

datatype RemoteCmd =
    RemoteConnect string "u16 option" "string option" "string list" "string option"
  | RemoteDisconnect "u32 option" bool
  | RemoteReconnect "u32 option"
  | RemoteStatus "u32 option"

datatype TerminalCmd =
    Send u32 string
  | ReadScreen u32

datatype CliCmd =
    Ping
  | Version
  | ListSurfaces
  | CliWorkspace WorkspaceCmd
  | CliSplit SplitCmd
  | CliBrowser BrowserCmd
  | CliMetadata MetadataCmd
  | CliRemote RemoteCmd
  | CliTerminal TerminalCmd

definition int_str :: "int \<Rightarrow> string" where
  "int_str n = (if n < 0 then ''-'' @ nat_str (nat (- n)) else nat_str (nat n))"

definition opt_flag :: "string \<Rightarrow> string option \<Rightarrow> string" where
  "opt_flag name v = (case v of Some x \<Rightarrow> '' --'' @ name @ ''='' @ x | None \<Rightarrow> [])"

definition opt_id :: "u32 option \<Rightarrow> string" where
  "opt_id i = (case i of Some k \<Rightarrow> '' '' @ u32_str k | None \<Rightarrow> [])"

fun WorkspaceCmd_run :: "WorkspaceCmd \<Rightarrow> string" where
  "WorkspaceCmd_run CliNewWorkspace = ''new_workspace''"
| "WorkspaceCmd_run WorkspaceCount = ''workspace_count''"
| "WorkspaceCmd_run ListWorkspaces = ''list_workspaces''"
| "WorkspaceCmd_run (WorkspaceSetColor i c) = ''workspace_set_color'' @ '' '' @ u32_str i @ '' '' @ c"
| "WorkspaceCmd_run (WorkspacePin i) = ''workspace_pin'' @ '' '' @ u32_str i"
| "WorkspaceCmd_run (SelectWorkspace i) = ''select_workspace'' @ '' '' @ u32_str i"
| "WorkspaceCmd_run (CliCloseWorkspace i) = ''close_workspace'' @ opt_id i"
| "WorkspaceCmd_run CurrentWorkspace = ''current_workspace''"
| "WorkspaceCmd_run (ListPanes i) = ''list_panes'' @ opt_id i"
| "WorkspaceCmd_run (FocusPane i) = ''focus_pane'' @ '' '' @ u32_str i"
| "WorkspaceCmd_run (CliRenameWorkspace i n) = ''rename_workspace'' @ '' '' @ u32_str i @ '' '' @ n"
| "WorkspaceCmd_run CliToggleSidebar = ''toggle_sidebar''"

fun SplitCmd_run :: "SplitCmd \<Rightarrow> string" where
  "SplitCmd_run SplitRight = ''split_right''"
| "SplitCmd_run SplitDown = ''split_down''"

fun BrowserCmd_run :: "BrowserCmd \<Rightarrow> string" where
  "BrowserCmd_run (OpenBrowser url) = ''open_browser'' @ '' '' @ url"
| "BrowserCmd_run (CliNavigate b url) = ''navigate'' @ '' '' @ u32_str b @ '' '' @ url"
| "BrowserCmd_run (CliBrowserBack b) = ''browser_back'' @ '' '' @ u32_str b"
| "BrowserCmd_run (CliBrowserForward b) = ''browser_forward'' @ '' '' @ u32_str b"
| "BrowserCmd_run (CliBrowserReload b) = ''browser_reload'' @ '' '' @ u32_str b"
| "BrowserCmd_run (GetUrl b) = ''get_url'' @ '' '' @ u32_str b"
| "BrowserCmd_run (JsEval b s) = ''js_eval'' @ '' '' @ u32_str b @ '' '' @ s"

fun MetadataCmd_run :: "MetadataCmd \<Rightarrow> string" where
  "MetadataCmd_run (CliSetStatus k v icon col prio) =
     ''set_status'' @ '' '' @ k @ '' '' @ v @ opt_flag ''icon'' icon @ opt_flag ''color'' col @
     opt_flag ''priority'' (map_option int_str prio)"
| "MetadataCmd_run (CliClearStatus k) = ''clear_status'' @ '' '' @ k"
| "MetadataCmd_run (CliSetProgress v label) = ''set_progress'' @ '' '' @ v @ opt_flag ''label'' label"
| "MetadataCmd_run CliClearProgress = ''clear_progress''"
| "MetadataCmd_run (Log m level) = ''log'' @ '' '' @ m @ '' --level='' @ level"
| "MetadataCmd_run CliClearLog = ''clear_log''"
| "MetadataCmd_run NotifyEnable = ''notify_enable''"
| "MetadataCmd_run NotifyDisable = ''notify_disable''"
| "MetadataCmd_run NotifyStatus = ''notify_status''"

fun RemoteCmd_run :: "RemoteCmd \<Rightarrow> string" where
  "RemoteCmd_run (RemoteConnect d p i os c) =
     ''remote_connect'' @ '' '' @ d @ opt_flag ''port'' (map_option u16_str p) @ opt_flag ''identity'' i @
     concat (map (\<lambda>o'. opt_flag ''ssh-option'' (Some o')) os) @ opt_flag ''command'' c"
| "RemoteCmd_run (RemoteDisconnect i clear) = ''remote_disconnect'' @ opt_id i @ (if clear then '' --clear'' else [])"
| "RemoteCmd_run (RemoteReconnect i) = ''remote_reconnect'' @ opt_id i"
| "RemoteCmd_run (RemoteStatus i) = ''remote_status'' @ opt_id i"

fun TerminalCmd_run :: "TerminalCmd \<Rightarrow> string" where
  "TerminalCmd_run (Send s text) = ''send'' @ '' '' @ u32_str s @ '' '' @ text"
| "TerminalCmd_run (ReadScreen s) = ''read_screen'' @ '' '' @ u32_str s"

fun cli_line :: "CliCmd \<Rightarrow> string" where
  "cli_line Ping = ''ping''"
| "cli_line Version = ''version''"
| "cli_line ListSurfaces = ''list_surfaces''"
| "cli_line (CliWorkspace c) = WorkspaceCmd_run c"
| "cli_line (CliSplit c) = SplitCmd_run c"
| "cli_line (CliBrowser c) = BrowserCmd_run c"
| "cli_line (CliMetadata c) = MetadataCmd_run c"
| "cli_line (CliRemote c) = RemoteCmd_run c"
| "cli_line (CliTerminal c) = TerminalCmd_run c"

section \<open>Answers\<close>

datatype CliError = ServerError string | BadLength string | ShortBody | Unexpected string

definition parse_usize :: "string \<Rightarrow> usize option" where
  "parse_usize s = parse_bounded (2 ^ 64) s"

text \<open>\<open>stream\<close> is what the server writes before the client stops reading.\<close>

definition read_response :: "string \<Rightarrow> CliError + string" where
  "read_response stream =
     (let line = takeWhile (\<lambda>c. c \<noteq> NL) stream; rest = drop (length line + 1) stream; line = trim_end line in
      case strip_prefix ''OK+'' line of
        Some len_str \<Rightarrow>
          (case parse_usize len_str of
             None \<Rightarrow> Inl (BadLength len_str)
           | Some len \<Rightarrow> if length rest < len then Inl ShortBody else Inr (take len rest))
      | None \<Rightarrow>
          (case strip_prefix ''OK'' line of
             Some data \<Rightarrow> Inr (trim_start data)
           | None \<Rightarrow>
               (case strip_prefix ''ERROR: '' line of
                  Some msg \<Rightarrow> Inl (ServerError msg)
                | None \<Rightarrow> Inl (Unexpected line))))"

definition resolve :: "string option \<Rightarrow> string option \<Rightarrow> string + string" where
  "resolve socket_flag env_var =
     (case socket_flag of
        Some path \<Rightarrow> Inr path
      | None \<Rightarrow>
          (case env_var of
             Some path \<Rightarrow> if path \<noteq> [] then Inr path
                          else Inl ''No socket found. Set LIMUX_SOCKET or use --socket PATH.''
           | None \<Rightarrow> Inl ''No socket found. Set LIMUX_SOCKET or use --socket PATH.''))"

section \<open>Lemmas\<close>

lemma trim_end_id: "s = [] \<or> \<not> is_whitespace (last s) \<Longrightarrow> trim_end s = s"
  by (cases s rule: rev_cases) (auto simp: trim_end_def)

lemma u32_str_not_Nil [simp]: "u32_str i \<noteq> []"
  by (simp add: u32_str_def)

lemma u32_str_nonblank: "c \<in> set (u32_str i) \<Longrightarrow> \<not> is_whitespace c"
  using u32_str_chars is_digit_not_whitespace by blast

lemma last_u32_str [simp]: "\<not> is_whitespace (last (u32_str i))" "\<not> is_whitespace (hd (u32_str i))"
  by (rule u32_str_nonblank [of _ i], simp)+

lemma trim_u32_str [simp]: "trim (u32_str i) = u32_str i"
  by (rule trim_clean) simp

lemma nonblank_in: "\<forall>c\<in>set a. \<not> is_whitespace c \<Longrightarrow> CHR '' '' \<notin> set a"
  by (auto simp: is_whitespace_def code_def)

lemma trim_end_append: "trim_end (a @ b) = (if trim_end b = [] then trim_end a else a @ trim_end b)"
  by (auto simp: trim_end_def dropWhile_append)

lemma trim_end_nonblank: "\<not> is_whitespace c \<Longrightarrow> trim_end (c # s) = c # trim_end s"
  using trim_end_append [of "[c]" s] trim_end_id [of "[c]"] by (cases "trim_end s = []") simp_all

lemma read_text:
  assumes "length d < 2 ^ 64"
  shows "read_response (''OK+'' @ nat_str (length d) @ [NL] @ d @ r) = Inr d"
proof -
  have n: "c \<in> set (nat_str n) \<Longrightarrow> \<not> is_whitespace c" for c n using nat_str_chars is_digit_not_whitespace by blast
  have nl: "NL \<notin> set (''OK+'' @ nat_str (length d))" using n [of NL] by (auto simp: NL_def is_whitespace_def code_def)
  have line: "takeWhile (\<lambda>c. c \<noteq> NL) ((''OK+'' @ nat_str (length d)) @ NL # d @ r) = ''OK+'' @ nat_str (length d)"
    using takeWhile_ne [OF nl, of "NL # d @ r"] by simp
  have tr: "trim_end (''OK+'' @ nat_str (length d)) = ''OK+'' @ nat_str (length d)"
    by (rule trim_end_id) (use n [of "last (nat_str (length d))" "length d"] in simp)
  have "parse_usize (nat_str (length d)) = Some (length d)" using assms by (simp add: parse_usize_def parse_bounded_def)
  with line tr show ?thesis by (simp add: read_response_def Let_def)
qed

lemma takeWhile_lit: "c \<noteq> NL \<Longrightarrow> takeWhile (\<lambda>c. c \<noteq> NL) (c # s) = c # takeWhile (\<lambda>c. c \<noteq> NL) s"
  by simp

lemma literal_chars [simp]:
  "CHR ''O'' \<noteq> NL" "CHR ''K'' \<noteq> NL" "CHR '' '' \<noteq> NL" "CHR ''E'' \<noteq> NL" "CHR ''R'' \<noteq> NL" "CHR '':'' \<noteq> NL"
  "\<not> is_whitespace (CHR ''O'')" "\<not> is_whitespace (CHR ''K'')" "\<not> is_whitespace (CHR ''E'')" "\<not> is_whitespace (CHR ''R'')"
  "\<not> is_whitespace (CHR '':'')"
  by (simp_all add: NL_def is_whitespace_def code_def)

lemma read_error:
  assumes "\<not> is_whitespace c"
  shows "\<exists>m'. read_response (''ERROR: '' @ c # m @ [NL]) = Inl (ServerError m')"
proof -
  have "c \<noteq> NL" using assms by (auto simp: NL_def is_whitespace_def code_def)
  then have "takeWhile (\<lambda>c. c \<noteq> NL) (''ERROR: '' @ c # m @ [NL]) = ''ERROR: '' @ c # takeWhile (\<lambda>c. c \<noteq> NL) (m @ [NL])" by simp
  moreover have "trim_end (''ERROR: '' @ c # x) = ''ERROR: '' @ c # trim_end x" for x
    using trim_end_append [of "''ERROR: ''" "c # x"] by (simp add: trim_end_nonblank assms)
  ultimately show ?thesis by (simp add: read_response_def Let_def)
qed

lemma read_ok:
  "read_response ''OK'' = Inr []" "read_response (''OK'' @ [NL]) = Inr []"
  "\<exists>d'. read_response (''OK '' @ d @ [NL]) = Inr d'"
proof -
  have "\<exists>y. trim_end (CHR '' '' # x) = y \<and> strip_prefix ''+'' y = None" for x
  proof -
    have "trim_end '' '' = []" by (simp add: trim_end_def is_whitespace_def code_def)
    with trim_end_append [of "'' ''" x] show ?thesis by (cases "trim_end x = []") simp_all
  qed
  then show "\<exists>d'. read_response (''OK '' @ d @ [NL]) = Inr d'"
    by (fastforce simp: read_response_def Let_def trim_end_nonblank)
qed (simp_all add: read_response_def Let_def trim_end_nonblank trim_end_def trim_start_def)

lemma read_well_framed:
  assumes "well_framed resp" "length resp < 2 ^ 64"
  shows "(\<exists>d. read_response (frame resp) = Inr d) \<or> (\<exists>m. read_response (frame resp) = Inl (ServerError m))"
  using assms(1) unfolding well_framed_def
proof (elim disjE exE conjE)
  fix d assume d: "resp = ''OK+'' @ nat_str (length d) @ [NL] @ d"
  then have "length d < 2 ^ 64" using assms(2) by simp
  from read_text [OF this, of "[]"] show ?thesis by (simp add: frame_def starts_with_def d)
qed (use read_ok read_error in \<open>simp_all add: frame_def starts_with_def\<close>)

section \<open>What each subcommand asks of the window\<close>

text \<open>The window command a subcommand stands for, for the subcommands that always reach the window.\<close>

fun cli_intent :: "CliCmd \<Rightarrow> Command option" where
  "cli_intent (CliWorkspace CliNewWorkspace) = Some NewWorkspace"
| "cli_intent (CliWorkspace (WorkspaceSetColor i c)) = map_option (SetWorkspaceColor i \<circ> Some) (from_name c)"
| "cli_intent (CliWorkspace (WorkspacePin i)) = Some (ToggleWorkspacePinned i)"
| "cli_intent (CliWorkspace (SelectWorkspace i)) = Some (SelectWorkspaceById i)"
| "cli_intent (CliWorkspace (FocusPane i)) = Some (FocusPaneById i)"
| "cli_intent (CliWorkspace (CliRenameWorkspace i n)) =
     (if n \<noteq> [] \<and> \<not> is_whitespace (hd n) \<and> \<not> is_whitespace (last n) then Some (RenameWorkspace i n) else None)"
| "cli_intent (CliWorkspace CliToggleSidebar) = Some ToggleSidebar"
| "cli_intent (CliSplit SplitRight) = Some (SplitFocused Horizontal)"
| "cli_intent (CliSplit SplitDown) = Some (SplitFocused Vertical)"
| "cli_intent (CliBrowser (OpenBrowser url)) =
     (if url = [] \<or> \<not> is_whitespace (hd url) \<and> \<not> is_whitespace (last url) then Some (SplitFocusedBrowser Horizontal url) else None)"
| "cli_intent (CliRemote (RemoteDisconnect i False)) = Some (DisconnectRemote i False)"
| "cli_intent (CliRemote (RemoteReconnect i)) = Some (ReconnectRemote i)"
| "cli_intent _ = None"

text \<open>The request as the server takes it apart.\<close>

definition request :: "string \<Rightarrow> string \<times> string option" where
  "request line = splitn2 (CHR '' '') (trim line)"

lemma request_bare: "\<forall>c\<in>set cmd. \<not> is_whitespace c \<Longrightarrow> cmd \<noteq> [] \<Longrightarrow> request cmd = (cmd, None)"
  using nonblank_in [of cmd] by (simp add: request_def trim_clean splitn2_none)

lemma request_args:
  assumes "\<forall>c\<in>set cmd. \<not> is_whitespace c" "cmd \<noteq> []" "a \<noteq> []" "\<not> is_whitespace (last a)"
  shows "request (cmd @ '' '' @ a) = (cmd, Some a)"
proof -
  have "trim (cmd @ '' '' @ a) = cmd @ '' '' @ a" by (rule trim_clean) (use assms in \<open>cases cmd; simp\<close>)
  with splitn2_some [OF nonblank_in [OF assms(1)], of a] show ?thesis by (simp add: request_def)
qed

lemma two_words: "splitn2 (CHR '' '') (u32_str i @ CHR '' '' # a) = (u32_str i, Some a)"
  using splitn2_some [OF nonblank_in, of "u32_str i" a] u32_str_nonblank by blast

end
