(* ===== verification/Socket_Claims.thy ===== *)
theory Socket_Claims
  imports Cli Window_Props
begin

text \<open>
  The properties of the control socket and its command line client.
\<close>

section \<open>Facts for the properties\<close>

lemma process_lines_rest:
  "process_lines env buf st = Some (rest, out, st') \<Longrightarrow> NL \<notin> set rest \<and> length rest \<le> length buf"
proof (induction env buf st arbitrary: rest out st' rule: process_lines.induct)
  case (1 env buf st)
  show ?case
  proof (cases "NL \<in> set buf")
    case False
    then show ?thesis using 1(2) by (auto simp: process_lines_incomplete)
  next
    case True
    then obtain line r where buf: "buf = line @ NL # r" "NL \<notin> set line" by (meson split_list_first)
    have tw: "takeWhile (\<lambda>c. c \<noteq> NL) buf = line" using buf by (simp add: takeWhile_ne)
    obtain resp st1 out1 where h: "handle_command env (trim line) st = Some (resp, st1)"
      "process_lines env r st1 = Some (rest, out1, st')"
      using 1(2) unfolding buf(1) process_lines_line [OF buf(2)] by (auto simp: bind_eq_Some_conv)
    have "drop (length line + 1) buf = r" by (simp add: buf(1))
    with 1(1) [OF _ tw [symmetric] h(1) refl] True h(2) have "NL \<notin> set rest \<and> length rest \<le> length r" by auto
    then show ?thesis by (simp add: buf(1))
  qed
qed

lemma drain_small: "length (buf @ concat cs) \<le> 2 ^ 20 \<Longrightarrow> drain cs WouldBlock buf = Some (buf @ concat cs)"
  by (induction cs arbitrary: buf) auto

abbreviation received :: "(string list \<times> read_end) list \<Rightarrow> string" where
  "received evs \<equiv> concat (map (\<lambda>ev. concat (fst ev)) evs)"

lemma serve_lines:
  assumes "\<forall>ev\<in>set evs. snd ev = WouldBlock" "conn_open conn" "NL \<notin> set (conn_buf conn)"
    "length (conn_buf conn @ received evs) \<le> 2 ^ 20"
  shows "serve env evs (conn, st) =
    do { (rest, out, st) \<leftarrow> process_lines env (conn_buf conn @ received evs) st;
         Some (conn\<lparr>conn_buf := rest, conn_out := conn_out conn @ out\<rparr>, st) }"
  using assms
proof (induction evs arbitrary: conn st)
  case Nil
  then show ?case by (simp add: process_lines_incomplete)
next
  case (Cons ev evs)
  obtain cs where ev: "ev = (cs, WouldBlock)" using Cons.prems(1) by (cases ev) auto
  have d: "drain cs WouldBlock (conn_buf conn) = Some (conn_buf conn @ concat cs)"
    by (rule drain_small) (use Cons.prems(4) ev in simp)
  let ?b = "conn_buf conn @ concat cs"
  have app: "process_lines env (conn_buf conn @ received (ev # evs)) st =
      do { (rest, out, st) \<leftarrow> process_lines env ?b st;
           (rest', out', st) \<leftarrow> process_lines env (rest @ received evs) st; Some (rest', out @ out', st) }"
    using process_lines_append [of env ?b "received evs" st] by (simp add: ev)
  show ?case
  proof (cases "process_lines env ?b st")
    case None
    moreover have "serve env (ev # evs) (conn, st) = None" using Cons.prems(2) d None by (simp add: ev handle_client_def)
    ultimately show ?thesis unfolding app by simp
  next
    case (Some x)
    obtain rest out st' where x: "x = (rest, out, st')" by (cases x)
    let ?c = "conn\<lparr>conn_buf := rest, conn_out := conn_out conn @ out\<rparr>"
    have r: "NL \<notin> set rest" "length rest \<le> length ?b" using process_lines_rest [OF Some [unfolded x]] by auto
    have "length (conn_buf ?c @ received evs) \<le> 2 ^ 20" using Cons.prems(4) r(2) ev by simp
    with Cons.IH [of ?c st'] Cons.prems(1,2) r(1) have
      "serve env evs (?c, st') = do { (rest', out', st) \<leftarrow> process_lines env (rest @ received evs) st';
         Some (?c\<lparr>conn_buf := rest', conn_out := conn_out ?c @ out'\<rparr>, st) }" by simp
    moreover have "serve env (ev # evs) (conn, st) = serve env evs (?c, st')"
      using Cons.prems(2) d Some x by (simp add: ev handle_client_def)
    ultimately show ?thesis unfolding app Some x
      by (cases "process_lines env (rest @ received evs) st'") auto
  qed
qed

section \<open>The properties\<close>

text \<open>
  C16. Every line a client can send is answered: whatever the command and its arguments, the interpreter returns on a
  well-formed window, the window stays well formed, and the command line client reads the answer as data or as an error
  message of the server, never as a protocol violation.
\<close>

theorem socket_answers:
  assumes "window_ok (sk_win st)" "window_room (sk_win st)"
  shows "\<exists>resp st'. handle_command env cmd st = Some (resp, st') \<and> window_ok (sk_win st') \<and>
    (length resp < 2 ^ 64 \<longrightarrow>
       (\<exists>d. read_response (frame resp) = Inr d) \<or> (\<exists>m. read_response (frame resp) = Inl (ServerError m)))"
  using handle_command_replies [OF assms, of env cmd] read_well_framed unfolding replies_def by blast

definition demo_sock :: SockState where
  "demo_sock = \<lparr>sk_win = demo_window, sk_notify = True, sk_calls = []\<rparr>"

definition demo_sock_env :: sock_env where
  "demo_sock_env = \<lparr>se_gtk = demo_env, se_version = ''1'', se_url = (\<lambda>_. None), se_screen = (\<lambda>_. Some ''hi''), se_now = 0,
     se_relay = (None, ''i'', ''t''), se_json = (\<lambda>_. ''{}''), se_f64 = (\<lambda>_. None)\<rparr>"

theorem socket_answers_witness:
  "window_ok (sk_win demo_sock) \<and> window_room (sk_win demo_sock) \<and>
   (\<exists>resp st'. handle_command demo_sock_env ''close_workspace 7'' demo_sock = Some (resp, st') \<and> window_ok (sk_win st'))"
proof -
  have "window_ok (sk_win demo_sock)" "window_room (sk_win demo_sock)" by (simp_all add: demo_sock_def demo_ok demo_room)
  with socket_answers [OF this, of demo_sock_env "''close_workspace 7''"] show ?thesis by blast
qed



section \<open>The client and the interpreter\<close>

lemma handle_request:
  "request line = (command, rest) \<Longrightarrow> splitn2 (CHR '' '') (trim line) = (command, rest)"
  by (simp add: request_def)

lemma command_words:
  "\<forall>c\<in>set ''new_workspace''. \<not> is_whitespace c" "\<forall>c\<in>set ''workspace_set_color''. \<not> is_whitespace c"
  "\<forall>c\<in>set ''workspace_pin''. \<not> is_whitespace c" "\<forall>c\<in>set ''select_workspace''. \<not> is_whitespace c"
  "\<forall>c\<in>set ''focus_pane''. \<not> is_whitespace c" "\<forall>c\<in>set ''rename_workspace''. \<not> is_whitespace c"
  "\<forall>c\<in>set ''toggle_sidebar''. \<not> is_whitespace c" "\<forall>c\<in>set ''split_right''. \<not> is_whitespace c"
  "\<forall>c\<in>set ''split_down''. \<not> is_whitespace c" "\<forall>c\<in>set ''open_browser''. \<not> is_whitespace c"
  "\<forall>c\<in>set ''remote_disconnect''. \<not> is_whitespace c" "\<forall>c\<in>set ''remote_reconnect''. \<not> is_whitespace c"
  by (simp_all add: is_whitespace_def code_def)

lemma from_name_word:
  assumes "from_name c \<noteq> None"
  shows "c \<noteq> [] \<and> \<not> is_whitespace (last c) \<and> c \<noteq> ''none''"
proof -
  have l: "to_lowercase c \<in> {''red'', ''orange'', ''yellow'', ''green'', ''blue'', ''purple'', ''pink'', ''gray'', ''grey''}"
    using assms by (auto simp: from_name_def Let_def split: if_splits)
  then have ne: "c \<noteq> []" "c \<noteq> ''none''" by (auto simp: to_lowercase_def ascii_lower_def code_def)
  have "is_whitespace (last c) \<Longrightarrow> last (to_lowercase c) = last c"
    using ne(1) by (auto simp: to_lowercase_def last_map ascii_lower_def is_whitespace_def)
  moreover have "\<not> is_whitespace (last (to_lowercase c))" using l by (auto simp: is_whitespace_def code_def)
  ultimately show ?thesis using ne by auto
qed

lemma one_word: "split_whitespace (u32_str k) = [u32_str k]"
  using words_acc_word [of "u32_str k" "[]" "[]"] u32_str_nonblank by (auto simp: split_whitespace_def)

lemma no_words: "split_whitespace [] = []"
  by (simp add: split_whitespace_def)

lemma u32_not_flag: "strip_prefix ''--'' (u32_str k) = None"
proof (cases "u32_str k")
  case (Cons c s)
  then have "is_digit c" using u32_str_chars [of c k] by simp
  then have "c \<noteq> CHR ''-''" by (auto simp: is_digit_def code_def)
  then show ?thesis by (simp add: Cons)
qed simp

lemma opts_id: "parse_opts (u32_str k) = \<lparr>positional = [u32_str k], opts = []\<rparr>"
  by (simp add: parse_opts_def one_word parse_part_def u32_not_flag)

lemma opts_none: "parse_opts [] = \<lparr>positional = [], opts = []\<rparr>"
  by (simp add: parse_opts_def split_whitespace_def)

lemma optional_id:
  assumes "\<forall>c\<in>set cmd. \<not> is_whitespace c" "cmd \<noteq> []"
  shows "request (cmd @ opt_id i) = (cmd, map_option u32_str i)"
  using request_bare [OF assms] request_args [OF assms, of "u32_str (the i)"]
  by (cases i) (simp_all add: opt_id_def)

lemmas bare_requests = command_words(1,7-9) [THEN request_bare, THEN handle_request, simplified]
lemmas id_requests = command_words [THEN request_args, THEN handle_request]

lemma parse_arg_id [simp]: "parse_arg (u32_str i) name k st = k i st"
  by (simp add: parse_arg_def)

lemma color_request:
  assumes "from_name c = Some col"
  shows "do_set_color env (u32_str i @ CHR '' '' # c) st = run_win env (SetWorkspaceColor i (Some col)) reply_ok st"
  using from_name_word [of c] assms by (simp add: do_set_color_def two_args_def two_words)

lemma color_line:
  assumes "from_name c = Some col"
  shows "splitn2 (CHR '' '') (trim (cli_line (CliWorkspace (WorkspaceSetColor i c)))) = (''workspace_set_color'', Some (u32_str i @ CHR '' '' # c))"
  using id_requests(2) [of "u32_str i @ CHR '' '' # c"] from_name_word [of c] assms by simp

lemma rename_line:
  assumes "n \<noteq> []" "\<not> is_whitespace (last n)"
  shows "splitn2 (CHR '' '') (trim (cli_line (CliWorkspace (CliRenameWorkspace i n)))) = (''rename_workspace'', Some (u32_str i @ CHR '' '' # n))"
  using id_requests(6) [of "u32_str i @ CHR '' '' # n"] assms by simp

lemma browser_line:
  assumes "url = [] \<or> \<not> is_whitespace (hd url) \<and> \<not> is_whitespace (last url)"
  shows "\<exists>r. splitn2 (CHR '' '') (trim (cli_line (CliBrowser (OpenBrowser url)))) = (''open_browser'', r) \<and> trim (unwrap_or r []) = url"
proof (cases "url = []")
  case True
  have "trim (''open_browser'' @ '' '') = ''open_browser''"
    by (simp add: trim_def trim_start_def trim_end_def is_whitespace_def code_def)
  then show ?thesis using True handle_request [OF request_bare [OF command_words(10)]]
    by (simp add: splitn2_none trim_def trim_start_def trim_end_def)
next
  case False
  with assms id_requests(10) [of url] trim_clean [of url] show ?thesis by simp
qed

lemma id_lines:
  "splitn2 (CHR '' '') (trim (cli_line (CliWorkspace (WorkspacePin i)))) = (''workspace_pin'', Some (u32_str i))"
  "splitn2 (CHR '' '') (trim (cli_line (CliWorkspace (SelectWorkspace i)))) = (''select_workspace'', Some (u32_str i))"
  "splitn2 (CHR '' '') (trim (cli_line (CliWorkspace (FocusPane i)))) = (''focus_pane'', Some (u32_str i))"
  "splitn2 (CHR '' '') (trim (cli_line (CliRemote (RemoteDisconnect j False)))) = (''remote_disconnect'', map_option u32_str j)"
  "splitn2 (CHR '' '') (trim (cli_line (CliRemote (RemoteReconnect j)))) = (''remote_reconnect'', map_option u32_str j)"
  using id_requests(3-5) [of "u32_str i"] optional_id [OF command_words(11), of j] optional_id [OF command_words(12), of j]
  by (simp_all add: request_def)

text \<open>An answer that does not depend on the state.\<close>

definition answer :: "string \<Rightarrow> SockState \<Rightarrow> reply" where
  "answer r st = Some (r, st)"

lemma reply_answers: "reply_ok = answer ''OK''" "reply_error m = answer (''ERROR: '' @ m)"
  by (simp_all add: fun_eq_iff reply_ok_def reply_error_def answer_def)

lemma workspace_reaches:
  assumes "cli_intent (CliWorkspace d) = Some w"
  shows "\<exists>r. handle_command env (trim (cli_line (CliWorkspace d))) st = run_win env w (answer r) st"
proof (cases d)
  case (WorkspaceSetColor i col)
  with assms obtain cc where "from_name col = Some cc" "w = SetWorkspaceColor i (Some cc)" by auto
  with color_line [OF this(1), of i] color_request [OF this(1), of env i st] show ?thesis
    by (auto simp: handle_command_def reply_answers WorkspaceSetColor simp del: cli_line.simps)
next
  case (CliRenameWorkspace i n)
  then have n: "n \<noteq> []" "\<not> is_whitespace (hd n)" "\<not> is_whitespace (last n)" "w = RenameWorkspace i n"
    using assms by (auto split: if_splits)
  with rename_line [OF n(1,3), of i] trim_clean [of n] show ?thesis
    by (auto simp: handle_command_def reply_answers CliRenameWorkspace two_args_def two_words simp del: cli_line.simps)
next
  case (SelectWorkspace i)
  with assms id_lines(2) [of i] show ?thesis by (auto simp: handle_command_def reply_answers do_select_workspace_def Let_def simp del: cli_line.simps)
next
  case (FocusPane i)
  with assms id_lines(3) [of i] show ?thesis by (auto simp: handle_command_def reply_answers do_focus_pane_def Let_def simp del: cli_line.simps)
next
  case (WorkspacePin i)
  with assms id_lines(1) [of i] show ?thesis by (auto simp: handle_command_def reply_answers simp del: cli_line.simps)
qed (use assms bare_requests in \<open>auto simp: handle_command_def reply_answers\<close>)

lemma browser_reaches:
  assumes "cli_intent (CliBrowser d) = Some w"
  shows "\<exists>r. handle_command env (trim (cli_line (CliBrowser d))) st = run_win env w (answer r) st"
proof (cases d)
  case (OpenBrowser url)
  then have u: "url = [] \<or> \<not> is_whitespace (hd url) \<and> \<not> is_whitespace (last url)" "w = SplitFocusedBrowser Horizontal url"
    using assms by (auto split: if_splits)
  with browser_line [OF u(1)] show ?thesis by (auto simp: handle_command_def reply_answers OpenBrowser simp del: cli_line.simps)
qed (use assms in auto)

lemma remote_reaches:
  assumes "cli_intent (CliRemote d) = Some w"
  shows "\<exists>r. handle_command env (trim (cli_line (CliRemote d))) st = run_win env w (answer r) st"
proof (cases d)
  case (RemoteDisconnect i clear)
  then have "clear = False" "w = DisconnectRemote i False" using assms by (cases clear; simp)+
  with id_lines(4) [of i] show ?thesis
    by (cases i) (auto simp: handle_command_def reply_answers RemoteDisconnect do_remote_disconnect_def opts_id opts_none hm_contains_def
        simp del: cli_line.simps)
next
  case (RemoteReconnect i)
  with assms id_lines(5) [of i] show ?thesis
    by (cases i) (auto simp: handle_command_def reply_answers split_first_def one_word no_words simp del: cli_line.simps)
qed (use assms in auto)

lemma cli_runs:
  assumes "cli_intent c = Some w"
  shows "\<exists>r. handle_command env (trim (cli_line c)) st = run_win env w (answer r) st"
proof (cases c)
  case (CliSplit d)
  with assms bare_requests show ?thesis by (cases d) (auto simp: handle_command_def reply_answers)
qed (use assms workspace_reaches browser_reaches remote_reaches in \<open>auto simp del: cli_line.simps\<close>)



section \<open>A flag that is lost\<close>

text \<open>
  The client sends \<open>--clear\<close>, but the server only keeps flags with a value, so \<open>remote-disconnect --clear\<close> does what
  \<open>remote-disconnect\<close> does and the configuration stays.
\<close>

theorem clear_flag_lost:
  "handle_command env (trim (cli_line (CliRemote (RemoteDisconnect (Some i) True)))) st =
   handle_command env (trim (cli_line (CliRemote (RemoteDisconnect (Some i) False)))) st"
proof -
  have "words_acc [] (u32_str i @ '' --clear'') = [u32_str i, ''--clear'']"
    using words_acc_word [of "u32_str i" "[]" "'' --clear''"] u32_str_nonblank by (auto simp: is_whitespace_def code_def)
  then have p: "parse_opts (u32_str i @ '' --clear'') = \<lparr>positional = [u32_str i], opts = []\<rparr>"
    by (simp add: parse_opts_def split_whitespace_def parse_part_def u32_not_flag split_once_def splitn2_def)
  have "splitn2 (CHR '' '') (trim (cli_line (CliRemote (RemoteDisconnect (Some i) True)))) = (''remote_disconnect'', Some (u32_str i @ '' --clear''))"
    using id_requests(11) [of "u32_str i @ '' --clear''"] by (simp add: opt_id_def is_whitespace_def code_def)
  then show ?thesis using id_lines(4) [of "Some i"] p
    by (simp add: handle_command_def do_remote_disconnect_def opts_id del: cli_line.simps)
qed

end
