(* ===== verification/Relay.thy ===== *)
theory Relay
  imports Remote_Config Rust_Args
begin

text \<open>
  Model of \<open>app/src/remote/relay.rs\<close>: the authentication of a relay connection, the translation between the JSON
  requests of the remote wrapper and the text protocol of the control socket, and the hexadecimal helpers. The JSON
  parser and printer (serde), HMAC-SHA256 and the local socket are arguments; the delays do not matter to the result.
\<close>

unbundle bit_operations_syntax

section \<open>JSON values\<close>

datatype Value =
    JNull
  | JBool bool
  | JU64 nat
  | JNumber string
  | JString string
  | JArray "Value list"
  | JObject "(string \<times> Value) list"

fun jget :: "Value \<Rightarrow> string \<Rightarrow> Value option" where
  "jget (JObject m) k = map_of m k"
| "jget _ k = None"

fun as_str :: "Value \<Rightarrow> string option" where
  "as_str (JString s) = Some s"
| "as_str _ = None"

fun as_u64 :: "Value \<Rightarrow> nat option" where
  "as_u64 (JU64 n) = Some n"
| "as_u64 _ = None"

definition get_str :: "Value \<Rightarrow> string \<Rightarrow> string option" where
  "get_str v k = Option.bind (jget v k) as_str"

section \<open>Hexadecimal\<close>

definition hex_val :: "char \<Rightarrow> nat option" where
  "hex_val c =
     (if is_digit c then Some (code c - 48)
      else if 97 \<le> code c \<and> code c \<le> 102 then Some (code c - 87)
      else if 65 \<le> code c \<and> code c \<le> 70 then Some (code c - 55)
      else None)"

text \<open>\<open>u8::from_str_radix\<close> of two characters; a plus sign in front is accepted.\<close>

definition from_hex2 :: "char \<Rightarrow> char \<Rightarrow> u8 option" where
  "from_hex2 a b =
     (case (hex_val a, hex_val b) of
        (Some x, Some y) \<Rightarrow> Some (of_nat (16 * x + y))
      | (None, Some y) \<Rightarrow> if a = CHR ''+'' then Some (of_nat y) else None
      | _ \<Rightarrow> None)"

text \<open>\<open>None\<close> is the panic of the slice at the end of a string of odd length.\<close>

fun hex_decode :: "string \<Rightarrow> u8 list run" where
  "hex_decode [] = Some []"
| "hex_decode [c] = None"
| "hex_decode (a # b # s) =
     do { bs \<leftarrow> hex_decode s; Some (case from_hex2 a b of Some x \<Rightarrow> x # bs | None \<Rightarrow> bs) }"

definition char_byte :: "char \<Rightarrow> u8" where
  "char_byte c = of_nat (code c)"

definition constant_time_eq :: "string \<Rightarrow> string \<Rightarrow> bool" where
  "constant_time_eq a b =
     (if length a \<noteq> length b then False
      else foldl (\<lambda>diff (x, y). diff OR (char_byte x XOR char_byte y)) (0 :: u8) (zip a b) = 0)"

section \<open>Translation\<close>

definition v2_method_to_v1 :: "string \<Rightarrow> string option" where
  "v2_method_to_v1 m =
     (if m = ''workspace.list'' then Some ''list_workspaces''
      else if m = ''workspace.create'' then Some ''new_workspace''
      else if m = ''workspace.close'' then Some ''close_workspace''
      else if m = ''workspace.select'' then Some ''select_workspace''
      else if m = ''workspace.current'' then Some ''current_workspace''
      else if m = ''surface.list'' then Some ''list_surfaces''
      else if m = ''surface.focus'' then Some ''focus_pane''
      else if m = ''surface.send_text'' then Some ''send''
      else if m = ''surface.close'' then Some ''close_surface''
      else if m = ''surface.split'' then Some ''split_right''
      else if m = ''pane.list'' then Some ''list_panes''
      else if m = ''pane.create'' then Some ''split_right''
      else if m = ''notification.create'' then Some ''log''
      else if m = ''system.capabilities'' then Some ''version''
      else None)"

definition push_arg :: "string option \<Rightarrow> string \<Rightarrow> string" where
  "push_arg a cmd = (case a of Some x \<Rightarrow> cmd @ '' '' @ x | None \<Rightarrow> cmd)"

definition translate_v2_to_v1 :: "(string \<Rightarrow> Value option) \<Rightarrow> string \<Rightarrow> string \<times> Value option" where
  "translate_v2_to_v1 json_parse cmd =
     (if \<not> starts_with ''{'' cmd then (cmd, None)
      else case json_parse cmd of
        None \<Rightarrow> (cmd, None)
      | Some parsed \<Rightarrow>
          (case get_str parsed ''method'' of
             None \<Rightarrow> (cmd, None)
           | Some m \<Rightarrow>
               (case v2_method_to_v1 m of
                  None \<Rightarrow> (cmd, jget parsed ''id'')
                | Some v1 \<Rightarrow>
                    (let params = unwrap_or (jget parsed ''params'') JNull;
                         s = push_arg (or_else (get_str params ''workspace'')
                               (map_option nat_str (Option.bind (jget params ''workspace'') as_u64))) v1;
                         s = push_arg (or_else (get_str params ''surface'') (get_str params ''surface_id'')) s;
                         s = push_arg (get_str params ''text'') s;
                         s = push_arg (get_str params ''name'') s;
                         s = (case get_str params ''direction'' of
                                Some d \<Rightarrow> if d = ''down'' \<or> d = ''bottom'' then ''split_down'' else s
                              | None \<Rightarrow> s)
                     in (s, jget parsed ''id'')))))"

definition rpc_result :: "Value \<Rightarrow> string \<Rightarrow> Value" where
  "rpc_result i data = JObject [(''id'', i), (''ok'', JBool True), (''result'', JString data)]"

definition translate_v1_response_to_v2 :: "(Value \<Rightarrow> string) \<Rightarrow> Value \<Rightarrow> string \<Rightarrow> string" where
  "translate_v1_response_to_v2 json_print i response =
     (let trimmed = trim response in
      case (if starts_with ''OK+'' trimmed then snd (splitn2 (CHR 0x0A) trimmed) else None) of
        Some data \<Rightarrow> json_print (rpc_result i data) @ [CHR 0x0A]
      | None \<Rightarrow>
          (case strip_prefix ''OK'' trimmed of
             Some data \<Rightarrow>
               (let data = trim data
                in json_print (if data = [] then JObject [(''id'', i), (''ok'', JBool True)] else rpc_result i data) @ [CHR 0x0A])
           | None \<Rightarrow>
               (case strip_prefix ''ERROR:'' trimmed of
                  Some err \<Rightarrow>
                    json_print (JObject [(''id'', i), (''ok'', JBool False),
                      (''error'', JObject [(''message'', JString (trim err))])]) @ [CHR 0x0A]
                | None \<Rightarrow> json_print (rpc_result i trimmed) @ [CHR 0x0A])))"

section \<open>A connection\<close>

record RelayServer =
  rs_port :: u16
  rs_id :: string
  rs_token :: "u8 list"
  rs_socket :: string

text \<open>\<open>start\<close> after the port is bound; an odd number of hexadecimal digits in the token panics.\<close>

definition RelayServer_start :: "u16 \<Rightarrow> string \<Rightarrow> string \<Rightarrow> string \<Rightarrow> RelayServer run" where
  "RelayServer_start p rid token_hex path =
     do { token \<leftarrow> hex_decode token_hex;
          Some \<lparr>rs_port = p, rs_id = rid, rs_token = token, rs_socket = path\<rparr> }"

text \<open>What a read of a line gives: the line (empty at the end of the stream), a timeout or an error.\<close>

datatype line_read = Got string | TimedOut | ReadFailed

record relay_env =
  json_parse :: "string \<Rightarrow> Value option"
  json_print :: "Value \<Rightarrow> string"
  hmac_sha256 :: "u8 list \<Rightarrow> string \<Rightarrow> u8 list"
  forward_to_socket :: "string \<Rightarrow> string option"

datatype RelayError = AuthTimeout | AuthIo | BadJson | IdMismatch | MacMismatch | ForwardFailed

record relay_run =
  rr_written :: "string list"
  rr_forwarded :: "string option"
  rr_result :: "RelayError + unit"

definition challenge :: "RelayServer \<Rightarrow> string \<Rightarrow> string" where
  "challenge srv nonce =
     [CHR 0x7B, CHR 0x22] @ ''protocol'' @ [CHR 0x22] @ '':'' @ [CHR 0x22] @ ''limux-relay-auth'' @ [CHR 0x22] @
     '','' @ [CHR 0x22] @ ''version'' @ [CHR 0x22] @ '':1,'' @ [CHR 0x22] @ ''relay_id'' @ [CHR 0x22] @ '':'' @
     [CHR 0x22] @ rs_id srv @ [CHR 0x22] @ '','' @ [CHR 0x22] @ ''nonce'' @ [CHR 0x22] @ '':'' @ [CHR 0x22] @ nonce @
     [CHR 0x22, CHR 0x7D, CHR 0x0A]"

definition auth_message :: "RelayServer \<Rightarrow> string \<Rightarrow> string" where
  "auth_message srv nonce = ''relay_id='' @ rs_id srv @ [CHR 0x0A] @ ''nonce='' @ nonce @ [CHR 0x0A] @ ''version=1''"

definition ok_line :: "bool \<Rightarrow> string" where
  "ok_line b = [CHR 0x7B, CHR 0x22] @ ''ok'' @ [CHR 0x22] @ '':'' @ (if b then ''true'' else ''false'') @ [CHR 0x7D, CHR 0x0A]"

definition bridge :: "relay_env \<Rightarrow> line_read \<Rightarrow> string list \<Rightarrow> relay_run" where
  "bridge env command written =
     (case command of
        TimedOut \<Rightarrow> \<lparr>rr_written = written, rr_forwarded = None, rr_result = Inr ()\<rparr>
      | ReadFailed \<Rightarrow> \<lparr>rr_written = written, rr_forwarded = None, rr_result = Inl AuthIo\<rparr>
      | Got cmd_line \<Rightarrow>
          (let cmd = trim cmd_line in
           if cmd_line = [] \<or> cmd = [] then \<lparr>rr_written = written, rr_forwarded = None, rr_result = Inr ()\<rparr>
           else
             (let (socket_cmd, rpc_id) = translate_v2_to_v1 (json_parse env) cmd in
              case forward_to_socket env socket_cmd of
                None \<Rightarrow> \<lparr>rr_written = written, rr_forwarded = Some socket_cmd, rr_result = Inl ForwardFailed\<rparr>
              | Some response \<Rightarrow>
                  \<lparr>rr_written = written @ [case rpc_id of
                       Some i \<Rightarrow> translate_v1_response_to_v2 (json_print env) i response
                     | None \<Rightarrow> response],
                   rr_forwarded = Some socket_cmd, rr_result = Inr ()\<rparr>)))"

definition relay_handle_connection :: "relay_env \<Rightarrow> RelayServer \<Rightarrow> string \<Rightarrow> line_read \<Rightarrow> line_read \<Rightarrow> relay_run" where
  "relay_handle_connection env srv nonce answer command =
     (let written = [challenge srv nonce];
          fail = (\<lambda>e w. \<lparr>rr_written = w, rr_forwarded = None, rr_result = Inl e\<rparr>) in
      case answer of
        TimedOut \<Rightarrow> fail AuthTimeout written
      | ReadFailed \<Rightarrow> fail AuthIo written
      | Got line \<Rightarrow>
          (case json_parse env (trim line) of
             None \<Rightarrow> fail BadJson written
           | Some response \<Rightarrow>
               (let client_relay_id = unwrap_or (get_str response ''relay_id'') [];
                    client_mac_hex = unwrap_or (get_str response ''mac'') [] in
                if client_relay_id \<noteq> rs_id srv then fail IdMismatch (written @ [ok_line False])
                else
                  (let expected_hex = hex_encode (hmac_sha256 env (rs_token srv) (auth_message srv nonce)) in
                   if \<not> constant_time_eq client_mac_hex expected_hex then fail MacMismatch (written @ [ok_line False])
                   else bridge env command (written @ [ok_line True])))))"

end
