(* ===== verification/Relay_Claims.thy ===== *)
theory Relay_Claims
  imports Relay Socket_Facts
begin

text \<open>
  The properties of the relay: the comparison of the authentication codes, the token round trip, who gets through, and what
  becomes of a request that reaches the control socket together with the end of its stream.
\<close>

unbundle bit_operations_syntax

section \<open>Comparison and hexadecimal\<close>

lemma char_byte_inj [simp]: "char_byte a = char_byte b \<longleftrightarrow> a = b"
proof -
  have b: "code c < 2 ^ 8" for c
  proof -
    have "code c = code c mod 256" by (simp add: code_def)
    then show ?thesis using mod_less_divisor [of 256 "code c"] by simp
  qed
  have "unat (char_byte c) = code c" for c
    using b [of c] by (simp add: char_byte_def unat_of_nat)
  then show ?thesis using of_char_eq_iff [where ?'a = nat] by (metis code_def)
qed

lemma xor_zero: "(a :: u8) XOR b = 0 \<longleftrightarrow> a = b"
  by (metis xor.assoc xor.comm_neutral xor.left_neutral xor_self_eq)

lemma diff_zero:
  "foldl (\<lambda>diff (x, y). diff OR (char_byte x XOR char_byte y)) d zs = 0 \<longleftrightarrow> d = 0 \<and> (\<forall>(x, y)\<in>set zs. x = y)"
  by (induction zs arbitrary: d) (auto simp: or_eq_0_iff xor_zero)

lemma constant_time_eq_iff: "constant_time_eq a b \<longleftrightarrow> a = b"
  by (auto simp: constant_time_eq_def diff_zero list_eq_iff_zip_eq)

lemma hex_val_digit: "d < 16 \<Longrightarrow> hex_val (hex_digit d) = Some d"
  by (auto simp: hex_val_def hex_digit_def is_digit_def code_def)

lemma from_hex2_byte: "from_hex2 (hex_digit (unat b div 16)) (hex_digit (unat b mod 16)) = Some (b :: u8)"
proof -
  have "unat b < 2 ^ 8" using unsigned_less [where 'a = nat and w = b] by simp
  then have "unat b div 16 < 16" by auto
  then show ?thesis by (simp add: from_hex2_def hex_val_digit)
qed

lemma hex_decode_encode: "hex_decode (hex_encode bs) = Some bs"
  by (induction bs) (simp_all add: hex_encode_def byte_hex_def from_hex2_byte)

section \<open>The properties\<close>

text \<open>
  The comparison of the authentication codes, which looks at every byte and accumulates the differences, accepts exactly
  equal strings.
\<close>

theorem constant_time_eq_correct: "constant_time_eq a b \<longleftrightarrow> a = b"
  by (rule constant_time_eq_iff)

text \<open>
  The relay server works with the bytes the token generator drew: decoding the generated token gives them back. A token
  of odd length is not decoded but panics.
\<close>

theorem relay_token_roundtrip:
  "(\<exists>srv. RelayServer_start p rid (generate_relay_token buf) path = Some srv \<and> rs_token srv = buf 32 \<and> rs_id srv = rid) \<and>
   hex_decode (hex_encode bs @ [c]) = None"
proof -
  have "hex_decode (hex_encode bs @ [c]) = None"
    by (induction bs) (simp_all add: hex_encode_def byte_hex_def)
  then show ?thesis by (simp add: RelayServer_start_def generate_relay_token_def random_hex_def hex_decode_encode)
qed

text \<open>The answer of a client that knows the token: the right id and the code of the challenge under the token.\<close>

definition authentic :: "relay_env \<Rightarrow> RelayServer \<Rightarrow> string \<Rightarrow> line_read \<Rightarrow> bool" where
  "authentic env srv nonce answer \<longleftrightarrow>
     (\<exists>line v. answer = Got line \<and> json_parse env (trim line) = Some v \<and>
        unwrap_or (get_str v ''relay_id'') [] = rs_id srv \<and>
        unwrap_or (get_str v ''mac'') [] = hex_encode (hmac_sha256 env (rs_token srv) (auth_message srv nonce)))"

text \<open>
  C19. The relay forwards a command only for a client that proved to know the token: for an authentic answer the connection
  is confirmed and bridged; for every other answer nothing is forwarded, the connection ends in an error and is never confirmed.
\<close>

theorem relay_authenticates:
  "if authentic env srv nonce answer
   then relay_handle_connection env srv nonce answer command = bridge env command [challenge srv nonce, ok_line True]
   else rr_forwarded (relay_handle_connection env srv nonce answer command) = None \<and>
     (\<exists>e. rr_result (relay_handle_connection env srv nonce answer command) = Inl e) \<and>
     ok_line True \<notin> set (rr_written (relay_handle_connection env srv nonce answer command))"
  by (auto simp: authentic_def relay_handle_connection_def Let_def constant_time_eq_iff ok_line_def challenge_def
      split: line_read.split option.split)

section \<open>A request that is lost\<close>

text \<open>
  The relay closes its side of the local socket right after the command. When the control socket is polled after that, it reads
  the command and the end of the stream in one callback and drops the connection before it looks at the command; the relay then
  reports the empty answer to the remote caller as a success.
\<close>

theorem relay_request_lost:
  assumes "length cmd < 2 ^ 20"
  shows "handle_client env [cmd @ [NL]] Eof (Conn_new, st) = Some (Conn_new\<lparr>conn_open := False\<rparr>, st) \<and>
    translate_v1_response_to_v2 pr i (conn_out Conn_new) = pr (rpc_result i []) @ [NL]"
  using assms by (simp add: handle_client_def Conn_new_def translate_v1_response_to_v2_def trim_def trim_start_def
      trim_end_def starts_with_def NL_def)

theorem relay_request_lost_witness:
  "length ''list_workspaces'' < 2 ^ 20 \<and> (\<forall>env st.
   handle_client env [''list_workspaces'' @ [NL]] Eof (Conn_new, st) = Some (Conn_new\<lparr>conn_open := False\<rparr>, st))"
  using relay_request_lost [of "''list_workspaces''"] by simp

end
