(* ===== verification/Proxy_Tunnel.thy ===== *)
theory Proxy_Tunnel
  imports Remote_Config Rust_Args
begin

text \<open>
  Model of the handshakes of \<open>app/src/remote/proxy_tunnel.rs\<close>: which protocol a connection speaks, the SOCKS5
  and the HTTP CONNECT request, and the replies. The client is the list of bytes it sends; running out of them is the
  end of the stream. The bridge of data through the RPC connection is in \<open>Proxy_Bridge\<close>.
\<close>

type_synonym bytes = "u8 list"

datatype HandshakeError =
    UnexpectedEof
  | NotSocks5
  | UnsupportedCommand
  | UnsupportedAddressType
  | InvalidUtf8
  | RequestTooLarge
  | NotConnect string
  | InvalidPort string

section \<open>Bytes and text\<close>

definition byte_char :: "u8 \<Rightarrow> char" where
  "byte_char b = char_of (unat b)"

definition read_exact :: "nat \<Rightarrow> bytes \<Rightarrow> (bytes \<times> bytes) option" where
  "read_exact n bs = (if n \<le> length bs then Some (take n bs, drop n bs) else None)"

definition be16 :: "u8 \<Rightarrow> u8 \<Rightarrow> u16" where
  "be16 hi lo = of_nat (256 * unat hi + unat lo)"

definition cont :: "u8 \<Rightarrow> bool" where
  "cont b \<longleftrightarrow> 0x80 \<le> b \<and> b \<le> 0xBF"

text \<open>\<open>String::from_utf8\<close>: which byte sequences are UTF-8.\<close>

fun utf8_ok :: "bytes \<Rightarrow> bool" where
  "utf8_ok [] = True"
| "utf8_ok (a # s) =
     (if a < 0x80 then utf8_ok s
      else if 0xC2 \<le> a \<and> a \<le> 0xDF then (case s of b # r \<Rightarrow> cont b \<and> utf8_ok r | _ \<Rightarrow> False)
      else if 0xE0 \<le> a \<and> a \<le> 0xEF then
        (case s of
           b # c # r \<Rightarrow> cont b \<and> cont c \<and> (a = 0xE0 \<longrightarrow> 0xA0 \<le> b) \<and> (a = 0xED \<longrightarrow> b \<le> 0x9F) \<and> utf8_ok r
         | _ \<Rightarrow> False)
      else if 0xF0 \<le> a \<and> a \<le> 0xF4 then
        (case s of
           b # c # d # r \<Rightarrow>
             cont b \<and> cont c \<and> cont d \<and> (a = 0xF0 \<longrightarrow> 0x90 \<le> b) \<and> (a = 0xF4 \<longrightarrow> b \<le> 0x8F) \<and> utf8_ok r
         | _ \<Rightarrow> False)
      else False)"

text \<open>\<open>format!("{:x}")\<close> of a number below 65536.\<close>

fun hex_nat :: "nat \<Rightarrow> string" where
  "hex_nat n = (if n < 16 then [hex_digit n] else hex_nat (n div 16) @ [hex_digit (n mod 16)])"

declare hex_nat.simps [simp del]

definition ipv4_host :: "bytes \<Rightarrow> string" where
  "ipv4_host addr = join ''.'' (map (\<lambda>b. nat_str (unat b)) addr)"

definition ipv6_host :: "bytes \<Rightarrow> string" where
  "ipv6_host addr = join '':'' (map (\<lambda>i. hex_nat (unat (be16 (addr ! (i * 2)) (addr ! (i * 2 + 1))))) [0..<8])"

section \<open>SOCKS5\<close>

text \<open>The bytes sent back, and the target with the unread rest of the stream or an error.\<close>

type_synonym handshake = "bytes \<times> (HandshakeError + string \<times> u16 \<times> bytes)"

definition socks5_reply :: "u8 \<Rightarrow> bytes" where
  "socks5_reply rep = [0x05, rep, 0x00, 0x01, 0, 0, 0, 0, 0, 0]"

definition socks5_address :: "u8 \<Rightarrow> bytes \<Rightarrow> HandshakeError + string \<times> bytes" where
  "socks5_address atyp s =
     (if atyp = 0x01 then
        (case read_exact 4 s of Some (addr, s) \<Rightarrow> Inr (ipv4_host addr, s) | None \<Rightarrow> Inl UnexpectedEof)
      else if atyp = 0x03 then
        (case s of
           [] \<Rightarrow> Inl UnexpectedEof
         | len # s \<Rightarrow>
             (case read_exact (unat len) s of
                Some (domain, s) \<Rightarrow> if utf8_ok domain then Inr (map byte_char domain, s) else Inl InvalidUtf8
              | None \<Rightarrow> Inl UnexpectedEof))
      else if atyp = 0x04 then
        (case read_exact 16 s of Some (addr, s) \<Rightarrow> Inr (ipv6_host addr, s) | None \<Rightarrow> Inl UnexpectedEof)
      else Inl UnsupportedAddressType)"

definition socks5_request :: "bytes \<Rightarrow> bytes \<Rightarrow> handshake" where
  "socks5_request out s =
     (case read_exact 4 s of
        None \<Rightarrow> (out, Inl UnexpectedEof)
      | Some (req, s) \<Rightarrow>
          if req ! 1 \<noteq> 0x01 then (out @ socks5_reply 0x07, Inl UnsupportedCommand)
          else case socks5_address (req ! 3) s of
                 Inl e \<Rightarrow> (out, Inl e)
               | Inr (host, s) \<Rightarrow>
                   (case read_exact 2 s of
                      Some (p, s) \<Rightarrow> (out, Inr (host, be16 (p ! 0) (p ! 1), s))
                    | None \<Rightarrow> (out, Inl UnexpectedEof)))"

definition socks5_handshake :: "bytes \<Rightarrow> handshake" where
  "socks5_handshake s =
     (case read_exact 2 s of
        None \<Rightarrow> ([], Inl UnexpectedEof)
      | Some (header, s) \<Rightarrow>
          if header ! 0 \<noteq> 0x05 then ([], Inl NotSocks5)
          else case read_exact (unat (header ! 1)) s of
                 None \<Rightarrow> ([], Inl UnexpectedEof)
               | Some (_, s) \<Rightarrow> socks5_request [0x05, 0x00] s)"

section \<open>HTTP CONNECT\<close>

definition crlf2 :: bytes where
  "crlf2 = [13, 10, 13, 10]"

text \<open>The loop that reads byte by byte up to the empty line; \<open>buf\<close> is what was read.\<close>

fun http_head :: "bytes \<Rightarrow> bytes \<Rightarrow> HandshakeError + bytes \<times> bytes" where
  "http_head buf [] = Inl UnexpectedEof"
| "http_head buf (b # s) =
     (let buf = buf @ [b] in
      if length buf \<ge> 4 \<and> drop (length buf - 4) buf = crlf2 then Inr (buf, s)
      else if length buf > 8192 then Inl RequestTooLarge
      else http_head buf s)"

definition first_line :: "string \<Rightarrow> string" where
  "first_line s = (case lines s of l # _ \<Rightarrow> l | [] \<Rightarrow> [])"

definition split_authority :: "string \<Rightarrow> HandshakeError + string \<times> u16" where
  "split_authority authority =
     (case rfind (CHR '':'') authority of
        Some i \<Rightarrow>
          (case parse_u16 (drop (i + 1) authority) of
             Some p \<Rightarrow> Inr (take i authority, p)
           | None \<Rightarrow> Inl (InvalidPort authority))
      | None \<Rightarrow> Inr (authority, 443))"

definition http_connect_handshake :: "bytes \<Rightarrow> HandshakeError + string \<times> u16 \<times> bytes" where
  "http_connect_handshake s =
     (case http_head [] s of
        Inl e \<Rightarrow> Inl e
      | Inr (buf, s) \<Rightarrow>
          (let line = first_line (map byte_char buf) in
           case split_whitespace line of
             m # authority # _ \<Rightarrow>
               if to_lowercase m \<noteq> ''connect'' then Inl (NotConnect line)
               else (case split_authority authority of
                       Inl e \<Rightarrow> Inl e
                     | Inr (host, p) \<Rightarrow> Inr (host, p, s))
           | _ \<Rightarrow> Inl (NotConnect line)))"

section \<open>A connection\<close>

text \<open>\<open>peek\<close> shows the first byte; at the end of the stream it leaves the buffer at 0.\<close>

definition is_socks5 :: "bytes \<Rightarrow> bool" where
  "is_socks5 s = (case s of b # _ \<Rightarrow> b = 0x05 | [] \<Rightarrow> False)"

definition handshake_of :: "bytes \<Rightarrow> handshake" where
  "handshake_of s = (if is_socks5 s then socks5_handshake s else ([], http_connect_handshake s))"

definition ascii_bytes :: "string \<Rightarrow> bytes" where
  "ascii_bytes t = map (\<lambda>c. of_nat (code c)) t"

definition open_reply :: "bool \<Rightarrow> bool \<Rightarrow> bytes" where
  "open_reply socks ok =
     (if socks then socks5_reply (if ok then 0x00 else 0x05)
      else ascii_bytes ((if ok then ''HTTP/1.1 200 Connection Established'' else ''HTTP/1.1 502 Bad Gateway'') @
             [CHR 0x0D, CHR 0x0A, CHR 0x0D, CHR 0x0A]))"

end
