(* ===== verification/Tunnel_Claims.thy ===== *)
theory Tunnel_Claims
  imports Proxy_Tunnel
begin

text \<open>
  The properties of the proxy handshakes: a conforming client reaches the target it asked for, and the size of an HTTP
  request is bounded.
\<close>

section \<open>What a client sends\<close>

datatype Target = Domain bytes | IPv4 bytes | IPv6 bytes

fun target_ok :: "Target \<Rightarrow> bool" where
  "target_ok (Domain d) = (length d < 256 \<and> utf8_ok d)"
| "target_ok (IPv4 a) = (length a = 4)"
| "target_ok (IPv6 a) = (length a = 16)"

fun target_host :: "Target \<Rightarrow> string" where
  "target_host (Domain d) = map byte_char d"
| "target_host (IPv4 a) = ipv4_host a"
| "target_host (IPv6 a) = ipv6_host a"

fun target_bytes :: "Target \<Rightarrow> bytes" where
  "target_bytes (Domain d) = 0x03 # of_nat (length d) # d"
| "target_bytes (IPv4 a) = 0x01 # a"
| "target_bytes (IPv6 a) = 0x04 # a"

definition socks5_client :: "bytes \<Rightarrow> Target \<Rightarrow> u16 \<Rightarrow> bytes" where
  "socks5_client methods t p =
     [0x05, of_nat (length methods)] @ methods @ [0x05, 0x01, 0x00] @ target_bytes t @
     [of_nat (unat p div 256), of_nat (unat p mod 256)]"

section \<open>SOCKS5\<close>

lemma unat_byte [simp]: "n < 256 \<Longrightarrow> unat (of_nat n :: u8) = n"
  by (simp add: unat_of_nat)

lemma be16_bytes [simp]: "be16 (of_nat (unat p div 256)) (of_nat (unat p mod 256)) = (p :: u16)"
proof -
  have "unat p < 2 ^ 16" using unsigned_less [where 'a = nat and w = p] by simp
  then have "unat p div 256 < 256" by auto
  then show ?thesis by (simp add: be16_def)
qed

lemma socks5_address_ok:
  assumes "target_ok t"
  shows "socks5_address (hd (target_bytes t)) (tl (target_bytes t) @ s) = Inr (target_host t, s)"
  using assms by (cases t) (auto simp: socks5_address_def read_exact_def)

lemma socks5_request_ok:
  assumes "target_ok t"
  shows "socks5_request out ([0x05, 0x01, 0x00] @ target_bytes t @ [of_nat (unat p div 256), of_nat (unat p mod 256)] @ s) =
    (out, Inr (target_host t, p, s))"
proof -
  obtain b r where t: "target_bytes t = b # r" by (cases t) auto
  then have "socks5_address b (r @ [of_nat (unat p div 256), of_nat (unat p mod 256)] @ s) =
      Inr (target_host t, [of_nat (unat p div 256), of_nat (unat p mod 256)] @ s)"
    using socks5_address_ok [OF assms] by simp
  then show ?thesis by (simp add: socks5_request_def read_exact_def t)
qed

section \<open>HTTP\<close>

lemma http_head_spec:
  assumes "length buf \<le> 8192"
  shows "case http_head buf s of
      Inr (b, r) \<Rightarrow> buf @ s = b @ r \<and> length b \<le> 8193 \<and> drop (length b - 4) b = crlf2
    | Inl e \<Rightarrow> (e = RequestTooLarge \<and> 8192 < length (buf @ s)) \<or> (e = UnexpectedEof \<and> length (buf @ s) \<le> 8192)"
  using assms
proof (induction buf s rule: http_head.induct)
  case (2 buf b s)
  show ?case
  proof (cases "4 \<le> length (buf @ [b]) \<and> drop (length (buf @ [b]) - 4) (buf @ [b]) = crlf2")
    case True
    then show ?thesis using 2(2) by simp
  next
    case False
    then show ?thesis
    proof (cases "length (buf @ [b]) > 8192")
      case True
      with False show ?thesis by auto
    next
      case small: False
      have "http_head buf (b # s) = http_head (buf @ [b]) s" using False small by (auto simp: Let_def)
      moreover have "length (buf @ [b]) \<le> 8192" using small by simp
      ultimately show ?thesis using 2(1) [OF refl False small] by (simp only: append.simps append_assoc)
    qed
  qed
qed simp

lemma ends_crlf2: "4 \<le> length b \<Longrightarrow> drop (length b - 4) b = crlf2 \<Longrightarrow> 2 \<le> length (filter (\<lambda>x. x = 13) b) \<and> last b = 10"
proof -
  assume a: "4 \<le> length b" "drop (length b - 4) b = crlf2"
  then have b: "b = take (length b - 4) b @ crlf2" by (metis append_take_drop_id)
  show ?thesis by (subst b, subst (3) b) (simp add: crlf2_def)
qed

lemma http_head_skip:
  assumes "length (filter (\<lambda>x. x = 13) (buf @ [c])) < 2 \<or> c \<noteq> 10" "length buf < 8192"
  shows "http_head buf (c # s) = http_head (buf @ [c]) s"
proof -
  have "\<not> (4 \<le> length (buf @ [c]) \<and> drop (length (buf @ [c]) - 4) (buf @ [c]) = crlf2)"
    using ends_crlf2 [of "buf @ [c]"] assms(1) by auto
  with assms(2) show ?thesis by (auto simp: Let_def)
qed

lemma http_head_scan:
  assumes "13 \<notin> set (buf @ l)" "length (buf @ l) + 4 \<le> 8192"
  shows "http_head buf (l @ crlf2 @ r) = Inr (buf @ l @ crlf2, r)"
  using assms
proof (induction l arbitrary: buf)
  case Nil
  then have f: "filter (\<lambda>x. x = 13) buf = []" by (auto simp: filter_empty_conv)
  have "http_head buf (crlf2 @ r) = http_head (buf @ [13, 10, 13]) (10 # r)"
    using http_head_skip [of buf 13 "[10, 13, 10] @ r"] http_head_skip [of "buf @ [13]" 10 "[13, 10] @ r"]
      http_head_skip [of "buf @ [13, 10]" 13 "10 # r"] Nil f by (simp add: crlf2_def)
  then show ?case by (simp add: Let_def crlf2_def)
next
  case (Cons c l)
  have "filter (\<lambda>x. x = 13) (buf @ [c]) = []" using Cons.prems(1) by (auto simp: filter_empty_conv)
  then have "http_head buf (c # l @ crlf2 @ r) = http_head (buf @ [c]) (l @ crlf2 @ r)"
    using http_head_skip [of buf c "l @ crlf2 @ r"] Cons.prems(2) by simp
  with Cons.IH [of "buf @ [c]"] Cons.prems show ?case by simp
qed

definition http_client :: "string \<Rightarrow> u16 \<Rightarrow> bytes" where
  "http_client host p = ascii_bytes (''CONNECT '' @ host @ '':'' @ u16_str p @ '' HTTP/1.1'') @ crlf2"

definition host_ok :: "string \<Rightarrow> bool" where
  "host_ok host \<longleftrightarrow> (\<forall>c\<in>set host. \<not> is_whitespace c)"

lemma byte_char_ascii [simp]: "map byte_char (ascii_bytes t) = t"
  by (induction t) (simp_all add: ascii_bytes_def byte_char_def code_def unat_of_nat)

lemma control_chars: "char_of (13 :: nat) = CHR 0x0D" "char_of (10 :: nat) = CHR 0x0A"
  by code_simp+

lemma code_lt: "code c < 256"
proof -
  have "code c = code c mod 256" by (simp add: code_def)
  then show ?thesis using mod_less_divisor [of 256 "code c"] by simp
qed

lemma ascii_CR: "13 \<in> set (ascii_bytes t) \<Longrightarrow> \<exists>c\<in>set t. code c = 13"
proof -
  assume "13 \<in> set (ascii_bytes t)"
  then obtain c where c: "c \<in> set t" "(of_nat (code c) :: u8) = 13" by (auto simp: ascii_bytes_def)
  then have "unat (of_nat (code c) :: u8) = 13" by simp
  with c(1) show ?thesis using code_lt [of c] by auto
qed

lemma first_line_request:
  assumes "CHR 0x0A \<notin> set t"
  shows "first_line (t @ [CHR 0x0D, CHR 0x0A, CHR 0x0D, CHR 0x0A]) = t"
proof -
  have "split_on (CHR 0x0A) ((t @ [CHR 0x0D]) @ CHR 0x0A # [CHR 0x0D, CHR 0x0A]) = [t @ [CHR 0x0D], [CHR 0x0D], []]"
    by (subst split_on_append) (use assms in simp_all)
  then show ?thesis by (simp add: first_line_def lines_def strip_cr_def)
qed

lemma host_chars: "host_ok host \<Longrightarrow> c \<in> set (''CONNECT '' @ host @ '':'' @ u16_str p @ '' HTTP/1.1'') \<Longrightarrow> code c \<noteq> 10 \<and> code c \<noteq> 13"
  using u16_str_chars [of c p] by (auto simp: host_ok_def is_whitespace_def is_digit_def code_def)

lemma request_words:
  assumes "host_ok host"
  shows "split_whitespace (''CONNECT '' @ host @ '':'' @ u16_str p @ '' HTTP/1.1'') =
    [''CONNECT'', host @ '':'' @ u16_str p, ''HTTP/1.1'']"
proof -
  have "\<forall>c\<in>set (host @ '':'' @ u16_str p). \<not> is_whitespace c"
    using assms u16_str_chars is_digit_not_whitespace by (auto simp: host_ok_def is_whitespace_def code_def)
  from words_acc_word [OF this, of "[]" "'' HTTP/1.1''"] show ?thesis
    by (simp add: split_whitespace_def is_whitespace_def code_def)
qed

lemma split_authority_ok: "split_authority (host @ '':'' @ u16_str p) = Inr (host, p)"
proof -
  have "CHR '':'' \<notin> set (u16_str p)" using u16_str_chars [of "CHR '':''" p] by (auto simp: is_digit_def code_def)
  from rfind_append [OF this, of host] show ?thesis by (simp add: split_authority_def)
qed

section \<open>The properties\<close>

text \<open>
  C20. A SOCKS5 client that asks for a domain name, an IPv4 or an IPv6 address is told that no authentication is needed, and the
  tunnel opens exactly the host and port it named; bytes sent after the request stay unread for the bridge.
\<close>

theorem socks5_roundtrip:
  assumes "length methods < 256" "target_ok t"
  shows "handshake_of (socks5_client methods t p @ rest) = ([0x05, 0x00], Inr (target_host t, p, rest))"
proof -
  have "read_exact 2 (socks5_client methods t p @ rest) =
      Some ([0x05, of_nat (length methods)], methods @ [0x05, 0x01, 0x00] @ target_bytes t @
        [of_nat (unat p div 256), of_nat (unat p mod 256)] @ rest)"
    by (simp add: read_exact_def socks5_client_def numeral_2_eq_2)
  moreover have "is_socks5 (socks5_client methods t p @ rest)" by (simp add: is_socks5_def socks5_client_def)
  moreover have "read_exact (length methods) (methods @ x) = Some (methods, x)" for x by (simp add: read_exact_def)
  ultimately show ?thesis using assms(1) socks5_request_ok [OF assms(2), of "[0x05, 0x00]" p rest]
    by (simp add: handshake_of_def socks5_handshake_def)
qed

theorem socks5_roundtrip_witness:
  "handshake_of (socks5_client [0] (IPv4 [127, 0, 0, 1]) 80 @ [7]) = ([0x05, 0x00], Inr (ipv4_host [127, 0, 0, 1], 80, [7]))"
  using socks5_roundtrip [of "[0]" "IPv4 [127, 0, 0, 1]" 80 "[7]"] by simp

text \<open>
  Reading the head of an HTTP request always ends: at an empty line after at most 8193 bytes; otherwise with
  an error, for a longer head as soon as it is longer than 8192 bytes, for a shorter one at the end of the stream.
\<close>

theorem http_head_bounded:
  "case http_head [] s of
     Inr (b, r) \<Rightarrow> s = b @ r \<and> length b \<le> 8193 \<and> drop (length b - 4) b = crlf2
   | Inl e \<Rightarrow> (e = RequestTooLarge \<and> 8192 < length s) \<or> (e = UnexpectedEof \<and> length s \<le> 8192)"
  using http_head_spec [of "[]" s] by (simp only: append_Nil list.size le0)

text \<open>
  An HTTP client that sends a CONNECT request for a host, of any form without blanks, and a port reaches exactly these;
  bytes after the request stay unread for the bridge.
\<close>

theorem http_connect_roundtrip:
  assumes "host_ok host" "length (http_client host p) \<le> 8192"
  shows "handshake_of (http_client host p @ rest) = ([], Inr (host, p, rest))"
proof -
  let ?t = "''CONNECT '' @ host @ '':'' @ u16_str p @ '' HTTP/1.1''"
  have t: "code c \<noteq> 10 \<and> code c \<noteq> 13" if "c \<in> set ?t" for c by (rule host_chars [OF assms(1) that])
  have "13 \<notin> set (ascii_bytes ?t)" using ascii_CR [of ?t] t by blast
  moreover have "length (ascii_bytes ?t) + 4 \<le> 8192" using assms(2) by (simp add: http_client_def crlf2_def)
  ultimately have h: "http_head [] (http_client host p @ rest) = Inr (ascii_bytes ?t @ crlf2, rest)"
    using http_head_scan [of "[]" "ascii_bytes ?t" rest] by (simp add: http_client_def)
  have m: "map byte_char (ascii_bytes ?t @ crlf2) = ?t @ [CHR 0x0D, CHR 0x0A, CHR 0x0D, CHR 0x0A]"
    unfolding map_append byte_char_ascii by (simp add: crlf2_def byte_char_def control_chars)
  have "CHR 0x0A \<notin> set ?t" using t [of "CHR 0x0A"] by (auto simp: code_def)
  from first_line_request [OF this] have l: "first_line (map byte_char (ascii_bytes ?t @ crlf2)) = ?t" unfolding m .
  have "\<not> is_socks5 (http_client host p @ rest)" by (simp add: is_socks5_def http_client_def ascii_bytes_def code_def)
  moreover have "to_lowercase ''CONNECT'' = ''connect''" by code_simp
  ultimately show ?thesis
    unfolding handshake_of_def http_connect_handshake_def h sum.case prod.case l Let_def request_words [OF assms(1)]
    by (simp add: split_authority_ok [simplified])
qed

theorem http_connect_roundtrip_witness:
  "host_ok ''example.org'' \<and> handshake_of (http_client ''example.org'' 443 @ [22]) = ([], Inr (''example.org'', 443, [22]))"
proof -
  have "host_ok ''example.org''" by (simp add: host_ok_def is_whitespace_def code_def)
  moreover have "length (http_client ''example.org'' 443) \<le> 8192"
    by (simp add: http_client_def crlf2_def ascii_bytes_def u16_str_def nat_str.simps [of 443] nat_str.simps [of 44] nat_str.simps [of 4])
  ultimately show ?thesis using http_connect_roundtrip by blast
qed

end
