(* ===== verification/Controller.thy ===== *)
theory Controller
  imports Relay Rust_Map Step_Machine
begin

text \<open>
  Model of \<open>app/src/remote/controller.rs\<close>: the registry of controllers and their connection loops. Every
  controller is a thread with its own runtime; it is a record that says at which \<open>.await\<close> it waits. An event says
  how that wait ended and the thread runs to its next wait. The processes and hosts behind the waits are the events; what
  the main thread is told is a log. Two pieces of state are shared: the TCP ports the relay servers listen on, which stay bound as
  long as the runtime of the thread lives because nothing stops the accept loop, and \<open>TUNNEL_CHILD\<close>, the one slot for the
  ssh process of a reverse tunnel.
\<close>

section \<open>State\<close>

record DaemonHello =
  hello_name :: string
  hello_version :: string
  hello_capabilities :: "string list"
  hello_path :: string

datatype CtlLog =
    PushState u32 RemoteConnectionState "RemoteDaemonStatus option" "string option"
  | PushProxy u32 "ProxyEndpoint option"
  | AcquireLease u32 string
  | DropProxyLease u32
  | KillChild nat

datatype Phase =
    Spawned
  | Bootstrap
  | RelayBind DaemonHello
  | TunnelStart DaemonHello nat
  | TunnelSettle DaemonHello
  | Metadata DaemonHello
  | Monitor DaemonHello
  | RetrySleep

record Thread =
  th_ws :: u32
  th_config :: RemoteConfiguration
  th_stop :: bool
  th_retry :: u32
  th_at :: Phase
  th_ports :: "u16 set"

record Ctl =
  ctl_registry :: "(u32, nat) hashmap"
  ctl_threads :: "nat \<rightharpoonup> Thread"
  ctl_next :: nat
  tunnel_child :: "nat option"
  ctl_log :: "CtlLog list"

definition Ctl_new :: Ctl where
  "Ctl_new = \<lparr>ctl_registry = [], ctl_threads = Map.empty, ctl_next = 0, tunnel_child = None, ctl_log = []\<rparr>"

definition say :: "CtlLog \<Rightarrow> Ctl \<Rightarrow> Ctl" where
  "say l c = c\<lparr>ctl_log := ctl_log c @ [l]\<rparr>"

definition set_thread :: "nat \<Rightarrow> Thread \<Rightarrow> Ctl \<Rightarrow> Ctl" where
  "set_thread i t c = c\<lparr>ctl_threads := (ctl_threads c)(i \<mapsto> t)\<rparr>"

text \<open>The end of a thread drops its runtime, and with it the listeners.\<close>

definition finish :: "nat \<Rightarrow> Ctl \<Rightarrow> Ctl" where
  "finish i c = c\<lparr>ctl_threads := (ctl_threads c)(i := None)\<rparr>"

definition port_bound :: "u16 \<Rightarrow> Ctl \<Rightarrow> bool" where
  "port_bound p c = list_ex (\<lambda>i. case ctl_threads c i of Some t \<Rightarrow> p \<in> th_ports t | None \<Rightarrow> False) [0..<ctl_next c]"

section \<open>Helpers\<close>

text \<open>Seconds; the factors are powers of two times a small number, which \<open>f64\<close> represents exactly up to the cap.\<close>

definition retry_delay :: "nat \<Rightarrow> u32 \<Rightarrow> nat" where
  "retry_delay base retry = min (base * 2 ^ (unat retry - 1)) 60"

definition daemon_status_from_hello :: "DaemonHello \<Rightarrow> RemoteDaemonStatus" where
  "daemon_status_from_hello h =
     \<lparr>daemon_state = Ready, daemon_detail = None, daemon_version = Some (hello_version h),
      daemon_name = Some (hello_name h), daemon_capabilities = hello_capabilities h,
      daemon_remote_path = Some (hello_path h)\<rparr>"

definition plain_status :: "RemoteDaemonState \<Rightarrow> string \<Rightarrow> RemoteDaemonStatus" where
  "plain_status st detail =
     \<lparr>daemon_state = st, daemon_detail = Some detail, daemon_version = None, daemon_name = None,
      daemon_capabilities = [], daemon_remote_path = None\<rparr>"

definition reverse_tunnel_args :: "RemoteConfiguration \<Rightarrow> u16 \<Rightarrow> string list" where
  "reverse_tunnel_args cfg p =
     ssh_batch_args cfg @ [''-N'', ''-T'', ''-S'', ''none'', ''-o'', ''ExitOnForwardFailure=yes'', ''-o'', ''RequestTTY=no'',
       ''-R'', ''127.0.0.1:'' @ u16_str p @ '':127.0.0.1:'' @ u16_str p, destination cfg]"

section \<open>The connection loop\<close>

definition loop_top :: "nat \<Rightarrow> Thread \<Rightarrow> Ctl \<Rightarrow> Ctl" where
  "loop_top i t c =
     (if th_stop t then finish i c
      else say (PushState (th_ws t) Connecting
                  (Some (plain_status Bootstrapping (''Connecting to '' @ display_target (th_config t) @ ''...''))) None)
             (set_thread i (t\<lparr>th_at := Bootstrap\<rparr>) c))"

definition connected :: "nat \<Rightarrow> Thread \<Rightarrow> DaemonHello \<Rightarrow> Ctl \<Rightarrow> Ctl" where
  "connected i t h c =
     say (AcquireLease (th_ws t) (hello_path h))
       (say (PushState (th_ws t) Connected (Some (daemon_status_from_hello h))
               (Some (''Connected to '' @ display_target (th_config t))))
          (set_thread i (t\<lparr>th_retry := 0, th_at := Monitor h\<rparr>) c))"

definition failed :: "nat \<Rightarrow> Thread \<Rightarrow> string \<Rightarrow> Ctl \<Rightarrow> Ctl" where
  "failed i t e c =
     (if th_stop t then finish i c
      else
        (let n = th_retry t + 1; delay = retry_delay 4 n;
             detail = e @ '' (retry '' @ u32_str n @ '' in '' @ nat_str delay @ ''s)''
         in say (PushState (th_ws t) ConnError (Some (plain_status DaemonError e)) (Some detail))
              (set_thread i (t\<lparr>th_retry := n, th_at := RetrySleep\<rparr>) c)))"

definition lost :: "nat \<Rightarrow> Thread \<Rightarrow> Ctl \<Rightarrow> Ctl" where
  "lost i t c =
     (let c = say (PushProxy (th_ws t) None) (say (DropProxyLease (th_ws t)) c) in
      if th_stop t then finish i c
      else
        (let n = th_retry t + 1; delay = retry_delay 2 n
         in say (PushState (th_ws t) Connecting None (Some (''Relay tunnel lost, reconnecting in '' @ nat_str delay @ ''s...'')))
              (set_thread i (t\<lparr>th_retry := n, th_at := RetrySleep\<rparr>) c)))"

text \<open>
  \<open>run_full_connection\<close> after the daemon answered: the relay credentials of the configuration decide whether a relay
  server is wanted; its \<open>bind\<close> is the next wait.
\<close>

definition relay_creds :: "RemoteConfiguration \<Rightarrow> (u16 \<times> string) option" where
  "relay_creds cfg =
     (let p = unwrap_or (relay_port cfg) 0; rid = unwrap_or (relay_id cfg) []; tok = unwrap_or (relay_token cfg) []
      in if p = 0 \<or> rid = [] \<or> tok = [] then None else Some (p, tok))"

definition booted :: "bool \<Rightarrow> nat \<Rightarrow> Thread \<Rightarrow> DaemonHello \<Rightarrow> Ctl \<Rightarrow> Ctl" where
  "booted has_socket i t h c =
     (if th_stop t \<or> relay_creds (th_config t) = None \<or> \<not> has_socket then connected i t h c
      else set_thread i (t\<lparr>th_at := RelayBind h\<rparr>) c)"

text \<open>
  The relay server binds its port: an error of another process comes with the event, and a listener of this process on the
  port makes it fail as well. A token of odd length panics in \<open>hex_decode\<close>, which ends the thread. Then the ssh process of
  the reverse tunnel is spawned (\<open>Inl\<close> the error of that).
\<close>

definition start_relay :: "nat \<Rightarrow> Thread \<Rightarrow> DaemonHello \<Rightarrow> string option \<Rightarrow> string + nat \<Rightarrow> Ctl \<Rightarrow> Ctl" where
  "start_relay i t h os_err child c =
     (case relay_creds (th_config t) of
        None \<Rightarrow> connected i t h c
      | Some (p, tok) \<Rightarrow>
          (case os_err of
             Some e \<Rightarrow> failed i t (''I/O error: '' @ e) c
           | None \<Rightarrow>
               if port_bound p c then failed i t ''I/O error: Address already in use (os error 98)'' c
               else if hex_decode tok = None then finish i c
               else
                 (let t = t\<lparr>th_ports := insert p (th_ports t)\<rparr>; c = set_thread i t c in
                  if th_stop t then connected i t h c
                  else
                    (case child of
                       Inl e \<Rightarrow> failed i t (''I/O error: '' @ e) c
                     | Inr ch \<Rightarrow> set_thread i (t\<lparr>th_at := TunnelStart h ch\<rparr>) c))))"

datatype TryWait =
    Running
  | Exited string string
  | WaitErr string

datatype Event =
    Go
  | BootOk DaemonHello
  | BootErr string
  | Bound "string option" "string + nat"
  | Waited TryWait
  | Slept
  | MetaOk
  | MetaErr string
  | Tick bool

definition monitor_tunnel :: "nat \<Rightarrow> Thread \<Rightarrow> bool \<Rightarrow> Ctl \<Rightarrow> Ctl" where
  "monitor_tunnel i t exited c =
     (if th_stop t then
        (case tunnel_child c of
           Some ch \<Rightarrow> lost i t (say (KillChild ch) (c\<lparr>tunnel_child := None\<rparr>))
         | None \<Rightarrow> lost i t c)
      else if exited \<and> tunnel_child c \<noteq> None then lost i t (c\<lparr>tunnel_child := None\<rparr>)
      else c)"

fun wake :: "bool \<Rightarrow> nat \<Rightarrow> Thread \<Rightarrow> Phase \<Rightarrow> Event \<Rightarrow> Ctl \<Rightarrow> Ctl option" where
  "wake hs i t Spawned Go c = Some (loop_top i t c)"
| "wake hs i t Bootstrap (BootOk h) c = Some (booted hs i t h c)"
| "wake hs i t Bootstrap (BootErr e) c = Some (failed i t e c)"
| "wake hs i t (RelayBind h) (Bound os_err child) c = Some (start_relay i t h os_err child c)"
| "wake hs i t (TunnelStart h ch) (Waited w) c =
     Some (case w of
             Exited status err \<Rightarrow>
               failed i t (''SSH failed ('' @ status @ ''): '' @ trim (''reverse tunnel exited immediately: '' @ trim err)) c
           | WaitErr e \<Rightarrow> failed i t (''I/O error: '' @ e) c
           | Running \<Rightarrow> set_thread i (t\<lparr>th_at := TunnelSettle h\<rparr>) (c\<lparr>tunnel_child := Some ch\<rparr>))"
| "wake hs i t (TunnelSettle h) Slept c =
     Some (if th_stop t then connected i t h c else set_thread i (t\<lparr>th_at := Metadata h\<rparr>) c)"
| "wake hs i t (Metadata h) MetaOk c = Some (connected i t h c)"
| "wake hs i t (Metadata h) (MetaErr e) c = Some (failed i t e c)"
| "wake hs i t (Monitor h) (Tick exited) c = Some (monitor_tunnel i t exited c)"
| "wake hs i t RetrySleep Slept c = Some (loop_top i t c)"
| "wake hs i t _ _ c = None"

section \<open>The registry\<close>

definition disconnect :: "u32 \<Rightarrow> Ctl \<Rightarrow> Ctl" where
  "disconnect ws c =
     (case hm_get (ctl_registry c) ws of
        None \<Rightarrow> c
      | Some i \<Rightarrow>
          c\<lparr>ctl_registry := hm_remove ws (ctl_registry c),
            ctl_threads := (ctl_threads c)(i := map_option (\<lambda>t. t\<lparr>th_stop := True\<rparr>) (ctl_threads c i))\<rparr>)"

definition connect :: "u32 \<Rightarrow> RemoteConfiguration \<Rightarrow> Ctl \<Rightarrow> Ctl" where
  "connect ws cfg c =
     (let c = disconnect ws c; i = ctl_next c;
          t = \<lparr>th_ws = ws, th_config = cfg, th_stop = False, th_retry = 0, th_at = Spawned, th_ports = {}\<rparr>
      in set_thread i t (c\<lparr>ctl_registry := hm_insert ws i (ctl_registry c), ctl_next := i + 1\<rparr>))"

definition reconnect :: "u32 \<Rightarrow> RemoteConfiguration \<Rightarrow> Ctl \<Rightarrow> Ctl" where
  "reconnect ws cfg c = connect ws cfg (disconnect ws c)"

definition is_active :: "u32 \<Rightarrow> Ctl \<Rightarrow> bool" where
  "is_active ws c = hm_contains (ctl_registry c) ws"

datatype CtlCmd =
    Connect u32 RemoteConfiguration
  | Disconnect u32
  | Reconnect u32 RemoteConfiguration
  | Wake nat Event

fun ctl_exec :: "bool \<Rightarrow> CtlCmd \<Rightarrow> Ctl \<Rightarrow> Ctl option" where
  "ctl_exec hs (Connect ws cfg) c = Some (connect ws cfg c)"
| "ctl_exec hs (Disconnect ws) c = Some (disconnect ws c)"
| "ctl_exec hs (Reconnect ws cfg) c = Some (reconnect ws cfg c)"
| "ctl_exec hs (Wake i ev) c =
     (case ctl_threads c i of Some t \<Rightarrow> wake hs i t (th_at t) ev c | None \<Rightarrow> None)"

end
