(* ===== verification/Controller_Facts.thy ===== *)
theory Controller_Facts
  imports Controller
begin

text \<open>
  The invariant of the controllers: a thread that was not told to stop is the one the registry has for its workspace, and the
  port of a relay server is bound by at most one thread. One lemma, \<open>wake_effect\<close>, says what a step of a thread may
  change; the invariant, the termination argument and the fate of a thread that lost its tunnel rest on it.
\<close>

section \<open>Steps\<close>

fun fits :: "Phase \<Rightarrow> Event \<Rightarrow> bool" where
  "fits Spawned Go = True"
| "fits Bootstrap (BootOk h) = True"
| "fits Bootstrap (BootErr e) = True"
| "fits (RelayBind h) (Bound os_err child) = True"
| "fits (TunnelStart h ch) (Waited w) = True"
| "fits (TunnelSettle h) Slept = True"
| "fits (Metadata h) MetaOk = True"
| "fits (Metadata h) (MetaErr e) = True"
| "fits (Monitor h) (Tick exited) = True"
| "fits RetrySleep Slept = True"
| "fits _ _ = False"

fun ctl_enabled :: "CtlCmd \<Rightarrow> Ctl \<Rightarrow> bool" where
  "ctl_enabled (Wake i ev) c = (case ctl_threads c i of Some t \<Rightarrow> fits (th_at t) ev | None \<Rightarrow> False)"
| "ctl_enabled _ c = True"

lemma wake_fits: "(\<exists>c'. wake hs i t ph ev c = Some c') \<longleftrightarrow> fits ph ev"
  by (cases ph; cases ev) simp_all

lemma say_frame [simp]:
  "ctl_registry (say l c) = ctl_registry c" "ctl_threads (say l c) = ctl_threads c"
  "ctl_next (say l c) = ctl_next c" "tunnel_child (say l c) = tunnel_child c"
  by (simp_all add: say_def)

lemma set_thread_frame [simp]:
  "ctl_registry (set_thread i t c) = ctl_registry c" "ctl_threads (set_thread i t c) = (ctl_threads c)(i \<mapsto> t)"
  "ctl_next (set_thread i t c) = ctl_next c" "tunnel_child (set_thread i t c) = tunnel_child c"
  by (simp_all add: set_thread_def)

lemma finish_frame [simp]:
  "ctl_registry (finish i c) = ctl_registry c" "ctl_threads (finish i c) = (ctl_threads c)(i := None)"
  "ctl_next (finish i c) = ctl_next c"
  by (simp_all add: finish_def)

text \<open>What a step of thread \<open>i\<close> leaves of it.\<close>

definition next_of :: "Ctl \<Rightarrow> Thread \<Rightarrow> Thread \<Rightarrow> bool" where
  "next_of c t t' \<longleftrightarrow> th_ws t' = th_ws t \<and> th_config t' = th_config t \<and> th_stop t' = th_stop t \<and>
     (th_ports t' = th_ports t \<or>
      (\<exists>p tok. relay_creds (th_config t) = Some (p, tok) \<and> \<not> port_bound p c \<and> th_ports t' = insert p (th_ports t)))"

definition stepped :: "nat \<Rightarrow> Thread \<Rightarrow> Ctl \<Rightarrow> Ctl \<Rightarrow> bool" where
  "stepped i t c c' \<longleftrightarrow> ctl_registry c' = ctl_registry c \<and> ctl_next c' = ctl_next c \<and>
     (ctl_threads c' = (ctl_threads c)(i := None) \<or>
      (\<exists>t'. ctl_threads c' = (ctl_threads c)(i \<mapsto> t') \<and> next_of c t t'))"

lemma loop_parts_frame [simp]:
  "ctl_registry (loop_top i t c) = ctl_registry c" "ctl_next (loop_top i t c) = ctl_next c"
  "ctl_registry (connected i t h c) = ctl_registry c" "ctl_next (connected i t h c) = ctl_next c"
  "ctl_registry (failed i t e c) = ctl_registry c" "ctl_next (failed i t e c) = ctl_next c"
  "ctl_registry (lost i t c) = ctl_registry c" "ctl_next (lost i t c) = ctl_next c"
  by (simp_all add: loop_top_def connected_def failed_def lost_def Let_def)

lemma loop_parts_threads [simp]:
  "ctl_threads (loop_top i t c) = (ctl_threads c)(i := if th_stop t then None else Some (t\<lparr>th_at := Bootstrap\<rparr>))"
  "ctl_threads (connected i t h c) = (ctl_threads c)(i \<mapsto> t\<lparr>th_retry := 0, th_at := Monitor h\<rparr>)"
  "ctl_threads (failed i t e c) =
     (ctl_threads c)(i := if th_stop t then None else Some (t\<lparr>th_retry := th_retry t + 1, th_at := RetrySleep\<rparr>))"
  "ctl_threads (lost i t c) =
     (ctl_threads c)(i := if th_stop t then None else Some (t\<lparr>th_retry := th_retry t + 1, th_at := RetrySleep\<rparr>))"
  by (simp_all add: loop_top_def connected_def failed_def lost_def Let_def)

lemma steppedI:
  assumes "ctl_registry c' = ctl_registry c" "ctl_next c' = ctl_next c"
    "ctl_threads c' = (ctl_threads c)(i := ctl_threads c' i)" "\<And>t'. ctl_threads c' i = Some t' \<Longrightarrow> next_of c t t'"
  shows "stepped i t c c'"
  using assms by (cases "ctl_threads c' i") (auto simp: stepped_def)

lemma same_ports: "th_ws t' = th_ws t \<Longrightarrow> th_config t' = th_config t \<Longrightarrow> th_stop t' = th_stop t \<Longrightarrow>
    th_ports t' = th_ports t \<Longrightarrow> next_of c t t'"
  by (simp add: next_of_def)

lemma stepped_parts:
  "stepped i t c (loop_top i t c)" "stepped i t c (connected i t h c)" "stepped i t c (failed i t e c)"
  "stepped i t c (lost i t c)" "stepped i t c (set_thread i (t\<lparr>th_at := ph\<rparr>) c)"
  by (rule steppedI; auto simp: same_ports split: if_splits)+

lemma stepped_frame:
  assumes "stepped i t c1 c'" "ctl_registry c1 = ctl_registry c" "ctl_next c1 = ctl_next c" "ctl_threads c1 = ctl_threads c"
  shows "stepped i t c c'"
  using assms by (simp add: stepped_def next_of_def port_bound_def)

lemma stepped_monitor:
  assumes "ctl_threads c i = Some t"
  shows "stepped i t c (monitor_tunnel i t exited c)"
proof -
  have "stepped i t c c" by (rule steppedI) (use assms in \<open>simp_all add: same_ports fun_upd_idem\<close>)
  moreover have "stepped i t c (lost i t c1)" if "ctl_registry c1 = ctl_registry c" "ctl_next c1 = ctl_next c"
    "ctl_threads c1 = ctl_threads c" for c1 using stepped_frame [OF stepped_parts(4)] that by blast
  ultimately show ?thesis by (simp add: monitor_tunnel_def split: option.split)
qed

lemma stepped_start_relay: "stepped i t c (start_relay i t h os_err child c)"
proof (cases "relay_creds (th_config t)")
  case None
  then show ?thesis by (simp add: start_relay_def stepped_parts)
next
  case (Some r)
  obtain p tok where r: "r = (p, tok)" by (cases r)
  have bind: "stepped i t c c'" if "\<not> port_bound p c" "ctl_registry c' = ctl_registry c" "ctl_next c' = ctl_next c"
    "ctl_threads c' = (ctl_threads c)(i := ctl_threads c' i)"
    "\<And>t'. ctl_threads c' i = Some t' \<Longrightarrow> th_ws t' = th_ws t \<and> th_config t' = th_config t \<and> th_stop t' = th_stop t \<and>
       th_ports t' = insert p (th_ports t)" for c'
    by (rule steppedI) (use that Some r in \<open>auto simp: next_of_def\<close>)
  have "stepped i t c (finish i c)" by (rule steppedI) simp_all
  then show ?thesis using Some r
    by (auto simp: start_relay_def Let_def stepped_parts intro!: bind split: option.split sum.split)
qed

lemma wake_effect:
  assumes "wake hs i t ph ev c = Some c'" "ctl_threads c i = Some t"
  shows "stepped i t c c'"
proof -
  have "stepped i t c (set_thread i (t\<lparr>th_at := ph\<rparr>) (c\<lparr>tunnel_child := ch\<rparr>))" for ph ch
    by (rule stepped_frame [OF stepped_parts(5)]) simp_all
  with assms show ?thesis
    by (cases "(hs, i, t, ph, ev, c)" rule: wake.cases)
       (auto simp: booted_def stepped_parts stepped_monitor stepped_start_relay split: TryWait.split)
qed

lemma disconnect_frame [simp]:
  "ctl_next (disconnect ws c) = ctl_next c"
  "hm_get (ctl_registry (disconnect ws c)) ws' = (if ws' = ws then None else hm_get (ctl_registry c) ws')"
  "ctl_threads (disconnect ws c) j =
     (if hm_get (ctl_registry c) ws = Some j then map_option (\<lambda>t. t\<lparr>th_stop := True\<rparr>) (ctl_threads c j)
      else ctl_threads c j)"
  by (auto simp: disconnect_def split: option.splits)

section \<open>The invariant\<close>

definition live_registered :: "Ctl \<Rightarrow> bool" where
  "live_registered c \<longleftrightarrow> (\<forall>i t. ctl_threads c i = Some t \<longrightarrow>
     i < ctl_next c \<and> (\<forall>ws. hm_get (ctl_registry c) ws = Some i \<longleftrightarrow> ws = th_ws t \<and> \<not> th_stop t))"

definition ports_configured :: "Ctl \<Rightarrow> bool" where
  "ports_configured c \<longleftrightarrow> (\<forall>i t p. ctl_threads c i = Some t \<longrightarrow> p \<in> th_ports t \<longrightarrow>
     (\<exists>tok. relay_creds (th_config t) = Some (p, tok)))"

definition ports_apart :: "Ctl \<Rightarrow> bool" where
  "ports_apart c \<longleftrightarrow> (\<forall>i j t u. ctl_threads c i = Some t \<longrightarrow> ctl_threads c j = Some u \<longrightarrow> i \<noteq> j \<longrightarrow>
     th_ports t \<inter> th_ports u = {})"

definition ctl_ok :: "Ctl \<Rightarrow> bool" where
  "ctl_ok c \<longleftrightarrow> (\<forall>ws i. hm_get (ctl_registry c) ws = Some i \<longrightarrow> i < ctl_next c) \<and>
     live_registered c \<and> ports_configured c \<and> ports_apart c"

lemmas ctl_ok_defs = ctl_ok_def live_registered_def ports_configured_def ports_apart_def

lemma ctl_okD:
  assumes "ctl_ok c"
  shows "hm_get (ctl_registry c) ws = Some i \<Longrightarrow> i < ctl_next c"
    "ctl_threads c i = Some t \<Longrightarrow> hm_get (ctl_registry c) ws = Some i \<longleftrightarrow> ws = th_ws t \<and> \<not> th_stop t"
    "ctl_threads c i = Some t \<Longrightarrow> i < ctl_next c"
    "ctl_threads c i = Some t \<Longrightarrow> p \<in> th_ports t \<Longrightarrow> \<exists>tok. relay_creds (th_config t) = Some (p, tok)"
    "ctl_threads c i = Some t \<Longrightarrow> ctl_threads c j = Some u \<Longrightarrow> i \<noteq> j \<Longrightarrow> th_ports t \<inter> th_ports u = {}"
  using assms unfolding ctl_ok_defs by blast+

lemma ctl_okI:
  assumes "\<And>ws i. hm_get (ctl_registry c) ws = Some i \<Longrightarrow> i < ctl_next c"
    "\<And>i t ws. ctl_threads c i = Some t \<Longrightarrow> hm_get (ctl_registry c) ws = Some i \<longleftrightarrow> ws = th_ws t \<and> \<not> th_stop t"
    "\<And>i t. ctl_threads c i = Some t \<Longrightarrow> i < ctl_next c"
    "\<And>i t p. ctl_threads c i = Some t \<Longrightarrow> p \<in> th_ports t \<Longrightarrow> \<exists>tok. relay_creds (th_config t) = Some (p, tok)"
    "\<And>i t j u. ctl_threads c i = Some t \<Longrightarrow> ctl_threads c j = Some u \<Longrightarrow> i < j \<Longrightarrow> th_ports t \<inter> th_ports u = {}"
  shows "ctl_ok c"
proof -
  have "th_ports t \<inter> th_ports u = {}" if "ctl_threads c i = Some t" "ctl_threads c j = Some u" "i \<noteq> j" for i j t u
    using assms(5) [of i t j u] assms(5) [of j u i t] that by (cases "i < j") (auto simp: Int_commute)
  with assms(1-4) show ?thesis unfolding ctl_ok_defs by (intro conjI allI impI) simp_all
qed

lemma port_bound_iff:
  assumes "ctl_ok c"
  shows "port_bound p c \<longleftrightarrow> (\<exists>i t. ctl_threads c i = Some t \<and> p \<in> th_ports t)"
  using ctl_okD(3) [OF assms] by (fastforce simp: port_bound_def list_ex_iff split: option.splits)

lemma ctl_ok_new: "ctl_ok Ctl_new"
  by (simp add: ctl_ok_defs Ctl_new_def)

lemma ctl_ok_stepped:
  assumes ok: "ctl_ok c" and i: "ctl_threads c i = Some t" and st: "stepped i t c c'"
  shows "ctl_ok c'"
proof -
  have same: "ctl_registry c' = ctl_registry c" "ctl_next c' = ctl_next c" using st by (auto simp: stepped_def)
  consider "ctl_threads c' = (ctl_threads c)(i := None)"
    | t' where "ctl_threads c' = (ctl_threads c)(i \<mapsto> t')" "next_of c t t'"
    using st by (auto simp: stepped_def)
  then show ?thesis
  proof cases
    case 1
    with ok same show ?thesis by (simp add: ctl_ok_defs)
  next
    case 2
    have t': "th_ws t' = th_ws t" "th_config t' = th_config t" "th_stop t' = th_stop t"
      using 2(2) by (simp_all add: next_of_def)
    have new: "th_ports t' \<inter> th_ports u = {}" if "ctl_threads c j = Some u" "j \<noteq> i" for j u
    proof -
      have "th_ports t \<inter> th_ports u = {}" using ctl_okD(5) [OF ok i that(1)] that(2) by simp
      moreover have "p \<notin> th_ports u" if "\<not> port_bound p c" for p
        using that port_bound_iff [OF ok] \<open>ctl_threads c j = Some u\<close> by blast
      ultimately show ?thesis using 2(2) by (auto simp: next_of_def)
    qed
    have conf: "\<exists>tok. relay_creds (th_config t) = Some (p, tok)" if "p \<in> th_ports t'" for p
      using 2(2) that ctl_okD(4) [OF ok i] by (auto simp: next_of_def)
    show ?thesis
    proof (rule ctl_okI, goal_cases)
      case (2 j u ws)
      then show ?case using ctl_okD(2) [OF ok] i t' \<open>ctl_threads c' = _\<close> same by (simp split: if_splits)
    next
      case (4 j u p)
      then show ?case using ctl_okD(4) [OF ok] conf t' \<open>ctl_threads c' = _\<close> by (auto split: if_splits)
    next
      case (5 j u k v)
      then show ?case using ctl_okD(5) [OF ok, of j u k v] new [of j u] new [of k v] \<open>ctl_threads c' = _\<close>
        by (auto split: if_splits)
    qed (use ctl_okD(1,3) [OF ok] i 2 same in \<open>auto split: if_splits\<close>)
  qed
qed

lemma disconnect_threads:
  assumes "ctl_threads (disconnect ws c) j = Some u"
  obtains t where "ctl_threads c j = Some t" "th_ws u = th_ws t" "th_config u = th_config t" "th_ports u = th_ports t"
    "th_stop u \<longleftrightarrow> th_stop t \<or> hm_get (ctl_registry c) ws = Some j"
  using assms by (auto split: if_splits)

lemma ctl_ok_disconnect:
  assumes ok: "ctl_ok c"
  shows "ctl_ok (disconnect ws c)"
proof (rule ctl_okI, goal_cases)
  case (2 j u ws')
  then obtain t where "ctl_threads c j = Some t" "th_ws u = th_ws t"
    "th_stop u \<longleftrightarrow> th_stop t \<or> hm_get (ctl_registry c) ws = Some j" by (rule disconnect_threads)
  with ctl_okD(2) [OF ok] show ?case by (auto simp del: disconnect_frame(3))
next
  case (4 j u p)
  then show ?case using ctl_okD(4) [OF ok] by (metis disconnect_threads)
next
  case (5 j u k v)
  obtain t where t: "ctl_threads c j = Some t" "th_ports u = th_ports t" using 5(1) by (rule disconnect_threads)
  obtain w where w: "ctl_threads c k = Some w" "th_ports v = th_ports w" using 5(2) by (rule disconnect_threads)
  show ?case using ctl_okD(5) [OF ok t(1) w(1)] t w 5(3) by simp
qed (use ctl_okD(1,3) [OF ok] in \<open>auto split: if_splits\<close>)

lemma connect_frame [simp]:
  "ctl_next (connect ws cfg c) = ctl_next c + 1"
  "hm_get (ctl_registry (connect ws cfg c)) ws' = (if ws' = ws then Some (ctl_next c) else hm_get (ctl_registry c) ws')"
  by (simp_all add: connect_def Let_def)

lemma ctl_ok_connect:
  assumes "ctl_ok c"
  shows "ctl_ok (connect ws cfg c)"
proof -
  define d where "d = disconnect ws c"
  have d: "ctl_ok d" "hm_get (ctl_registry d) ws = None" unfolding d_def using ctl_ok_disconnect [OF assms] by simp_all
  have fresh: "hm_get (ctl_registry d) w \<noteq> Some (ctl_next d)" for w using ctl_okD(1) [OF d(1)] by blast
  have t: "ctl_threads (connect ws cfg c) = (ctl_threads d)(ctl_next d \<mapsto>
      \<lparr>th_ws = ws, th_config = cfg, th_stop = False, th_retry = 0, th_at = Spawned, th_ports = {}\<rparr>)"
    and r: "ctl_registry (connect ws cfg c) = hm_insert ws (ctl_next d) (ctl_registry d)"
    and n: "ctl_next (connect ws cfg c) = ctl_next d + 1"
    by (simp_all add: connect_def Let_def d_def)
  show ?thesis
  proof (rule ctl_okI, goal_cases)
    case (2 j u w)
    then show ?case using ctl_okD(2) [OF d(1), of j u w] ctl_okD(2) [OF d(1), of j u ws] d(2) fresh
      by (auto simp: t r split: if_splits)
  next
    case (4 j u p)
    then show ?case using ctl_okD(4) [OF d(1)] by (auto simp: t split: if_splits)
  next
    case (5 j u k v)
    then show ?case using ctl_okD(5) [OF d(1), of j u k v] by (auto simp: t split: if_splits)
  qed (use ctl_okD(1,3) [OF d(1)] in \<open>auto simp: t r n less_Suc_eq simp del: connect_frame split: if_splits\<close>)
qed

lemma ctl_ok_exec: "ctl_ok c \<Longrightarrow> ctl_exec hs cmd c = Some c' \<Longrightarrow> ctl_ok c'"
  by (cases cmd) (auto simp: reconnect_def ctl_ok_connect ctl_ok_disconnect split: option.splits
      intro: ctl_ok_stepped [OF _ _ wake_effect])

interpretation controllers: machine "ctl_exec hs" ctl_enabled ctl_ok
proof
  show "\<exists>s'. ctl_exec hs cmd s = Some s'" if "ctl_enabled cmd s" for cmd s
    using that by (cases cmd) (auto simp: wake_fits split: option.splits)
  show "ctl_ok s'" if "ctl_ok s" "ctl_exec hs cmd s = Some s'" for cmd s s'
    using that by (rule ctl_ok_exec)
qed

end
