(* ===== verification/Controller_Claims.thy ===== *)
theory Controller_Claims
  imports Controller_Facts
begin

text \<open>
  What the controllers guarantee: one live connection per workspace, and threads that end once they are told to stop. Then three
  behaviours of the code that its comments do not promise: a thread that lost its tunnel never connects again, the tunnel of one
  workspace is killed for another, and a workspace that was disconnected while it booted is reported as connected.
\<close>

abbreviation reachable_ctl :: "bool \<Rightarrow> Ctl \<Rightarrow> bool" where
  "reachable_ctl hs \<equiv> reach (ctl_exec hs) ctl_enabled Ctl_new"

lemma reachable_ctl_ok: "reachable_ctl hs c \<Longrightarrow> ctl_ok c"
  using controllers.reach_inv ctl_ok_new by blast

definition live :: "Ctl \<Rightarrow> u32 \<Rightarrow> nat set" where
  "live c ws = {j. \<exists>u. ctl_threads c j = Some u \<and> th_ws u = ws \<and> \<not> th_stop u}"

lemma live_iff:
  assumes "ctl_ok c"
  shows "j \<in> live c ws \<longleftrightarrow> ctl_threads c j \<noteq> None \<and> hm_get (ctl_registry c) ws = Some j"
  using ctl_okD(2) [OF assms, of j _ ws] by (auto simp: live_def)

text \<open>
  C21. Whatever is connected, disconnected and reconnected and however the threads are scheduled, a workspace has at most one
  controller thread that was not told to stop, namely the registered one, no two threads listen on the same relay port, and
  after a disconnect every thread of the workspace is told to stop.
\<close>

theorem controllers_unique:
  assumes "reachable_ctl hs c"
  shows "(\<forall>i\<in>live c ws. live c ws = {i} \<and> hm_get (ctl_registry c) ws = Some i \<and> is_active ws c) \<and>
     (\<forall>i j t u. ctl_threads c i = Some t \<and> ctl_threads c j = Some u \<and> i \<noteq> j \<longrightarrow> th_ports t \<inter> th_ports u = {}) \<and>
     live (disconnect ws c) ws = {} \<and> \<not> is_active ws (disconnect ws c)"
proof (intro conjI ballI allI impI)
  have ok: "ctl_ok c" using reachable_ctl_ok assms by blast
  show "live c ws = {i}" "hm_get (ctl_registry c) ws = Some i" "is_active ws c" if "i \<in> live c ws" for i
    using that live_iff [OF ok] by (auto simp: is_active_def hm_contains_def)
  show "th_ports t \<inter> th_ports u = {}"
    if "ctl_threads c i = Some t \<and> ctl_threads c j = Some u \<and> i \<noteq> j" for i j t u
    using ctl_okD(5) [OF ok] that by blast
  show "live (disconnect ws c) ws = {}" using live_iff [OF ctl_ok_disconnect [OF ok]] by auto
  show "\<not> is_active ws (disconnect ws c)" by (simp add: is_active_def hm_contains_def)
qed

section \<open>Stopping\<close>

fun stop_steps :: "Phase \<Rightarrow> nat" where
  "stop_steps (TunnelStart h ch) = 3"
| "stop_steps Bootstrap = 2"
| "stop_steps (RelayBind h) = 2"
| "stop_steps (TunnelSettle h) = 2"
| "stop_steps (Metadata h) = 2"
| "stop_steps _ = 1"

definition left_to_do :: "nat \<Rightarrow> Ctl \<Rightarrow> nat" where
  "left_to_do i c = (case ctl_threads c i of None \<Rightarrow> 0 | Some t \<Rightarrow> stop_steps (th_at t))"

definition stopping :: "nat \<Rightarrow> Ctl \<Rightarrow> bool" where
  "stopping i c \<longleftrightarrow> i < ctl_next c \<and> (\<forall>t. ctl_threads c i = Some t \<longrightarrow> th_stop t)"

abbreviation wakes :: "nat \<Rightarrow> CtlCmd list \<Rightarrow> nat" where
  "wakes i cs \<equiv> length (filter (\<lambda>cmd. case cmd of Wake j _ \<Rightarrow> j = i | _ \<Rightarrow> False) cs)"

lemma left_to_do_parts [simp]:
  "left_to_do i (loop_top i t c) = (if th_stop t then 0 else 2)" "left_to_do i (connected i t h c) = 1"
  "left_to_do i (failed i t e c) = (if th_stop t then 0 else 1)" "left_to_do i (lost i t c) = (if th_stop t then 0 else 1)"
  "left_to_do i (set_thread i t c) = stop_steps (th_at t)" "left_to_do i (finish i c) = 0"
  by (simp_all add: left_to_do_def)

lemma stopped_start_relay: "th_stop t \<Longrightarrow> left_to_do i (start_relay i t h os_err child c) < 2"
  by (auto simp: start_relay_def Let_def split: option.split prod.split)

lemma stopped_wake:
  assumes "wake hs i t ph ev c = Some c'" "th_stop t" "th_at t = ph" "ctl_threads c i = Some t"
  shows "left_to_do i c' < left_to_do i c"
proof -
  have "left_to_do i c = stop_steps ph" using assms(3,4) by (simp add: left_to_do_def)
  with assms(1,2) show ?thesis
    by (cases "(hs, i, t, ph, ev, c)" rule: wake.cases)
       (auto simp: booted_def monitor_tunnel_def stopped_start_relay split: TryWait.split option.split)
qed

lemma stopping_step:
  assumes "ctl_exec hs cmd c = Some c'" "stopping i c"
  shows "stopping i c' \<and> left_to_do i c' + wakes i [cmd] \<le> left_to_do i c"
proof (cases cmd)
  case (Wake j ev)
  then obtain t where t: "ctl_threads c j = Some t" "wake hs j t (th_at t) ev c = Some c'"
    using assms(1) by (auto split: option.splits)
  have st: "stepped j t c c'" by (rule wake_effect [OF t(2,1)])
  then have "stopping i c'" using assms(2) t(1) by (auto simp: stopping_def stepped_def next_of_def split: if_splits)
  moreover have "left_to_do i c' + wakes i [cmd] \<le> left_to_do i c"
  proof (cases "j = i")
    case True
    have "th_stop t" using assms(2) t(1) True by (simp add: stopping_def)
    then show ?thesis using stopped_wake [OF t(2) _ refl t(1)] True Wake by simp
  next
    case False
    then show ?thesis using st Wake by (auto simp: left_to_do_def stepped_def)
  qed
  ultimately show ?thesis ..
qed (use assms in \<open>auto simp: stopping_def left_to_do_def reconnect_def connect_def Let_def split: option.split if_splits\<close>)

lemma stopping_run:
  assumes "exec_all (ctl_exec hs) cs c = Some c'" "stopping i c"
  shows "left_to_do i c' + wakes i cs \<le> left_to_do i c"
  using assms
proof (induction cs arbitrary: c)
  case (Cons cmd cs)
  then obtain c1 where c1: "ctl_exec hs cmd c = Some c1" "exec_all (ctl_exec hs) cs c1 = Some c'"
    by (auto split: option.splits)
  have s1: "stopping i c1" "left_to_do i c1 + wakes i [cmd] \<le> left_to_do i c"
    using stopping_step [OF c1(1) Cons.prems(2)] by blast+
  have "wakes i (cmd # cs) = wakes i [cmd] + wakes i cs" by simp
  with s1 Cons.IH [OF c1(2) s1(1)] show ?case by linarith
qed simp

lemma stop_steps_bounds: "0 < stop_steps ph" "stop_steps ph \<le> 3"
  by (cases ph; simp)+

lemma some_event_fits: "\<exists>ev. fits ph ev"
  by (cases ph) (auto intro: exI [of _ Go] exI [of _ Slept] exI [of _ MetaOk] exI [of _ "BootErr []"]
      exI [of _ "Bound None (Inr 0)"] exI [of _ "Waited Running"] exI [of _ "Tick True"])


section \<open>A lost tunnel\<close>

text \<open>The part of the loop a thread stays in once it holds its relay port and has to bind it again.\<close>

fun retrying :: "Phase \<Rightarrow> bool" where
  "retrying RetrySleep = True"
| "retrying Bootstrap = True"
| "retrying (RelayBind h) = True"
| "retrying _ = False"

definition stranded :: "nat \<Rightarrow> Ctl \<Rightarrow> bool" where
  "stranded i c \<longleftrightarrow> i < ctl_next c \<and>
     (\<forall>t. ctl_threads c i = Some t \<longrightarrow> th_stop t \<or> th_ports t \<noteq> {} \<and> retrying (th_at t))"

lemma stranded_parts:
  assumes "i < ctl_next c" "th_ports t \<noteq> {}" "\<not> th_stop t"
  shows "stranded i (loop_top i t c)" "stranded i (failed i t e c)" "stranded i (lost i t c)"
    "stranded i (set_thread i (t\<lparr>th_at := RelayBind h\<rparr>) c)"
  using assms by (auto simp: stranded_def)

lemma stranded_wake:
  assumes ok: "ctl_ok c" and w: "wake True i t ph ev c = Some c'" and t: "ctl_threads c i = Some t" "th_at t = ph"
    and live: "\<not> th_stop t" "th_ports t \<noteq> {}" "retrying ph"
  shows "stranded i c'"
proof -
  obtain p where p: "p \<in> th_ports t" using live(2) by auto
  obtain tok where cr: "relay_creds (th_config t) = Some (p, tok)" using ctl_okD(4) [OF ok t(1) p] by auto
  have "port_bound p c" using port_bound_iff [OF ok] t(1) p by auto
  moreover note stranded_parts [OF ctl_okD(3) [OF ok t(1)] live(2,1)]
  ultimately show ?thesis using w live cr
    by (cases "(True, i, t, ph, ev, c)" rule: wake.cases) (auto simp: booted_def start_relay_def split: option.splits)
qed

lemma stranded_step:
  assumes ok: "ctl_ok c" and e: "ctl_exec True cmd c = Some c'" and s: "stranded i c"
  shows "stranded i c'"
proof (cases cmd)
  case (Wake j ev)
  then obtain t where t: "ctl_threads c j = Some t" "wake True j t (th_at t) ev c = Some c'"
    using e by (auto split: option.splits)
  have st: "stepped j t c c'" by (rule wake_effect [OF t(2,1)])
  show ?thesis
  proof (cases "j = i \<and> \<not> th_stop t")
    case True
    with s t(1) have "th_ports t \<noteq> {}" "retrying (th_at t)" by (auto simp: stranded_def)
    with True stranded_wake [OF ok t(2,1) refl] show ?thesis by auto
  next
    case False
    with st s t(1) show ?thesis by (auto simp: stranded_def stepped_def next_of_def split: if_splits)
  qed
qed (use e s in \<open>auto simp: stranded_def reconnect_def connect_def Let_def split: if_splits\<close>)

lemma stranded_run:
  assumes "exec_all (ctl_exec True) cs c = Some c'" "ctl_ok c" "stranded i c"
  shows "stranded i c'"
  using assms
proof (induction cs arbitrary: c)
  case (Cons cmd cs)
  then obtain c1 where c1: "ctl_exec True cmd c = Some c1" "exec_all (ctl_exec True) cs c1 = Some c'"
    by (auto split: option.splits)
  then show ?case using Cons.IH ctl_ok_exec [OF Cons.prems(2) c1(1)] stranded_step [OF Cons.prems(2) c1(1) Cons.prems(3)]
    by blast
qed simp

text \<open>
  A thread whose reverse tunnel exits after it was connected goes back to the top of its loop with its relay listener still
  bound, because nothing ends the accept loop of the first connection. Every further attempt fails to bind the port: as long as the
  thread is not stopped from outside, no schedule brings it back to a connection.
\<close>

theorem lost_tunnel_never_reconnects:
  assumes "reachable_ctl True c" "ctl_threads c i = Some t" "th_at t = Monitor h" "th_ports t \<noteq> {}" "\<not> th_stop t"
    "tunnel_child c = Some ch" "ctl_exec True (Wake i (Tick True)) c = Some c1"
    "exec_all (ctl_exec True) cs c1 = Some c'" "ctl_threads c' i = Some t'" "\<not> th_stop t'"
  shows "th_at t' \<in> {RetrySleep, Bootstrap} \<union> range RelayBind"
proof -
  have ok: "ctl_ok c" using reachable_ctl_ok assms(1) by blast
  have "stranded i c1"
    using assms(2-7) ctl_okD(3) [OF ok assms(2)] by (auto simp: stranded_def monitor_tunnel_def)
  then have "stranded i c'" using stranded_run [OF assms(8)] ctl_ok_exec [OF ok assms(7)] by blast
  then have "retrying (th_at t')" using assms(9,10) by (simp add: stranded_def)
  then show ?thesis by (cases "th_at t'") auto
qed

section \<open>Concrete runs\<close>

definition demo_relay :: "u16 \<Rightarrow> RemoteConfiguration" where
  "demo_relay p = \<lparr>destination = ''h'', port = None, identity_file = None, ssh_options = [],
     terminal_startup_command = None, relay_port = Some p, relay_id = Some ''r'', relay_token = Some ''00'', local_socket_path = None\<rparr>"

definition demo_hello :: DaemonHello where
  "demo_hello = \<lparr>hello_name = ''limuxd'', hello_version = ''1'', hello_capabilities = [], hello_path = ''/d''\<rparr>"

abbreviation come_up :: "nat \<Rightarrow> nat \<Rightarrow> CtlCmd list" where
  "come_up i ch \<equiv> [Wake i Go, Wake i (BootOk demo_hello), Wake i (Bound None (Inr ch)), Wake i (Waited Running), Wake i Slept,
     Wake i MetaOk]"

lemma demo_relay_creds [simp]: "p \<noteq> 0 \<Longrightarrow> relay_creds (demo_relay p) = Some (p, ''00'')"
  by (simp add: relay_creds_def demo_relay_def)

lemma demo_token [simp]: "hex_decode ''00'' \<noteq> None"
  by (simp add: from_hex2_def hex_val_def is_digit_def code_def)

lemmas ctl_eval = Ctl_new_def connect_def disconnect_def Let_def loop_top_def connected_def failed_def lost_def booted_def
  start_relay_def monitor_tunnel_def say_def set_thread_def finish_def port_bound_def

lemma ctl_trace:
  assumes "exec_all (ctl_exec hs) cs Ctl_new = Some c"
  shows "reachable_ctl hs c"
proof -
  have "reachable_ctl hs c'" if "reachable_ctl hs c1" "exec_all (ctl_exec hs) cs c1 = Some c'" for c1 c' cs
    using that
  proof (induction cs arbitrary: c1)
    case (Cons cmd cs)
    then obtain c2 where c2: "ctl_exec hs cmd c1 = Some c2" "exec_all (ctl_exec hs) cs c2 = Some c'"
      by (auto split: option.splits)
    have "ctl_enabled cmd c1" using c2(1) wake_fits by (cases cmd) (fastforce split: option.splits)+
    with c2 Cons show ?case by (blast intro: reach_step)
  qed simp
  from this [OF reach_refl assms] show ?thesis .
qed



theorem controllers_unique_witness:
  "\<exists>c. exec_all (ctl_exec True) (Connect 1 (demo_relay 7) # come_up 0 9 @ [Reconnect 1 (demo_relay 7)]) Ctl_new = Some c \<and>
     live c 1 = {1}"
proof -
  have "\<exists>c. exec_all (ctl_exec True) (Connect 1 (demo_relay 7) # come_up 0 9 @ [Reconnect 1 (demo_relay 7)]) Ctl_new = Some c \<and>
    ctl_threads c 1 \<noteq> None \<and> hm_get (ctl_registry c) 1 = Some 1"
    by (simp add: ctl_eval reconnect_def)
  then obtain c where c: "exec_all (ctl_exec True) (Connect 1 (demo_relay 7) # come_up 0 9 @ [Reconnect 1 (demo_relay 7)]) Ctl_new = Some c"
    "ctl_threads c 1 \<noteq> None" "hm_get (ctl_registry c) 1 = Some 1" by blast
  have r: "reachable_ctl True c" by (rule ctl_trace [OF c(1)])
  have "1 \<in> live c 1" using live_iff [OF reachable_ctl_ok [OF r]] c(2,3) by simp
  then have "live c 1 = {1}" using controllers_unique [OF r, of 1] by blast
  with c(1) show ?thesis by (intro exI conjI)
qed


theorem lost_tunnel_never_reconnects_witness:
  "\<exists>c t. exec_all (ctl_exec True)
       (Connect 1 (demo_relay 7) # come_up 0 9 @ [Wake 0 (Tick True), Wake 0 Slept, Wake 0 (BootOk demo_hello), Wake 0 (Bound None (Inr 10))])
       Ctl_new = Some c \<and> ctl_threads c 0 = Some t \<and> th_at t \<in> {RetrySleep, Bootstrap} \<union> range RelayBind"
proof -
  let ?up = "Connect 1 (demo_relay 7) # come_up 0 9"
  let ?again = "[Wake 0 Slept, Wake 0 (BootOk demo_hello), Wake 0 (Bound None (Inr 10))]"
  have "\<exists>c t. exec_all (ctl_exec True) ?up Ctl_new = Some c \<and> ctl_threads c 0 = Some t \<and> th_at t = Monitor demo_hello \<and>
    th_ports t \<noteq> {} \<and> \<not> th_stop t \<and> tunnel_child c = Some 9"
    by (simp add: ctl_eval)
  then obtain c t where c: "exec_all (ctl_exec True) ?up Ctl_new = Some c" "ctl_threads c 0 = Some t" "th_at t = Monitor demo_hello"
    "th_ports t \<noteq> {}" "\<not> th_stop t" "tunnel_child c = Some 9" by blast
  have "\<exists>c1 c' t'. exec_all (ctl_exec True) (?up @ [Wake 0 (Tick True)]) Ctl_new = Some c1 \<and>
    exec_all (ctl_exec True) ?again c1 = Some c' \<and> ctl_threads c' 0 = Some t' \<and> \<not> th_stop t'"
    by (simp add: ctl_eval)
  then obtain c1 c' t' where r: "exec_all (ctl_exec True) (?up @ [Wake 0 (Tick True)]) Ctl_new = Some c1"
    "exec_all (ctl_exec True) ?again c1 = Some c'" "ctl_threads c' 0 = Some t'" "\<not> th_stop t'" by blast
  have c1: "ctl_exec True (Wake 0 (Tick True)) c = Some c1"
    using r(1) c(1) unfolding exec_all_append by (simp split: option.splits)
  have "exec_all (ctl_exec True) ((?up @ [Wake 0 (Tick True)]) @ ?again) Ctl_new = Some c'"
    using r(1,2) unfolding exec_all_append [of _ "?up @ [Wake 0 (Tick True)]"] by simp
  with lost_tunnel_never_reconnects [OF ctl_trace [OF c(1)] c(2-6) c1 r(2-4)] r(3) show ?thesis by auto
qed

text \<open>
  \<open>TUNNEL_CHILD\<close> is one slot for all workspaces: the second tunnel replaces the first one, which nobody watches any more, and
  stopping the first workspace kills the tunnel of the second.
\<close>

theorem stop_kills_other_tunnel:
  "\<exists>c. exec_all (ctl_exec True)
       (Connect 1 (demo_relay 7) # come_up 0 9 @ Connect 2 (demo_relay 8) # come_up 1 10 @ [Disconnect 1, Wake 0 (Tick False)])
       Ctl_new = Some c \<and>
     KillChild 10 \<in> set (ctl_log c) \<and> KillChild 9 \<notin> set (ctl_log c) \<and> tunnel_child c = None \<and> is_active 2 c"
  by (simp add: ctl_eval is_active_def hm_contains_def)

text \<open>
  A workspace that is disconnected while its daemon boots is announced as connected afterwards, and nothing takes that back.
\<close>

theorem disconnected_but_announced:
  "\<exists>c. exec_all (ctl_exec hs) [Connect 1 cfg, Wake 0 Go, Disconnect 1, Wake 0 (BootOk h), Wake 0 (Tick False)] Ctl_new = Some c \<and>
     \<not> is_active 1 c \<and> ctl_threads c 0 = None \<and>
     map (\<lambda>l. case l of PushState ws st _ _ \<Rightarrow> Some st | _ \<Rightarrow> None) (ctl_log c) = [Some Connecting, Some Connected, None, None, None]"
  by (simp add: ctl_eval is_active_def hm_contains_def)

section \<open>Delays\<close>

lemma retry_delay_bounds:
  assumes "0 < base" "base \<le> 60"
  shows "base \<le> retry_delay base n" "retry_delay base n \<le> 60"
  using assms by (simp_all add: retry_delay_def)

lemma retry_delay_mono: "m \<le> n \<Longrightarrow> retry_delay base m \<le> retry_delay base n"
  unfolding retry_delay_def
  by (rule min.mono) (auto intro!: mult_left_mono power_increasing diff_le_mono simp: word_le_nat_alt)

end
