(* ===== verification/Rust_Env.thy ===== *)
theory Rust_Env
  imports Rust_Args
begin

text \<open>
  Environment variables and paths as the sources use them. An environment is a map; a path is a string, and \<open>path_join\<close> is
  \<open>Path::join\<close> on Unix: an absolute argument replaces the base.
\<close>

type_synonym environment = "string \<Rightarrow> string option"

definition path_join :: "string \<Rightarrow> string \<Rightarrow> string" where
  "path_join a b =
     (if starts_with ''/'' b then b
      else if a = [] then b
      else if last a = CHR ''/'' then a @ b
      else a @ ''/'' @ b)"

text \<open>\<open>str::rsplit_once\<close> and the last component of \<open>rsplit\<close>.\<close>

definition rsplit_once :: "char \<Rightarrow> string \<Rightarrow> (string \<times> string) option" where
  "rsplit_once d s = (case rfind d s of Some i \<Rightarrow> Some (take i s, drop (i + 1) s) | None \<Rightarrow> None)"

definition rsplit_last :: "char \<Rightarrow> string \<Rightarrow> string" where
  "rsplit_last d s = (case rfind d s of Some i \<Rightarrow> drop (i + 1) s | None \<Rightarrow> s)"

lemma rsplit_last_plain [simp]: "d \<notin> set s \<Longrightarrow> rsplit_last d s = s"
  by (simp add: rsplit_last_def rfind_None [THEN iffD2])

lemma rsplit_last_append: "d \<notin> set b \<Longrightarrow> rsplit_last d (a @ d # b) = b"
  by (simp add: rsplit_last_def rfind_append)

end
