(* ===== verification/App_Settings.thy ===== *)
theory App_Settings
  imports Rust_Map Rust_Env
begin

text \<open>
  Model of \<open>app/src/settings.rs\<close>: the settings record with its effective values, the shortcut table, and the store. The store has
  the settings file and one copy of the settings per thread, because \<open>SETTINGS\<close> is \<open>thread_local!\<close>: a thread that
  touches it for the first time gets the defaults. The JSON coding (serde) is an argument; \<open>settings_io\<close> says whether the directory and
  the file can be written.
\<close>

section \<open>Data\<close>

record GeneralSettings =
  default_shell :: "string option"
  g_working_directory :: "string option"
  g_session_restore :: "bool option"
  g_notifications_enabled :: "bool option"
  g_hide_integrate_prompt :: "bool option"
  g_desktop_integrated :: "bool option"
  g_check_for_updates :: "bool option"
  g_update_check_frequency :: "string option"
  g_skip_update_version :: "string option"
  g_last_update_check :: "int option"

record SidebarSettings =
  sb_width :: "int option"
  sb_visible :: "bool option"

record Settings =
  set_version :: u32
  general :: GeneralSettings
  sidebar :: SidebarSettings
  shortcuts :: "(string, string) hashmap"

definition GeneralSettings_default :: GeneralSettings where
  "GeneralSettings_default =
     \<lparr>default_shell = None, g_working_directory = None, g_session_restore = None, g_notifications_enabled = None,
      g_hide_integrate_prompt = None, g_desktop_integrated = None, g_check_for_updates = None,
      g_update_check_frequency = None, g_skip_update_version = None, g_last_update_check = None\<rparr>"

definition Settings_default :: Settings where
  "Settings_default =
     \<lparr>set_version = 1, general = GeneralSettings_default, sidebar = \<lparr>sb_width = None, sb_visible = None\<rparr>, shortcuts = []\<rparr>"

section \<open>Effective values\<close>

definition session_restore :: "Settings \<Rightarrow> bool" where
  "session_restore s = unwrap_or (g_session_restore (general s)) True"

definition notifications_enabled :: "Settings \<Rightarrow> bool" where
  "notifications_enabled s = unwrap_or (g_notifications_enabled (general s)) True"

definition hide_integrate_prompt :: "Settings \<Rightarrow> bool" where
  "hide_integrate_prompt s = unwrap_or (g_hide_integrate_prompt (general s)) False"

definition desktop_integrated :: "Settings \<Rightarrow> bool" where
  "desktop_integrated s = unwrap_or (g_desktop_integrated (general s)) False"

definition check_for_updates :: "Settings \<Rightarrow> bool" where
  "check_for_updates s = unwrap_or (g_check_for_updates (general s)) True"

definition update_check_frequency :: "Settings \<Rightarrow> string" where
  "update_check_frequency s = unwrap_or (g_update_check_frequency (general s)) ''daily''"

definition last_update_check :: "Settings \<Rightarrow> int option" where
  "last_update_check s = g_last_update_check (general s)"

definition skip_update_version :: "Settings \<Rightarrow> string option" where
  "skip_update_version s = g_skip_update_version (general s)"

definition sidebar_width :: "Settings \<Rightarrow> int" where
  "sidebar_width s = unwrap_or (sb_width (sidebar s)) 180"

definition sidebar_visible :: "Settings \<Rightarrow> bool" where
  "sidebar_visible s = unwrap_or (sb_visible (sidebar s)) True"

section \<open>Shortcuts\<close>

record ShortcutDef =
  sc_action :: string
  default_accel :: string
  sc_label :: string

definition SHORTCUT_DEFAULTS :: "ShortcutDef list" where
  "SHORTCUT_DEFAULTS =
     [\<lparr>sc_action = ''new-workspace'', default_accel = ''<Ctrl><Shift>t'', sc_label = ''New Workspace''\<rparr>,
      \<lparr>sc_action = ''close-workspace'', default_accel = ''<Ctrl><Shift>w'', sc_label = ''Close Workspace''\<rparr>,
      \<lparr>sc_action = ''next-workspace'', default_accel = ''<Ctrl>Page_Down'', sc_label = ''Next Workspace''\<rparr>,
      \<lparr>sc_action = ''prev-workspace'', default_accel = ''<Ctrl>Page_Up'', sc_label = ''Previous Workspace''\<rparr>,
      \<lparr>sc_action = ''split-right'', default_accel = ''<Ctrl><Shift>Return'', sc_label = ''Split Right''\<rparr>,
      \<lparr>sc_action = ''split-down'', default_accel = ''<Ctrl><Shift>e'', sc_label = ''Split Down''\<rparr>,
      \<lparr>sc_action = ''next-split'', default_accel = ''<Ctrl><Shift>bracketright'', sc_label = ''Next Split''\<rparr>,
      \<lparr>sc_action = ''prev-split'', default_accel = ''<Ctrl><Shift>bracketleft'', sc_label = ''Previous Split''\<rparr>,
      \<lparr>sc_action = ''equalize-splits'', default_accel = ''<Ctrl><Shift>plus'', sc_label = ''Equalize Splits''\<rparr>,
      \<lparr>sc_action = ''split-left'', default_accel = ''<Alt>Left'', sc_label = ''Navigate Left''\<rparr>,
      \<lparr>sc_action = ''split-right-nav'', default_accel = ''<Alt>Right'', sc_label = ''Navigate Right''\<rparr>,
      \<lparr>sc_action = ''split-up'', default_accel = ''<Alt>Up'', sc_label = ''Navigate Up''\<rparr>,
      \<lparr>sc_action = ''split-down-nav'', default_accel = ''<Alt>Down'', sc_label = ''Navigate Down''\<rparr>,
      \<lparr>sc_action = ''new-pane-tab'', default_accel = ''<Ctrl>t'', sc_label = ''New Tab in Pane''\<rparr>,
      \<lparr>sc_action = ''close-pane-tab'', default_accel = ''<Ctrl>w'', sc_label = ''Close Tab in Pane''\<rparr>,
      \<lparr>sc_action = ''next-pane-tab'', default_accel = ''<Ctrl>Tab'', sc_label = ''Next Tab in Pane''\<rparr>,
      \<lparr>sc_action = ''prev-pane-tab'', default_accel = ''<Ctrl><Shift>Tab'', sc_label = ''Previous Tab in Pane''\<rparr>,
      \<lparr>sc_action = ''toggle-sidebar'', default_accel = ''<Ctrl><Shift>backslash'', sc_label = ''Toggle Sidebar''\<rparr>,
      \<lparr>sc_action = ''open-browser'', default_accel = ''<Ctrl><Shift>b'', sc_label = ''Open Browser''\<rparr>,
      \<lparr>sc_action = ''focus-address-bar'', default_accel = ''<Ctrl>l'', sc_label = ''Focus Address Bar''\<rparr>,
      \<lparr>sc_action = ''browser-find'', default_accel = ''<Ctrl>f'', sc_label = ''Browser Find''\<rparr>,
      \<lparr>sc_action = ''open-settings'', default_accel = ''<Ctrl>comma'', sc_label = ''Open Settings''\<rparr>]"

definition default_shortcut :: "string \<Rightarrow> string option" where
  "default_shortcut action = map_option default_accel (find (\<lambda>d. sc_action d = action) SHORTCUT_DEFAULTS)"

definition shortcut_accel :: "Settings \<Rightarrow> string \<Rightarrow> string option" where
  "shortcut_accel s action =
     (case hm_get (shortcuts s) action of Some accel \<Rightarrow> Some accel | None \<Rightarrow> default_shortcut action)"

definition merged_shortcuts :: "Settings \<Rightarrow> (string, string) hashmap" where
  "merged_shortcuts s =
     foldl (\<lambda>m d. hm_insert (sc_action d) (unwrap_or (hm_get (shortcuts s) (sc_action d)) (default_accel d)) m)
       [] SHORTCUT_DEFAULTS"

section \<open>The store\<close>

record settings_io =
  mkdir_error :: "string option"
  write_error :: "string option"

record SettingsStore =
  settings_file :: "string option"
  settings_local :: "nat \<rightharpoonup> Settings"

definition config_dir :: "environment \<Rightarrow> string" where
  "config_dir env =
     (case env ''XDG_CONFIG_HOME'' of Some d \<Rightarrow> d | None \<Rightarrow> path_join (unwrap_or (env ''HOME'') ''/tmp'') ''.config'')"

definition settings_file_path :: "environment \<Rightarrow> string" where
  "settings_file_path env = path_join (path_join (config_dir env) ''limux'') ''settings.json''"

definition ghostty_config_path :: "environment \<Rightarrow> string" where
  "ghostty_config_path env = path_join (path_join (config_dir env) ''ghostty'') ''config''"

definition settings_load :: "(string \<Rightarrow> Settings option) \<Rightarrow> SettingsStore \<Rightarrow> Settings" where
  "settings_load decode st =
     (case settings_file st of Some data \<Rightarrow> unwrap_or (decode data) Settings_default | None \<Rightarrow> Settings_default)"

definition settings_save :: "(Settings \<Rightarrow> string) \<Rightarrow> settings_io \<Rightarrow> Settings \<Rightarrow> SettingsStore \<Rightarrow> (string + unit) \<times> SettingsStore" where
  "settings_save encode io s st =
     (case mkdir_error io of
        Some e \<Rightarrow> (Inl (''mkdir: '' @ e), st)
      | None \<Rightarrow>
          (case write_error io of
             Some e \<Rightarrow> (Inl (''write: '' @ e), st)
           | None \<Rightarrow> (Inr (), st\<lparr>settings_file := Some (encode s)\<rparr>)))"

definition settings_init :: "(string \<Rightarrow> Settings option) \<Rightarrow> nat \<Rightarrow> SettingsStore \<Rightarrow> SettingsStore" where
  "settings_init decode tid st = st\<lparr>settings_local := (settings_local st)(tid \<mapsto> settings_load decode st)\<rparr>"

definition settings_get :: "nat \<Rightarrow> SettingsStore \<Rightarrow> Settings" where
  "settings_get tid st = unwrap_or (settings_local st tid) Settings_default"

definition settings_update ::
  "(Settings \<Rightarrow> string) \<Rightarrow> settings_io \<Rightarrow> nat \<Rightarrow> (Settings \<Rightarrow> Settings) \<Rightarrow> SettingsStore \<Rightarrow> SettingsStore" where
  "settings_update encode io tid f st =
     (let s = f (settings_get tid st)
      in snd (settings_save encode io s (st\<lparr>settings_local := (settings_local st)(tid \<mapsto> s)\<rparr>)))"

section \<open>Facts\<close>

lemma shortcut_actions_distinct: "distinct (map sc_action SHORTCUT_DEFAULTS)"
  by (simp add: SHORTCUT_DEFAULTS_def)

lemma hm_get_fold_insert:
  assumes "distinct (map key ds)"
  shows "hm_get (foldl (\<lambda>m d. hm_insert (key d) (val d) m) m0 ds) a =
    (case find (\<lambda>d. key d = a) ds of Some d \<Rightarrow> Some (val d) | None \<Rightarrow> hm_get m0 a)"
  using assms
proof (induction ds arbitrary: m0)
  case (Cons d ds)
  have "find (\<lambda>x. key x = key d) ds = None" using Cons.prems by (force simp: find_None_iff image_iff)
  with Cons show ?case by (auto split: option.split)
qed simp

text \<open>The merged table has exactly the known actions, and for each of them what \<open>shortcut_accel\<close> answers.\<close>

lemma merged_shortcuts_get:
  "hm_get (merged_shortcuts s) a = (if default_shortcut a = None then None else shortcut_accel s a)"
proof (cases "find (\<lambda>d. sc_action d = a) SHORTCUT_DEFAULTS")
  case None
  then show ?thesis by (simp add: merged_shortcuts_def hm_get_fold_insert [OF shortcut_actions_distinct] default_shortcut_def)
next
  case (Some d)
  then have "sc_action d = a" by (auto simp: find_Some_iff)
  with Some show ?thesis
    by (cases "hm_get (shortcuts s) a")
      (simp_all add: merged_shortcuts_def hm_get_fold_insert [OF shortcut_actions_distinct] default_shortcut_def shortcut_accel_def)
qed

text \<open>An update that reaches the disk is what the next start of the program reads.\<close>

lemma settings_survive_restart:
  assumes "\<And>s. decode (encode s) = Some s" "mkdir_error io = None" "write_error io = None"
  shows "settings_get tid (settings_init decode tid (settings_update encode io tid f st)) = f (settings_get tid st)"
    "settings_get tid (settings_update encode io tid f st) = f (settings_get tid st)"
  using assms by (simp_all add: settings_update_def settings_init_def settings_get_def settings_load_def settings_save_def Let_def)

end
