(* ===== verification/Update_Check.thy ===== *)
theory Update_Check
  imports App_Settings Relay
begin

text \<open>
  Model of \<open>app/src/update.rs\<close>, \<open>app/src/install.rs\<close> and the decision of \<open>app/src/install_prompt.rs\<close>: version numbers, when a
  check is due, what the background thread of a check does, which prompts are shown and what their buttons write. The programs
  \<open>curl\<close> and \<open>wget\<close>, the JSON parser, the clock, the environment and the files are arguments.
\<close>

section \<open>Versions\<close>

datatype Version = Version (major: u32) (minor: u32) (patch: u32)

definition Version_parse :: "string \<Rightarrow> Version option" where
  "Version_parse s0 =
     (let s = unwrap_or (strip_prefix ''v'' s0) s0 in
      case split_on (CHR ''.'') s of
        [a, b, c] \<Rightarrow>
          do { x \<leftarrow> parse_u32 a; y \<leftarrow> parse_u32 b; z \<leftarrow> parse_u32 c; Some (Version x y z) }
      | _ \<Rightarrow> None)"

datatype Ordering = Less | Equal | Greater

definition Version_partial_cmp :: "Version \<Rightarrow> Version \<Rightarrow> Ordering" where
  "Version_partial_cmp v w =
     (if major v < major w \<or> major v = major w \<and> (minor v < minor w \<or> minor v = minor w \<and> patch v < patch w) then Less
      else if major v = major w \<and> minor v = minor w \<and> patch v = patch w then Equal
      else Greater)"

text \<open>The comparison operators come from \<open>partial_cmp\<close>.\<close>

instantiation Version :: linorder
begin

definition less_eq_Version :: "Version \<Rightarrow> Version \<Rightarrow> bool" where
  "v \<le> w \<longleftrightarrow> Version_partial_cmp v w \<noteq> Greater"

definition less_Version :: "Version \<Rightarrow> Version \<Rightarrow> bool" where
  "v < w \<longleftrightarrow> Version_partial_cmp v w = Less"

instance
  by standard (auto simp: less_eq_Version_def less_Version_def Version_partial_cmp_def intro: Version.expand split: if_splits)

end

definition version_str :: "Version \<Rightarrow> string" where
  "version_str v = u32_str (major v) @ ''.'' @ u32_str (minor v) @ ''.'' @ u32_str (patch v)"

section \<open>The check\<close>

definition DAILY_SECS :: int where
  "DAILY_SECS = 24 * 60 * 60"

definition WEEKLY_SECS :: int where
  "WEEKLY_SECS = 7 * DAILY_SECS"

definition i64_saturate :: "int \<Rightarrow> int" where
  "i64_saturate x = (if x < - (2 ^ 63) then - (2 ^ 63) else if x > 2 ^ 63 - 1 then 2 ^ 63 - 1 else x)"

definition check_due :: "Settings \<Rightarrow> int \<Rightarrow> bool" where
  "check_due s now =
     (if \<not> check_for_updates s then False
      else case last_update_check s of
        None \<Rightarrow> True
      | Some before \<Rightarrow>
          if update_check_frequency s = ''startup'' then True
          else i64_saturate (now - before) \<ge> (if update_check_frequency s = ''weekly'' then WEEKLY_SECS else DAILY_SECS))"

record LatestRelease =
  tag_name :: string
  html_url :: string

text \<open>A program run: \<open>None\<close> when it cannot be started, otherwise whether it succeeded and its output.\<close>

type_synonym program_run = "(bool \<times> string) option"

definition download :: "program_run \<Rightarrow> program_run \<Rightarrow> string + string" where
  "download curl wget =
     (case curl of
        Some (True, out) \<Rightarrow> Inr out
      | _ \<Rightarrow> (case wget of Some (True, out) \<Rightarrow> Inr out | _ \<Rightarrow> Inl ''download failed''))"

definition parse_release :: "(string \<Rightarrow> Value option) \<Rightarrow> string \<Rightarrow> string + LatestRelease option" where
  "parse_release js body =
     (case js body of
        None \<Rightarrow> Inl ''parse''
      | Some v \<Rightarrow>
          (case get_str v ''tag_name'' of
             None \<Rightarrow> Inl ''missing tag_name''
           | Some tag \<Rightarrow>
               (case get_str v ''html_url'' of
                  None \<Rightarrow> Inl ''missing html_url''
                | Some url \<Rightarrow>
                    if Version_parse tag = None then Inr None
                    else Inr (Some \<lparr>tag_name = tag, html_url = url\<rparr>))))"

definition fetch_latest ::
  "(string \<Rightarrow> Value option) \<Rightarrow> (Settings \<Rightarrow> string) \<Rightarrow> settings_io \<Rightarrow> nat \<Rightarrow> int \<Rightarrow> program_run \<Rightarrow> program_run \<Rightarrow> SettingsStore \<Rightarrow>
   (string + LatestRelease option) \<times> SettingsStore" where
  "fetch_latest js encode io tid now curl wget st =
     (case download curl wget of
        Inl e \<Rightarrow> (Inl e, st)
      | Inr body \<Rightarrow>
          (case parse_release js body of
             Inr (Some r) \<Rightarrow>
               (Inr (Some r), settings_update encode io tid (general_update (g_last_update_check_update (\<lambda>_. Some now))) st)
           | res \<Rightarrow> (res, st)))"

text \<open>What the main thread does with the result: the version to offer, if any.\<close>

definition offered :: "string \<Rightarrow> Settings \<Rightarrow> string + LatestRelease option \<Rightarrow> LatestRelease option" where
  "offered current s res =
     (case res of
        Inr (Some latest) \<Rightarrow>
          (case (Version_parse (tag_name latest), Version_parse current) of
             (Some l, Some c) \<Rightarrow>
               if l > c \<and> skip_update_version s \<noteq> Some (tag_name latest) then Some latest else None
           | _ \<Rightarrow> None)
      | _ \<Rightarrow> None)"

definition maybe_check ::
  "bool \<Rightarrow> string \<Rightarrow> (string \<Rightarrow> Value option) \<Rightarrow> (Settings \<Rightarrow> string) \<Rightarrow> settings_io \<Rightarrow> nat \<Rightarrow> nat \<Rightarrow> int \<Rightarrow> program_run \<Rightarrow> program_run \<Rightarrow>
   SettingsStore \<Rightarrow> LatestRelease option \<times> SettingsStore" where
  "maybe_check is_appimage current js encode io main tid now curl wget st =
     (if \<not> is_appimage then (None, st)
      else if \<not> check_due (settings_get main st) now then (None, st)
      else
        (let (res, st') = fetch_latest js encode io tid now curl wget st
         in (offered current (settings_get main st') res, st')))"

definition skip_clicked :: "(Settings \<Rightarrow> string) \<Rightarrow> settings_io \<Rightarrow> nat \<Rightarrow> string \<Rightarrow> SettingsStore \<Rightarrow> SettingsStore" where
  "skip_clicked encode io main new_version st =
     settings_update encode io main (general_update (g_skip_update_version_update (\<lambda>_. Some new_version))) st"

section \<open>Desktop integration\<close>

record files =
  is_file :: "string \<Rightarrow> bool"
  read_file :: "string \<Rightarrow> string option"

definition is_appimage :: "environment \<Rightarrow> files \<Rightarrow> bool" where
  "is_appimage env fs = (case env ''APPIMAGE'' of Some p \<Rightarrow> is_file fs p | None \<Rightarrow> False)"

definition xdg_dir :: "environment \<Rightarrow> string \<Rightarrow> string \<Rightarrow> string option" where
  "xdg_dir env var default_suffix =
     (case env var of
        Some (c # p) \<Rightarrow> Some (c # p)
      | _ \<Rightarrow> map_option (\<lambda>home. path_join home default_suffix) (env ''HOME''))"

definition desktop_file :: "environment \<Rightarrow> string option" where
  "desktop_file env =
     map_option (\<lambda>d. path_join (path_join d ''applications'') ''limux.desktop'') (xdg_dir env ''XDG_DATA_HOME'' ''.local/share'')"

definition is_integrated :: "environment \<Rightarrow> files \<Rightarrow> bool" where
  "is_integrated env fs = (case desktop_file env of Some p \<Rightarrow> is_file fs p | None \<Rightarrow> False)"

fun version_line :: "string list \<Rightarrow> string option" where
  "version_line [] = None"
| "version_line (l # ls) =
     (case strip_prefix ''X-AppImage-Version='' (trim l) of
        Some r \<Rightarrow> if trim r \<noteq> [] then Some (trim r) else version_line ls
      | None \<Rightarrow> version_line ls)"

definition installed_version :: "environment \<Rightarrow> files \<Rightarrow> string option" where
  "installed_version env fs =
     do { p \<leftarrow> desktop_file env; content \<leftarrow> read_file fs p; version_line (lines content) }"

definition is_version_stale :: "environment \<Rightarrow> files \<Rightarrow> string \<Rightarrow> bool" where
  "is_version_stale env fs current =
     (if \<not> is_appimage env fs then False
      else case installed_version env fs of Some v \<Rightarrow> v \<noteq> current | None \<Rightarrow> False)"

text \<open>\<open>install_prompt::maybe_show\<close>: whether a dialog is shown, and whether it is the one for an upgrade.\<close>

definition maybe_show :: "environment \<Rightarrow> files \<Rightarrow> string \<Rightarrow> Settings \<Rightarrow> bool option" where
  "maybe_show env fs current s =
     (if \<not> is_appimage env fs then None
      else
        (let installed = installed_version env fs;
             is_upgrade = (case installed of Some v \<Rightarrow> v \<noteq> current | None \<Rightarrow> False)
         in if installed = Some current then None
            else if hide_integrate_prompt s then None
            else Some is_upgrade))"

definition cancel_clicked :: "(Settings \<Rightarrow> string) \<Rightarrow> settings_io \<Rightarrow> nat \<Rightarrow> bool \<Rightarrow> SettingsStore \<Rightarrow> SettingsStore" where
  "cancel_clicked encode io main dont_ask st =
     (if dont_ask then settings_update encode io main (general_update (g_hide_integrate_prompt_update (\<lambda>_. Some True))) st else st)"

definition integrate_clicked ::
  "(Settings \<Rightarrow> string) \<Rightarrow> settings_io \<Rightarrow> nat \<Rightarrow> bool \<Rightarrow> bool \<Rightarrow> SettingsStore \<Rightarrow> SettingsStore" where
  "integrate_clicked encode io main installed_ok dont_ask st =
     (if installed_ok then
        settings_update encode io main
          (general_update (\<lambda>g.
             (let g = g\<lparr>g_desktop_integrated := Some True\<rparr>
              in if dont_ask then g\<lparr>g_hide_integrate_prompt := Some True\<rparr> else g))) st
      else st)"

end
