(* ===== verification/Update_Claims.thy ===== *)
theory Update_Claims
  imports Update_Check "HOL-Library.Countable"
begin

text \<open>
  The update check offers exactly the newer versions the user did not skip, the integration prompt appears exactly when the
  documentation says, and the background thread of a check overwrites the settings file with the defaults.
\<close>

section \<open>Versions\<close>

lemma Version_parse_str: "Version_parse (version_str v) = Some v" "Version_parse (''v'' @ version_str v) = Some v"
proof -
  have dots: "CHR ''.'' \<notin> set (u32_str x)" for x using u32_str_chars [of "CHR ''.''" x] by auto
  have s: "split_on (CHR ''.'') (version_str v) = [u32_str (major v), u32_str (minor v), u32_str (patch v)]"
    using dots by (simp add: version_str_def split_on_append split_on_no_sep)
  obtain c r where e: "version_str v = c # r" "is_digit c"
    using nat_str_not_Nil u32_str_chars [of _ "major v"] by (cases "u32_str (major v)") (auto simp: version_str_def u32_str_def)
  then have "strip_prefix ''v'' (version_str v) = None" by (auto simp: is_digit_def code_def)
  then show "Version_parse (version_str v) = Some v" using s by (simp add: Version_parse_def)
  show "Version_parse (''v'' @ version_str v) = Some v" using s by (simp add: Version_parse_def)
qed

text \<open>
  The start-up check offers a release exactly when the program runs from an AppImage, checks are enabled and due, the
  release is newer than the running version, compared by major, minor and patch number, and the user has not skipped just
  this release.
\<close>

theorem update_offered_exactly:
  assumes "curl = Some (True, body)" "js body = Some v"
    "get_str v ''tag_name'' = Some (''v'' @ version_str new)" "get_str v ''html_url'' = Some url" "main \<noteq> tid"
  shows "fst (maybe_check appimage (version_str cur) js encode io main tid now curl wget st) =
    (if appimage \<and> check_due (settings_get main st) now \<and> cur < new \<and>
        skip_update_version (settings_get main st) \<noteq> Some (''v'' @ version_str new)
     then Some \<lparr>tag_name = ''v'' @ version_str new, html_url = url\<rparr> else None)"
proof -
  have other: "settings_get main (settings_update encode io tid f st) = settings_get main st" for f
    using assms(5) by (simp add: settings_update_def settings_get_def settings_save_def Let_def split: option.split)
  show ?thesis
    using assms(1-4) Version_parse_str
    by (simp add: maybe_check_def fetch_latest_def download_def parse_release_def offered_def other Let_def)
qed

section \<open>The settings file\<close>

text \<open>
  The thread of an update check has its own copy of the settings, which nobody initialises. When it has found a release it
  records the time of the check in that copy and saves it: the settings file then holds the defaults and the time, whatever the user had
  configured, the next start of the program reads them, and the running program still believes that no check was made.
\<close>

theorem update_check_resets_settings:
  assumes "curl = Some (True, body)" "js body = Some v" "get_str v ''tag_name'' = Some tag" "get_str v ''html_url'' = Some url"
    "Version_parse tag \<noteq> None" "mkdir_error io = None" "write_error io = None" "\<And>s. decode (encode s) = Some s"
    "settings_local st tid = None" "tid \<noteq> main"
  shows "settings_load decode (snd (fetch_latest js encode io tid now curl wget st)) =
      general_update (g_last_update_check_update (\<lambda>_. Some now)) Settings_default \<and>
    settings_get main (snd (fetch_latest js encode io tid now curl wget st)) = settings_get main st"
  using assms
  by (auto simp: fetch_latest_def download_def parse_release_def settings_update_def settings_save_def settings_get_def
      settings_load_def Let_def)

section \<open>Desktop integration\<close>

text \<open>
  The prompt for the desktop integration is shown exactly when the three conditions of its documentation hold, and never again once the
  user asked for that.
\<close>

theorem integration_prompt_exact:
  "maybe_show env fs current s \<noteq> None \<longleftrightarrow>
     is_appimage env fs \<and> (installed_version env fs = None \<or> is_version_stale env fs current) \<and> \<not> hide_integrate_prompt s"
  "maybe_show env fs current (settings_get main (cancel_clicked encode io main True st)) = None"
  by (auto simp: maybe_show_def is_version_stale_def cancel_clicked_def settings_get_def settings_update_def settings_save_def
      hide_integrate_prompt_def Let_def split: option.splits)

section \<open>Witnesses\<close>

definition demo_body :: "string \<Rightarrow> Value option" where
  "demo_body b =
     (if b = ''{}'' then Some (JObject [(''tag_name'', JString (''v'' @ version_str (Version 1 2 3))), (''html_url'', JString ''u'')])
      else None)"

definition demo_store :: SettingsStore where
  "demo_store = \<lparr>settings_file = None, settings_local = [0 \<mapsto> Settings_default\<lparr>sidebar := \<lparr>sb_width = Some 300, sb_visible = None\<rparr>\<rparr>]\<rparr>"

lemma demo_release:
  "demo_body ''{}'' = Some (JObject [(''tag_name'', JString (''v'' @ version_str (Version 1 2 3))), (''html_url'', JString ''u'')])"
  by (simp add: demo_body_def)

theorem update_offered_exactly_witness:
  "fst (maybe_check True (version_str (Version 1 1 9)) demo_body (\<lambda>s. []) \<lparr>mkdir_error = None, write_error = None\<rparr> 0 1 5
     (Some (True, ''{}'')) None demo_store) =
   Some \<lparr>tag_name = ''v'' @ version_str (Version 1 2 3), html_url = ''u''\<rparr>"
proof -
  have "check_due (settings_get 0 demo_store) 5" "skip_update_version (settings_get 0 demo_store) = None"
    by (simp_all add: check_due_def settings_get_def demo_store_def Settings_default_def GeneralSettings_default_def
        check_for_updates_def last_update_check_def skip_update_version_def)
  moreover have "Version 1 1 9 < Version 1 2 3" by (simp add: less_Version_def Version_partial_cmp_def)
  ultimately show ?thesis
    using update_offered_exactly [where js = demo_body and body = "''{}''" and new = "Version 1 2 3" and cur = "Version 1 1 9" and
        st = demo_store and main = 0 and tid = 1 and now = 5, OF refl demo_release]
    by (simp add: get_str_def)
qed

text \<open>A coding of settings by numbers, which decodes everything it encodes.\<close>

instance GeneralSettings_ext :: (countable) countable
  by (rule countable_classI [of "\<lambda>r. to_nat (default_shell r, g_working_directory r, g_session_restore r, g_notifications_enabled r,
        g_hide_integrate_prompt r, g_desktop_integrated r, g_check_for_updates r, g_update_check_frequency r, g_skip_update_version r,
        g_last_update_check r, GeneralSettings.more r)"]) simp

instance SidebarSettings_ext :: (countable) countable
  by (rule countable_classI [of "\<lambda>r. to_nat (sb_width r, sb_visible r, SidebarSettings.more r)"]) simp

instance Settings_ext :: (countable) countable
  by (rule countable_classI [of "\<lambda>r. to_nat (set_version r, general r, sidebar r, shortcuts r, Settings.more r)"]) simp

definition num_encode :: "Settings \<Rightarrow> string" where
  "num_encode s = nat_str (to_nat s)"

definition num_decode :: "string \<Rightarrow> Settings option" where
  "num_decode t = map_option from_nat (parse_nat t)"

lemma num_decode_encode: "num_decode (num_encode s) = Some s"
  by (simp add: num_decode_def num_encode_def)

theorem update_check_resets_settings_witness:
  "sidebar_width (settings_get 0 demo_store) = 300 \<and>
   sidebar_width (settings_load num_decode (snd (fetch_latest demo_body num_encode \<lparr>mkdir_error = None, write_error = None\<rparr> 1 5
     (Some (True, ''{}'')) None demo_store))) = 180"
proof -
  have "settings_load num_decode (snd (fetch_latest demo_body num_encode \<lparr>mkdir_error = None, write_error = None\<rparr> 1 5
      (Some (True, ''{}'')) None demo_store)) = general_update (g_last_update_check_update (\<lambda>_. Some 5)) Settings_default"
    using update_check_resets_settings [where js = demo_body and body = "''{}''" and st = demo_store and main = 0 and tid = 1 and
        now = 5 and encode = num_encode and decode = num_decode, OF refl demo_release] num_decode_encode
    by (simp add: get_str_def Version_parse_str [simplified] demo_store_def)
  then show ?thesis
    by (simp add: sidebar_width_def settings_get_def demo_store_def Settings_default_def)
qed

end
