(* ===== verification/Notify.thy ===== *)
theory Notify
  imports Rust_Map Rust_Str Step_Machine
begin

text \<open>
  Model of \<open>app/src/notify.rs\<close>: the switches and the two rate limiters for bell notifications. Instants are nanoseconds; the
  D-Bus call is a log of what is sent. \<open>notify_clock\<close> is the time of the last bell, which stands for the monotonic clock.
\<close>

type_synonym Instant = int

definition nanos :: "int \<Rightarrow> int" where
  "nanos secs = secs * 10 ^ 9"

definition PER_WORKSPACE_COOLDOWN_SECS :: int where
  "PER_WORKSPACE_COOLDOWN_SECS = 5"

definition GLOBAL_MAX_BURST :: nat where
  "GLOBAL_MAX_BURST = 3"

definition GLOBAL_BURST_WINDOW_SECS :: int where
  "GLOBAL_BURST_WINDOW_SECS = 10"

record Notify =
  window_active :: bool
  notify_enabled :: bool
  last_notify :: "(WorkspaceId, Instant) hashmap"
  recent :: "Instant list"
  sent :: "(WorkspaceId \<times> Instant) list"
  notify_clock :: Instant

definition Notify_new :: Notify where
  "Notify_new = \<lparr>window_active = True, notify_enabled = True, last_notify = [], recent = [], sent = [], notify_clock = 0\<rparr>"

text \<open>\<open>duration_since\<close> is zero for an instant in the future, and \<open>as_secs\<close> drops the fraction.\<close>

definition secs_since :: "Instant \<Rightarrow> Instant \<Rightarrow> int" where
  "secs_since now before = (if now < before then 0 else (now - before) div 10 ^ 9)"

definition throttled :: "WorkspaceId \<Rightarrow> Instant \<Rightarrow> Notify \<Rightarrow> bool" where
  "throttled ws now n =
     (case hm_get (last_notify n) ws of
        Some before \<Rightarrow> secs_since now before < PER_WORKSPACE_COOLDOWN_SECS
      | None \<Rightarrow> False)"

definition retain_recent :: "Instant \<Rightarrow> Notify \<Rightarrow> Notify" where
  "retain_recent now n = n\<lparr>recent := filter (\<lambda>t. t > now - nanos GLOBAL_BURST_WINDOW_SECS) (recent n)\<rparr>"

definition send_bell_notification :: "WorkspaceId \<Rightarrow> Instant \<Rightarrow> Notify \<Rightarrow> Notify" where
  "send_bell_notification ws now n =
     (if \<not> notify_enabled n then n
      else if window_active n then n
      else if throttled ws now n then n
      else
        (let n = retain_recent now n in
         if length (recent n) \<ge> GLOBAL_MAX_BURST then n
         else n\<lparr>last_notify := hm_insert ws now (last_notify n), recent := recent n @ [now], sent := sent n @ [(ws, now)]\<rparr>))"

definition escape_quotes :: "string \<Rightarrow> string" where
  "escape_quotes s = concat (map (\<lambda>c. if c = CHR 0x27 then [CHR 0x5C, CHR 0x27] else [c]) s)"

definition bell_params :: "string \<Rightarrow> string" where
  "bell_params title =
     (let summary = ''Bell in '' @ title;
          body = ''Terminal bell in workspace '' @ [CHR 0x22] @ title @ [CHR 0x22];
          q = [CHR 0x27]
      in ''('' @ q @ ''Limux'' @ q @ '', uint32 0, '' @ q @ ''utilities-terminal'' @ q @ '', '' @ q @ escape_quotes summary @ q @ '', '' @
         q @ escape_quotes body @ q @ '', @as [], @a{sv} {}, 5000)'')"

datatype NotifyCmd =
    SetWindowActive bool
  | NotifyEnable
  | NotifyDisable
  | Bell WorkspaceId Instant

fun notify_exec :: "NotifyCmd \<Rightarrow> Notify \<Rightarrow> Notify option" where
  "notify_exec (SetWindowActive a) n = Some (n\<lparr>window_active := a\<rparr>)"
| "notify_exec NotifyEnable n = Some (n\<lparr>notify_enabled := True\<rparr>)"
| "notify_exec NotifyDisable n = Some (n\<lparr>notify_enabled := False\<rparr>)"
| "notify_exec (Bell ws now) n = Some ((send_bell_notification ws now n)\<lparr>notify_clock := now\<rparr>)"

fun notify_ready :: "NotifyCmd \<Rightarrow> Notify \<Rightarrow> bool" where
  "notify_ready (Bell ws now) n \<longleftrightarrow> notify_clock n \<le> now"
| "notify_ready _ n \<longleftrightarrow> True"

section \<open>The invariant\<close>

abbreviation burst_window :: int where
  "burst_window \<equiv> nanos GLOBAL_BURST_WINDOW_SECS"

text \<open>How many of the instants lie in the ten seconds up to \<open>t\<close>.\<close>

definition in_window :: "Instant \<Rightarrow> Instant list \<Rightarrow> nat" where
  "in_window t xs = length (filter (\<lambda>x. t - burst_window < x \<and> x \<le> t) xs)"

definition spaced :: "(WorkspaceId \<times> Instant) list \<Rightarrow> bool" where
  "spaced xs \<longleftrightarrow> sorted_wrt (\<lambda>a b. fst a = fst b \<longrightarrow> snd a + nanos PER_WORKSPACE_COOLDOWN_SECS \<le> snd b) xs"

text \<open>The instants that still count are the same in the limiter's list and in the log.\<close>

definition notify_ok :: "Notify \<Rightarrow> bool" where
  "notify_ok n \<longleftrightarrow>
     (\<forall>x\<in>snd ` set (sent n) \<union> set (recent n). x \<le> notify_clock n) \<and>
     filter (\<lambda>t. t > notify_clock n - burst_window) (recent n) =
       filter (\<lambda>t. t > notify_clock n - burst_window) (map snd (sent n)) \<and>
     (\<forall>ws t. (ws, t) \<in> set (sent n) \<longrightarrow> (\<exists>l. hm_get (last_notify n) ws = Some l \<and> t \<le> l \<and> l \<le> notify_clock n)) \<and>
     spaced (sent n) \<and> (\<forall>t. in_window t (map snd (sent n)) \<le> GLOBAL_MAX_BURST)"

lemma notify_ok_new: "notify_ok Notify_new"
  by (simp add: notify_ok_def Notify_new_def spaced_def in_window_def)

lemma notify_ok_switches [simp]:
  "notify_ok (n\<lparr>window_active := a\<rparr>) = notify_ok n" "notify_ok (n\<lparr>notify_enabled := a\<rparr>) = notify_ok n"
  by (simp_all add: notify_ok_def)

lemma filter_later:
  assumes "filter (\<lambda>t. t > c - w) xs = filter (\<lambda>t. t > c - w) ys" "(c :: int) \<le> now"
  shows "filter (\<lambda>t. t > now - w) xs = filter (\<lambda>t. t > now - w) ys"
proof -
  have "filter (\<lambda>t. t > now - w) zs = filter (\<lambda>t. t > now - w) (filter (\<lambda>t. t > c - w) zs)" for zs :: "int list"
    using assms(2) by (auto intro: filter_cong)
  then show ?thesis using assms(1) by metis
qed

lemma length_filter_le_filter: "(\<And>x. x \<in> set xs \<Longrightarrow> P x \<Longrightarrow> Q x) \<Longrightarrow> length (filter P xs) \<le> length (filter Q xs)"
  by (induction xs) auto

lemma in_window_snoc_le:
  assumes "\<forall>x\<in>set xs. x \<le> now" "in_window t xs \<le> m" "length (filter (\<lambda>x. x > now - burst_window) xs) < m"
  shows "in_window t (xs @ [now]) \<le> m"
proof (cases "now \<le> t")
  case True
  have "in_window t xs \<le> length (filter (\<lambda>x. x > now - burst_window) xs)"
    unfolding in_window_def using True by (intro length_filter_le_filter) auto
  with assms(3) show ?thesis by (simp add: in_window_def)
qed (use assms(2) in \<open>simp add: in_window_def\<close>)

lemma secs_since_ge: "b \<le> now \<Longrightarrow> \<not> secs_since now b < k \<Longrightarrow> b + nanos k \<le> now"
  by (simp add: secs_since_def nanos_def)

text \<open>Time passes without a notification: the limiter forgets what no longer counts.\<close>

lemma notify_ok_idle:
  assumes "notify_ok n" "notify_clock n \<le> now"
  shows "notify_ok (n\<lparr>notify_clock := now\<rparr>)" "notify_ok ((retain_recent now n)\<lparr>notify_clock := now\<rparr>)"
proof -
  have le: "\<forall>x\<in>snd ` set (sent n) \<union> set (recent n). x \<le> now" using assms by (force simp: notify_ok_def)
  have f: "filter (\<lambda>t. t > now - burst_window) (recent n) = filter (\<lambda>t. t > now - burst_window) (map snd (sent n))"
    using assms filter_later unfolding notify_ok_def by blast
  have l: "\<exists>l. hm_get (last_notify n) ws = Some l \<and> t \<le> l \<and> l \<le> now" if "(ws, t) \<in> set (sent n)" for ws t
    using assms that unfolding notify_ok_def by (meson order_trans)
  show "notify_ok (n\<lparr>notify_clock := now\<rparr>)" using assms(1) le f l by (simp add: notify_ok_def)
  show "notify_ok ((retain_recent now n)\<lparr>notify_clock := now\<rparr>)"
    using assms(1) le f l by (auto simp: notify_ok_def retain_recent_def)
qed

lemma notify_ok_sent:
  assumes ok: "notify_ok n" and now: "notify_clock n \<le> now" and free: "\<not> throttled ws now n"
    and few: "length (recent (retain_recent now n)) < GLOBAL_MAX_BURST"
  shows "notify_ok ((retain_recent now n)\<lparr>last_notify := hm_insert ws now (last_notify n),
    recent := recent (retain_recent now n) @ [now], sent := sent n @ [(ws, now)], notify_clock := now\<rparr>)"
proof -
  have ok': "notify_ok ((retain_recent now n)\<lparr>notify_clock := now\<rparr>)" by (rule notify_ok_idle(2) [OF ok now])
  have le: "\<forall>x\<in>set (map snd (sent n)). x \<le> now" using ok' by (auto simp: notify_ok_def retain_recent_def)
  have eq: "recent (retain_recent now n) = filter (\<lambda>t. t > now - burst_window) (map snd (sent n))"
    using ok' by (simp add: notify_ok_def retain_recent_def)
  have gap: "t + nanos PER_WORKSPACE_COOLDOWN_SECS \<le> now" if m: "(ws, t) \<in> set (sent n)" for t
  proof -
    obtain l where l: "hm_get (last_notify n) ws = Some l" "t \<le> l" "l \<le> now"
      using ok now m unfolding notify_ok_def by (meson order_trans)
    with free have "\<not> secs_since now l < PER_WORKSPACE_COOLDOWN_SECS" by (simp add: throttled_def)
    with l show ?thesis using secs_since_ge [OF l(3)] by fastforce
  qed
  have "in_window t (map snd (sent n) @ [now]) \<le> GLOBAL_MAX_BURST" for t
    using in_window_snoc_le [OF le] ok few eq by (simp add: notify_ok_def)
  moreover have "spaced (sent n @ [(ws, now)])"
    using ok gap by (auto simp: notify_ok_def spaced_def sorted_wrt_append)
  moreover have "now > now - burst_window" by (simp add: nanos_def GLOBAL_BURST_WINDOW_SECS_def)
  moreover have "t \<le> now" if "(w, t) \<in> set (sent n)" for w t using le that by force
  ultimately show ?thesis using ok' eq
    by (auto simp: notify_ok_def retain_recent_def)
qed

interpretation notifier: machine notify_exec notify_ready notify_ok
proof
  show "\<exists>s'. notify_exec c s = Some s'" for c s by (cases c) simp_all
  show "notify_ok s'" if "notify_ok s" "notify_ready c s" "notify_exec c s = Some s'" for c s s'
  proof (cases c)
    case (Bell ws now)
    then have e: "s' = (send_bell_notification ws now s)\<lparr>notify_clock := now\<rparr>" and now: "notify_clock s \<le> now"
      using that by simp_all
    have "last_notify (retain_recent now s) = last_notify s" "sent (retain_recent now s) = sent s"
      by (simp_all add: retain_recent_def)
    with e notify_ok_idle [OF that(1) now] notify_ok_sent [OF that(1) now] show ?thesis
      by (simp add: send_bell_notification_def Let_def not_le split: if_splits)
  qed (use that in auto)
qed

section \<open>The limits\<close>

text \<open>
  C30. However often terminals ring, the desktop is not flooded: among the notifications that were sent, any two of one workspace are at
  least five seconds apart, and no ten seconds have more than three of them; while the window has the focus or notifications are
  off, a bell sends nothing.
\<close>

theorem notifications_limited:
  assumes "reach notify_exec notify_ready Notify_new n"
  shows "spaced (sent n) \<and> (\<forall>t. in_window t (map snd (sent n)) \<le> 3) \<and>
    (window_active n \<or> \<not> notify_enabled n \<longrightarrow> sent (send_bell_notification ws now n) = sent n)"
proof -
  have "notify_ok n" by (rule notifier.reach_inv [OF assms notify_ok_new])
  then show ?thesis by (auto simp: notify_ok_def GLOBAL_MAX_BURST_def send_bell_notification_def)
qed

theorem notifications_limited_witness:
  "\<exists>n. exec_all (guarded notify_exec notify_ready)
       [SetWindowActive False, Bell 1 0, Bell 1 (nanos 1), Bell 2 (nanos 2), Bell 3 (nanos 3), Bell 4 (nanos 4)] Notify_new = Some n \<and>
     sent n = [(1, 0), (2, nanos 2), (3, nanos 3)] \<and> spaced (sent n) \<and> (\<forall>t. in_window t (map snd (sent n)) \<le> 3)"
proof -
  let ?cs = "[SetWindowActive False, Bell 1 0, Bell 1 (nanos 1), Bell 2 (nanos 2), Bell 3 (nanos 3), Bell 4 (nanos 4)]"
  have "\<exists>n. exec_all (guarded notify_exec notify_ready) ?cs Notify_new = Some n \<and> sent n = [(1, 0), (2, nanos 2), (3, nanos 3)]"
    by (simp add: Notify_new_def send_bell_notification_def throttled_def retain_recent_def secs_since_def nanos_def Let_def
        PER_WORKSPACE_COOLDOWN_SECS_def GLOBAL_MAX_BURST_def GLOBAL_BURST_WINDOW_SECS_def guarded_def)
  then obtain n where n: "exec_all (guarded notify_exec notify_ready) ?cs Notify_new = Some n"
    "sent n = [(1, 0), (2, nanos 2), (3, nanos 3)]" by blast
  from notifications_limited [OF guarded_run_reach [OF n(1) reach_refl]] n show ?thesis by blast
qed

end
