(* ===== verification/Proc_Fs.thy ===== *)
theory Proc_Fs
  imports Rust_Env
begin

text \<open>
  The process file system as the scanners of \<open>app/src/remote/ssh_detect.rs\<close> and \<open>app/src/port_detect.rs\<close> read it: the names in a
  directory, the text of a file and the target of a link, \<open>None\<close> where the call fails. It is an argument of the model.
\<close>

record proc_fs =
  read_dir :: "string \<Rightarrow> string list option"
  read_text :: "string \<Rightarrow> string option"
  read_link :: "string \<Rightarrow> string option"

definition proc_path :: "string \<Rightarrow> string \<Rightarrow> string" where
  "proc_path pid f = ''/proc/'' @ pid @ ''/'' @ f"

definition parse_u64 :: "string \<Rightarrow> u64 option" where
  "parse_u64 s = map_option of_nat (parse_bounded (2 ^ 64) s)"

end
