(* ===== verification/Ssh_Detect.thy ===== *)
theory Ssh_Detect
  imports Remote_Config Proc_Fs
begin

text \<open>
  Model of \<open>app/src/remote/ssh_detect.rs\<close>: finding the ssh process in the foreground of a terminal and reading the destination and
  the connection options off its command line.
\<close>

definition int_str :: "int \<Rightarrow> string" where
  "int_str x = (if x < 0 then ''-'' @ nat_str (nat (- x)) else nat_str (nat x))"

section \<open>The command line\<close>

record DetectedSSHSession =
  ds_destination :: string
  ds_port :: "u16 option"
  ds_identity_file :: "string option"
  ds_ssh_options :: "string list"

definition to_remote_config :: "DetectedSSHSession \<Rightarrow> RemoteConfiguration" where
  "to_remote_config s =
     \<lparr>destination = ds_destination s, port = ds_port s, identity_file = ds_identity_file s, ssh_options = ds_ssh_options s,
      terminal_startup_command = None, relay_port = None, relay_id = None, relay_token = None, local_socket_path = None\<rparr>"

definition NO_ARG_FLAGS :: string where
  "NO_ARG_FLAGS = ''46AaCfGgKkMNnqsTtVvXxYy''"

definition VALUE_ARG_FLAGS :: string where
  "VALUE_ARG_FLAGS = ''BbcDEeFIiJLlmOopQRSWw''"

definition FILTERED_OPTION_KEYS :: "string list" where
  "FILTERED_OPTION_KEYS =
     [''batchmode'', ''controlmaster'', ''controlpersist'', ''forkafterauthentication'', ''localcommand'', ''permitlocalcommand'',
      ''remotecommand'', ''requesttty'', ''sendenv'', ''sessiontype'', ''setenv'', ''stdioforward'']"

text \<open>The variables the parser fills in.\<close>

record SshVars =
  v_port :: "u16 option"
  v_identity :: "string option"
  v_login :: "string option"
  v_options :: "string list"

definition SshVars_new :: SshVars where
  "SshVars_new = \<lparr>v_port = None, v_identity = None, v_login = None, v_options = []\<rparr>"

definition ssh_option_key :: "string \<Rightarrow> string" where
  "ssh_option_key opt = to_lowercase (takeWhile (\<lambda>c. \<not> (c = CHR ''='' \<or> is_whitespace c)) opt)"

definition nonempty :: "string \<Rightarrow> string option" where
  "nonempty v = (if v = [] then None else Some v)"

definition ssh_option_value :: "string \<Rightarrow> string option" where
  "ssh_option_value opt =
     (case split_once (CHR ''='') opt of
        Some (_, v) \<Rightarrow> nonempty (trim v)
      | None \<Rightarrow>
          (case dropWhile (\<lambda>c. \<not> is_whitespace c) opt of
             [] \<Rightarrow> None
           | _ # v \<Rightarrow> nonempty (trim v)))"

definition consume_ssh_option :: "string \<Rightarrow> SshVars \<Rightarrow> SshVars" where
  "consume_ssh_option opt v =
     (let t = trim opt in
      if t = [] then v
      else
        (let key = ssh_option_key t; value = ssh_option_value t in
         if key = ''port'' then
           (case Option.bind value parse_u16 of Some p \<Rightarrow> v\<lparr>v_port := Some p\<rparr> | None \<Rightarrow> v)
         else if key = ''identityfile'' then
           (case value of Some x \<Rightarrow> v\<lparr>v_identity := Some x\<rparr> | None \<Rightarrow> v)
         else if key = ''user'' then
           (case value of Some x \<Rightarrow> v\<lparr>v_login := Some x\<rparr> | None \<Rightarrow> v)
         else if key \<in> set FILTERED_OPTION_KEYS then v
         else v\<lparr>v_options := v_options v @ [t]\<rparr>))"

definition consume_value :: "char \<Rightarrow> string \<Rightarrow> SshVars \<Rightarrow> SshVars" where
  "consume_value flag value v =
     (let t = trim value in
      if t = [] then v
      else if flag = CHR ''p'' then
        (case parse_u16 t of Some p \<Rightarrow> v\<lparr>v_port := Some p\<rparr> | None \<Rightarrow> v)
      else if flag = CHR ''i'' then v\<lparr>v_identity := Some t\<rparr>
      else if flag = CHR ''l'' then v\<lparr>v_login := Some t\<rparr>
      else if flag = CHR ''o'' then consume_ssh_option t v
      else v)"

text \<open>
  The loop of \<open>parse_ssh_command_line\<close> on the arguments that are left: \<open>None\<close> is the early return, otherwise the destination, if there is
  one, and the variables.
\<close>

fun parse_loop :: "SshVars \<Rightarrow> string list \<Rightarrow> (string option \<times> SshVars) option" where
  "parse_loop v [] = Some (None, v)"
| "parse_loop v (arg # args) =
     (if arg = ''--'' then Some (first_opt args, v)
      else if \<not> starts_with ''-'' arg \<or> arg = ''-'' then Some (Some arg, v)
      else
        (let chars = tl arg in
         if length chars > 1 \<and> hd chars \<in> set VALUE_ARG_FLAGS
         then parse_loop (consume_value (hd chars) (tl chars) v) args
         else if length chars = 1 \<and> hd chars \<in> set VALUE_ARG_FLAGS
         then (case args of [] \<Rightarrow> None | value # args' \<Rightarrow> parse_loop (consume_value (hd chars) value v) args')
         else if list_all (\<lambda>c. c \<in> set NO_ARG_FLAGS) chars then parse_loop v args
         else None))"

definition resolve_destination :: "string \<Rightarrow> string option \<Rightarrow> string" where
  "resolve_destination dest login =
     (let t = trim dest in
      if t = [] then []
      else case login of
        Some l \<Rightarrow> if trim l \<noteq> [] \<and> CHR ''@'' \<notin> set t then trim l @ ''@'' @ t else t
      | None \<Rightarrow> t)"

definition parse_ssh_command_line :: "string list \<Rightarrow> DetectedSSHSession option" where
  "parse_ssh_command_line args =
     (case args of
        [] \<Rightarrow> None
      | exe # more_args \<Rightarrow>
          do {
            (dest, v) \<leftarrow> parse_loop SshVars_new (if rsplit_last (CHR ''/'') exe = ''ssh'' then more_args else args);
            d \<leftarrow> dest;
            let final_dest = resolve_destination d (v_login v);
            if final_dest = [] then None
            else Some \<lparr>ds_destination = final_dest, ds_port = v_port v, ds_identity_file = v_identity v, ds_ssh_options = v_options v\<rparr>
          })"

section \<open>The process table\<close>

definition tty_path_to_nr :: "string \<Rightarrow> u32 option" where
  "tty_path_to_nr tty =
     (case strip_prefix ''/dev/pts/'' tty of
        Some n_str \<Rightarrow>
          (case parse_u32 n_str of
             None \<Rightarrow> None
           | Some n \<Rightarrow> (let major = 136 + n div 256; minor = n mod 256 in Some (major * 256 + minor)))
      | None \<Rightarrow>
          (case strip_prefix ''/dev/tty'' tty of
             Some n_str \<Rightarrow> map_option (\<lambda>n. 4 * 256 + n) (parse_u32 n_str)
           | None \<Rightarrow> None))"

text \<open>The foreground check on the text of a \<open>stat\<close> file; the outer \<open>None\<close> is the panic of the slice behind the last parenthesis.\<close>

definition in_foreground :: "string \<Rightarrow> u32 \<Rightarrow> bool run" where
  "in_foreground stat target =
     (case rfind (CHR '')'') stat of
        None \<Rightarrow> Some False
      | Some comm_end \<Rightarrow>
          if length stat < comm_end + 2 then None
          else
            (let fields = split_whitespace (drop (comm_end + 2) stat) in
             if length fields < 6 then Some False
             else
               (case (parse_i32 (fields ! 2), parse_u32 (fields ! 4), parse_i32 (fields ! 5)) of
                  (Some pgrp, Some tty_nr, Some tpgid) \<Rightarrow>
                    Some (\<not> (tty_nr \<noteq> target \<or> pgrp \<le> 0 \<or> tpgid \<le> 0 \<or> pgrp \<noteq> tpgid))
                | _ \<Rightarrow> Some False)))"

definition cmdline_args :: "string \<Rightarrow> string list" where
  "cmdline_args cmdline = filter (\<lambda>s. s \<noteq> []) (split_on (CHR 0x00) cmdline)"

definition check_pid :: "proc_fs \<Rightarrow> int \<Rightarrow> u32 \<Rightarrow> string list option run" where
  "check_pid fs pid target =
     (case read_text fs (proc_path (int_str pid) ''stat'') of
        None \<Rightarrow> Some None
      | Some stat \<Rightarrow>
          do {
            fg \<leftarrow> in_foreground stat target;
            Some
              (if \<not> fg then None
               else case read_text fs (proc_path (int_str pid) ''cmdline'') of
                 None \<Rightarrow> None
               | Some cmdline \<Rightarrow>
                   (case cmdline_args cmdline of
                      [] \<Rightarrow> None
                    | exe # args \<Rightarrow> if rsplit_last (CHR ''/'') exe = ''ssh'' then Some (exe # args) else None))
          })"

text \<open>The scan; the inner \<open>None\<close> is the return at the first name that is not a number.\<close>

fun scan_proc :: "proc_fs \<Rightarrow> u32 \<Rightarrow> string list \<Rightarrow> (int \<times> string list) list option run" where
  "scan_proc fs target [] = Some (Some [])"
| "scan_proc fs target (name # names) =
     (case parse_i32 name of
        None \<Rightarrow> Some None
      | Some pid \<Rightarrow>
          do {
            found \<leftarrow> check_pid fs pid target;
            others \<leftarrow> scan_proc fs target names;
            Some (map_option (\<lambda>cs. (case found of Some args \<Rightarrow> [(pid, args)] | None \<Rightarrow> []) @ cs) others)
          })"

fun first_session :: "(int \<times> string list) list \<Rightarrow> DetectedSSHSession option" where
  "first_session [] = None"
| "first_session ((pid, args) # cs) =
     (case parse_ssh_command_line args of Some s \<Rightarrow> Some s | None \<Rightarrow> first_session cs)"

definition detect :: "proc_fs \<Rightarrow> string \<Rightarrow> DetectedSSHSession option run" where
  "detect fs tty =
     (case (tty_path_to_nr tty, read_dir fs ''/proc'') of
        (Some target, Some names) \<Rightarrow>
          do { cs \<leftarrow> scan_proc fs target names;
               Some (case cs of None \<Rightarrow> None | Some cs \<Rightarrow> first_session (sort_key (\<lambda>c. - fst c) cs)) }
      | _ \<Rightarrow> Some None)"

end
