(* ===== verification/Ssh_Claims.thy ===== *)
theory Ssh_Claims
  imports Ssh_Detect
begin

text \<open>
  The parser recovers the connection of a command line that limux built itself, the scan picks the newest foreground ssh process
  whose command line it understands, and the scan gives up at the first entry of \<open>/proc\<close> that is not a process.
\<close>

section \<open>Reading an argument list\<close>

definition plain_option :: "string \<Rightarrow> bool" where
  "plain_option opt \<longleftrightarrow> opt \<noteq> [] \<and> trim opt = opt \<and>
     ssh_option_key opt \<notin> {''port'', ''identityfile'', ''user''} \<union> set FILTERED_OPTION_KEYS"

definition readable_config :: "RemoteConfiguration \<Rightarrow> bool" where
  "readable_config cfg \<longleftrightarrow> destination cfg \<noteq> [] \<and> trim (destination cfg) = destination cfg \<and> \<not> starts_with ''-'' (destination cfg) \<and>
     (\<forall>i. identity_file cfg = Some i \<longrightarrow> i \<noteq> [] \<and> trim i = i) \<and> (\<forall>opt\<in>set (ssh_options cfg). plain_option opt)"

lemma flag_letters [simp]:
  "CHR ''o'' \<in> set VALUE_ARG_FLAGS" "CHR ''p'' \<in> set VALUE_ARG_FLAGS" "CHR ''i'' \<in> set VALUE_ARG_FLAGS"
  by (simp_all add: VALUE_ARG_FLAGS_def)

lemma parse_value_flag:
  assumes "f \<in> set VALUE_ARG_FLAGS" "f \<noteq> CHR ''-''"
  shows "parse_loop v ([CHR ''-'', f] # x # args) = parse_loop (consume_value f x v) args"
  using assms by (simp add: starts_with_def)

lemma dash_flags [simp]: "CHR ''-'' \<notin> set NO_ARG_FLAGS" "CHR ''-'' \<notin> set VALUE_ARG_FLAGS"
  by (simp_all add: NO_ARG_FLAGS_def VALUE_ARG_FLAGS_def)

lemma flags_disjoint: "c \<in> set NO_ARG_FLAGS \<Longrightarrow> c \<notin> set VALUE_ARG_FLAGS"
  by (auto simp: NO_ARG_FLAGS_def VALUE_ARG_FLAGS_def)

lemma parse_plain_option:
  assumes "plain_option opt"
  shows "parse_loop v (''-o'' # opt # args) = parse_loop (v\<lparr>v_options := v_options v @ [opt]\<rparr>) args"
proof -
  have "consume_value (CHR ''o'') opt v = v\<lparr>v_options := v_options v @ [opt]\<rparr>"
    using assms by (simp add: plain_option_def consume_value_def consume_ssh_option_def Let_def)
  with parse_value_flag [of "CHR ''o''" v opt args] show ?thesis by simp
qed

lemma parse_plain_options:
  assumes "\<forall>opt\<in>set opts. plain_option opt"
  shows "parse_loop v (concat (map (\<lambda>opt. [''-o'', opt]) opts) @ args) = parse_loop (v\<lparr>v_options := v_options v @ opts\<rparr>) args"
  using assms by (induction opts arbitrary: v) (auto simp: parse_plain_option simp del: parse_loop.simps)

lemma trim_digits: "trim (u16_str p) = u16_str p"
  using is_digit_not_whitespace nat_str_not_Nil u16_str_chars [of _ p]
  by (intro trim_clean) (auto simp: u16_str_def)

lemma parse_port: "parse_loop v (''-p'' # u16_str p # args) = parse_loop (v\<lparr>v_port := Some p\<rparr>) args"
proof -
  have "consume_value (CHR ''p'') (u16_str p) v = v\<lparr>v_port := Some p\<rparr>"
    using nat_str_not_Nil by (simp add: consume_value_def trim_digits Let_def) (simp add: u16_str_def)
  with parse_value_flag [of "CHR ''p''" v "u16_str p" args] show ?thesis by simp
qed

lemma parse_identity:
  assumes "i \<noteq> []" "trim i = i"
  shows "parse_loop v (''-i'' # i # args) = parse_loop (v\<lparr>v_identity := Some i\<rparr>) args"
proof -
  have "consume_value (CHR ''i'') i v = v\<lparr>v_identity := Some i\<rparr>" using assms by (simp add: consume_value_def Let_def)
  with parse_value_flag [of "CHR ''i''" v i args] show ?thesis by simp
qed

lemma parse_switch:
  assumes "flag \<in> set NO_ARG_FLAGS"
  shows "parse_loop v ([CHR ''-'', flag] # args) = parse_loop v args"
  using assms flags_disjoint [OF assms] by (auto simp: starts_with_def)

lemma parse_destination:
  assumes "d \<noteq> []" "\<not> starts_with ''-'' d"
  shows "parse_loop v (d # args) = Some (Some d, v)"
  using assms by (auto simp: starts_with_def)

text \<open>The options that limux adds are kept by the parser.\<close>

definition added_options :: "RemoteConfiguration \<Rightarrow> string list" where
  "added_options cfg = [''ServerAliveInterval=20'', ''ServerAliveCountMax=2''] @
     (if has_ssh_option cfg ''StrictHostKeyChecking'' then [] else [''StrictHostKeyChecking=accept-new''])"

lemma added_options_plain: "\<forall>opt\<in>set (added_options cfg). plain_option opt"
proof -
  have "plain_option ''ServerAliveInterval=20''" "plain_option ''ServerAliveCountMax=2''" "plain_option ''StrictHostKeyChecking=accept-new''"
    by code_simp+
  then show ?thesis by (simp add: added_options_def)
qed

lemma interactive_args_split:
  "ssh_interactive_args cfg = concat (map (\<lambda>opt. [''-o'', opt]) (added_options cfg)) @
     (case port cfg of Some p \<Rightarrow> [''-p'', u16_str p] | None \<Rightarrow> []) @
     (case identity_file cfg of Some i \<Rightarrow> [''-i'', i] | None \<Rightarrow> []) @
     concat (map (\<lambda>opt. [''-o'', opt]) (ssh_options cfg))"
  by (simp add: ssh_interactive_args_def append_connection_args_def host_key_args_def added_options_def)

lemma parse_interactive_args:
  assumes "readable_config cfg"
  shows "parse_loop SshVars_new (ssh_interactive_args cfg @ args) =
    parse_loop \<lparr>v_port = port cfg, v_identity = identity_file cfg, v_login = None, v_options = added_options cfg @ ssh_options cfg\<rparr> args"
  using assms
  by (cases "port cfg"; cases "identity_file cfg")
    (simp_all add: interactive_args_split parse_plain_options [OF added_options_plain] parse_plain_options parse_port parse_identity
      readable_config_def SshVars_new_def del: parse_loop.simps)


section \<open>The scan\<close>

lemma scan_non_numeric:
  assumes "name \<in> set names" "parse_i32 name = None"
  shows "scan_proc fs target names = None \<or> scan_proc fs target names = Some None"
  using assms by (induction names) (auto split: option.splits bind_splits)

text \<open>
  C36. The scan returns from the whole detection at the first entry of \<open>/proc\<close> whose name is not a number, so with any such entry, and
  every Linux system has them, no session is ever found.
\<close>

theorem detection_stops_at_names:
  assumes "read_dir fs ''/proc'' = Some names" "name \<in> set names" "parse_i32 name = None"
  shows "detect fs tty \<noteq> Some (Some session)"
proof (cases "tty_path_to_nr tty")
  case (Some target)
  then show ?thesis
    using scan_non_numeric [OF assms(2,3), of fs target] assms(1) by (auto simp: detect_def split: option.splits bind_splits)
qed (simp add: detect_def)

text \<open>On a listing of processes only, the newest foreground ssh process with a readable command line is found.\<close>

lemma scan_all:
  assumes "scan_proc fs target names = Some (Some cs)"
  shows "(pid, args) \<in> set cs \<longleftrightarrow> (\<exists>name\<in>set names. parse_i32 name = Some pid \<and> check_pid fs pid target = Some (Some args))"
  using assms
proof (induction names arbitrary: cs)
  case (Cons name names)
  then obtain p found cs' where p: "parse_i32 name = Some p" "check_pid fs p target = Some found"
    "scan_proc fs target names = Some (Some cs')" "cs = (case found of Some args \<Rightarrow> [(p, args)] | None \<Rightarrow> []) @ cs'"
    by (auto split: option.splits bind_splits)
  then show ?case using Cons.IH [OF p(3)] by (cases found) auto
qed simp

lemma first_session_sorted:
  assumes "sorted (map (\<lambda>c. - fst c) cs)" "first_session cs = Some s"
  shows "\<exists>(pid, args)\<in>set cs. parse_ssh_command_line args = Some s \<and>
    (\<forall>(pid', args')\<in>set cs. pid < pid' \<longrightarrow> parse_ssh_command_line args' = None)"
  using assms
proof (induction cs)
  case (Cons c cs)
  obtain pid args where c: "c = (pid, args)" by (cases c)
  show ?case
  proof (cases "parse_ssh_command_line args")
    case None
    then obtain p a where "(p, a) \<in> set cs" "parse_ssh_command_line a = Some s"
      "\<forall>(pid', args')\<in>set cs. p < pid' \<longrightarrow> parse_ssh_command_line args' = None"
      using Cons c by auto
    with None c show ?thesis by auto
  next
    case (Some s')
    with Cons.prems c show ?thesis by (fastforce simp: c)
  qed
qed simp

theorem detected_newest:
  assumes "detect fs tty = Some (Some s)"
  obtains target names pid args where "tty_path_to_nr tty = Some target" "read_dir fs ''/proc'' = Some names"
    "\<exists>name\<in>set names. parse_i32 name = Some pid"
    "check_pid fs pid target = Some (Some args)" "parse_ssh_command_line args = Some s"
    "\<And>name pid' args'. name \<in> set names \<Longrightarrow> parse_i32 name = Some pid' \<Longrightarrow> pid < pid' \<Longrightarrow>
       check_pid fs pid' target = Some (Some args') \<Longrightarrow> parse_ssh_command_line args' = None"
proof -
  obtain target names cs where t: "tty_path_to_nr tty = Some target" "read_dir fs ''/proc'' = Some names"
    "scan_proc fs target names = Some (Some cs)" "first_session (sort_key (\<lambda>c. - fst c) cs) = Some s"
    using assms by (auto simp: detect_def split: option.splits bind_splits)
  obtain pid args where p: "(pid, args) \<in> set cs" "parse_ssh_command_line args = Some s"
    "\<forall>(pid', args')\<in>set cs. pid < pid' \<longrightarrow> parse_ssh_command_line args' = None"
    using first_session_sorted [OF _ t(4)] by auto
  with scan_all [OF t(3)] show ?thesis by (intro that [OF t(1,2)]) blast+
qed

section \<open>Witnesses\<close>

definition demo_target :: RemoteConfiguration where
  "demo_target = \<lparr>destination = ''u@h'', port = Some 22, identity_file = Some ''k'', ssh_options = [''Compression=yes''],
     terminal_startup_command = None, relay_port = None, relay_id = None, relay_token = None, local_socket_path = None\<rparr>"


definition demo_proc :: proc_fs where
  "demo_proc = \<lparr>read_dir = \<lambda>_. Some [''12'', ''self''],
     read_text = \<lambda>p. if p = ''/proc/12/stat'' then Some ''12 (ssh) S 1 12 12 34816 12 '' else
       if p = ''/proc/12/cmdline'' then Some ([CHR ''s'', CHR ''s'', CHR ''h'', CHR 0x00, CHR ''h'', CHR 0x00]) else None, read_link = \<lambda>_. None\<rparr>"

theorem detection_stops_at_names_witness:
  "check_pid demo_proc 12 34816 = Some (Some [''ssh'', ''h'']) \<and>
   parse_ssh_command_line [''ssh'', ''h''] =
     Some \<lparr>ds_destination = ''h'', ds_port = None, ds_identity_file = None, ds_ssh_options = []\<rparr> \<and>
   detect demo_proc ''/dev/pts/0'' \<noteq>
     Some (Some \<lparr>ds_destination = ''h'', ds_port = None, ds_identity_file = None, ds_ssh_options = []\<rparr>)"
proof (intro conjI)
  have "in_foreground ''12 (ssh) S 1 12 12 34816 12 '' 34816 = Some True"
    by (simp add: in_foreground_def split_whitespace_def is_whitespace_def number_eval parse_i32_def)
  moreover have "proc_path (int_str 12) f = ''/proc/12/'' @ f" for f
    by (simp add: proc_path_def int_str_def nat_str.simps digit_char)
  moreover have "rsplit_last (CHR ''/'') ''ssh'' = ''ssh''" by simp
  ultimately show "check_pid demo_proc 12 34816 = Some (Some [''ssh'', ''h''])"
    by (simp add: check_pid_def demo_proc_def cmdline_args_def)
  have "trim ''h'' = ''h''" by code_simp
  with \<open>rsplit_last _ _ = ''ssh''\<close> show "parse_ssh_command_line [''ssh'', ''h''] =
     Some \<lparr>ds_destination = ''h'', ds_port = None, ds_identity_file = None, ds_ssh_options = []\<rparr>"
    by (simp add: parse_ssh_command_line_def SshVars_new_def starts_with_def resolve_destination_def Let_def)
  have "parse_i32 ''self'' = None" by (simp add: parse_i32_def number_eval)
  then show "detect demo_proc ''/dev/pts/0'' \<noteq>
     Some (Some \<lparr>ds_destination = ''h'', ds_port = None, ds_identity_file = None, ds_ssh_options = []\<rparr>)"
    by (intro detection_stops_at_names [of _ "[''12'', ''self'']" "''self''"]) (simp_all add: demo_proc_def)
qed

end
