(* ===== verification/Port_Detect.thy ===== *)
theory Port_Detect
  imports Proc_Fs Relay
begin

text \<open>
  Model of \<open>app/src/port_detect.rs\<close>: the listening TCP ports of the processes below limux and the workspaces they are shown on. The
  process file system is an argument. A \<open>HashMap\<close> is an association list, whose order stands for the iteration order;
  \<open>BTreeSet\<close> is a set that is iterated in ascending order. The walk over the processes is a loop that may not end, so its result is
  optional.
\<close>

section \<open>Parsers\<close>

definition hex_number :: "string \<Rightarrow> nat option" where
  "hex_number s =
     (if s = [] \<or> list_ex (\<lambda>c. hex_val c = None) s then None
      else Some (foldl (\<lambda>acc c. 16 * acc + unwrap_or (hex_val c) 0) 0 s))"

definition hex_u16 :: "string \<Rightarrow> u16 option" where
  "hex_u16 s =
     (case hex_number (unwrap_or (strip_prefix ''+'' s) s) of
        Some n \<Rightarrow> if n < 2 ^ 16 then Some (of_nat n) else None
      | None \<Rightarrow> None)"

definition tcp_line :: "string \<Rightarrow> (u64 \<times> u16) option" where
  "tcp_line line =
     (let fields = split_whitespace line in
      if length fields < 10 then None
      else if fields ! 3 \<noteq> ''0A'' then None
      else
        (let addr = fields ! 1 in
         case rfind (CHR '':'') addr of
           None \<Rightarrow> None
         | Some colon \<Rightarrow>
             do { p \<leftarrow> hex_u16 (drop (colon + 1) addr);
                  if p = 0 then None
                  else do { inode \<leftarrow> parse_u64 (fields ! 9); Some (inode, p) } }))"

definition parse_proc_net_tcp :: "proc_fs \<Rightarrow> string \<Rightarrow> (u64, u16) hashmap \<Rightarrow> (u64, u16) hashmap" where
  "parse_proc_net_tcp fs path m =
     (case read_text fs path of
        None \<Rightarrow> m
      | Some content \<Rightarrow>
          foldl (\<lambda>m line. case tcp_line line of Some (inode, p) \<Rightarrow> hm_insert inode p m | None \<Rightarrow> m) m (drop 1 (lines content)))"

definition read_listening_inodes :: "proc_fs \<Rightarrow> (u64, u16) hashmap" where
  "read_listening_inodes fs = parse_proc_net_tcp fs ''/proc/net/tcp6'' (parse_proc_net_tcp fs ''/proc/net/tcp'' [])"

definition stat_ppid :: "string \<Rightarrow> u32 option" where
  "stat_ppid content =
     (case rfind (CHR '')'') content of
        None \<Rightarrow> None
      | Some after_comm \<Rightarrow>
          (case split_whitespace (trim_start (drop (after_comm + 1) content)) of
             state # ppid # _ \<Rightarrow> parse_u32 ppid
           | _ \<Rightarrow> None))"

definition read_ppid :: "proc_fs \<Rightarrow> u32 \<Rightarrow> u32 option" where
  "read_ppid fs pid = Option.bind (read_text fs (proc_path (u32_str pid) ''stat'')) stat_ppid"

definition strip_suffix :: "char \<Rightarrow> string \<Rightarrow> string option" where
  "strip_suffix c s = (if s \<noteq> [] \<and> last s = c then Some (butlast s) else None)"

definition socket_inode :: "string \<Rightarrow> u64 option" where
  "socket_inode target =
     do { s \<leftarrow> strip_prefix ''socket:['' target; inner \<leftarrow> strip_suffix (CHR '']'') s; parse_u64 inner }"

definition pid_listening_ports :: "proc_fs \<Rightarrow> u32 \<Rightarrow> (u64, u16) hashmap \<Rightarrow> u16 list" where
  "pid_listening_ports fs pid inodes =
     (case read_dir fs (''/proc/'' @ u32_str pid @ ''/fd'') of
        None \<Rightarrow> []
      | Some names \<Rightarrow>
          List.map_filter (\<lambda>name. do { target \<leftarrow> read_link fs (''/proc/'' @ u32_str pid @ ''/fd/'' @ name);
                                       inode \<leftarrow> socket_inode target; hm_get inodes inode }) names)"

definition pid_cwd :: "proc_fs \<Rightarrow> u32 \<Rightarrow> string option" where
  "pid_cwd fs pid = read_link fs (proc_path (u32_str pid) ''cwd'')"

section \<open>Descendants\<close>

definition parent_table :: "proc_fs \<Rightarrow> string list \<Rightarrow> (u32, u32) hashmap" where
  "parent_table fs names =
     foldl (\<lambda>m name. case parse_u32 name of
              None \<Rightarrow> m
            | Some pid \<Rightarrow> (case read_ppid fs pid of Some ppid \<Rightarrow> hm_insert pid ppid m | None \<Rightarrow> m)) [] names"

definition children_of :: "(u32, u32) hashmap \<Rightarrow> u32 \<Rightarrow> u32 list" where
  "children_of parent_of parent = map fst (filter (\<lambda>(pid, ppid). ppid = parent) parent_of)"

text \<open>The queue of the code is used as a stack; its top is the head of the list here.\<close>

partial_function (option) walk :: "(u32, u32) hashmap \<Rightarrow> u32 list \<Rightarrow> u32 list \<Rightarrow> u32 list option" where
  "walk parent_of queue result =
     (case queue of
        [] \<Rightarrow> Some result
      | parent # others \<Rightarrow>
          walk parent_of (rev (children_of parent_of parent) @ others) (result @ children_of parent_of parent))"

definition collect_descendant_pids :: "proc_fs \<Rightarrow> u32 \<Rightarrow> u32 list run" where
  "collect_descendant_pids fs root_pid =
     (case read_dir fs ''/proc'' of
        None \<Rightarrow> Some []
      | Some names \<Rightarrow> walk (parent_table fs names) [root_pid] [root_pid])"

section \<open>Attribution\<close>

definition is_under :: "string \<Rightarrow> string \<Rightarrow> bool" where
  "is_under cwd dir \<longleftrightarrow> cwd = dir \<or> starts_with (dir @ ''/'') cwd"

definition max_by_key :: "('a \<Rightarrow> nat) \<Rightarrow> 'a list \<Rightarrow> 'a option" where
  "max_by_key f xs = foldl (\<lambda>best x. case best of None \<Rightarrow> Some x | Some y \<Rightarrow> if f y \<le> f x then Some x else Some y) None xs"

definition best_workspace :: "(WorkspaceId \<times> string) list \<Rightarrow> string \<Rightarrow> WorkspaceId option" where
  "best_workspace cwd_workspaces cwd =
     map_option fst (max_by_key (\<lambda>(i, dir). length dir) (filter (\<lambda>(i, dir). is_under cwd dir) cwd_workspaces))"

definition cwd_list :: "(WorkspaceId \<times> string option) list \<Rightarrow> (WorkspaceId \<times> string) list" where
  "cwd_list wss = List.map_filter (\<lambda>(i, dir). map_option (\<lambda>d. (i, d)) dir) wss"

definition claim_step ::
  "(WorkspaceId \<times> string) list \<Rightarrow> (WorkspaceId, u16 set) hashmap \<times> u16 set \<Rightarrow> string \<times> u16 list \<Rightarrow>
   (WorkspaceId, u16 set) hashmap \<times> u16 set" where
  "claim_step cws st e =
     (case (st, e) of
        ((results, claimed), (cwd, ports)) \<Rightarrow>
          (case best_workspace cws cwd of
             None \<Rightarrow> (results, claimed)
           | Some i \<Rightarrow>
               (hm_insert i (unwrap_or (hm_get results i) {} \<union> set ports) results, claimed \<union> set ports)))"

definition attribute_ports ::
  "(WorkspaceId \<times> string option) list \<Rightarrow> (string \<times> u16 list) list \<Rightarrow> (WorkspaceId \<times> u16 list) list" where
  "attribute_ports wss pid_ports =
     (let cws = cwd_list wss;
          (cwd_results, claimed) = foldl (claim_step cws) ([], {}) pid_ports;
          fallback_ids = map fst (filter (\<lambda>(i, dir). dir = None) wss);
          results = map (\<lambda>(i, ports). (i, sorted_list_of_set ports)) (filter (\<lambda>(i, ports). ports \<noteq> {}) cwd_results);
          all_ports = \<Union> (set (map (set \<circ> snd) pid_ports))
      in if fallback_ids \<noteq> [] \<and> claimed \<noteq> {} then
           (let unclaimed = all_ports - claimed;
                fallback_ports = sorted_list_of_set (if cws = [] then all_ports else unclaimed)
            in if fallback_ports \<noteq> [] then results @ map (\<lambda>i. (i, fallback_ports)) fallback_ids else results)
         else if fallback_ids \<noteq> [] \<and> claimed = {} then
           (let ports = sorted_list_of_set all_ports
            in if ports \<noteq> [] then results @ map (\<lambda>i. (i, ports)) fallback_ids else results)
         else results)"

definition scan :: "proc_fs \<Rightarrow> u32 \<Rightarrow> (WorkspaceId \<times> string option) list \<Rightarrow> (WorkspaceId \<times> u16 list) list run" where
  "scan fs own_pid wss =
     (let inodes = read_listening_inodes fs in
      if inodes = [] then Some []
      else
        do {
          pids \<leftarrow> collect_descendant_pids fs own_pid;
          let pid_ports = List.map_filter (\<lambda>pid.
                (let ports = pid_listening_ports fs pid inodes in
                 if ports = [] then None else map_option (\<lambda>cwd. (cwd, ports)) (pid_cwd fs pid))) pids;
          Some (if pid_ports = [] then [] else attribute_ports wss pid_ports)
        })"

end
