(* ===== verification/Port_Claims.thy ===== *)
theory Port_Claims
  imports Port_Detect
begin

text \<open>
  The walk over the process table ends and yields every descendant once, unless the process is its own ancestor, and every listening
  port goes to the workspace with the longest matching directory, or to the workspaces without one.
\<close>

section \<open>The walk\<close>

declare walk.simps [simp del]

lemma walk_simps [simp]:
  "walk m [] result = Some result"
  "walk m (p # others) result = walk m (rev (children_of m p) @ others) (result @ children_of m p)"
  by (simp_all add: walk.simps)

lemma children_iff: "hm_ok m \<Longrightarrow> c \<in> set (children_of m p) \<longleftrightarrow> hm_get m c = Some p"
  by (auto simp: children_of_def hm_ok_def image_iff)

lemma children_distinct: "hm_ok m \<Longrightarrow> distinct (children_of m p)"
  unfolding hm_ok_def children_of_def by (induction m) (auto simp: image_iff)

text \<open>
  Between two steps: \<open>result\<close> has no duplicates, everything in it but the root has a parent that was expanded already, the expanded
  processes have all their children in it, and all of it descends from the root.
\<close>

definition walk_inv :: "(u32, u32) hashmap \<Rightarrow> u32 \<Rightarrow> u32 list \<Rightarrow> u32 list \<Rightarrow> bool" where
  "walk_inv m r queue result \<longleftrightarrow> distinct result \<and> distinct queue \<and> set queue \<subseteq> set result \<and> r \<in> set result \<and>
     (\<forall>x\<in>set result - {r}. \<exists>p\<in>set result - set queue. hm_get m x = Some p) \<and>
     (\<forall>p\<in>set result - set queue. set (children_of m p) \<subseteq> set result) \<and>
     (\<forall>x\<in>set result. (x, r) \<in> (set m)\<^sup>*)"

lemma walk_inv_step:
  assumes m: "hm_ok m" and acyc: "(r, r) \<notin> (set m)\<^sup>+" and inv: "walk_inv m r (p # others) result"
  shows "walk_inv m r (rev (children_of m p) @ others) (result @ children_of m p)"
    and "set (children_of m p) \<inter> set result = {}"
proof -
  let ?cs = "children_of m p"
  have p: "p \<in> set result" "(p, r) \<in> (set m)\<^sup>*" "p \<notin> set others" using inv by (auto simp: walk_inv_def)
  have edge: "(c, p) \<in> set m" if "c \<in> set ?cs" for c using that children_iff [OF m] map_of_SomeD by metis
  have "c \<noteq> r" if "c \<in> set ?cs" for c
    using edge [OF that] p(2) acyc by (meson rtrancl_into_trancl2)
  moreover have "hm_get m x \<noteq> Some p" if x: "x \<in> set result - {r}" for x
  proof -
    obtain q where "q \<in> set result - set (p # others)" "hm_get m x = Some q" using inv x unfolding walk_inv_def by blast
    then show ?thesis by auto
  qed
  ultimately show new: "set ?cs \<inter> set result = {}" using children_iff [OF m] by blast
  have desc: "(x, r) \<in> (set m)\<^sup>*" if "x \<in> set (result @ ?cs)" for x
  proof (cases "x \<in> set ?cs")
    case True
    from converse_rtrancl_into_rtrancl [OF edge [OF this] p(2)] show ?thesis .
  qed (use that inv in \<open>auto simp: walk_inv_def\<close>)
  have par: "\<exists>q\<in>set (result @ ?cs) - set (rev ?cs @ others). hm_get m x = Some q" if x: "x \<in> set (result @ ?cs) - {r}" for x
  proof (cases "x \<in> set ?cs")
    case True
    then show ?thesis using children_iff [OF m] p new by auto
  next
    case False
    then obtain q where "q \<in> set result - set (p # others)" "hm_get m x = Some q"
      using x inv unfolding walk_inv_def by (metis Diff_iff Un_iff set_append)
    then show ?thesis using new by auto
  qed
  have cl: "set (children_of m q) \<subseteq> set (result @ ?cs)" if "q \<in> set (result @ ?cs) - set (rev ?cs @ others)" for q
    using that inv by (cases "q = p") (auto simp: walk_inv_def)
  show "walk_inv m r (rev ?cs @ others) (result @ ?cs)"
    unfolding walk_inv_def using inv new desc par cl children_distinct [OF m, of p] by (auto simp: walk_inv_def)
qed

lemma walk_ends:
  assumes "hm_ok m" "(r, r) \<notin> (set m)\<^sup>+" "walk_inv m r queue result"
  shows "\<exists>pids. walk m queue result = Some pids \<and> walk_inv m r [] pids"
  using assms(3)
proof (induction "2 * (card (insert r (fst ` set m)) - length result) + length queue" arbitrary: queue result rule: less_induct)
  case less
  show ?case
  proof (cases queue)
    case Nil
    with less.prems show ?thesis by simp
  next
    case (Cons p others)
    let ?cs = "children_of m p"
    note step = walk_inv_step [OF assms(1,2) less.prems [unfolded Cons]]
    have "set (result @ ?cs) \<subseteq> insert r (fst ` set m)"
    proof
      fix x assume x: "x \<in> set (result @ ?cs)"
      have "x = r \<or> (\<exists>q. hm_get m x = Some q)" using step(1) x unfolding walk_inv_def by blast
      then show "x \<in> insert r (fst ` set m)" by (auto dest: map_of_SomeD intro: rev_image_eqI)
    qed
    then have "card (set (result @ ?cs)) \<le> card (insert r (fst ` set m))" by (intro card_mono) simp_all
    moreover have "card (set (result @ ?cs)) = length (result @ ?cs)"
      using step(1) unfolding walk_inv_def by (intro distinct_card) blast
    ultimately have "length (result @ ?cs) \<le> card (insert r (fst ` set m))" by simp
    then have "2 * (card (insert r (fst ` set m)) - length (result @ ?cs)) + length (rev ?cs @ others) <
        2 * (card (insert r (fst ` set m)) - length result) + length queue" using Cons by simp
    from less.hyps [OF this step(1)] Cons show ?thesis by simp
  qed
qed

text \<open>
  C28. Walking down from a process ends and finds every process that descends from it exactly once, for every order in which the table is
  iterated, provided the process is not its own ancestor.
\<close>

theorem descendants_found:
  assumes "hm_ok m" "(r, r) \<notin> (set m)\<^sup>+"
  shows "\<exists>pids. walk m [r] [r] = Some pids \<and> distinct pids \<and> set pids = {q. (q, r) \<in> (set m)\<^sup>*}"
proof -
  have "walk_inv m r [r] [r]" by (simp add: walk_inv_def)
  then obtain pids where w: "walk m [r] [r] = Some pids" "walk_inv m r [] pids" using walk_ends [OF assms] by blast
  have "q \<in> set pids" if "(q, r) \<in> (set m)\<^sup>*" for q
    using that
  proof (induction rule: converse_rtrancl_induct)
    case (step y z)
    then have "y \<in> set (children_of m z)" using children_iff [OF assms(1)] hm_get_in [OF assms(1)] by blast
    then show ?case using w(2) step.IH by (auto simp: walk_inv_def)
  qed (use w(2) in \<open>simp add: walk_inv_def\<close>)
  then show ?thesis using w by (auto simp: walk_inv_def)
qed

theorem descendants_found_witness:
  "\<exists>pids. walk [(2, 1), (3, 2), (7, 5)] [1] [1] = Some pids \<and> distinct pids \<and> 3 \<in> set pids"
proof -
  let ?m = "[(2, 1), (3, 2), (7, 5)] :: (u32, u32) hashmap"
  have "(1, 1) \<notin> (set ?m)\<^sup>+" by (auto dest: tranclD)
  moreover have "(3, 1) \<in> (set ?m)\<^sup>*" by (auto intro: rtrancl_into_rtrancl r_into_rtrancl)
  ultimately show ?thesis using descendants_found [of ?m 1] by (force simp: hm_ok_def)
qed

section \<open>Attribution\<close>

lemma foldl_max_Some:
  fixes f :: "'a \<Rightarrow> nat"
  assumes "\<forall>z\<in>set zs. f z < f x"
  shows "foldl (\<lambda>best x. case best of None \<Rightarrow> Some x | Some y \<Rightarrow> if f y \<le> f x then Some x else Some y) (Some x) zs = Some x"
  using assms by (induction zs) auto

lemma max_by_key_in: "max_by_key f xs = Some y \<Longrightarrow> y \<in> set xs"
  by (induction xs arbitrary: y rule: rev_induct) (auto simp: max_by_key_def split: option.splits if_splits)

lemma max_by_key_split:
  assumes "\<forall>y\<in>set ys. f y \<le> f x" "\<forall>z\<in>set zs. f z < f x"
  shows "max_by_key f (ys @ x # zs) = Some x"
proof -
  have "case max_by_key f ys of None \<Rightarrow> True | Some y \<Rightarrow> f y \<le> f x"
    using assms(1) by (auto split: option.split dest: max_by_key_in)
  then show ?thesis using foldl_max_Some [OF assms(2)] by (auto simp: max_by_key_def split: option.splits)
qed

lemma max_by_key_ex:
  assumes "xs \<noteq> []"
  shows "\<exists>ys x zs. xs = ys @ x # zs \<and> (\<forall>y\<in>set ys. f y \<le> f x) \<and> (\<forall>z\<in>set zs. (f z :: nat) < f x)"
  using assms
proof (induction xs rule: rev_induct)
  case (snoc a xs)
  show ?case
  proof (cases "xs = []")
    case False
    then obtain ys x zs where x: "xs = ys @ x # zs" "\<forall>y\<in>set ys. f y \<le> f x" "\<forall>z\<in>set zs. f z < f x" using snoc.IH by blast
    show ?thesis
    proof (cases "f x \<le> f a")
      case True
      then have "\<forall>y\<in>set xs. f y \<le> f a" using x by fastforce
      then show ?thesis by (intro exI [of _ xs] exI [of _ a] exI [of _ "[]"]) simp
    next
      case False
      with x show ?thesis by (intro exI [of _ ys] exI [of _ x] exI [of _ "zs @ [a]"]) auto
    qed
  qed (auto intro!: exI [of _ "[]"])
qed simp

text \<open>
  A directory is owned by the workspace whose own directory is the longest above it, the last one of several with the same directory.
\<close>

definition owns :: "(WorkspaceId \<times> string option) list \<Rightarrow> string \<Rightarrow> WorkspaceId \<Rightarrow> bool" where
  "owns wss cwd i \<longleftrightarrow> (\<exists>ys d zs. wss = ys @ (i, Some d) # zs \<and> is_under cwd d \<and>
     (\<forall>j d'. (j, Some d') \<in> set ys \<and> is_under cwd d' \<longrightarrow> length d' \<le> length d) \<and>
     (\<forall>j d'. (j, Some d') \<in> set zs \<and> is_under cwd d' \<longrightarrow> length d' < length d))"

definition above :: "string \<Rightarrow> WorkspaceId \<times> string option \<Rightarrow> (WorkspaceId \<times> string) option" where
  "above cwd w = (case w of (i, Some d) \<Rightarrow> if is_under cwd d then Some (i, d) else None | _ \<Rightarrow> None)"

lemma above_Some [simp]: "above cwd w = Some (i, d) \<longleftrightarrow> w = (i, Some d) \<and> is_under cwd d"
  by (auto simp: above_def split: option.splits prod.splits)

lemma map_filter_simps [simp]:
  "List.map_filter g [] = []"
  "List.map_filter g (x # xs) = (case g x of None \<Rightarrow> List.map_filter g xs | Some y \<Rightarrow> y # List.map_filter g xs)"
  "List.map_filter g (xs @ ys) = List.map_filter g xs @ List.map_filter g ys"
  by (simp_all add: List.map_filter_def split: option.split)

lemma set_map_filter: "y \<in> set (List.map_filter g xs) \<longleftrightarrow> (\<exists>x\<in>set xs. g x = Some y)"
  by (induction xs) (auto split: option.split)

lemma filter_cwd_list: "filter (\<lambda>(i, dir). is_under cwd dir) (cwd_list wss) = List.map_filter (above cwd) wss"
  unfolding cwd_list_def by (induction wss) (auto simp: above_def split: option.split)

lemma map_filter_split:
  "List.map_filter g xs = as @ y # bs \<Longrightarrow>
     \<exists>ys x zs. xs = ys @ x # zs \<and> List.map_filter g ys = as \<and> g x = Some y \<and> List.map_filter g zs = bs"
proof (induction xs arbitrary: as)
  case (Cons a xs)
  show ?case
  proof (cases "g a")
    case None
    with Cons.prems obtain ys x zs where "xs = ys @ x # zs" "List.map_filter g ys = as" "g x = Some y" "List.map_filter g zs = bs"
      using Cons.IH by auto
    with None show ?thesis by (intro exI [of _ "a # ys"]) auto
  next
    case (Some b)
    show ?thesis
    proof (cases as)
      case Nil
      with Cons.prems Some show ?thesis by (intro exI [of _ "[]"]) auto
    next
      case (Cons c cs)
      with Cons.prems Some obtain ys x zs where "xs = ys @ x # zs" "List.map_filter g ys = cs" "g x = Some y" "List.map_filter g zs = bs"
        using Cons.IH [of cs] by auto
      with Some Cons Cons.prems show ?thesis by (intro exI [of _ "a # ys"]) auto
    qed
  qed
qed simp

lemma best_workspace_owns: "best_workspace (cwd_list wss) cwd = Some i \<longleftrightarrow> owns wss cwd i"
proof
  let ?L = "List.map_filter (above cwd) wss" and ?f = "\<lambda>(i, dir). length dir"
  have best: "best_workspace (cwd_list wss) cwd = map_option fst (max_by_key ?f ?L)"
    by (simp add: best_workspace_def filter_cwd_list)
  show "owns wss cwd i" if b: "best_workspace (cwd_list wss) cwd = Some i"
  proof -
    have "?L \<noteq> []" using b best by (auto simp: max_by_key_def)
    then obtain as y bs where y: "?L = as @ y # bs" "\<forall>z\<in>set as. ?f z \<le> ?f y" "\<forall>z\<in>set bs. ?f z < ?f y"
      using max_by_key_ex by blast
    with b best max_by_key_split [OF y(2,3)] obtain d where d: "y = (i, d)" by (cases y) auto
    obtain ys x zs where x: "wss = ys @ x # zs" "List.map_filter (above cwd) ys = as" "above cwd x = Some y"
      "List.map_filter (above cwd) zs = bs" using map_filter_split [OF y(1)] by blast
    have "(j, d') \<in> set as" if "(j, Some d') \<in> set ys" "is_under cwd d'" for j d'
      using that x(2) set_map_filter [of "(j, d')" "above cwd" ys] by (metis above_Some)
    moreover have "(j, d') \<in> set bs" if "(j, Some d') \<in> set zs" "is_under cwd d'" for j d'
      using that x(4) set_map_filter [of "(j, d')" "above cwd" zs] by (metis above_Some)
    moreover have "x = (i, Some d)" "is_under cwd d" using x(3) d by simp_all
    moreover have "length d' \<le> length d" if "(j, d') \<in> set as" for j d' using y(2) d that by fastforce
    moreover have "length d' < length d" if "(j, d') \<in> set bs" for j d' using y(3) d that by fastforce
    ultimately show ?thesis unfolding owns_def using x(1) by blast
  qed
  show "best_workspace (cwd_list wss) cwd = Some i" if w: "owns wss cwd i"
  proof -
    obtain ys d zs where o: "wss = ys @ (i, Some d) # zs" "is_under cwd d"
      "\<forall>j d'. (j, Some d') \<in> set ys \<and> is_under cwd d' \<longrightarrow> length d' \<le> length d"
      "\<forall>j d'. (j, Some d') \<in> set zs \<and> is_under cwd d' \<longrightarrow> length d' < length d" using w unfolding owns_def by blast
    have "?L = List.map_filter (above cwd) ys @ (i, d) # List.map_filter (above cwd) zs" using o(1,2) by (simp add: above_def)
    moreover have "\<forall>z\<in>set (List.map_filter (above cwd) ys). ?f z \<le> ?f (i, d)"
      "\<forall>z\<in>set (List.map_filter (above cwd) zs). ?f z < ?f (i, d)" using o(3,4) by (auto simp: set_map_filter)
    ultimately show ?thesis using best max_by_key_split [of _ ?f "(i, d)"] by simp
  qed
qed

definition owned_ports :: "(WorkspaceId \<times> string option) list \<Rightarrow> (string \<times> u16 list) list \<Rightarrow> WorkspaceId \<Rightarrow> u16 set" where
  "owned_ports wss pid_ports i = {p. \<exists>cwd ports. (cwd, ports) \<in> set pid_ports \<and> p \<in> set ports \<and> owns wss cwd i}"

lemma claim_step_simp:
  "claim_step cws (results, claimed) (cwd, ports) =
     (case best_workspace cws cwd of
        None \<Rightarrow> (results, claimed)
      | Some i \<Rightarrow> (hm_insert i (unwrap_or (hm_get results i) {} \<union> set ports) results, claimed \<union> set ports))"
  by (simp add: claim_step_def)

lemma claims_of:
  assumes "hm_ok res" "foldl (claim_step (cwd_list wss)) (res, cl) pp = (res', cl')"
  shows "hm_ok res' \<and> cl' = cl \<union> (\<Union>i. owned_ports wss pp i) \<and>
    (\<forall>i. unwrap_or (hm_get res' i) {} = unwrap_or (hm_get res i) {} \<union> owned_ports wss pp i)"
  using assms
proof (induction pp arbitrary: res cl)
  case Nil
  then show ?case by (simp add: owned_ports_def)
next
  case (Cons e pp)
  obtain cwd ports where e: "e = (cwd, ports)" by (cases e)
  have own: "owned_ports wss (e # pp) i = (if owns wss cwd i then set ports else {}) \<union> owned_ports wss pp i" for i
    using e by (auto simp: owned_ports_def)
  show ?case
  proof (cases "best_workspace (cwd_list wss) cwd")
    case None
    then have no: "\<not> owns wss cwd i" for i using best_workspace_owns [of wss cwd] by simp
    from None e Cons.prems(2) have "foldl (claim_step (cwd_list wss)) (res, cl) pp = (res', cl')" by (simp add: claim_step_simp)
    from Cons.IH [OF Cons.prems(1) this] own no show ?thesis by simp
  next
    case (Some j)
    then have j: "owns wss cwd i \<longleftrightarrow> i = j" for i using best_workspace_owns [of wss cwd i] by auto
    from Some e Cons.prems(2)
    have "foldl (claim_step (cwd_list wss)) (hm_insert j (unwrap_or (hm_get res j) {} \<union> set ports) res, cl \<union> set ports) pp = (res', cl')"
      by (simp add: claim_step_simp)
    from Cons.IH [OF _ this] Cons.prems(1) own j show ?thesis by (auto split: if_splits)
  qed
qed

text \<open>
  C29. The listening ports that are shown on the workspaces: a workspace with a directory gets, sorted and once each, the ports of the
  processes whose directory it owns, that is, for which its own is the longest directory above; a workspace without a directory gets all
  ports that no other workspace owns; a workspace without any port is not listed, and nobody else is.
\<close>

theorem ports_attributed:
  "(i, ports) \<in> set (attribute_ports wss pp) \<longleftrightarrow> ports \<noteq> [] \<and>
     (owned_ports wss pp i \<noteq> {} \<and> ports = sorted_list_of_set (owned_ports wss pp i) \<or>
      (i, None) \<in> set wss \<and> ports = sorted_list_of_set (\<Union> (set (map (set \<circ> snd) pp)) - (\<Union>j. owned_ports wss pp j)))"
  (is "?lhs \<longleftrightarrow> ?rhs")
proof -
  obtain res cl where f: "foldl (claim_step (cwd_list wss)) ([], {}) pp = (res, cl)" by force
  have c: "hm_ok res" "cl = (\<Union>j. owned_ports wss pp j)" "\<And>i. unwrap_or (hm_get res i) {} = owned_ports wss pp i"
    using claims_of [OF _ f] by (simp_all add: hm_ok_def)
  let ?all = "\<Union> (set (map (set \<circ> snd) pp))"
  have fin: "finite ?all" "owned_ports wss pp i \<subseteq> ?all" for i by (auto simp: owned_ports_def)
  let ?R = "map (\<lambda>(i, ports). (i, sorted_list_of_set ports)) (filter (\<lambda>(i, ports). ports \<noteq> {}) res)"
  let ?F = "sorted_list_of_set (?all - cl)"
  have "cwd_list wss \<noteq> []" if "cl \<noteq> {}"
    using that c(2) by (auto simp: owned_ports_def best_workspace_owns [symmetric] best_workspace_def max_by_key_def)
  then have attr: "attribute_ports wss pp =
      ?R @ (if ?F = [] then [] else map (\<lambda>i. (i, ?F)) (map fst (filter (\<lambda>(i, dir). dir = None) wss)))"
    by (simp add: attribute_ports_def f Let_def)
  have "(i, ports) \<in> set (map (\<lambda>(i, P). (i, g P)) (filter (\<lambda>(i, P). P \<noteq> {}) res)) \<longleftrightarrow>
      (\<exists>P. (i, P) \<in> set res \<and> P \<noteq> {} \<and> ports = g P)" for g :: "u16 set \<Rightarrow> u16 list" by force
  moreover have "(i, P) \<in> set res \<longleftrightarrow> hm_get res i = Some P" for P using c(1) by (simp add: hm_ok_def)
  ultimately have "(i, ports) \<in> set ?R \<longleftrightarrow> (\<exists>P. hm_get res i = Some P \<and> P \<noteq> {} \<and> ports = sorted_list_of_set P)" by presburger
  then have own: "(i, ports) \<in> set ?R \<longleftrightarrow>
      owned_ports wss pp i \<noteq> {} \<and> ports = sorted_list_of_set (owned_ports wss pp i)"
    unfolding c(3) [of i, symmetric] by (cases "hm_get res i") simp_all
  have ne: "sorted_list_of_set (owned_ports wss pp i) \<noteq> []" if "owned_ports wss pp i \<noteq> {}"
    using that finite_subset [OF fin(2) fin(1)] by simp
  have fall: "(i, ports) \<in> set (map (\<lambda>i. (i, F)) (map fst (filter (\<lambda>(i, dir). dir = None) wss))) \<longleftrightarrow>
      (i, None) \<in> set wss \<and> ports = F" for F :: "u16 list" by force
  have opt: "x \<in> set (R @ (if F = [] then [] else M)) \<longleftrightarrow> x \<in> set R \<or> F \<noteq> [] \<and> x \<in> set M"
    for x :: "u32 \<times> u16 list" and R and F :: "u16 list" and M by simp
  have logic: "(A \<or> F \<noteq> [] \<and> B \<and> ps = F) \<longleftrightarrow> ps \<noteq> [] \<and> (A \<or> B \<and> ps = F)" if "A \<Longrightarrow> ps \<noteq> []"
    for A B and ps F :: "u16 list" using that by auto
  show ?thesis unfolding attr opt fall own c(2) [symmetric] by (rule logic) (use ne in metis)
qed

end
