(* ===== verification/Rpc_Client.thy ===== *)
theory Rpc_Client
  imports Relay Rust_Map Step_Machine
begin

text \<open>
  Model of \<open>app/src/remote/rpc.rs\<close>: calls with numbered requests, the reader task that routes the lines of the daemon, and the event
  subscriptions. A call is a record with its identifier and its outcome; a subscription is a channel, the list of the events sent into it.
  The commands are the steps of the callers and of the reader. \<open>rpc_seen\<close> records the objects the reader parsed; a call and a
  channel remember how many there were when they were created.
\<close>

section \<open>State\<close>

record StreamEvent =
  ev_stream_id :: string
  ev_event :: string
  ev_data :: Value

datatype RpcError =
    ProcessDied string
  | Timeout
  | Remote string
  | RpcIo string
  | HelloFailed string

fun RpcError_str :: "RpcError \<Rightarrow> string" where
  "RpcError_str (ProcessDied s) = ''SSH process died: '' @ s"
| "RpcError_str Timeout = ''RPC call timed out''"
| "RpcError_str (Remote s) = ''remote error: '' @ s"
| "RpcError_str (RpcIo e) = ''IO error: '' @ e"
| "RpcError_str (HelloFailed s) = ''hello failed: '' @ s"

type_synonym rpc_result = "RpcError + Value"

record RpcCall =
  call_id :: u64
  call_since :: nat
  call_outcome :: "rpc_result option"

record Channel =
  chan_stream :: string
  chan_since :: nat
  chan_events :: "StreamEvent list"

record RpcClient =
  next_id :: u64
  pending :: "(u64, nat) hashmap"
  subscriptions :: "(string, nat) hashmap"
  rpc_calls :: "RpcCall list"
  channels :: "Channel list"
  stdin_lines :: "Value list"
  rpc_seen :: "Value list"
  reader_up :: bool

definition RpcClient_new :: RpcClient where
  "RpcClient_new = \<lparr>next_id = 1, pending = [], subscriptions = [], rpc_calls = [], channels = [], stdin_lines = [], rpc_seen = [],
     reader_up = True\<rparr>"

definition serve_args :: "RemoteConfiguration \<Rightarrow> string \<Rightarrow> string list" where
  "serve_args cfg daemon_path =
     ssh_batch_args cfg @ [''-T'', ''-S'', ''none'', destination cfg, daemon_path @ '' serve --stdio'']"

section \<open>The reader\<close>

definition response_id :: "Value \<Rightarrow> u64 option" where
  "response_id obj = map_option of_nat (Option.bind (jget obj ''id'') as_u64)"

definition response_result :: "Value \<Rightarrow> rpc_result" where
  "response_result obj =
     (case jget obj ''error'' of
        Some err \<Rightarrow> Inl (Remote (unwrap_or (get_str err ''message'') ''unknown error''))
      | None \<Rightarrow> Inr (unwrap_or (jget obj ''result'') JNull))"

definition stream_event :: "Value \<Rightarrow> StreamEvent option" where
  "stream_event obj =
     (case response_id obj of
        Some _ \<Rightarrow> None
      | None \<Rightarrow>
          map_option (\<lambda>name. \<lparr>ev_stream_id = unwrap_or (get_str obj ''stream_id'') [], ev_event = name, ev_data = obj\<rparr>)
            (get_str obj ''event''))"

text \<open>A \<open>oneshot\<close> sender: a caller that is gone does not notice.\<close>

definition settle :: "nat \<Rightarrow> rpc_result \<Rightarrow> RpcClient \<Rightarrow> RpcClient" where
  "settle k res r =
     (if k < length (rpc_calls r) \<and> call_outcome (rpc_calls r ! k) = None
      then r\<lparr>rpc_calls := (rpc_calls r)[k := (rpc_calls r ! k)\<lparr>call_outcome := Some res\<rparr>]\<rparr>
      else r)"

definition push_event :: "nat \<Rightarrow> StreamEvent \<Rightarrow> RpcClient \<Rightarrow> RpcClient" where
  "push_event c e r = r\<lparr>channels := (channels r)[c := (channels r ! c)\<lparr>chan_events := chan_events (channels r ! c) @ [e]\<rparr>]\<rparr>"

definition dispatch :: "Value \<Rightarrow> RpcClient \<Rightarrow> RpcClient" where
  "dispatch obj r =
     (case response_id obj of
        Some i \<Rightarrow>
          (case hm_get (pending r) i of
             Some k \<Rightarrow> settle k (response_result obj) (r\<lparr>pending := hm_remove i (pending r)\<rparr>)
           | None \<Rightarrow> r)
      | None \<Rightarrow>
          (case stream_event obj of
             Some e \<Rightarrow>
               (case hm_get (subscriptions r) (ev_stream_id e) of Some c \<Rightarrow> push_event c e r | None \<Rightarrow> r)
           | None \<Rightarrow> r))"

definition reader_line :: "(string \<Rightarrow> Value option) \<Rightarrow> string \<Rightarrow> RpcClient \<Rightarrow> RpcClient" where
  "reader_line js line r =
     (let trimmed = trim line in
      if trimmed = [] then r
      else case js trimmed of
        None \<Rightarrow> r
      | Some obj \<Rightarrow> dispatch obj (r\<lparr>rpc_seen := rpc_seen r @ [obj]\<rparr>))"

definition reader_eof :: "RpcClient \<Rightarrow> RpcClient" where
  "reader_eof r =
     (foldl (\<lambda>r k. settle k (Inl (ProcessDied ''SSH process exited'')) r) r (map snd (pending r)))\<lparr>pending := [], reader_up := False\<rparr>"

section \<open>Callers\<close>

definition request :: "u64 \<Rightarrow> string \<Rightarrow> Value \<Rightarrow> Value" where
  "request i m params =
     JObject [(''jsonrpc'', JString ''2.0''), (''id'', JU64 (unat i)), (''method'', JString m), (''params'', params)]"

text \<open>The start of a call up to the wait for the answer; a failed write returns at once and leaves the entry in the table.\<close>

definition call_start :: "string \<Rightarrow> Value \<Rightarrow> string option \<Rightarrow> RpcClient \<Rightarrow> RpcClient" where
  "call_start m params write_error r =
     (let i = next_id r; k = length (rpc_calls r);
          c = \<lparr>call_id = i, call_since = length (rpc_seen r), call_outcome = map_option (\<lambda>e. Inl (RpcIo e)) write_error\<rparr>
      in r\<lparr>next_id := i + 1, pending := hm_insert i k (pending r), rpc_calls := rpc_calls r @ [c],
           stdin_lines := stdin_lines r @ (if write_error = None then [request i m params] else [])\<rparr>)"

definition call_timeout :: "nat \<Rightarrow> RpcClient \<Rightarrow> RpcClient" where
  "call_timeout k r =
     (if k < length (rpc_calls r) \<and> call_outcome (rpc_calls r ! k) = None
      then settle k (Inl Timeout) (r\<lparr>pending := hm_remove (call_id (rpc_calls r ! k)) (pending r)\<rparr>)
      else r)"

definition subscribe :: "string \<Rightarrow> RpcClient \<Rightarrow> RpcClient" where
  "subscribe sid r =
     r\<lparr>subscriptions := hm_insert sid (length (channels r)) (subscriptions r),
       channels := channels r @ [\<lparr>chan_stream = sid, chan_since = length (rpc_seen r), chan_events = []\<rparr>]\<rparr>"

definition unsubscribe :: "string \<Rightarrow> RpcClient \<Rightarrow> RpcClient" where
  "unsubscribe sid r = r\<lparr>subscriptions := hm_remove sid (subscriptions r)\<rparr>"

text \<open>What \<open>connect\<close> makes of the answer to its hello.\<close>

definition hello_result :: "(Value \<Rightarrow> string) \<Rightarrow> rpc_result \<Rightarrow> rpc_result" where
  "hello_result print_json res =
     (case res of
        Inl e \<Rightarrow> Inl e
      | Inr v \<Rightarrow> if jget v ''name'' = None then Inl (HelloFailed (''unexpected hello response: '' @ print_json v)) else Inr v)"

section \<open>Steps\<close>

datatype RpcCmd =
    CallStart string Value "string option"
  | CallTimeout nat
  | ReaderLine string
  | ReaderEof
  | Subscribe string
  | Unsubscribe string

fun rpc_exec :: "(string \<Rightarrow> Value option) \<Rightarrow> RpcCmd \<Rightarrow> RpcClient \<Rightarrow> RpcClient option" where
  "rpc_exec js (CallStart m params err) r = Some (call_start m params err r)"
| "rpc_exec js (CallTimeout k) r = Some (call_timeout k r)"
| "rpc_exec js (ReaderLine line) r = Some (reader_line js line r)"
| "rpc_exec js ReaderEof r = Some (reader_eof r)"
| "rpc_exec js (Subscribe sid) r = Some (subscribe sid r)"
| "rpc_exec js (Unsubscribe sid) r = Some (unsubscribe sid r)"

text \<open>The reader runs until the end of its input; the identifiers of a connection last for \<open>2 ^ 64 - 1\<close> calls.\<close>

fun rpc_ready :: "RpcCmd \<Rightarrow> RpcClient \<Rightarrow> bool" where
  "rpc_ready (ReaderLine line) r \<longleftrightarrow> reader_up r"
| "rpc_ready ReaderEof r \<longleftrightarrow> reader_up r"
| "rpc_ready (CallStart m params err) r \<longleftrightarrow> length (rpc_calls r) < 2 ^ 64 - 1"
| "rpc_ready _ r \<longleftrightarrow> True"

end
