(* ===== verification/Rpc_Facts.thy ===== *)
theory Rpc_Facts
  imports Rpc_Client
begin

text \<open>
  The invariant of an RPC connection: identifiers are unique, an unanswered call is in the table under its identifier, what a call
  was told is the first answer with its identifier that came after the request, and a subscribed channel holds the events of its
  stream since the subscription.
\<close>

lemma find_append: "find P (xs @ ys) = (case find P xs of None \<Rightarrow> find P ys | Some x \<Rightarrow> Some x)"
  by (induction xs) auto

lemma map_filter_snoc:
  "List.map_filter g (xs @ [x]) = List.map_filter g xs @ (case g x of None \<Rightarrow> [] | Some y \<Rightarrow> [y])"
  by (simp add: List.map_filter_def split: option.split)

section \<open>What was received\<close>

definition answer_to :: "u64 \<Rightarrow> Value list \<Rightarrow> Value option" where
  "answer_to i objs = find (\<lambda>obj. response_id obj = Some i) objs"

definition events_for :: "string \<Rightarrow> Value list \<Rightarrow> StreamEvent list" where
  "events_for sid objs = filter (\<lambda>e. ev_stream_id e = sid) (List.map_filter stream_event objs)"

definition from_wire :: "rpc_result \<Rightarrow> bool" where
  "from_wire res = (case res of Inr v \<Rightarrow> True | Inl (Remote m) \<Rightarrow> True | _ \<Rightarrow> False)"

definition answered :: "Value list \<Rightarrow> RpcCall \<Rightarrow> bool" where
  "answered seen c \<longleftrightarrow> call_since c \<le> length seen \<and>
     (case call_outcome c of
        None \<Rightarrow> answer_to (call_id c) (drop (call_since c) seen) = None
      | Some res \<Rightarrow>
          from_wire res \<longrightarrow> (\<exists>obj. answer_to (call_id c) (drop (call_since c) seen) = Some obj \<and> response_result obj = res))"

lemma answer_to_snoc:
  "answer_to i (objs @ [obj]) =
     (case answer_to i objs of Some x \<Rightarrow> Some x | None \<Rightarrow> if response_id obj = Some i then Some obj else None)"
  by (simp add: answer_to_def find_append split: option.split)

lemma events_for_snoc:
  "events_for sid (objs @ [obj]) =
     events_for sid objs @ (case stream_event obj of Some e \<Rightarrow> if ev_stream_id e = sid then [e] else [] | None \<Rightarrow> [])"
  by (simp add: events_for_def map_filter_snoc split: option.split)

lemma from_wire_result [simp]: "from_wire (response_result obj)"
  by (simp add: from_wire_def response_result_def split: option.split)

text \<open>A new object does not change what the other calls know.\<close>

lemma answered_snoc:
  assumes "answered seen c" "response_id obj = Some (call_id c) \<Longrightarrow> call_outcome c \<noteq> None"
  shows "answered (seen @ [obj]) c"
  using assms by (auto simp: answered_def answer_to_snoc split: option.splits)

lemma answered_by:
  assumes "answered seen c" "response_id obj = Some (call_id c)" "call_outcome c = None"
  shows "answered (seen @ [obj]) (c\<lparr>call_outcome := Some (response_result obj)\<rparr>)"
  using assms by (auto simp: answered_def answer_to_snoc)

lemma answered_local: "answered seen c \<Longrightarrow> \<not> from_wire res \<Longrightarrow> answered seen (c\<lparr>call_outcome := Some res\<rparr>)"
  by (simp add: answered_def)

section \<open>The invariant\<close>

definition ids_ok :: "u64 \<Rightarrow> u64 list \<Rightarrow> bool" where
  "ids_ok n ids \<longleftrightarrow> length ids < 2 ^ 64 \<and> n = of_nat (Suc (length ids)) \<and> (\<forall>k<length ids. ids ! k = of_nat (Suc k))"

definition calls_ok :: "RpcClient \<Rightarrow> bool" where
  "calls_ok r \<longleftrightarrow> hm_ok (pending r) \<and> ids_ok (next_id r) (map call_id (rpc_calls r)) \<and>
     (\<forall>i k. hm_get (pending r) i = Some k \<longrightarrow> k < length (rpc_calls r) \<and> call_id (rpc_calls r ! k) = i) \<and>
     (\<forall>k<length (rpc_calls r). call_outcome (rpc_calls r ! k) = None \<longrightarrow> hm_get (pending r) (call_id (rpc_calls r ! k)) = Some k)"

lemma ids_ok_distinct:
  assumes "ids_ok n ids" "j < length ids" "k < length ids" "ids ! j = ids ! k"
  shows "j = k"
proof -
  have u: "unat (of_nat (Suc m) :: u64) = Suc m" if "m < length ids" for m
  proof -
    have "Suc m < 2 ^ 64" using that assms(1) unfolding ids_ok_def by linarith
    then show ?thesis by (simp add: unat_of_nat del: of_nat_Suc)
  qed
  have "ids ! m = of_nat (Suc m)" if "m < length ids" for m using that assms(1) unfolding ids_ok_def by blast
  then have "(of_nat (Suc j) :: u64) = of_nat (Suc k)" using assms(2-4) by metis
  then show ?thesis using u [OF assms(2)] u [OF assms(3)] by (metis Suc_inject)
qed

lemma ids_ok_snoc: "ids_ok n ids \<Longrightarrow> length ids < 2 ^ 64 - 1 \<Longrightarrow> ids_ok (n + 1) (ids @ [n])"
  by (auto simp: ids_ok_def nth_append less_Suc_eq)

lemma ids_ok_fresh:
  assumes "ids_ok n ids" "length ids < 2 ^ 64 - 1"
  shows "n \<notin> set ids"
proof
  assume "n \<in> set ids"
  then obtain j where j: "j < length ids" "ids ! j = n" by (auto simp: in_set_conv_nth)
  then have "j = length ids"
    using ids_ok_distinct [OF ids_ok_snoc [OF assms], of j "length ids"] by (simp add: nth_append)
  with j show False by simp
qed

definition answers_ok :: "RpcClient \<Rightarrow> bool" where
  "answers_ok r \<longleftrightarrow> (\<forall>k<length (rpc_calls r). answered (rpc_seen r) (rpc_calls r ! k))"

definition streams_ok :: "RpcClient \<Rightarrow> bool" where
  "streams_ok r \<longleftrightarrow> (\<forall>sid c. hm_get (subscriptions r) sid = Some c \<longrightarrow> c < length (channels r) \<and>
     chan_stream (channels r ! c) = sid \<and> chan_since (channels r ! c) \<le> length (rpc_seen r) \<and>
     chan_events (channels r ! c) = events_for sid (drop (chan_since (channels r ! c)) (rpc_seen r)))"

definition rpc_ok :: "RpcClient \<Rightarrow> bool" where
  "rpc_ok r \<longleftrightarrow> calls_ok r \<and> answers_ok r \<and> streams_ok r"

lemma rpc_ok_new: "rpc_ok RpcClient_new"
  by (simp add: rpc_ok_def calls_ok_def answers_ok_def streams_ok_def RpcClient_new_def hm_ok_def ids_ok_def)

lemma calls_okD:
  assumes "calls_ok r"
  shows "hm_get (pending r) i = Some k \<Longrightarrow> k < length (rpc_calls r)"
    "hm_get (pending r) i = Some k \<Longrightarrow> call_id (rpc_calls r ! k) = i"
    "k < length (rpc_calls r) \<Longrightarrow> call_outcome (rpc_calls r ! k) = None \<Longrightarrow> hm_get (pending r) (call_id (rpc_calls r ! k)) = Some k"
  using assms unfolding calls_ok_def by blast+

lemma ids_unique:
  assumes "calls_ok r" "j < length (rpc_calls r)" "k < length (rpc_calls r)" "call_id (rpc_calls r ! j) = call_id (rpc_calls r ! k)"
  shows "j = k"
  using ids_ok_distinct [of "next_id r" "map call_id (rpc_calls r)" j k] assms by (simp add: calls_ok_def)

lemma settle_frame [simp]:
  "pending (settle k res r) = pending r" "subscriptions (settle k res r) = subscriptions r" "channels (settle k res r) = channels r"
  "rpc_seen (settle k res r) = rpc_seen r" "next_id (settle k res r) = next_id r" "length (rpc_calls (settle k res r)) = length (rpc_calls r)"
  "reader_up (settle k res r) = reader_up r"
  by (simp_all add: settle_def)

lemma settle_nth:
  "j < length (rpc_calls r) \<Longrightarrow> rpc_calls (settle k res r) ! j =
     (if j = k \<and> call_outcome (rpc_calls r ! j) = None then (rpc_calls r ! j)\<lparr>call_outcome := Some res\<rparr> else rpc_calls r ! j)"
  by (auto simp: settle_def nth_list_update)

lemma settle_ids [simp]: "j < length (rpc_calls r) \<Longrightarrow> call_id (rpc_calls (settle k res r) ! j) = call_id (rpc_calls r ! j)"
  by (simp add: settle_nth)

lemma settle_map_ids [simp]: "map call_id (rpc_calls (settle k res r)) = map call_id (rpc_calls r)"
  by (rule nth_equalityI) simp_all

lemma calls_ok_frame:
  assumes "calls_ok r" "pending r' = pending r" "rpc_calls r' = rpc_calls r" "next_id r' = next_id r"
  shows "calls_ok r'"
  using assms(1) unfolding calls_ok_def assms(2-4) .

lemma streams_ok_frame:
  assumes "streams_ok r" "subscriptions r' = subscriptions r" "channels r' = channels r" "rpc_seen r' = rpc_seen r"
  shows "streams_ok r'"
  using assms by (simp add: streams_ok_def)

text \<open>Removing the entry of a call that is settled at the same time.\<close>

lemma calls_ok_settle:
  assumes ok: "calls_ok r" and k: "hm_get (pending r) i = Some k"
  shows "calls_ok (settle k res (r\<lparr>pending := hm_remove i (pending r)\<rparr>))"
proof -
  note id = calls_okD(1,2) [OF ok k]
  have "call_id (rpc_calls r ! j) \<noteq> i" if "j < length (rpc_calls r)" "j \<noteq> k" for j
    using ids_unique [OF ok that(1) id(1)] that(2) id(2) by metis
  with ok id show ?thesis unfolding calls_ok_def by (auto simp: settle_nth)
qed

lemma answers_ok_settle:
  assumes "answers_ok r" "\<not> from_wire res"
  shows "answers_ok (settle k res r)"
  using assms by (auto simp: answers_ok_def settle_nth answered_local)

lemma rpc_ok_timeout:
  assumes "rpc_ok r"
  shows "rpc_ok (call_timeout k r)"
proof (cases "k < length (rpc_calls r) \<and> call_outcome (rpc_calls r ! k) = None")
  case True
  let ?r = "r\<lparr>pending := hm_remove (call_id (rpc_calls r ! k)) (pending r)\<rparr>"
  have ok: "calls_ok r" using assms by (simp add: rpc_ok_def)
  have "calls_ok (settle k (Inl Timeout) ?r)" using calls_ok_settle [OF ok calls_okD(3) [OF ok]] True by blast
  moreover have "answers_ok (settle k (Inl Timeout) ?r)"
    by (rule answers_ok_settle) (use assms in \<open>simp_all add: rpc_ok_def answers_ok_def from_wire_def\<close>)
  moreover have "streams_ok (settle k (Inl Timeout) ?r)"
    by (rule streams_ok_frame [of r]) (use assms in \<open>simp_all add: rpc_ok_def\<close>)
  ultimately show ?thesis using True by (simp add: call_timeout_def rpc_ok_def)
qed (use assms in \<open>auto simp: call_timeout_def\<close>)

lemma rpc_ok_call:
  assumes ok: "rpc_ok r" and room: "length (rpc_calls r) < 2 ^ 64 - 1"
  shows "rpc_ok (call_start m params err r)"
proof -
  let ?k = "length (rpc_calls r)"
  have c: "calls_ok r" using ok by (simp add: rpc_ok_def)
  have i: "ids_ok (next_id r) (map call_id (rpc_calls r))" using c by (simp add: calls_ok_def)
  have fresh: "call_id (rpc_calls r ! j) \<noteq> next_id r" if "j < ?k" for j
    using ids_ok_fresh [OF i] room nth_mem [OF that] by (metis image_eqI length_map list.set_map)
  have "calls_ok (call_start m params err r)"
    using c fresh ids_ok_snoc [OF i] room unfolding calls_ok_def call_start_def
    by (auto simp: Let_def nth_append less_Suc_eq)
  moreover have "answers_ok (call_start m params err r)"
    using ok by (auto simp: rpc_ok_def answers_ok_def call_start_def Let_def answered_def answer_to_def from_wire_def nth_append
        less_Suc_eq split: option.split)
  moreover have "streams_ok (call_start m params err r)"
    by (rule streams_ok_frame [of r]) (use ok in \<open>simp_all add: rpc_ok_def call_start_def Let_def\<close>)
  ultimately show ?thesis by (simp add: rpc_ok_def)
qed

lemma rpc_ok_subscribe:
  assumes "rpc_ok r"
  shows "rpc_ok (subscribe sid r)" "rpc_ok (unsubscribe sid r)"
proof -
  have "calls_ok (subscribe sid r)" "calls_ok (unsubscribe sid r)"
    using assms by (auto intro: calls_ok_frame [of r] simp: rpc_ok_def subscribe_def unsubscribe_def)
  moreover have "streams_ok (subscribe sid r)" "streams_ok (unsubscribe sid r)"
    using assms unfolding rpc_ok_def streams_ok_def
    by (auto simp: subscribe_def unsubscribe_def nth_append events_for_def List.map_filter_def less_SucI)
  ultimately show "rpc_ok (subscribe sid r)" "rpc_ok (unsubscribe sid r)"
    using assms by (simp_all add: rpc_ok_def answers_ok_def subscribe_def unsubscribe_def)
qed

text \<open>The reader: the object goes to the call with its identifier, or to the channel of its stream.\<close>

lemma answers_ok_seen:
  assumes "rpc_ok r" "\<And>i. response_id obj = Some i \<Longrightarrow> hm_get (pending r) i = None"
  shows "answers_ok (r\<lparr>rpc_seen := rpc_seen r @ [obj]\<rparr>)"
proof -
  have c: "calls_ok r" using assms(1) by (simp add: rpc_ok_def)
  have "call_outcome (rpc_calls r ! k) \<noteq> None"
    if "k < length (rpc_calls r)" "response_id obj = Some (call_id (rpc_calls r ! k))" for k
    using assms(2) [OF that(2)] calls_okD(3) [OF c that(1)] by force
  then show ?thesis using assms(1) answered_snoc by (simp add: rpc_ok_def answers_ok_def)
qed

lemma streams_ok_response:
  assumes "streams_ok r" "stream_event obj = None"
  shows "streams_ok (r\<lparr>rpc_seen := rpc_seen r @ [obj]\<rparr>)"
  using assms by (auto simp: streams_ok_def events_for_snoc le_SucI)

lemma rpc_ok_response:
  assumes ok: "rpc_ok r" and i: "response_id obj = Some i" and k: "hm_get (pending r) i = Some k"
  shows "rpc_ok (settle k (response_result obj) (r\<lparr>rpc_seen := rpc_seen r @ [obj], pending := hm_remove i (pending r)\<rparr>))"
    (is "rpc_ok (settle k _ ?r)")
proof -
  have c: "calls_ok r" using ok by (simp add: rpc_ok_def)
  note id = calls_okD(1,2) [OF c k]
  let ?s = "settle k (response_result obj) ?r"
  have "calls_ok ?s"
    by (rule calls_ok_frame [OF calls_ok_settle [OF c k, of "response_result obj"]]) (simp_all add: settle_def)
  moreover have "answered (rpc_seen ?s) (rpc_calls ?s ! j)" if j: "j < length (rpc_calls r)" for j
  proof -
    have a: "answered (rpc_seen r) (rpc_calls r ! j)" using ok j by (simp add: rpc_ok_def answers_ok_def)
    show ?thesis
    proof (cases "j = k \<and> call_outcome (rpc_calls r ! j) = None")
      case True
      then show ?thesis using answered_by [OF a] i id j by (auto simp: settle_nth)
    next
      case False
      have "call_outcome (rpc_calls r ! j) \<noteq> None" if "response_id obj = Some (call_id (rpc_calls r ! j))"
      proof -
        have "j = k" using ids_unique [OF c j id(1)] i id(2) that by simp
        with False show ?thesis by blast
      qed
      from answered_snoc [OF a this] False j show ?thesis by (auto simp: settle_nth)
    qed
  qed
  moreover have "streams_ok ?s"
    by (rule streams_ok_frame [OF streams_ok_response [of r obj]]) (use ok i in \<open>simp_all add: rpc_ok_def stream_event_def\<close>)
  ultimately show ?thesis by (simp add: rpc_ok_def answers_ok_def)
qed

lemma rpc_ok_event:
  assumes ok: "rpc_ok r" and e: "stream_event obj = Some e" and c: "hm_get (subscriptions r) (ev_stream_id e) = Some c"
  shows "rpc_ok (push_event c e (r\<lparr>rpc_seen := rpc_seen r @ [obj]\<rparr>))" (is "rpc_ok ?r")
proof -
  have no_id: "response_id obj = None" using e by (simp add: stream_event_def split: option.splits)
  have "calls_ok ?r" by (rule calls_ok_frame [of r]) (use ok in \<open>simp_all add: rpc_ok_def push_event_def\<close>)
  moreover have "answers_ok ?r"
    using answers_ok_seen [OF ok, of obj] no_id by (simp add: answers_ok_def push_event_def)
  moreover have one: "sid = ev_stream_id e" if "hm_get (subscriptions r) sid = Some c" for sid
    using ok c that unfolding rpc_ok_def streams_ok_def by metis
  have "streams_ok ?r" unfolding streams_ok_def
  proof (intro allI impI)
    fix sid c' assume "hm_get (subscriptions ?r) sid = Some c'"
    then have s: "hm_get (subscriptions r) sid = Some c'" by (simp add: push_event_def)
    note old = ok [unfolded rpc_ok_def streams_ok_def, THEN conjunct2, THEN conjunct2, rule_format, OF s]
    have "ev_stream_id e \<noteq> sid" if "c' \<noteq> c" using s c that by auto
    with old e one [of sid] s show "c' < length (channels ?r) \<and> chan_stream (channels ?r ! c') = sid \<and>
        chan_since (channels ?r ! c') \<le> length (rpc_seen ?r) \<and>
        chan_events (channels ?r ! c') = events_for sid (drop (chan_since (channels ?r ! c')) (rpc_seen ?r))"
      by (cases "c' = c") (simp_all add: push_event_def events_for_snoc)
  qed
  ultimately show ?thesis by (simp add: rpc_ok_def)
qed

lemma rpc_ok_dispatch:
  assumes "rpc_ok r"
  shows "rpc_ok (dispatch obj (r\<lparr>rpc_seen := rpc_seen r @ [obj]\<rparr>))"
proof -
  have idle: "rpc_ok (r\<lparr>rpc_seen := rpc_seen r @ [obj]\<rparr>)"
    if "\<And>i. response_id obj = Some i \<Longrightarrow> hm_get (pending r) i = None"
      "\<And>e. stream_event obj = Some e \<Longrightarrow> hm_get (subscriptions r) (ev_stream_id e) = None"
  proof -
    have "calls_ok (r\<lparr>rpc_seen := rpc_seen r @ [obj]\<rparr>)"
      by (rule calls_ok_frame [of r]) (use assms in \<open>simp_all add: rpc_ok_def\<close>)
    moreover have "streams_ok (r\<lparr>rpc_seen := rpc_seen r @ [obj]\<rparr>)"
      using assms that(2) by (auto simp: rpc_ok_def streams_ok_def events_for_snoc le_SucI split: option.split)
    ultimately show ?thesis using answers_ok_seen [OF assms that(1)] by (simp add: rpc_ok_def)
  qed
  show ?thesis
  proof (cases "response_id obj")
    case (Some i)
    then have "stream_event obj = None" by (simp add: stream_event_def)
    with Some idle rpc_ok_response [OF assms Some] show ?thesis by (auto simp: dispatch_def split: option.split)
  next
    case None
    with idle rpc_ok_event [OF assms] show ?thesis by (auto simp: dispatch_def split: option.split)
  qed
qed

abbreviation settle_all :: "rpc_result \<Rightarrow> RpcClient \<Rightarrow> nat list \<Rightarrow> RpcClient" where
  "settle_all res \<equiv> foldl (\<lambda>r k. settle k res r)"

lemma settle_all_frame:
  "pending (settle_all res r ks) = pending r" "subscriptions (settle_all res r ks) = subscriptions r"
  "channels (settle_all res r ks) = channels r" "rpc_seen (settle_all res r ks) = rpc_seen r"
  "next_id (settle_all res r ks) = next_id r" "map call_id (rpc_calls (settle_all res r ks)) = map call_id (rpc_calls r)" "length (rpc_calls (settle_all res r ks)) = length (rpc_calls r)"
  by (induction ks arbitrary: r) simp_all

lemma settle_all_nth:
  "j < length (rpc_calls r) \<Longrightarrow> rpc_calls (settle_all res r ks) ! j =
     (if j \<in> set ks \<and> call_outcome (rpc_calls r ! j) = None then (rpc_calls r ! j)\<lparr>call_outcome := Some res\<rparr> else rpc_calls r ! j)"
  by (induction ks arbitrary: r) (auto simp: settle_nth)

lemma eof_settles:
  assumes "calls_ok r" "j < length (rpc_calls r)"
  shows "rpc_calls (reader_eof r) ! j =
    (if call_outcome (rpc_calls r ! j) = None
     then (rpc_calls r ! j)\<lparr>call_outcome := Some (Inl (ProcessDied ''SSH process exited''))\<rparr> else rpc_calls r ! j)"
proof -
  have "j \<in> set (map snd (pending r))" if "call_outcome (rpc_calls r ! j) = None"
    using map_of_SomeD [OF calls_okD(3) [OF assms that]] by force
  then show ?thesis using assms(2) by (auto simp: reader_eof_def settle_all_nth)
qed

lemma rpc_ok_eof:
  assumes "rpc_ok r"
  shows "rpc_ok (reader_eof r)"
proof -
  have c: "calls_ok r" using assms by (simp add: rpc_ok_def)
  have len: "length (rpc_calls (reader_eof r)) = length (rpc_calls r)" by (simp add: reader_eof_def settle_all_frame)
  have "calls_ok (reader_eof r)"
    using c eof_settles [OF c] len unfolding calls_ok_def
    by (auto simp: reader_eof_def settle_all_frame hm_ok_def)
  moreover have "answers_ok (reader_eof r)"
    using assms eof_settles [OF c] len
    by (auto simp: rpc_ok_def answers_ok_def answered_local from_wire_def reader_eof_def settle_all_frame)
  moreover have "streams_ok (reader_eof r)"
    by (rule streams_ok_frame [of r]) (use assms in \<open>simp_all add: rpc_ok_def reader_eof_def settle_all_frame\<close>)
  ultimately show ?thesis by (simp add: rpc_ok_def)
qed

interpretation rpc: machine "rpc_exec js" rpc_ready rpc_ok
proof
  show "\<exists>s'. rpc_exec js c s = Some s'" for c s by (cases c) simp_all
  show "rpc_ok s'" if "rpc_ok s" "rpc_ready c s" "rpc_exec js c s = Some s'" for c s s'
    using that rpc_ok_dispatch [OF that(1)]
    by (cases c) (auto simp: rpc_ok_call rpc_ok_timeout rpc_ok_subscribe rpc_ok_eof reader_line_def Let_def split: option.split)
qed

end
