(* ===== verification/Proxy_Bridge.thy ===== *)
theory Proxy_Bridge
  imports Proxy_Tunnel Rpc_Facts
begin

text \<open>
  Model of the second half of \<open>handle_connection\<close> in \<open>app/src/remote/proxy_tunnel.rs\<close>, on top of the RPC client: opening a remote stream,
  the replies to the local client, the requests that are sent to the daemon, and the copy in both directions. The results of the calls
  and the base64 coding are arguments.
\<close>

section \<open>Opening\<close>

definition open_params :: "string \<Rightarrow> u16 \<Rightarrow> Value" where
  "open_params host p = JObject [(''host'', JString host), (''port'', JU64 (unat p))]"

definition stream_params :: "string \<Rightarrow> Value" where
  "stream_params sid = JObject [(''stream_id'', JString sid)]"

definition write_params :: "(u8 list \<Rightarrow> string) \<Rightarrow> string \<Rightarrow> u8 list \<Rightarrow> Value" where
  "write_params enc sid chunk = JObject [(''stream_id'', JString sid), (''data_base64'', JString (enc chunk))]"

text \<open>What the local client is sent, the requests so far, and the stream to bridge or the error of the session.\<close>

definition open_session ::
  "bool \<Rightarrow> string \<Rightarrow> u16 \<Rightarrow> rpc_result \<Rightarrow> rpc_result \<Rightarrow> u8 list \<times> (string \<times> Value) list \<times> (string + string)" where
  "open_session socks5 host p open_result sub_result =
     (let opened = [(''proxy.open'', open_params host p)] in
      case open_result of
        Inl e \<Rightarrow> (open_reply socks5 False, opened, Inl (''proxy.open failed: '' @ RpcError_str e))
      | Inr v \<Rightarrow>
          (case get_str v ''stream_id'' of
             None \<Rightarrow> ([], opened, Inl ''proxy.open did not return stream_id'')
           | Some sid \<Rightarrow>
               (let subscribed = opened @ [(''proxy.stream.subscribe'', stream_params sid)] in
                case sub_result of
                  Inl e \<Rightarrow> ([], subscribed, Inl (''proxy.stream.subscribe failed: '' @ RpcError_str e))
                | Inr _ \<Rightarrow> (open_reply socks5 True, subscribed, Inr sid))))"

section \<open>Copying\<close>

text \<open>Local to remote: one request per chunk read, until a request fails.\<close>

fun upload :: "(u8 list \<Rightarrow> string) \<Rightarrow> string \<Rightarrow> (u8 list \<times> bool) list \<Rightarrow> (string \<times> Value) list" where
  "upload enc sid [] = []"
| "upload enc sid ((chunk, ok) # reads) =
     (if chunk = [] then []
      else (''proxy.write'', write_params enc sid chunk) # (if ok then upload enc sid reads else []))"

text \<open>Remote to local: the bytes written to the client, and whether the daemon ended the stream.\<close>

fun deliver :: "(string \<Rightarrow> u8 list option) \<Rightarrow> StreamEvent list \<Rightarrow> u8 list \<times> bool" where
  "deliver dec [] = ([], False)"
| "deliver dec (e # es) =
     (if ev_event e = ''proxy.stream.data'' then
        (case Option.bind (get_str (ev_data e) ''data_base64'') dec of
           Some bytes \<Rightarrow> (bytes @ fst (deliver dec es), snd (deliver dec es))
         | None \<Rightarrow> deliver dec es)
      else if ev_event e = ''proxy.stream.eof'' \<or> ev_event e = ''proxy.stream.close'' then ([], True)
      else deliver dec es)"

text \<open>The requests of a session that was bridged: the writes, then the end of the stream.\<close>

definition session_requests ::
  "(u8 list \<Rightarrow> string) \<Rightarrow> string \<Rightarrow> u16 \<Rightarrow> string \<Rightarrow> (u8 list \<times> bool) list \<Rightarrow> (string \<times> Value) list" where
  "session_requests enc host p sid reads =
     [(''proxy.open'', open_params host p), (''proxy.stream.subscribe'', stream_params sid)] @ upload enc sid reads @
     [(''proxy.close'', stream_params sid)]"

end
