(* ===== verification/Rpc_Claims.thy ===== *)
theory Rpc_Claims
  imports Proxy_Bridge
begin

text \<open>
  Answers reach the call that asked, no call waits after the end of the connection, and the bytes the daemon sends on a stream reach the
  local client in order and complete.
\<close>

abbreviation reachable_rpc :: "(string \<Rightarrow> Value option) \<Rightarrow> RpcClient \<Rightarrow> bool" where
  "reachable_rpc js \<equiv> reach (rpc_exec js) rpc_ready RpcClient_new"

lemma reachable_rpc_ok: "reachable_rpc js r \<Longrightarrow> rpc_ok r"
  using rpc.reach_inv rpc_ok_new by blast

text \<open>
  C23. Whatever calls overlap and in whatever order the daemon answers: no two calls share an identifier, the value or the error of the
  daemon that a call returns is the first answer with its identifier that came after the request, an unanswered call is still in
  the table, and when the connection ends every call that waits is told so.
\<close>

theorem rpc_answers_match:
  assumes "reachable_rpc js r" "k < length (rpc_calls r)"
  shows "(\<forall>j<length (rpc_calls r). call_id (rpc_calls r ! j) = call_id (rpc_calls r ! k) \<longrightarrow> j = k) \<and>
    (\<forall>res. call_outcome (rpc_calls r ! k) = Some res \<and> from_wire res \<longrightarrow>
      (\<exists>obj. answer_to (call_id (rpc_calls r ! k)) (drop (call_since (rpc_calls r ! k)) (rpc_seen r)) = Some obj \<and>
        response_result obj = res)) \<and>
    (call_outcome (rpc_calls r ! k) = None \<longrightarrow> hm_get (pending r) (call_id (rpc_calls r ! k)) = Some k) \<and>
    call_outcome (rpc_calls (reader_eof r) ! k) \<noteq> None \<and> pending (reader_eof r) = []"
proof -
  have ok: "calls_ok r" "answers_ok r" using reachable_rpc_ok [OF assms(1)] by (simp_all add: rpc_ok_def)
  have "answered (rpc_seen r) (rpc_calls r ! k)" using ok(2) assms(2) by (simp add: answers_ok_def)
  moreover have "call_outcome (rpc_calls (reader_eof r) ! k) \<noteq> None" using eof_settles [OF ok(1) assms(2)] by auto
  moreover have "pending (reader_eof r) = []" by (simp add: reader_eof_def)
  ultimately show ?thesis
    using ids_unique [OF ok(1) _ assms(2)] calls_okD(3) [OF ok(1) assms(2)] by (auto simp: answered_def)
qed

section \<open>Streams\<close>

definition data_object :: "(u8 list \<Rightarrow> string) \<Rightarrow> string \<Rightarrow> u8 list \<Rightarrow> Value" where
  "data_object enc sid b =
     JObject [(''event'', JString ''proxy.stream.data''), (''stream_id'', JString sid), (''data_base64'', JString (enc b))]"

definition on_stream :: "string \<Rightarrow> Value \<Rightarrow> bool" where
  "on_stream sid obj = (case stream_event obj of Some e \<Rightarrow> ev_stream_id e = sid | None \<Rightarrow> False)"

lemma events_for_filter: "events_for sid objs = map (the \<circ> stream_event) (filter (on_stream sid) objs)"
  unfolding events_for_def List.map_filter_def by (induction objs) (auto simp: on_stream_def split: option.splits)

lemma deliver_data:
  assumes "\<And>b. dec (enc b) = Some b"
  shows "deliver dec (map (the \<circ> stream_event \<circ> data_object enc sid) bs) = (concat bs, False)"
  using assms by (induction bs) (simp_all add: data_object_def stream_event_def response_id_def get_str_def)


text \<open>A session whose subscription fails ends without closing the stream it opened.\<close>

theorem failed_subscription_leaks_stream:
  assumes "get_str v ''stream_id'' = Some sid"
  shows "\<exists>requests err. open_session s host p (Inr v) (Inl e) = ([], requests, Inl err) \<and>
    (''proxy.open'', open_params host p) \<in> set requests \<and> (''proxy.close'', stream_params sid) \<notin> set requests"
  using assms by (simp add: open_session_def Let_def)

section \<open>Witnesses\<close>

definition byte_enc :: "u8 list \<Rightarrow> string" where
  "byte_enc b = map byte_char b"

definition byte_dec :: "string \<Rightarrow> u8 list option" where
  "byte_dec s = Some (map char_byte s)"

lemma byte_dec_enc: "byte_dec (byte_enc b) = Some b"
proof -
  have "char_byte (byte_char x) = x" for x
    using unsigned_less [where 'a = nat and w = x] by (simp add: char_byte_def byte_char_def code_def)
  then show ?thesis by (simp add: byte_dec_def byte_enc_def comp_def)
qed

definition demo_line :: "string \<Rightarrow> Value option" where
  "demo_line s =
     (if s = ''a'' then Some (JObject [(''id'', JU64 1), (''result'', JString ''x'')])
      else if s = ''b'' then Some (JObject [(''id'', JU64 2), (''result'', JString ''y'')])
      else if s = ''d'' then Some (data_object byte_enc ''s'' [7, 8]) else None)"

lemma demo_trims: "trim ''a'' = ''a''" "trim ''b'' = ''b''" "trim ''d'' = ''d''"
  by code_simp+

lemmas rpc_eval = RpcClient_new_def call_start_def reader_line_def dispatch_def subscribe_def settle_def push_event_def
  response_id_def response_result_def stream_event_def get_str_def demo_line_def demo_trims guarded_def Let_def data_object_def

theorem rpc_answers_match_witness:
  "\<exists>r. exec_all (guarded (rpc_exec demo_line) rpc_ready)
       [CallStart ''m'' JNull None, CallStart ''n'' JNull None, ReaderLine ''b'', ReaderLine ''a''] RpcClient_new = Some r \<and>
     call_outcome (rpc_calls r ! 0) = Some (Inr (JString ''x'')) \<and> call_outcome (rpc_calls r ! 1) = Some (Inr (JString ''y'')) \<and>
     (\<exists>obj. answer_to (call_id (rpc_calls r ! 0)) (drop (call_since (rpc_calls r ! 0)) (rpc_seen r)) = Some obj)"
proof -
  let ?cs = "[CallStart ''m'' JNull None, CallStart ''n'' JNull None, ReaderLine ''b'', ReaderLine ''a'']"
  have "\<exists>r. exec_all (guarded (rpc_exec demo_line) rpc_ready) ?cs RpcClient_new = Some r \<and> length (rpc_calls r) = 2 \<and>
      call_outcome (rpc_calls r ! 0) = Some (Inr (JString ''x'')) \<and> call_outcome (rpc_calls r ! 1) = Some (Inr (JString ''y''))"
    by (simp add: rpc_eval)
  then obtain r where r: "exec_all (guarded (rpc_exec demo_line) rpc_ready) ?cs RpcClient_new = Some r" "length (rpc_calls r) = 2"
    "call_outcome (rpc_calls r ! 0) = Some (Inr (JString ''x''))" "call_outcome (rpc_calls r ! 1) = Some (Inr (JString ''y''))" by blast
  have k: "0 < length (rpc_calls r)" using r(2) by simp
  have "from_wire (Inr (JString ''x''))" by (simp add: from_wire_def)
  with rpc_answers_match [OF guarded_run_reach [OF r(1) reach_refl] k] r(3)
  have "\<exists>obj. answer_to (call_id (rpc_calls r ! 0)) (drop (call_since (rpc_calls r ! 0)) (rpc_seen r)) = Some obj" by blast
  with r(1,3,4) show ?thesis by blast
qed


end
