(* ===== verification/Bootstrap.thy ===== *)
theory Bootstrap
  imports Controller Rust_Env
begin

text \<open>
  Model of \<open>app/src/remote/bootstrap.rs\<close>: probing the remote platform, providing the daemon binary, uploading it, installing the
  relay metadata and the hello handshake. The local files are a map; running a program is an argument that returns how it ended and
  the files afterwards. Further arguments are the environment variables, the JSON parsers, SHA-256, the clock, and which file operations fail.
\<close>

unbundle bit_operations_syntax

section \<open>Errors and programs\<close>

datatype BootstrapError =
    SshFailed string string
  | ScpFailed string string
  | BootTimeout string nat
  | UnsupportedPlatform string string
  | ProbeFailed string
  | DownloadFailed string
  | ChecksumMismatch
  | BootHelloFailed string
  | MissingCapability string
  | IoError string

fun BootstrapError_str :: "BootstrapError \<Rightarrow> string" where
  "BootstrapError_str (SshFailed status stderr) = ''SSH failed ('' @ status @ ''): '' @ trim stderr"
| "BootstrapError_str (ScpFailed status stderr) = ''SCP failed ('' @ status @ ''): '' @ trim stderr"
| "BootstrapError_str (BootTimeout operation seconds) = operation @ '' timed out after '' @ nat_str seconds @ ''s''"
| "BootstrapError_str (UnsupportedPlatform os arch) = ''unsupported platform: '' @ os @ ''-'' @ arch"
| "BootstrapError_str (ProbeFailed detail) = ''platform probe failed: '' @ detail"
| "BootstrapError_str (DownloadFailed detail) = ''binary download failed: '' @ detail"
| "BootstrapError_str ChecksumMismatch = ''binary checksum mismatch''"
| "BootstrapError_str (BootHelloFailed detail) = ''daemon hello failed: '' @ detail"
| "BootstrapError_str (MissingCapability capability) = ''daemon missing required capability: '' @ capability"
| "BootstrapError_str (IoError e) = ''I/O error: '' @ e"

record LocalFile =
  file_content :: string
  file_mode :: u32

type_synonym disk = "string \<rightharpoonup> LocalFile"

datatype run_outcome =
    SpawnError string
  | TimedOut
  | WaitError string
  | Exit bool string string string

record SshOutput =
  out_stdout :: string
  out_stderr :: string
  out_status :: string

record DaemonManifest =
  schema_version :: u32
  app_version :: string
  release_tag :: string
  release_url :: string
  manifest_entries :: "ManifestEntry list"

record host =
  env_var :: environment
  exec_program :: "string \<Rightarrow> string list \<Rightarrow> disk \<Rightarrow> run_outcome \<times> disk"
  mkdir_fails :: "string option"
  chmod_fails :: "string option"
  rename_fails :: "string option"
  parse_json :: "string \<Rightarrow> Value option"
  parse_manifest :: "string \<Rightarrow> DaemonManifest option"
  embedded_manifest :: string
  sha256_hex :: "string \<Rightarrow> string"
  subsec_nanos :: u32

type_synonym 'a boot = "disk \<Rightarrow> (BootstrapError + 'a) \<times> disk"

definition bind_boot :: "'a boot \<Rightarrow> ('a \<Rightarrow> 'b boot) \<Rightarrow> 'b boot" where
  "bind_boot m f fs = (case m fs of (Inl e, fs') \<Rightarrow> (Inl e, fs') | (Inr x, fs') \<Rightarrow> f x fs')"

definition ok_boot :: "'a \<Rightarrow> 'a boot" where
  "ok_boot x fs = (Inr x, fs)"

definition fail_boot :: "BootstrapError \<Rightarrow> 'a boot" where
  "fail_boot e fs = (Inl e, fs)"

text \<open>Only the exit status of ssh and scp is looked at.\<close>

definition run_command :: "host \<Rightarrow> string \<Rightarrow> string list \<Rightarrow> nat \<Rightarrow> SshOutput boot" where
  "run_command h prog args timeout fs =
     (case exec_program h prog args fs of
        (SpawnError e, fs') \<Rightarrow> (Inl (IoError e), fs')
      | (TimedOut, fs') \<Rightarrow> (Inl (BootTimeout prog timeout), fs')
      | (WaitError e, fs') \<Rightarrow> (Inl (IoError e), fs')
      | (Exit success status out err, fs') \<Rightarrow>
          if prog = ''ssh'' \<and> \<not> success then (Inl (SshFailed status err), fs')
          else if prog = ''scp'' \<and> \<not> success then (Inl (ScpFailed status err), fs')
          else (Inr \<lparr>out_stdout = out, out_stderr = err, out_status = status\<rparr>, fs'))"

definition run_ssh :: "host \<Rightarrow> RemoteConfiguration \<Rightarrow> string \<Rightarrow> string list \<Rightarrow> nat \<Rightarrow> SshOutput boot" where
  "run_ssh h cfg remote_command extra_args timeout =
     run_command h ''ssh'' (ssh_batch_args cfg @ extra_args @ [destination cfg, remote_command]) timeout"

definition run_scp :: "host \<Rightarrow> string list \<Rightarrow> nat \<Rightarrow> SshOutput boot" where
  "run_scp h args timeout = run_command h ''scp'' args timeout"

section \<open>The platform\<close>

record ProbeResult =
  probe_os :: string
  probe_arch :: string
  binary_exists :: bool

definition sh_c :: "string \<Rightarrow> string" where
  "sh_c script = ''sh -c '' @ single_quote script"

fun probe_lines :: "string list \<Rightarrow> string option \<times> string option \<times> bool \<Rightarrow> string option \<times> string option \<times> bool" where
  "probe_lines [] r = r"
| "probe_lines (l # ls) (os, arch, found) =
     probe_lines ls
       (case strip_prefix ''__LIMUX_REMOTE_OS__='' l of
          Some v \<Rightarrow> (Some v, arch, found)
        | None \<Rightarrow>
            (case strip_prefix ''__LIMUX_REMOTE_ARCH__='' l of
               Some v \<Rightarrow> (os, Some v, found)
             | None \<Rightarrow>
                 (case strip_prefix ''__LIMUX_REMOTE_EXISTS__='' l of
                    Some v \<Rightarrow> (os, arch, trim v = ''yes'')
                  | None \<Rightarrow> (os, arch, found))))"

definition go_os_of :: "string \<Rightarrow> string option" where
  "go_os_of raw =
     (let l = to_lowercase raw in if l \<in> {''linux'', ''darwin'', ''freebsd''} then Some l else None)"

definition go_arch_of :: "string \<Rightarrow> string option" where
  "go_arch_of raw =
     (let l = to_lowercase raw in
      if l = ''x86_64'' \<or> l = ''amd64'' then Some ''amd64''
      else if l = ''aarch64'' \<or> l = ''arm64'' then Some ''arm64''
      else if l = ''armv7l'' then Some ''arm''
      else None)"

definition parse_probe :: "string \<Rightarrow> BootstrapError + ProbeResult" where
  "parse_probe out =
     (case probe_lines (lines out) (None, None, False) of
        (None, _, _) \<Rightarrow> Inl (ProbeFailed ''missing __LIMUX_REMOTE_OS__ in probe output'')
      | (Some raw_os, None, _) \<Rightarrow> Inl (ProbeFailed ''missing __LIMUX_REMOTE_ARCH__ in probe output'')
      | (Some raw_os, Some raw_arch, found) \<Rightarrow>
          (case go_os_of raw_os of
             None \<Rightarrow> Inl (UnsupportedPlatform raw_os raw_arch)
           | Some os \<Rightarrow>
               (case go_arch_of raw_arch of
                  None \<Rightarrow> Inl (UnsupportedPlatform raw_os raw_arch)
                | Some arch \<Rightarrow> Inr \<lparr>probe_os = os, probe_arch = arch, binary_exists = found\<rparr>)))"

definition probe_script :: "string \<Rightarrow> string" where
  "probe_script version =
     join [CHR 0x0A]
     [''limux_uname_os='' @ [CHR 0x22] @ ''$(uname -s)'' @ [CHR 0x22],
      ''limux_uname_arch='' @ [CHR 0x22] @ ''$(uname -m)'' @ [CHR 0x22],
      ''printf '' @ [CHR 0x27] @ ''%s%s'' @ [CHR 0x5C] @ ''n'' @ [CHR 0x27] @ '' '' @ [CHR 0x27] @ ''__LIMUX_REMOTE_OS__='' @ [CHR 0x27] @ '' '' @ [CHR 0x22] @ ''$limux_uname_os'' @ [CHR 0x22],
      ''printf '' @ [CHR 0x27] @ ''%s%s'' @ [CHR 0x5C] @ ''n'' @ [CHR 0x27] @ '' '' @ [CHR 0x27] @ ''__LIMUX_REMOTE_ARCH__='' @ [CHR 0x27] @ '' '' @ [CHR 0x22] @ ''$limux_uname_arch'' @ [CHR 0x22],
      ''case '' @ [CHR 0x22] @ ''$(printf '' @ [CHR 0x27] @ ''%s'' @ [CHR 0x27] @ '' '' @ [CHR 0x22] @ ''$limux_uname_os'' @ [CHR 0x22] @ '' | tr '' @ [CHR 0x27] @ ''[:upper:]'' @ [CHR 0x27] @ '' '' @ [CHR 0x27] @ ''[:lower:]'' @ [CHR 0x27] @ '')'' @ [CHR 0x22] @ '' in'',
      ''  linux|darwin|freebsd) limux_go_os='' @ [CHR 0x22] @ ''$(printf '' @ [CHR 0x27] @ ''%s'' @ [CHR 0x27] @ '' '' @ [CHR 0x22] @ ''$limux_uname_os'' @ [CHR 0x22] @ '' | tr '' @ [CHR 0x27] @ ''[:upper:]'' @ [CHR 0x27] @ '' '' @ [CHR 0x27] @ ''[:lower:]'' @ [CHR 0x27] @ '')'' @ [CHR 0x22] @ '' ;;'',
      ''  *) exit 70 ;;'',
      ''esac'',
      ''case '' @ [CHR 0x22] @ ''$(printf '' @ [CHR 0x27] @ ''%s'' @ [CHR 0x27] @ '' '' @ [CHR 0x22] @ ''$limux_uname_arch'' @ [CHR 0x22] @ '' | tr '' @ [CHR 0x27] @ ''[:upper:]'' @ [CHR 0x27] @ '' '' @ [CHR 0x27] @ ''[:lower:]'' @ [CHR 0x27] @ '')'' @ [CHR 0x22] @ '' in'',
      ''  x86_64|amd64) limux_go_arch=amd64 ;;'',
      ''  aarch64|arm64) limux_go_arch=arm64 ;;'',
      ''  armv7l) limux_go_arch=arm ;;'',
      ''  *) exit 71 ;;'',
      ''esac'',
      ''limux_remote_path='' @ [CHR 0x22] @ ''$HOME/.limux/bin/limuxd-remote/'' @ version @ ''/${limux_go_os}-${limux_go_arch}/limuxd-remote'' @ [CHR 0x22],
      ''if [ -x '' @ [CHR 0x22] @ ''$limux_remote_path'' @ [CHR 0x22] @ '' ]; then'',
      ''  printf '' @ [CHR 0x27] @ ''%syes'' @ [CHR 0x5C] @ ''n'' @ [CHR 0x27] @ '' '' @ [CHR 0x27] @ ''__LIMUX_REMOTE_EXISTS__='' @ [CHR 0x27],
      ''else'',
      ''  printf '' @ [CHR 0x27] @ ''%sno'' @ [CHR 0x5C] @ ''n'' @ [CHR 0x27] @ '' '' @ [CHR 0x27] @ ''__LIMUX_REMOTE_EXISTS__='' @ [CHR 0x27],
      ''fi'']"

definition probe_remote_platform :: "host \<Rightarrow> RemoteConfiguration \<Rightarrow> string \<Rightarrow> ProbeResult boot" where
  "probe_remote_platform h cfg version =
     bind_boot (run_ssh h cfg (sh_c (probe_script version)) [] 20) (\<lambda>out fs. (parse_probe (out_stdout out), fs))"

section \<open>The local binary\<close>

definition cache_dir :: "host \<Rightarrow> string" where
  "cache_dir h =
     (let base = (case env_var h ''XDG_CACHE_HOME'' of
                    Some d \<Rightarrow> d
                  | None \<Rightarrow> path_join (unwrap_or (env_var h ''HOME'') ''/tmp'') ''.cache'')
      in path_join (path_join base ''limux'') ''remote-daemons'')"

definition cached_binary_path :: "host \<Rightarrow> string \<Rightarrow> string \<Rightarrow> string \<Rightarrow> string" where
  "cached_binary_path h os arch version =
     path_join (path_join (path_join (cache_dir h) version) (os @ ''-'' @ arch)) ''limuxd-remote''"

definition download_binary :: "host \<Rightarrow> string \<Rightarrow> string \<Rightarrow> unit boot" where
  "download_binary h url dest fs =
     (case run_command h ''curl'' [''-fsSL'', ''-o'', dest, url] 120 fs of
        (Inr _, fs') \<Rightarrow> (Inr (), fs')
      | (Inl _, fs') \<Rightarrow>
          (case run_command h ''wget'' [''-q'', ''-O'', dest, url] 120 fs' of
             (Inr _, fs'') \<Rightarrow> (Inr (), fs'')
           | (Inl _, fs'') \<Rightarrow> (Inl (DownloadFailed (''both curl and wget failed for '' @ url)), fs'')))"

definition verify_sha256 :: "host \<Rightarrow> string \<Rightarrow> string \<Rightarrow> unit boot" where
  "verify_sha256 h path expected fs =
     (case fs path of
        None \<Rightarrow> (Inl (IoError ''No such file or directory (os error 2)''), fs)
      | Some f \<Rightarrow>
          if sha256_hex h (file_content f) \<noteq> to_lowercase expected then (Inl ChecksumMismatch, fs(path := None))
          else (Inr (), fs))"

definition load_manifest :: "host \<Rightarrow> string \<Rightarrow> DaemonManifest boot" where
  "load_manifest h version fs =
     (let live =
        (let url = ''https://github.com/RyantHults/limux/releases/download/limuxd-remote-v'' @ version @ ''/limuxd-remote-manifest.json'';
             tmp = path_join (cache_dir h) (''manifest-'' @ version @ ''.json.tmp'')
         in bind_boot (download_binary h url tmp) (\<lambda>_ fs.
              (case fs tmp of
                 None \<Rightarrow> (Inl (DownloadFailed ''read manifest: No such file or directory (os error 2)''), fs)
               | Some f \<Rightarrow>
                   (case parse_manifest h (file_content f) of
                      None \<Rightarrow> (Inl (DownloadFailed ''parse manifest''), fs(tmp := None))
                    | Some m \<Rightarrow> (Inr m, fs(tmp := None))))) fs)
      in if embedded_manifest h \<noteq> [] then
           (case parse_manifest h (embedded_manifest h) of
              Some m \<Rightarrow> if app_version m = version then (Inr m, fs) else live
            | None \<Rightarrow> live)
         else live)"

text \<open>The verified download gets its permissions and moves to its place.\<close>

definition place_binary :: "host \<Rightarrow> string \<Rightarrow> string \<Rightarrow> string boot" where
  "place_binary h tmp path fs =
     (case fs tmp of
        None \<Rightarrow> (Inl (IoError ''No such file or directory (os error 2)''), fs)
      | Some f \<Rightarrow>
          (case chmod_fails h of
             Some e \<Rightarrow> (Inl (IoError e), fs)
           | None \<Rightarrow>
               (case rename_fails h of
                  Some e \<Rightarrow> (Inl (IoError e), fs(tmp \<mapsto> f\<lparr>file_mode := 0x1ED\<rparr>))
                | None \<Rightarrow> (Inr path, fs(tmp := None, path \<mapsto> f\<lparr>file_mode := 0x1ED\<rparr>)))))"

text \<open>\<open>path.with_extension("tmp")\<close> of the cached binary, whose name has no extension.\<close>

definition install_download :: "host \<Rightarrow> string \<Rightarrow> ManifestEntry \<Rightarrow> string boot" where
  "install_download h path entry =
     (let tmp = path @ ''.tmp'' in
      bind_boot (case mkdir_fails h of Some e \<Rightarrow> fail_boot (IoError e) | None \<Rightarrow> ok_boot ()) (\<lambda>_.
      bind_boot (download_binary h (download_url entry) tmp) (\<lambda>_.
      bind_boot (verify_sha256 h tmp (entry_sha256 entry)) (\<lambda>_.
      place_binary h tmp path))))"

definition ensure_local_binary :: "host \<Rightarrow> string \<Rightarrow> string \<Rightarrow> string \<Rightarrow> string boot" where
  "ensure_local_binary h os arch version fs =
     (case env_var h ''LIMUX_REMOTE_DAEMON_BINARY'' of
        Some (c # p) \<Rightarrow>
          (case fs (c # p) of
             None \<Rightarrow> (Inl (DownloadFailed (''LIMUX_REMOTE_DAEMON_BINARY path does not exist: '' @ c # p)), fs)
           | Some f \<Rightarrow>
               if file_mode f AND 0x49 = 0
               then (Inl (DownloadFailed (''LIMUX_REMOTE_DAEMON_BINARY is not executable: '' @ c # p)), fs)
               else (Inr (c # p), fs))
      | _ \<Rightarrow>
          (let path = cached_binary_path h os arch version in
           if fs path \<noteq> None then (Inr path, fs)
           else
             bind_boot (load_manifest h version) (\<lambda>manifest.
               (case find_entry (manifest_entries manifest) os arch of
                  None \<Rightarrow> fail_boot (DownloadFailed (''no manifest entry for '' @ os @ ''-'' @ arch))
                | Some entry \<Rightarrow> install_download h path entry)) fs))"

section \<open>Upload\<close>

definition remote_daemon_path :: "string \<Rightarrow> string \<Rightarrow> string \<Rightarrow> string" where
  "remote_daemon_path os arch version =
     ''$HOME/.limux/bin/limuxd-remote/'' @ version @ ''/'' @ os @ ''-'' @ arch @ ''/limuxd-remote''"

fun hex_digits :: "nat \<Rightarrow> nat \<Rightarrow> string" where
  "hex_digits 0 n = []"
| "hex_digits (Suc w) n = hex_digits w (n div 16) @ [hex_digit (n mod 16)]"

definition upload_scp_args :: "RemoteConfiguration \<Rightarrow> string \<Rightarrow> string \<Rightarrow> string list" where
  "upload_scp_args cfg local_path temp_scp =
     [''-q''] @ host_key_args cfg @ [''-o'', ''ControlMaster=no''] @
     (case port cfg of Some p \<Rightarrow> [''-P'', u16_str p] | None \<Rightarrow> []) @
     (case identity_file cfg of Some i \<Rightarrow> [''-i'', i] | None \<Rightarrow> []) @
     concat (map (\<lambda>opt. [''-o'', opt]) (ssh_options cfg)) @
     [local_path, destination cfg @ '':'' @ temp_scp]"

definition upload_daemon_binary :: "host \<Rightarrow> RemoteConfiguration \<Rightarrow> string \<Rightarrow> string \<Rightarrow> unit boot" where
  "upload_daemon_binary h cfg local_path remote_path =
     (let quote = [CHR 0x27];
          remote_dir = (case rsplit_once (CHR ''/'') remote_path of Some (d, _) \<Rightarrow> d | None \<Rightarrow> ''.'');
          scp_path = unwrap_or (strip_prefix ''$HOME/'' remote_path) remote_path;
          suffix = ''.tmp-'' @ hex_digits 8 (unat (subsec_nanos h));
          temp_remote = remote_path @ suffix
      in bind_boot (run_ssh h cfg (''sh -c '' @ quote @ ''mkdir -p '' @ remote_dir @ quote) [] 12) (\<lambda>_.
         bind_boot (run_scp h (upload_scp_args cfg local_path (scp_path @ suffix)) 45) (\<lambda>_.
         bind_boot (run_ssh h cfg (''sh -c '' @ quote @ ''chmod 755 '' @ temp_remote @ '' && mv '' @ temp_remote @ '' '' @ remote_path @ quote)
             [] 12) (\<lambda>_. ok_boot ()))))"

section \<open>Scripts\<close>

definition wrapper_script :: string where
  "wrapper_script =
     join [CHR 0x0A]
     [''#!/usr/bin/env bash'',
      ''set -euo pipefail'',
      ''daemon='' @ [CHR 0x22] @ ''$HOME/.limux/bin/limuxd-remote-current'' @ [CHR 0x22],
      ''socket_path='' @ [CHR 0x22] @ ''${LIMUX_SOCKET_PATH:-}'' @ [CHR 0x22],
      ''if [ -z '' @ [CHR 0x22] @ ''$socket_path'' @ [CHR 0x22] @ '' ] && [ -r '' @ [CHR 0x22] @ ''$HOME/.limux/socket_addr'' @ [CHR 0x22] @ '' ]; then'',
      ''  socket_path='' @ [CHR 0x22] @ ''$(tr -d '' @ [CHR 0x27, CHR 0x5C] @ ''r'' @ [CHR 0x5C] @ ''n'' @ [CHR 0x27] @ '' < '' @ [CHR 0x22] @ ''$HOME/.limux/socket_addr'' @ [CHR 0x22] @ '')'' @ [CHR 0x22],
      ''fi'',
      ''if [ -n '' @ [CHR 0x22] @ ''$socket_path'' @ [CHR 0x22] @ '' ] && [ '' @ [CHR 0x22] @ ''${socket_path#/}'' @ [CHR 0x22] @ '' = '' @ [CHR 0x22] @ ''$socket_path'' @ [CHR 0x22] @ '' ] && [ '' @ [CHR 0x22] @ ''${socket_path#*:}'' @ [CHR 0x22] @ '' != '' @ [CHR 0x22] @ ''$socket_path'' @ [CHR 0x22] @ '' ]; then'',
      ''  relay_port='' @ [CHR 0x22] @ ''${socket_path##*:}'' @ [CHR 0x22],
      ''  relay_map='' @ [CHR 0x22] @ ''$HOME/.limux/relay/${relay_port}.daemon_path'' @ [CHR 0x22],
      ''  if [ -r '' @ [CHR 0x22] @ ''$relay_map'' @ [CHR 0x22] @ '' ]; then'',
      ''    mapped_daemon='' @ [CHR 0x22] @ ''$(tr -d '' @ [CHR 0x27, CHR 0x5C] @ ''r'' @ [CHR 0x5C] @ ''n'' @ [CHR 0x27] @ '' < '' @ [CHR 0x22] @ ''$relay_map'' @ [CHR 0x22] @ '')'' @ [CHR 0x22],
      ''    if [ -n '' @ [CHR 0x22] @ ''$mapped_daemon'' @ [CHR 0x22] @ '' ] && [ -x '' @ [CHR 0x22] @ ''$mapped_daemon'' @ [CHR 0x22] @ '' ]; then'',
      ''      daemon='' @ [CHR 0x22] @ ''$mapped_daemon'' @ [CHR 0x22],
      ''    fi'',
      ''  fi'',
      ''fi'',
      ''exec '' @ [CHR 0x22] @ ''$daemon'' @ [CHR 0x22] @ '' '' @ [CHR 0x22] @ ''$@'' @ [CHR 0x22],
      []]"

definition install_script :: "u16 \<Rightarrow> string \<Rightarrow> string \<Rightarrow> string \<Rightarrow> string" where
  "install_script p rid tok daemon_path =
     join [CHR 0x0A]
     [''umask 077'',
      ''mkdir -p '' @ [CHR 0x22] @ ''$HOME/.limux'' @ [CHR 0x22] @ '' '' @ [CHR 0x22] @ ''$HOME/.limux/relay'' @ [CHR 0x22] @ '' '' @ [CHR 0x22] @ ''$HOME/.limux/bin'' @ [CHR 0x22],
      ''chmod 700 '' @ [CHR 0x22] @ ''$HOME/.limux/relay'' @ [CHR 0x22],
      ''cat > '' @ [CHR 0x22] @ ''$HOME/.limux/bin/limux'' @ [CHR 0x22] @ '' <<'' @ [CHR 0x27] @ ''LIMUXWRAPPER'' @ [CHR 0x27],
      wrapper_script,
      ''LIMUXWRAPPER'',
      ''chmod 755 '' @ [CHR 0x22] @ ''$HOME/.limux/bin/limux'' @ [CHR 0x22],
      ''printf '' @ [CHR 0x27] @ ''%s'' @ [CHR 0x27] @ '' '' @ [CHR 0x22] @ daemon_path @ [CHR 0x22] @ '' > '' @ [CHR 0x22] @ ''$HOME/.limux/relay/'' @ u16_str p @ ''.daemon_path'' @ [CHR 0x22],
      ''cat > '' @ [CHR 0x22] @ ''$HOME/.limux/relay/'' @ u16_str p @ ''.auth'' @ [CHR 0x22] @ '' <<'' @ [CHR 0x27] @ ''LIMUXRELAYAUTH'' @ [CHR 0x27],
      ''{'' @ [CHR 0x22] @ ''relay_id'' @ [CHR 0x22] @ '':'' @ [CHR 0x22] @ rid @ [CHR 0x22] @ '','' @ [CHR 0x22] @ ''relay_token'' @ [CHR 0x22] @ '':'' @ [CHR 0x22] @ tok @ [CHR 0x22] @ ''}'',
      ''LIMUXRELAYAUTH'',
      ''chmod 600 '' @ [CHR 0x22] @ ''$HOME/.limux/relay/'' @ u16_str p @ ''.auth'' @ [CHR 0x22],
      ''printf '' @ [CHR 0x27] @ ''%s'' @ [CHR 0x27] @ '' '' @ [CHR 0x27] @ ''127.0.0.1:'' @ u16_str p @ [CHR 0x27] @ '' > '' @ [CHR 0x22] @ ''$HOME/.limux/socket_addr'' @ [CHR 0x22],
      []]"

definition install_remote_metadata :: "host \<Rightarrow> RemoteConfiguration \<Rightarrow> u16 \<Rightarrow> string \<Rightarrow> string \<Rightarrow> string \<Rightarrow> unit boot" where
  "install_remote_metadata h cfg p rid tok daemon_path =
     bind_boot (run_ssh h cfg (sh_c (install_script p rid tok daemon_path)) [] 12) (\<lambda>_. ok_boot ())"

section \<open>Hello\<close>

definition REQUIRED_CAPABILITY :: string where
  "REQUIRED_CAPABILITY = ''proxy.stream.push''"

definition hello_command :: "string \<Rightarrow> string" where
  "hello_command remote_path =
     (let q = [CHR 0x27]; d = [CHR 0x22]; inner = q @ d @ q @ d @ q;
          json = ''{'' @ d @ ''id'' @ d @ '':1,'' @ d @ ''method'' @ d @ '':'' @ d @ ''hello'' @ d @ '','' @ d @ ''params'' @ d @ '':{}}''
      in ''sh -c '' @ q @ ''printf '' @ d @ ''%s'' @ [CHR 0x5C] @ ''n'' @ d @ '' '' @ inner @ json @ inner @ '' | '' @ remote_path @ '' serve --stdio'' @ q)"

fun as_bool :: "Value \<Rightarrow> bool option" where
  "as_bool (JBool b) = Some b"
| "as_bool _ = None"

fun as_array :: "Value \<Rightarrow> Value list option" where
  "as_array (JArray vs) = Some vs"
| "as_array _ = None"

definition jindex :: "Value \<Rightarrow> string \<Rightarrow> Value" where
  "jindex v k = unwrap_or (jget v k) JNull"

definition parse_hello :: "(string \<Rightarrow> Value option) \<Rightarrow> string \<Rightarrow> string \<Rightarrow> BootstrapError + DaemonHello" where
  "parse_hello js remote_path out =
     (case find (\<lambda>l. trim l \<noteq> []) (lines out) of
        None \<Rightarrow> Inl (BootHelloFailed ''empty response from daemon'')
      | Some line \<Rightarrow>
          (case js line of
             None \<Rightarrow> Inl (BootHelloFailed ''invalid JSON'')
           | Some parsed \<Rightarrow>
               if \<not> unwrap_or (as_bool (jindex parsed ''ok'')) False
               then Inl (BootHelloFailed (unwrap_or (as_str (jindex (jindex parsed ''error'') ''message'')) ''unknown error''))
               else
                 (let result = jindex parsed ''result'';
                      caps = List.map_filter as_str (unwrap_or (as_array (jindex result ''capabilities'')) [])
                  in if REQUIRED_CAPABILITY \<notin> set caps then Inl (MissingCapability REQUIRED_CAPABILITY)
                     else Inr \<lparr>hello_name = unwrap_or (as_str (jindex result ''name'')) ''limuxd-remote'',
                       hello_version = unwrap_or (as_str (jindex result ''version'')) ''dev'',
                       hello_capabilities = caps, hello_path = remote_path\<rparr>)))"

definition hello_handshake :: "host \<Rightarrow> RemoteConfiguration \<Rightarrow> string \<Rightarrow> DaemonHello boot" where
  "hello_handshake h cfg remote_path =
     bind_boot (run_ssh h cfg (hello_command remote_path) [''-T'', ''-S'', ''none'', ''-o'', ''RequestTTY=no''] 12)
       (\<lambda>out fs. (parse_hello (parse_json h) remote_path (out_stdout out), fs))"

section \<open>The chain\<close>

text \<open>The handshake; a daemon that was already there and does not answer is replaced once.\<close>

definition greet :: "host \<Rightarrow> RemoteConfiguration \<Rightarrow> ProbeResult \<Rightarrow> string \<Rightarrow> string \<Rightarrow> DaemonHello boot" where
  "greet h cfg probe local_binary remote_path fs =
     (case hello_handshake h cfg remote_path fs of
        (Inr hello, fs') \<Rightarrow> (Inr hello, fs')
      | (Inl e, fs') \<Rightarrow>
          if binary_exists probe
          then bind_boot (upload_daemon_binary h cfg local_binary remote_path) (\<lambda>_. hello_handshake h cfg remote_path) fs'
          else (Inl e, fs'))"

definition bootstrap_daemon :: "host \<Rightarrow> RemoteConfiguration \<Rightarrow> string \<Rightarrow> DaemonHello boot" where
  "bootstrap_daemon h cfg version =
     bind_boot (probe_remote_platform h cfg version) (\<lambda>probe.
       (let remote_path = remote_daemon_path (probe_os probe) (probe_arch probe) version in
        bind_boot (ensure_local_binary h (probe_os probe) (probe_arch probe) version) (\<lambda>local_binary.
        bind_boot (if \<not> binary_exists probe then upload_daemon_binary h cfg local_binary remote_path else ok_boot ()) (\<lambda>_.
        greet h cfg probe local_binary remote_path))))"

end
