(* ===== verification/Bootstrap_Claims.thy ===== *)
theory Bootstrap_Claims
  imports Bootstrap
begin

text \<open>
  A downloaded daemon is only installed when its checksum is the one of the manifest, a bootstrap that succeeds ends with a daemon that
  has the required capability, and the scripts reach the remote shell unchanged. A failing \<open>curl\<close> is taken for a success.
\<close>

section \<open>The chain\<close>

lemma bind_boot_Inr:
  "bind_boot m f fs = (Inr y, fs'') \<longleftrightarrow> (\<exists>x fs'. m fs = (Inr x, fs') \<and> f x fs' = (Inr y, fs''))"
  by (auto simp: bind_boot_def split: prod.splits sum.splits)

lemma bind_boot_step [simp]:
  "m fs = (Inr x, fs') \<Longrightarrow> bind_boot m f fs = f x fs'" "m fs = (Inl e, fs') \<Longrightarrow> bind_boot m f fs = (Inl e, fs')"
  by (simp_all add: bind_boot_def)

lemma verified:
  assumes "verify_sha256 h path expected fs = (Inr u, fs')"
  obtains f where "fs' = fs" "fs path = Some f" "sha256_hex h (file_content f) = to_lowercase expected"
  using assms by (auto simp: verify_sha256_def split: option.splits if_splits)

lemma install_download_verified:
  assumes "install_download h path entry fs = (Inr p, fs')"
  obtains f where "p = path" "fs' path = Some f" "file_mode f = 0x1ED" "sha256_hex h (file_content f) = to_lowercase (entry_sha256 entry)"
proof -
  let ?tmp = "path @ ''.tmp''"
  obtain fs2 fs3 where v: "verify_sha256 h ?tmp (entry_sha256 entry) fs2 = (Inr (), fs3)" and r: "place_binary h ?tmp path fs3 = (Inr p, fs')"
    using assms by (auto simp: install_download_def bind_boot_Inr Let_def)
  obtain f where f: "fs3 ?tmp = Some f" "sha256_hex h (file_content f) = to_lowercase (entry_sha256 entry)"
    using v by (rule verified) auto
  with r show ?thesis by (intro that [of "f\<lparr>file_mode := 0x1ED\<rparr>"]) (auto simp: place_binary_def split: option.splits)
qed

text \<open>
  C25. Unless a binary is configured explicitly or cached, the daemon binary that is used is a file whose SHA-256 digest is the one the loaded
  manifest has for the probed platform; it lies at the cache path and is executable.
\<close>

theorem daemon_binary_verified:
  assumes "ensure_local_binary h os arch version fs = (Inr p, fs')"
    "env_var h ''LIMUX_REMOTE_DAEMON_BINARY'' = None \<or> env_var h ''LIMUX_REMOTE_DAEMON_BINARY'' = Some []"
    "fs (cached_binary_path h os arch version) = None"
  shows "p = cached_binary_path h os arch version \<and>
    (\<exists>manifest fs1 entry f. load_manifest h version fs = (Inr manifest, fs1) \<and>
       find_entry (manifest_entries manifest) os arch = Some entry \<and>
       fs' p = Some f \<and> file_mode f = 0x1ED \<and> sha256_hex h (file_content f) = to_lowercase (entry_sha256 entry))"
proof -
  let ?path = "cached_binary_path h os arch version"
  have "bind_boot (load_manifest h version) (\<lambda>manifest.
      (case find_entry (manifest_entries manifest) os arch of
         None \<Rightarrow> fail_boot (DownloadFailed (''no manifest entry for '' @ os @ ''-'' @ arch))
       | Some entry \<Rightarrow> install_download h ?path entry)) fs = (Inr p, fs')"
    using assms by (auto simp: ensure_local_binary_def Let_def)
  then obtain manifest fs1 where l: "load_manifest h version fs = (Inr manifest, fs1)" and
    m: "(case find_entry (manifest_entries manifest) os arch of
         None \<Rightarrow> fail_boot (DownloadFailed (''no manifest entry for '' @ os @ ''-'' @ arch))
       | Some entry \<Rightarrow> install_download h ?path entry) fs1 = (Inr p, fs')"
    unfolding bind_boot_Inr by blast
  obtain entry where e: "find_entry (manifest_entries manifest) os arch = Some entry" "install_download h ?path entry fs1 = (Inr p, fs')"
    using m by (cases "find_entry (manifest_entries manifest) os arch") (simp_all add: fail_boot_def)
  obtain f where "p = ?path" "fs' ?path = Some f" "file_mode f = 0x1ED" "sha256_hex h (file_content f) = to_lowercase (entry_sha256 entry)"
    using e(2) by (rule install_download_verified)
  with l e(1) show ?thesis by blast
qed

lemma parse_hello_ok:
  "parse_hello js path out = Inr hello \<Longrightarrow> REQUIRED_CAPABILITY \<in> set (hello_capabilities hello) \<and> hello_path hello = path"
  by (auto simp: parse_hello_def Let_def split: option.splits if_splits)

lemma hello_ok:
  "hello_handshake h cfg path fs = (Inr hello, fs') \<Longrightarrow>
     REQUIRED_CAPABILITY \<in> set (hello_capabilities hello) \<and> hello_path hello = path"
  by (auto simp: hello_handshake_def bind_boot_Inr dest: parse_hello_ok)

lemma greet_ok:
  assumes "greet h cfg probe local_binary path fs = (Inr hello, fs')"
  shows "REQUIRED_CAPABILITY \<in> set (hello_capabilities hello) \<and> hello_path hello = path"
proof (cases "hello_handshake h cfg path fs")
  case (Pair r fs1)
  then show ?thesis using assms hello_ok
    by (cases r) (auto simp: greet_def bind_boot_Inr split: if_splits)
qed

lemma probe_platform:
  assumes "parse_probe out = Inr probe"
  shows "probe_os probe \<in> {''linux'', ''darwin'', ''freebsd''}" "probe_arch probe \<in> {''amd64'', ''arm64'', ''arm''}"
  using assms by (auto simp: parse_probe_def go_os_of_def go_arch_of_def Let_def split: option.splits prod.splits if_splits)

text \<open>
  C26. When the bootstrap succeeds, the daemon answered the handshake at the path for one of the nine supported platforms and this version,
  and it has the capability the tunnels need; the platform is the one the remote host reported.
\<close>

theorem bootstrap_sound:
  assumes "bootstrap_daemon h cfg version fs = (Inr hello, fs')"
  shows "REQUIRED_CAPABILITY \<in> set (hello_capabilities hello) \<and>
    (\<exists>probe fs1. probe_remote_platform h cfg version fs = (Inr probe, fs1) \<and>
       probe_os probe \<in> {''linux'', ''darwin'', ''freebsd''} \<and> probe_arch probe \<in> {''amd64'', ''arm64'', ''arm''} \<and>
       hello_path hello = remote_daemon_path (probe_os probe) (probe_arch probe) version)"
proof -
  obtain probe fs1 where p: "probe_remote_platform h cfg version fs = (Inr probe, fs1)"
    using assms by (auto simp: bootstrap_daemon_def bind_boot_Inr)
  let ?path = "remote_daemon_path (probe_os probe) (probe_arch probe) version"
  obtain local_binary fs2 where g: "greet h cfg probe local_binary ?path fs2 = (Inr hello, fs')"
    using assms p by (auto simp: bootstrap_daemon_def bind_boot_Inr Let_def)
  have "REQUIRED_CAPABILITY \<in> set (hello_capabilities hello) \<and> hello_path hello = ?path"
    using greet_ok [OF g] .
  moreover obtain out where "parse_probe out = Inr probe"
    using p by (auto simp: probe_remote_platform_def bind_boot_Inr)
  ultimately show ?thesis using p probe_platform by blast
qed

section \<open>Scripts\<close>

text \<open>
  Every script that is passed to the remote shell, the probe and the installation with its credentials, arrives as one word, unchanged,
  quotes and newlines included.
\<close>

theorem remote_script_intact: "sh_words Plain None (sh_c script) = Some [''sh'', ''-c'', script]"
proof -
  have "sh_words Plain None (''sh -c '' @ single_quote script @ []) = Some [''sh'', ''-c'', script]"
    using sh_words_single_quote [of None script "[]"] by (simp add: shell_special_def is_whitespace_def code_def)
  then show ?thesis by (simp add: sh_c_def)
qed

section \<open>A failing download\<close>

text \<open>
  A \<open>curl\<close> that ends with an error status counts as a finished download, whatever it left behind; \<open>wget\<close> is only tried when \<open>curl\<close> cannot
  be run at all.
\<close>

theorem curl_failure_ignored:
  assumes "exec_program h ''curl'' [''-fsSL'', ''-o'', dest, url] fs = (Exit False status out err, fs')"
  shows "download_binary h url dest fs = (Inr (), fs')"
  using assms by (simp add: download_binary_def run_command_def)

section \<open>Witnesses\<close>

definition demo_host :: "(string \<Rightarrow> string list \<Rightarrow> disk \<Rightarrow> run_outcome \<times> disk) \<Rightarrow> host" where
  "demo_host run = \<lparr>env_var = \<lambda>_. None, exec_program = run, mkdir_fails = None, chmod_fails = None, rename_fails = None,
     parse_json = \<lambda>_. Some (JObject [(''ok'', JBool True), (''result'', JObject [(''capabilities'', JArray [JString REQUIRED_CAPABILITY])])]),
     parse_manifest = \<lambda>_. Some \<lparr>schema_version = 1, app_version = ''1'', release_tag = ''t'', release_url = ''r'', manifest_entries =
       [\<lparr>go_os = ''linux'', go_arch = ''amd64'', download_url = ''u'', entry_sha256 = ''AB''\<rparr>]\<rparr>,
     embedded_manifest = ''m'', sha256_hex = \<lambda>c. if c = ''bin'' then ''ab'' else [], subsec_nanos = 0\<rparr>"

definition demo_run :: "string \<Rightarrow> string list \<Rightarrow> disk \<Rightarrow> run_outcome \<times> disk" where
  "demo_run prog args fs =
     (if prog = ''curl'' then (Exit True [] [] [], fs(args ! 2 \<mapsto> \<lparr>file_content = ''bin'', file_mode = 0\<rparr>))
      else (Exit True [] (join [CHR 0x0A] [''__LIMUX_REMOTE_OS__=Linux'', ''__LIMUX_REMOTE_ARCH__=x86_64'']) [], fs))"

lemma demo_lower: "to_lowercase ''AB'' = ''ab''" "to_lowercase ''Linux'' = ''linux''" "to_lowercase ''x86_64'' = ''x86_64''"
  by code_simp+

lemma demo_download:
  "\<exists>fs'. ensure_local_binary (demo_host demo_run) ''linux'' ''amd64'' ''1'' Map.empty =
     (Inr (cached_binary_path (demo_host demo_run) ''linux'' ''amd64'' ''1''), fs')"
  by (simp add: ensure_local_binary_def load_manifest_def install_download_def place_binary_def verify_sha256_def download_binary_def
      run_command_def bind_boot_def ok_boot_def demo_host_def demo_run_def find_entry_def demo_lower Let_def)

theorem daemon_binary_verified_witness:
  "\<exists>p f fs'. ensure_local_binary (demo_host demo_run) ''linux'' ''amd64'' ''1'' Map.empty = (Inr p, fs') \<and> fs' p = Some f \<and> file_mode f = 0x1ED"
proof -
  obtain p fs' where e: "ensure_local_binary (demo_host demo_run) ''linux'' ''amd64'' ''1'' Map.empty = (Inr p, fs')"
    using demo_download by blast
  have "env_var (demo_host demo_run) x = None" for x by (simp add: demo_host_def)
  with daemon_binary_verified [OF e] e show ?thesis by auto
qed

lemma demo_bootstrap: "\<exists>hello fs'. bootstrap_daemon (demo_host demo_run) cfg ''1'' Map.empty = (Inr hello, fs')"
proof -
  have ssh: "run_ssh (demo_host demo_run) cfg cmd extra t fs = (Inr \<lparr>out_stdout = join [CHR 0x0A] [''__LIMUX_REMOTE_OS__=Linux'',
      ''__LIMUX_REMOTE_ARCH__=x86_64''], out_stderr = [], out_status = []\<rparr>, fs)" for cmd extra t fs
    by (simp add: run_ssh_def run_command_def demo_host_def demo_run_def)
  have "lines (join [CHR 0x0A] [''__LIMUX_REMOTE_OS__=Linux'', ''__LIMUX_REMOTE_ARCH__=x86_64'']) =
      [''__LIMUX_REMOTE_OS__=Linux'', ''__LIMUX_REMOTE_ARCH__=x86_64'']" by code_simp
  then have probe: "parse_probe (join [CHR 0x0A] [''__LIMUX_REMOTE_OS__=Linux'', ''__LIMUX_REMOTE_ARCH__=x86_64'']) =
      Inr \<lparr>probe_os = ''linux'', probe_arch = ''amd64'', binary_exists = False\<rparr>"
    by (simp add: parse_probe_def go_os_of_def go_arch_of_def demo_lower del: join.simps)
  have hello: "\<exists>hello. parse_hello (parse_json (demo_host demo_run)) path
      (join [CHR 0x0A] [''__LIMUX_REMOTE_OS__=Linux'', ''__LIMUX_REMOTE_ARCH__=x86_64'']) = Inr hello" for path
  proof -
    have "find (\<lambda>l. trim l \<noteq> []) (lines (join [CHR 0x0A] [''__LIMUX_REMOTE_OS__=Linux'', ''__LIMUX_REMOTE_ARCH__=x86_64''])) =
        Some ''__LIMUX_REMOTE_OS__=Linux''" by code_simp
    then show ?thesis
      by (simp add: parse_hello_def demo_host_def jindex_def List.map_filter_simps Let_def del: join.simps)
  qed
  have scp: "\<exists>out fs'. run_scp (demo_host demo_run) args t fs = (Inr out, fs')" for args t fs
    by (simp add: run_scp_def run_command_def demo_host_def demo_run_def)
  have up: "\<exists>fs'. upload_daemon_binary (demo_host demo_run) cfg l r fs = (Inr (), fs')" for l r fs
    using scp by (auto simp: upload_daemon_binary_def Let_def bind_boot_def ssh ok_boot_def split: prod.splits sum.splits)
      (metis Inl_Inr_False prod.inject)+
  obtain fs1 where l: "ensure_local_binary (demo_host demo_run) ''linux'' ''amd64'' ''1'' Map.empty =
     (Inr (cached_binary_path (demo_host demo_run) ''linux'' ''amd64'' ''1''), fs1)" using demo_download by blast
  obtain fs2 where u: "upload_daemon_binary (demo_host demo_run) cfg (cached_binary_path (demo_host demo_run) ''linux'' ''amd64'' ''1'')
      (remote_daemon_path ''linux'' ''amd64'' ''1'') fs1 = (Inr (), fs2)" using up by blast
  obtain hi where "parse_hello (parse_json (demo_host demo_run)) (remote_daemon_path ''linux'' ''amd64'' ''1'')
      (join [CHR 0x0A] [''__LIMUX_REMOTE_OS__=Linux'', ''__LIMUX_REMOTE_ARCH__=x86_64'']) = Inr hi" using hello by blast
  then show ?thesis
    by (simp add: bootstrap_daemon_def greet_def probe_remote_platform_def hello_handshake_def ssh probe l u Let_def del: join.simps)
qed

theorem bootstrap_sound_witness:
  "\<exists>hello fs'. bootstrap_daemon (demo_host demo_run)
       \<lparr>destination = ''h'', port = None, identity_file = None, ssh_options = [], terminal_startup_command = None, relay_port = None,
        relay_id = None, relay_token = None, local_socket_path = None\<rparr> ''1'' Map.empty = (Inr hello, fs') \<and>
     REQUIRED_CAPABILITY \<in> set (hello_capabilities hello)"
  using demo_bootstrap bootstrap_sound by blast

end
