(* ===== verification/Sidebar.thy ===== *)
theory Sidebar
  imports Window_Machine Limux_Prelude
begin

text \<open>
  The widget trees that the source builds and searches: type, name, style classes, visibility, text, icon, tooltip, fraction of a progress
  bar and the children in order. A widget without a name answers with its type, as GTK does. \<open>find_widget_by_name\<close> is the search of
  \<open>app/src/util.rs\<close>; a change of the widget it finds is \<open>on_named\<close>.
\<close>

section \<open>Widgets\<close>

datatype Widget =
  Widget (w_type: string) (w_name: string) (w_classes: "string list") (w_shown: bool) (w_text: string)
    (w_icon: string) (w_tip: "string option") (w_fraction: f64) (w_kids: "Widget list")

definition widget :: "string \<Rightarrow> Widget" where
  "widget ty = Widget ty ty [] True [] [] None 0 []"

fun set_name :: "string \<Rightarrow> Widget \<Rightarrow> Widget" where
  "set_name n (Widget ty _ cs s t i tip fr ks) = Widget ty n cs s t i tip fr ks"

fun set_shown :: "bool \<Rightarrow> Widget \<Rightarrow> Widget" where
  "set_shown b (Widget ty n cs _ t i tip fr ks) = Widget ty n cs b t i tip fr ks"

fun set_text :: "string \<Rightarrow> Widget \<Rightarrow> Widget" where
  "set_text x (Widget ty n cs s _ i tip fr ks) = Widget ty n cs s x i tip fr ks"

fun set_icon :: "string \<Rightarrow> Widget \<Rightarrow> Widget" where
  "set_icon x (Widget ty n cs s t _ tip fr ks) = Widget ty n cs s t x tip fr ks"

fun set_tip :: "string option \<Rightarrow> Widget \<Rightarrow> Widget" where
  "set_tip x (Widget ty n cs s t i _ fr ks) = Widget ty n cs s t i x fr ks"

fun set_fraction :: "f64 \<Rightarrow> Widget \<Rightarrow> Widget" where
  "set_fraction x (Widget ty n cs s t i tip _ ks) = Widget ty n cs s t i tip x ks"

fun set_kids :: "Widget list \<Rightarrow> Widget \<Rightarrow> Widget" where
  "set_kids ks (Widget ty n cs s t i tip fr _) = Widget ty n cs s t i tip fr ks"

fun add_css_class :: "string \<Rightarrow> Widget \<Rightarrow> Widget" where
  "add_css_class c (Widget ty n cs s t i tip fr ks) = Widget ty n (if c \<in> set cs then cs else cs @ [c]) s t i tip fr ks"

fun remove_css_class :: "string \<Rightarrow> Widget \<Rightarrow> Widget" where
  "remove_css_class c (Widget ty n cs s t i tip fr ks) = Widget ty n (filter (\<lambda>d. d \<noteq> c) cs) s t i tip fr ks"

definition append_kid :: "Widget \<Rightarrow> Widget \<Rightarrow> Widget" where
  "append_kid k w = set_kids (w_kids w @ [k]) w"

definition prepend_kid :: "Widget \<Rightarrow> Widget \<Rightarrow> Widget" where
  "prepend_kid k w = set_kids (k # w_kids w) w"

named_theorems widget_simps

lemma set_name_fields [widget_simps]:
  "w_type (set_name n w) = w_type w" "w_name (set_name n w) = n" "w_classes (set_name n w) = w_classes w" "w_shown (set_name n w) = w_shown w"
  "w_text (set_name n w) = w_text w" "w_icon (set_name n w) = w_icon w" "w_tip (set_name n w) = w_tip w" "w_kids (set_name n w) = w_kids w"
  by (cases w; simp)+

lemma set_shown_fields [widget_simps]:
  "w_type (set_shown b w) = w_type w" "w_name (set_shown b w) = w_name w" "w_classes (set_shown b w) = w_classes w" "w_shown (set_shown b w) = b"
  "w_text (set_shown b w) = w_text w" "w_icon (set_shown b w) = w_icon w" "w_tip (set_shown b w) = w_tip w" "w_kids (set_shown b w) = w_kids w"
  by (cases w; simp)+

lemma set_text_fields [widget_simps]:
  "w_type (set_text x w) = w_type w" "w_name (set_text x w) = w_name w" "w_classes (set_text x w) = w_classes w" "w_shown (set_text x w) = w_shown w"
  "w_text (set_text x w) = x" "w_icon (set_text x w) = w_icon w" "w_tip (set_text x w) = w_tip w" "w_kids (set_text x w) = w_kids w"
  by (cases w; simp)+

lemma set_icon_fields [widget_simps]:
  "w_type (set_icon x w) = w_type w" "w_name (set_icon x w) = w_name w" "w_classes (set_icon x w) = w_classes w" "w_shown (set_icon x w) = w_shown w"
  "w_text (set_icon x w) = w_text w" "w_icon (set_icon x w) = x" "w_tip (set_icon x w) = w_tip w" "w_kids (set_icon x w) = w_kids w"
  by (cases w; simp)+

lemma set_tip_fields [widget_simps]:
  "w_type (set_tip x w) = w_type w" "w_name (set_tip x w) = w_name w" "w_classes (set_tip x w) = w_classes w" "w_shown (set_tip x w) = w_shown w"
  "w_text (set_tip x w) = w_text w" "w_icon (set_tip x w) = w_icon w" "w_tip (set_tip x w) = x" "w_kids (set_tip x w) = w_kids w"
  by (cases w; simp)+

lemma set_kids_fields [widget_simps]:
  "w_type (set_kids ks w) = w_type w" "w_name (set_kids ks w) = w_name w" "w_classes (set_kids ks w) = w_classes w" "w_shown (set_kids ks w) = w_shown w"
  "w_text (set_kids ks w) = w_text w" "w_icon (set_kids ks w) = w_icon w" "w_tip (set_kids ks w) = w_tip w" "w_kids (set_kids ks w) = ks"
  by (cases w; simp)+

lemma add_css_class_fields [widget_simps]:
  "w_type (add_css_class c w) = w_type w" "w_name (add_css_class c w) = w_name w" "w_shown (add_css_class c w) = w_shown w"
  "set (w_classes (add_css_class c w)) = insert c (set (w_classes w))"
  "w_text (add_css_class c w) = w_text w" "w_icon (add_css_class c w) = w_icon w" "w_tip (add_css_class c w) = w_tip w" "w_kids (add_css_class c w) = w_kids w"
  by (cases w; auto)+

lemma remove_css_class_fields [widget_simps]:
  "w_type (remove_css_class c w) = w_type w" "w_name (remove_css_class c w) = w_name w" "w_shown (remove_css_class c w) = w_shown w"
  "set (w_classes (remove_css_class c w)) = set (w_classes w) - {c}"
  "w_text (remove_css_class c w) = w_text w" "w_icon (remove_css_class c w) = w_icon w" "w_tip (remove_css_class c w) = w_tip w" "w_kids (remove_css_class c w) = w_kids w"
  by (cases w; auto)+

lemma kid_fields [widget_simps]:
  "w_name (append_kid k w) = w_name w" "w_kids (append_kid k w) = w_kids w @ [k]"
  "w_name (prepend_kid k w) = w_name w" "w_kids (prepend_kid k w) = k # w_kids w"
  by (simp_all add: append_kid_def prepend_kid_def widget_simps)

lemma widget_fields [widget_simps]:
  "w_type (widget ty) = ty" "w_name (widget ty) = ty" "w_classes (widget ty) = []" "w_shown (widget ty) = True" "w_text (widget ty) = []"
  "w_icon (widget ty) = []" "w_tip (widget ty) = None" "w_fraction (widget ty) = 0" "w_kids (widget ty) = []"
  by (simp_all add: widget_def)

lemma widget_eqI:
  "w_kids w = ks \<Longrightarrow> set_kids ks w = w"
  by (cases w) simp

section \<open>Search\<close>

fun find_widget_by_name :: "string \<Rightarrow> Widget \<Rightarrow> Widget option" and find_in :: "string \<Rightarrow> Widget list \<Rightarrow> Widget option" where
  "find_widget_by_name nm (Widget ty n cs s t i tip fr ks) = (if n = nm then Some (Widget ty n cs s t i tip fr ks) else find_in nm ks)"
| "find_in nm [] = None"
| "find_in nm (k # ks) = (case find_widget_by_name nm k of Some w \<Rightarrow> Some w | None \<Rightarrow> find_in nm ks)"

fun on_named :: "string \<Rightarrow> (Widget \<Rightarrow> Widget) \<Rightarrow> Widget \<Rightarrow> Widget" and on_first :: "string \<Rightarrow> (Widget \<Rightarrow> Widget) \<Rightarrow> Widget list \<Rightarrow> Widget list" where
  "on_named nm f (Widget ty n cs s t i tip fr ks) =
     (if n = nm then f (Widget ty n cs s t i tip fr ks) else Widget ty n cs s t i tip fr (on_first nm f ks))"
| "on_first nm f [] = []"
| "on_first nm f (k # ks) = (if find_widget_by_name nm k = None then k # on_first nm f ks else on_named nm f k # ks)"

lemma find_widget_by_name_unfold:
  "find_widget_by_name nm w = (if w_name w = nm then Some w else find_in nm (w_kids w))"
  by (cases w) simp

lemma on_named_unfold:
  "on_named nm f w = (if w_name w = nm then f w else set_kids (on_first nm f (w_kids w)) w)"
  by (cases w) simp

text \<open>The widget that is changed is the one that is found.\<close>

lemma find_on_named:
  assumes "\<And>w. w_name w = nm \<Longrightarrow> w_name (f w) = nm"
  shows "find_widget_by_name nm (on_named nm f w) = map_option f (find_widget_by_name nm w)"
    and "find_in nm (on_first nm f ks) = map_option f (find_in nm ks)"
  using assms
  by (induction nm f w and nm f ks rule: on_named_on_first.induct)
    (auto simp: find_widget_by_name_unfold [where w = "_ (Widget _ _ _ _ _ _ _ _ _)"] split: option.splits)

text \<open>
  Model of the rows of \<open>app/src/sidebar.rs\<close>: the widget tree \<open>make_row\<close> builds, the functions that update it, the context menu and the
  rename entry. Sizes, margins and ellipsis are left out; drops on a row are in the theory of the drag targets.
\<close>

section \<open>A row\<close>

definition hidden :: "string \<Rightarrow> Widget \<Rightarrow> Widget" where
  "hidden n w = set_name n (set_shown False w)"

definition row_widgets :: "string \<Rightarrow> Widget" where
  "row_widgets title =
     (let color_indicator = hidden ''workspace-color'' (widget ''GtkBox'');
          pin_icon = hidden ''workspace-pin'' (set_icon ''view-pin-symbolic'' (widget ''GtkImage''));
          label = set_name ''workspace-title'' (set_text title (widget ''GtkLabel''));
          branch_label = hidden ''workspace-branch'' (add_css_class ''dim-label'' (widget ''GtkLabel''));
          remote_icon = hidden ''workspace-remote'' (set_icon ''network-idle-symbolic'' (widget ''GtkImage''));
          bell_indicator = hidden ''workspace-bell'' (add_css_class ''ws-bell'' (set_text [CHR 0xE2, CHR 0x97, CHR 0x8F] (widget ''GtkLabel'')));
          close_btn = set_name ''workspace-close'' (set_tip (Some ''Close workspace'') (add_css_class ''circular''
            (add_css_class ''flat'' (set_icon ''window-close-symbolic'' (widget ''GtkButton'')))));
          hbox = set_kids [color_indicator, pin_icon, label, branch_label, remote_icon, bell_indicator, close_btn] (widget ''GtkBox'');
          detail_box = add_css_class ''workspace-detail'' (hidden ''workspace-detail'' (widget ''GtkBox''));
          vbox = set_kids [hbox, detail_box] (widget ''GtkBox'')
      in set_kids [vbox] (widget ''GtkListBoxRow''))"

record Row =
  row_workspace_id :: WorkspaceId
  row_tree :: Widget

definition make_row :: "WorkspaceId \<Rightarrow> string \<Rightarrow> Row" where
  "make_row i title = \<lparr>row_workspace_id = i, row_tree = row_widgets title\<rparr>"

text \<open>A search in a row starts at its only child.\<close>

definition row_child :: "Widget \<Rightarrow> Widget option" where
  "row_child row = (case w_kids row of c # _ \<Rightarrow> Some c | [] \<Rightarrow> None)"

definition find_child_by_name :: "string \<Rightarrow> Widget \<Rightarrow> Widget option" where
  "find_child_by_name nm row = Option.bind (row_child row) (find_widget_by_name nm)"

definition on_child :: "string \<Rightarrow> (Widget \<Rightarrow> Widget) \<Rightarrow> Widget \<Rightarrow> Widget" where
  "on_child nm f row = (case w_kids row of c # cs \<Rightarrow> set_kids (on_named nm f c # cs) row | [] \<Rightarrow> row)"

section \<open>The header\<close>

definition update_row_title :: "string \<Rightarrow> Widget \<Rightarrow> Widget" where
  "update_row_title title = on_child ''workspace-title'' (\<lambda>w. if w_type w = ''GtkLabel'' then set_text title w else w)"

definition remote_class :: "string \<Rightarrow> Widget \<Rightarrow> Widget" where
  "remote_class c w =
     add_css_class c (foldl (\<lambda>w d. remove_css_class d w) w (filter (\<lambda>d. d \<noteq> c) [''remote-connecting'', ''remote-connected'', ''remote-error'']))"

fun remote_image :: "RemoteConnectionState \<Rightarrow> string option \<Rightarrow> Widget \<Rightarrow> Widget" where
  "remote_image Disconnected detail w =
     remove_css_class ''remote-error'' (remove_css_class ''remote-connected'' (remove_css_class ''remote-connecting'' (set_shown False w)))"
| "remote_image Connecting detail w =
     set_tip (Some (unwrap_or detail ''Connecting...''))
       (remote_class ''remote-connecting'' (set_shown True (set_icon ''network-transmit-receive-symbolic'' w)))"
| "remote_image Connected detail w =
     set_tip (Some (unwrap_or detail ''Connected''))
       (remote_class ''remote-connected'' (set_shown True (set_icon ''network-idle-symbolic'' w)))"
| "remote_image ConnError detail w =
     set_tip (Some (unwrap_or detail ''Connection error''))
       (remote_class ''remote-error'' (set_shown True (set_icon ''network-error-symbolic'' w)))"

definition update_row_remote_state :: "RemoteConnectionState \<Rightarrow> string option \<Rightarrow> Widget \<Rightarrow> Widget" where
  "update_row_remote_state st detail =
     on_named ''workspace-remote'' (\<lambda>w. if w_type w = ''GtkImage'' then remote_image st detail w else w)"

text \<open>The loop over the children of the row's child looks for the label among them.\<close>

fun branch_loop :: "string option \<Rightarrow> Widget list \<Rightarrow> Widget list" where
  "branch_loop b [] = []"
| "branch_loop b (w # ws) =
     (if w_type w = ''GtkLabel'' \<and> w_name w = ''workspace-branch''
      then (case b of Some x \<Rightarrow> set_shown True (set_text x w) | None \<Rightarrow> set_shown False w) # ws
      else w # branch_loop b ws)"

definition update_row_branch :: "string option \<Rightarrow> Widget \<Rightarrow> Widget" where
  "update_row_branch b row =
     (case w_kids row of
        c # cs \<Rightarrow> if w_type c = ''GtkBox'' then set_kids (set_kids (branch_loop b (w_kids c)) c # cs) row else row
      | [] \<Rightarrow> row)"

definition color_box :: "WorkspaceColor option \<Rightarrow> Widget \<Rightarrow> Widget" where
  "color_box c w =
     (let w = foldl (\<lambda>w c. remove_css_class (css_class c) w) w ALL_colors in
      case c of Some c \<Rightarrow> set_shown True (add_css_class (css_class c) w) | None \<Rightarrow> set_shown False w)"

definition update_row_color :: "WorkspaceColor option \<Rightarrow> Widget \<Rightarrow> Widget" where
  "update_row_color c = on_child ''workspace-color'' (color_box c)"

definition update_row_pinned :: "bool \<Rightarrow> Widget \<Rightarrow> Widget" where
  "update_row_pinned pin row =
     on_child ''workspace-close'' (set_shown (\<not> pin)) (on_child ''workspace-pin'' (set_shown pin) row)"

definition update_row_bell :: "bool \<Rightarrow> Widget \<Rightarrow> Widget" where
  "update_row_bell bell = on_child ''workspace-bell'' (set_shown bell)"

section \<open>The detail box\<close>

definition remove_children_by_class :: "string \<Rightarrow> Widget \<Rightarrow> Widget" where
  "remove_children_by_class c box = set_kids (filter (\<lambda>w. c \<notin> set (w_classes w)) (w_kids box)) box"

definition update_detail_visibility :: "Widget \<Rightarrow> Widget" where
  "update_detail_visibility box = set_shown (w_kids box \<noteq> []) box"

definition icon_of :: "string \<Rightarrow> Widget" where
  "icon_of i = set_icon i (widget ''GtkImage'')"

definition status_widget :: "SidebarStatusEntry \<Rightarrow> Widget" where
  "status_widget e =
     (let label = set_text (status_key e @ '': '' @ status_value e) (widget ''GtkLabel'');
          label = (case status_color e of Some c \<Rightarrow> add_css_class (''status-color-'' @ c) label | None \<Rightarrow> label)
      in set_kids ((case status_icon e of Some i \<Rightarrow> [icon_of i] | None \<Rightarrow> []) @ [label])
           (add_css_class ''status-entry'' (widget ''GtkBox'')))"

definition sort_status :: "SidebarStatusEntry list \<Rightarrow> SidebarStatusEntry list" where
  "sort_status es = sort_key (\<lambda>e. - status_priority e) es"

definition update_row_status :: "(string, SidebarStatusEntry) hashmap \<Rightarrow> Widget \<Rightarrow> Widget" where
  "update_row_status entries =
     on_child ''workspace-detail'' (\<lambda>box.
       update_detail_visibility
         (foldl (\<lambda>box e. prepend_kid (status_widget e) box) (remove_children_by_class ''status-entry'' box)
            (sort_status (map snd entries))))"

fun level_icon :: "LogLevel \<Rightarrow> string" where
  "level_icon Info = ''dialog-information-symbolic''"
| "level_icon Progress = ''emblem-synchronizing-symbolic''"
| "level_icon Success = ''emblem-ok-symbolic''"
| "level_icon Warning = ''dialog-warning-symbolic''"
| "level_icon LogError = ''dialog-error-symbolic''"

definition log_widget :: "SidebarLogEntry \<Rightarrow> Widget" where
  "log_widget e =
     set_kids [icon_of (level_icon (log_level e)), add_css_class ''dim-label'' (set_text (log_message e) (widget ''GtkLabel''))]
       (add_css_class (''log-'' @ log_level_str (log_level e)) (add_css_class ''log-entry'' (widget ''GtkBox'')))"

definition update_row_log :: "SidebarLogEntry option \<Rightarrow> Widget \<Rightarrow> Widget" where
  "update_row_log entry =
     on_child ''workspace-detail'' (\<lambda>box.
       update_detail_visibility
         (let box = remove_children_by_class ''log-entry'' box
          in case entry of Some e \<Rightarrow> append_kid (log_widget e) box | None \<Rightarrow> box))"

definition ports_widget :: "u16 list \<Rightarrow> Widget" where
  "ports_widget ports =
     set_kids [icon_of ''network-wired-symbolic'',
       add_css_class ''dim-label'' (set_text (join '' '' (map (\<lambda>p. '':'' @ u16_str p) ports)) (widget ''GtkLabel''))]
       (add_css_class ''ports-entry'' (widget ''GtkBox''))"

definition update_row_ports :: "u16 list \<Rightarrow> Widget \<Rightarrow> Widget" where
  "update_row_ports ports =
     on_child ''workspace-detail'' (\<lambda>box.
       update_detail_visibility
         (let box = remove_children_by_class ''ports-entry'' box
          in if ports \<noteq> [] then prepend_kid (ports_widget ports) box else box))"

definition clamp_unit :: "f64 \<Rightarrow> f64" where
  "clamp_unit x = (if x < 0 then 0 else if x > 1 then 1 else x)"

definition progress_widget :: "SidebarProgressState \<Rightarrow> Widget" where
  "progress_widget st =
     set_kids (set_fraction (clamp_unit (progress_value st)) (widget ''GtkProgressBar'') #
       (case progress_label st of
          Some t \<Rightarrow> [add_css_class ''caption'' (add_css_class ''dim-label'' (set_text t (widget ''GtkLabel'')))]
        | None \<Rightarrow> []))
       (add_css_class ''progress-entry'' (widget ''GtkBox''))"

definition update_row_progress :: "SidebarProgressState option \<Rightarrow> Widget \<Rightarrow> Widget" where
  "update_row_progress st =
     on_child ''workspace-detail'' (\<lambda>box.
       update_detail_visibility
         (let box = remove_children_by_class ''progress-entry'' box
          in case st of Some s \<Rightarrow> append_kid (progress_widget s) box | None \<Rightarrow> box))"

section \<open>Menu and rename\<close>

definition ascii_upper :: "char \<Rightarrow> char" where
  "ascii_upper c = (if 97 \<le> code c \<and> code c \<le> 122 then char_of (code c - 32) else c)"

definition capitalize :: "string \<Rightarrow> string" where
  "capitalize s = (case s of [] \<Rightarrow> [] | c # cs \<Rightarrow> ascii_upper c # cs)"

definition menu_items :: "(string \<times> string) list" where
  "menu_items =
     map (\<lambda>c. (capitalize (color_str c), ''ws.set-color-'' @ color_str c)) ALL_colors @
     [(''None'', ''ws.clear-color''), (''Rename'', ''ws.rename''), (''Pin / Unpin'', ''ws.toggle-pin'')]"

datatype RowAction =
    Run Command
  | StartRename

definition menu_actions :: "WorkspaceId \<Rightarrow> (string \<times> RowAction) list" where
  "menu_actions i =
     map (\<lambda>c. (''set-color-'' @ color_str c, Run (SetWorkspaceColor i (Some c)))) ALL_colors @
     [(''clear-color'', Run (SetWorkspaceColor i None)), (''toggle-pin'', Run (ToggleWorkspacePinned i)), (''rename'', StartRename)]"

text \<open>Choosing an item activates the action of the group \<open>ws\<close> with its name.\<close>

definition choose_item :: "WorkspaceId \<Rightarrow> string \<Rightarrow> RowAction option" where
  "choose_item i label =
     Option.bind (map_of menu_items label) (\<lambda>action. Option.bind (strip_prefix ''ws.'' action) (map_of (menu_actions i)))"

definition commit_rename :: "WorkspaceId \<Rightarrow> string \<Rightarrow> Command option" where
  "commit_rename i name = (if name \<noteq> [] then Some (RenameWorkspace i name) else None)"

section \<open>Updates\<close>

datatype RowUpdate =
    RowTitle string
  | RowRemote RemoteConnectionState "string option"
  | RowBranch "string option"
  | RowColor "WorkspaceColor option"
  | RowPinned bool
  | RowBell bool
  | RowStatus "(string, SidebarStatusEntry) hashmap"
  | RowLog "SidebarLogEntry option"
  | RowPorts "u16 list"
  | RowProgress "SidebarProgressState option"

fun row_update :: "RowUpdate \<Rightarrow> Widget \<Rightarrow> Widget" where
  "row_update (RowTitle t) = update_row_title t"
| "row_update (RowRemote st d) = update_row_remote_state st d"
| "row_update (RowBranch b) = update_row_branch b"
| "row_update (RowColor c) = update_row_color c"
| "row_update (RowPinned p) = update_row_pinned p"
| "row_update (RowBell b) = update_row_bell b"
| "row_update (RowStatus es) = update_row_status es"
| "row_update (RowLog e) = update_row_log e"
| "row_update (RowPorts ps) = update_row_ports ps"
| "row_update (RowProgress s) = update_row_progress s"

text \<open>
  What a row of the sidebar shows: the view of a row, read from its widgets, follows the updates one by one. The branch of a workspace never
  appears, and the status entries stand in the order of increasing priority.
\<close>

section \<open>What is seen\<close>

record RowView =
  view_title :: string
  view_color :: "WorkspaceColor option"
  view_pinned :: bool
  view_closable :: bool
  view_branch :: "string option"
  view_remote :: "(string \<times> string option) option"
  view_bell :: bool
  view_status :: "Widget list"
  view_ports :: "Widget list"
  view_log :: "Widget list"
  view_progress :: "Widget list"
  view_detail :: bool

definition part :: "string \<Rightarrow> Widget \<Rightarrow> Widget" where
  "part nm row = unwrap_or (find_child_by_name nm row) (widget [])"

definition with_class :: "string \<Rightarrow> Widget list \<Rightarrow> Widget list" where
  "with_class c = filter (\<lambda>w. c \<in> set (w_classes w))"

definition seen_color :: "Widget \<Rightarrow> WorkspaceColor option" where
  "seen_color w = (if w_shown w then find (\<lambda>c. css_class c \<in> set (w_classes w)) ALL_colors else None)"

definition seen_remote :: "Widget \<Rightarrow> (string \<times> string option) option" where
  "seen_remote w =
     (if w_shown w then
        map_option (\<lambda>c. (c, w_tip w)) (find (\<lambda>c. c \<in> set (w_classes w)) [''remote-connecting'', ''remote-connected'', ''remote-error''])
      else None)"

definition seen :: "Widget \<Rightarrow> RowView" where
  "seen row =
     (let detail = part ''workspace-detail'' row; branch = part ''workspace-branch'' row in
      \<lparr>view_title = w_text (part ''workspace-title'' row), view_color = seen_color (part ''workspace-color'' row),
       view_pinned = w_shown (part ''workspace-pin'' row), view_closable = w_shown (part ''workspace-close'' row),
       view_branch = (if w_shown branch then Some (w_text branch) else None),
       view_remote = seen_remote (part ''workspace-remote'' row), view_bell = w_shown (part ''workspace-bell'' row),
       view_status = with_class ''status-entry'' (w_kids detail), view_ports = with_class ''ports-entry'' (w_kids detail),
       view_log = with_class ''log-entry'' (w_kids detail), view_progress = with_class ''progress-entry'' (w_kids detail),
       view_detail = w_shown detail\<rparr>)"

section \<open>What should be seen\<close>

definition RowView_new :: "string \<Rightarrow> RowView" where
  "RowView_new title =
     \<lparr>view_title = title, view_color = None, view_pinned = False, view_closable = True, view_branch = None, view_remote = None,
      view_bell = False, view_status = [], view_ports = [], view_log = [], view_progress = [], view_detail = False\<rparr>"

definition refresh_detail :: "RowView \<Rightarrow> RowView" where
  "refresh_detail v = v\<lparr>view_detail := view_status v \<noteq> [] \<or> view_ports v \<noteq> [] \<or> view_log v \<noteq> [] \<or> view_progress v \<noteq> []\<rparr>"

fun remote_view :: "RemoteConnectionState \<Rightarrow> string option \<Rightarrow> (string \<times> string option) option" where
  "remote_view Disconnected d = None"
| "remote_view Connecting d = Some (''remote-connecting'', Some (unwrap_or d ''Connecting...''))"
| "remote_view Connected d = Some (''remote-connected'', Some (unwrap_or d ''Connected''))"
| "remote_view ConnError d = Some (''remote-error'', Some (unwrap_or d ''Connection error''))"

text \<open>The status entries stand with the highest priority last.\<close>

definition shown_status :: "(string, SidebarStatusEntry) hashmap \<Rightarrow> SidebarStatusEntry list" where
  "shown_status es = rev (sort_status (map snd es))"

fun view_update :: "RowUpdate \<Rightarrow> RowView \<Rightarrow> RowView" where
  "view_update (RowTitle t) v = v\<lparr>view_title := t\<rparr>"
| "view_update (RowRemote st d) v = v\<lparr>view_remote := remote_view st d\<rparr>"
| "view_update (RowBranch b) v = v"
| "view_update (RowColor c) v = v\<lparr>view_color := c\<rparr>"
| "view_update (RowPinned p) v = v\<lparr>view_pinned := p, view_closable := \<not> p\<rparr>"
| "view_update (RowBell b) v = v\<lparr>view_bell := b\<rparr>"
| "view_update (RowStatus es) v = refresh_detail (v\<lparr>view_status := map status_widget (shown_status es)\<rparr>)"
| "view_update (RowLog e) v = refresh_detail (v\<lparr>view_log := (case e of Some x \<Rightarrow> [log_widget x] | None \<Rightarrow> [])\<rparr>)"
| "view_update (RowPorts ps) v = refresh_detail (v\<lparr>view_ports := (if ps = [] then [] else [ports_widget ps])\<rparr>)"
| "view_update (RowProgress s) v = refresh_detail (v\<lparr>view_progress := (case s of Some x \<Rightarrow> [progress_widget x] | None \<Rightarrow> [])\<rparr>)"

section \<open>The parts of a row\<close>

record RowParts =
  p_color :: Widget
  p_pin :: Widget
  p_title :: Widget
  p_branch :: Widget
  p_remote :: Widget
  p_bell :: Widget
  p_close :: Widget
  p_detail :: Widget

definition row_of :: "RowParts \<Rightarrow> Widget" where
  "row_of p =
     set_kids [set_kids [set_kids [p_color p, p_pin p, p_title p, p_branch p, p_remote p, p_bell p, p_close p] (widget ''GtkBox''),
       p_detail p] (widget ''GtkBox'')] (widget ''GtkListBoxRow'')"

definition entry_classes :: "string set" where
  "entry_classes = {''status-entry'', ''ports-entry'', ''log-entry'', ''progress-entry''}"

definition one_class :: "Widget list \<Rightarrow> bool" where
  "one_class ks \<longleftrightarrow> (\<forall>w\<in>set ks. \<exists>c\<in>entry_classes. set (w_classes w) \<inter> entry_classes = {c})"

definition parts_ok :: "RowParts \<Rightarrow> bool" where
  "parts_ok p \<longleftrightarrow>
     w_name (p_color p) = ''workspace-color'' \<and> w_name (p_pin p) = ''workspace-pin'' \<and> w_name (p_title p) = ''workspace-title'' \<and>
     w_name (p_branch p) = ''workspace-branch'' \<and> w_name (p_remote p) = ''workspace-remote'' \<and> w_name (p_bell p) = ''workspace-bell'' \<and>
     w_name (p_close p) = ''workspace-close'' \<and> w_name (p_detail p) = ''workspace-detail'' \<and>
     w_type (p_title p) = ''GtkLabel'' \<and> w_type (p_remote p) = ''GtkImage'' \<and> w_type (p_detail p) = ''GtkBox'' \<and>
     (\<forall>w\<in>{p_color p, p_pin p, p_title p, p_branch p, p_remote p, p_bell p, p_close p}. w_kids w = []) \<and>
     one_class (w_kids (p_detail p)) \<and>
     w_shown (p_detail p) = (w_kids (p_detail p) \<noteq> [])"

definition view_of :: "RowParts \<Rightarrow> RowView" where
  "view_of p =
     \<lparr>view_title = w_text (p_title p), view_color = seen_color (p_color p), view_pinned = w_shown (p_pin p), view_closable = w_shown (p_close p),
      view_branch = (if w_shown (p_branch p) then Some (w_text (p_branch p)) else None), view_remote = seen_remote (p_remote p),
      view_bell = w_shown (p_bell p), view_status = with_class ''status-entry'' (w_kids (p_detail p)),
      view_ports = with_class ''ports-entry'' (w_kids (p_detail p)), view_log = with_class ''log-entry'' (w_kids (p_detail p)),
      view_progress = with_class ''progress-entry'' (w_kids (p_detail p)), view_detail = w_shown (p_detail p)\<rparr>"

lemmas search_simps = on_child_def find_child_by_name_def row_child_def row_of_def on_named_unfold find_widget_by_name_unfold widget_simps

lemma on_header:
  assumes "parts_ok p"
  shows "on_child ''workspace-color'' f (row_of p) = row_of (p\<lparr>p_color := f (p_color p)\<rparr>)"
    "on_child ''workspace-pin'' f (row_of p) = row_of (p\<lparr>p_pin := f (p_pin p)\<rparr>)"
    "on_child ''workspace-title'' f (row_of p) = row_of (p\<lparr>p_title := f (p_title p)\<rparr>)"
    "on_child ''workspace-bell'' f (row_of p) = row_of (p\<lparr>p_bell := f (p_bell p)\<rparr>)"
    "on_child ''workspace-close'' f (row_of p) = row_of (p\<lparr>p_close := f (p_close p)\<rparr>)"
    "on_child ''workspace-detail'' f (row_of p) = row_of (p\<lparr>p_detail := f (p_detail p)\<rparr>)"
    "on_named ''workspace-remote'' f (row_of p) = row_of (p\<lparr>p_remote := f (p_remote p)\<rparr>)"
  using assms by (simp_all add: parts_ok_def search_simps widget_def)

lemma seen_parts:
  assumes "parts_ok p"
  shows "seen (row_of p) = view_of p"
  using assms by (simp add: seen_def part_def view_of_def parts_ok_def search_simps Let_def)

section \<open>Entries of the detail box\<close>

definition entries_of :: "string \<Rightarrow> Widget list \<Rightarrow> bool" where
  "entries_of c ws \<longleftrightarrow> c \<in> entry_classes \<and> (\<forall>w\<in>set ws. set (w_classes w) \<inter> entry_classes = {c})"

definition replace_entries :: "string \<Rightarrow> Widget list \<Rightarrow> Widget list \<Rightarrow> Widget list \<Rightarrow> Widget list" where
  "replace_entries c front rear ks = front @ filter (\<lambda>w. c \<notin> set (w_classes w)) ks @ rear"

lemma with_class_filter:
  assumes "one_class ks" "c \<in> entry_classes" "d \<in> entry_classes" "d \<noteq> c"
  shows "with_class d (filter (\<lambda>w. c \<notin> set (w_classes w)) ks) = with_class d ks"
  unfolding with_class_def filter_filter
proof (rule filter_cong [OF refl])
  fix w assume "w \<in> set ks"
  with assms(1) obtain e where "set (w_classes w) \<inter> entry_classes = {e}" by (auto simp: one_class_def)
  with assms(2-4) show "(c \<notin> set (w_classes w) \<and> d \<in> set (w_classes w)) = (d \<in> set (w_classes w))"
    by (metis IntI singletonD)
qed

lemma with_class_entries:
  assumes "entries_of c ws" "d \<in> entry_classes"
  shows "with_class d ws = (if d = c then ws else [])"
proof -
  have "d \<in> set (w_classes w) \<longleftrightarrow> d = c" if "w \<in> set ws" for w
    using assms that by (auto simp: entries_of_def)
  then show ?thesis by (auto simp: with_class_def filter_empty_conv intro!: filter_True)
qed

lemma with_class_replace:
  assumes "one_class ks" "entries_of c front" "entries_of c rear" "d \<in> entry_classes"
  shows "with_class d (replace_entries c front rear ks) = (if d = c then front @ rear else with_class d ks)"
proof -
  have c: "c \<in> entry_classes" using assms(2) by (simp add: entries_of_def)
  have split: "with_class d (replace_entries c front rear ks) =
      with_class d front @ with_class d (filter (\<lambda>w. c \<notin> set (w_classes w)) ks) @ with_class d rear"
    by (simp add: replace_entries_def with_class_def)
  show ?thesis
  proof (cases "d = c")
    case True
    then have "with_class d (filter (\<lambda>w. c \<notin> set (w_classes w)) ks) = []" by (simp add: with_class_def)
    with True split with_class_entries [OF assms(2,4)] with_class_entries [OF assms(3,4)] show ?thesis by simp
  next
    case False
    with split with_class_entries [OF assms(2,4)] with_class_entries [OF assms(3,4)] with_class_filter [OF assms(1) c assms(4)]
    show ?thesis by simp
  qed
qed

lemma one_class_replace:
  "one_class ks \<Longrightarrow> entries_of c front \<Longrightarrow> entries_of c rear \<Longrightarrow> one_class (replace_entries c front rear ks)"
  by (auto simp: one_class_def entries_of_def replace_entries_def)

lemma no_entries:
  assumes "one_class ks"
  shows "ks = [] \<longleftrightarrow> with_class ''status-entry'' ks = [] \<and> with_class ''ports-entry'' ks = [] \<and> with_class ''log-entry'' ks = [] \<and>
    with_class ''progress-entry'' ks = []"
proof (cases ks)
  case (Cons w ws)
  with assms obtain c where "c \<in> entry_classes" "set (w_classes w) \<inter> entry_classes = {c}" by (auto simp: one_class_def)
  then have "with_class c ks \<noteq> []" using Cons by (auto simp: with_class_def)
  with \<open>c \<in> entry_classes\<close> Cons show ?thesis by (auto simp: entry_classes_def)
qed (simp add: with_class_def)

text \<open>Replacing the entries of one class keeps the parts in order and changes that class in the view.\<close>

definition set_entries :: "string \<Rightarrow> Widget list \<Rightarrow> RowView \<Rightarrow> RowView" where
  "set_entries c ws v =
     refresh_detail
       (if c = ''status-entry'' then v\<lparr>view_status := ws\<rparr>
        else if c = ''ports-entry'' then v\<lparr>view_ports := ws\<rparr>
        else if c = ''log-entry'' then v\<lparr>view_log := ws\<rparr>
        else v\<lparr>view_progress := ws\<rparr>)"

lemma detail_step:
  assumes "parts_ok p" "entries_of c front" "entries_of c rear"
    "p' = p\<lparr>p_detail := update_detail_visibility (set_kids (replace_entries c front rear (w_kids (p_detail p))) (p_detail p))\<rparr>"
  shows "parts_ok p' \<and> view_of p' = set_entries c (front @ rear) (view_of p)"
proof -
  let ?ks = "w_kids (p_detail p)"
  have one: "one_class ?ks" using assms(1) by (simp add: parts_ok_def)
  have kids: "w_kids (p_detail p') = replace_entries c front rear ?ks"
    using assms(4) by (simp add: update_detail_visibility_def widget_simps)
  have one': "one_class (w_kids (p_detail p'))" using one_class_replace [OF one assms(2,3)] kids by simp
  have ok: "parts_ok p'"
    using assms(1) one' by (simp add: parts_ok_def assms(4) update_detail_visibility_def widget_simps)
  have c: "c \<in> entry_classes" using assms(2) by (simp add: entries_of_def)
  have shown: "w_shown (p_detail p') \<longleftrightarrow> w_kids (p_detail p') \<noteq> []" using ok by (simp add: parts_ok_def)
  have entries: "with_class d (w_kids (p_detail p')) = (if d = c then front @ rear else with_class d ?ks)" if "d \<in> entry_classes" for d
    using with_class_replace [OF one assms(2,3) that] kids by simp
  have four: "''status-entry'' \<in> entry_classes" "''ports-entry'' \<in> entry_classes" "''log-entry'' \<in> entry_classes" "''progress-entry'' \<in> entry_classes"
    by (simp_all add: entry_classes_def)
  have same: "p_color p' = p_color p" "p_pin p' = p_pin p" "p_title p' = p_title p" "p_branch p' = p_branch p" "p_remote p' = p_remote p"
    "p_bell p' = p_bell p" "p_close p' = p_close p" by (simp_all add: assms(4))
  consider "c = ''status-entry''" | "c = ''ports-entry''" | "c = ''log-entry''" | "c = ''progress-entry''"
    using c by (auto simp: entry_classes_def)
  then have "view_of p' = set_entries c (front @ rear) (view_of p)"
    by cases (simp add: view_of_def set_entries_def refresh_detail_def shown no_entries [OF one'] entries [OF four(1)] entries [OF four(2)]
        entries [OF four(3)] entries [OF four(4)] same, blast?)+
  with ok show ?thesis by blast
qed

lemma entry_widgets:
  "entries_of ''status-entry'' (map status_widget es)" "entries_of ''log-entry'' [log_widget e]" "entries_of ''ports-entry'' [ports_widget ps]"
  "entries_of ''progress-entry'' [progress_widget st]" "c \<in> entry_classes \<Longrightarrow> entries_of c []"
proof -
  show "entries_of ''log-entry'' [log_widget e]"
    by (cases "log_level e") (simp_all add: entries_of_def entry_classes_def log_widget_def widget_simps)
qed (auto simp: entries_of_def entry_classes_def status_widget_def ports_widget_def progress_widget_def widget_simps Let_def)

lemma prepend_all: "w_kids (foldl (\<lambda>b e. prepend_kid (f e) b) box es) = map f (rev es) @ w_kids box"
  "foldl (\<lambda>b e. prepend_kid (f e) b) box es = set_kids (map f (rev es) @ w_kids box) box"
proof -
  show "foldl (\<lambda>b e. prepend_kid (f e) b) box es = set_kids (map f (rev es) @ w_kids box) box"
    by (induction es arbitrary: box) (simp_all add: prepend_kid_def widget_simps widget_eqI, metis set_kids.simps Widget.exhaust_sel)
  then show "w_kids (foldl (\<lambda>b e. prepend_kid (f e) b) box es) = map f (rev es) @ w_kids box" by (simp add: widget_simps)
qed

lemma set_kids_twice [simp]: "set_kids ks (set_kids ls w) = set_kids ks w"
  by (cases w) simp

section \<open>One update\<close>

definition put_entries :: "string \<Rightarrow> Widget list \<Rightarrow> Widget list \<Rightarrow> Widget \<Rightarrow> Widget" where
  "put_entries c front rear box = update_detail_visibility (set_kids (replace_entries c front rear (w_kids box)) box)"

lemma detail_updates:
  "update_row_status es = on_child ''workspace-detail'' (put_entries ''status-entry'' (map status_widget (shown_status es)) [])"
  "update_row_log e = on_child ''workspace-detail'' (put_entries ''log-entry'' [] (case e of Some x \<Rightarrow> [log_widget x] | None \<Rightarrow> []))"
  "update_row_ports ps = on_child ''workspace-detail'' (put_entries ''ports-entry'' (if ps = [] then [] else [ports_widget ps]) [])"
  "update_row_progress st =
     on_child ''workspace-detail'' (put_entries ''progress-entry'' [] (case st of Some x \<Rightarrow> [progress_widget x] | None \<Rightarrow> []))"
  unfolding update_row_status_def update_row_log_def update_row_ports_def update_row_progress_def put_entries_def replace_entries_def
    remove_children_by_class_def prepend_all(2) shown_status_def
  unfolding append_kid_def prepend_kid_def
  by (simp_all add: widget_simps split: option.split)

lemma put_entries_step:
  assumes "parts_ok p" "entries_of c front" "entries_of c rear"
  shows "\<exists>p'. on_child ''workspace-detail'' (put_entries c front rear) (row_of p) = row_of p' \<and> parts_ok p' \<and>
    view_of p' = set_entries c (front @ rear) (view_of p)"
  using detail_step [OF assms refl] on_header(6) [OF assms(1)] by (auto simp: put_entries_def)

lemma entry_classes_mem [simp]:
  "''status-entry'' \<in> entry_classes" "''log-entry'' \<in> entry_classes" "''ports-entry'' \<in> entry_classes" "''progress-entry'' \<in> entry_classes"
  by (simp_all add: entry_classes_def)

lemma color_seen: "seen_color (color_box c w) = c"
proof (cases c)
  case (Some x)
  then show ?thesis by (cases x) (simp_all add: seen_color_def color_box_def ALL_colors_def widget_simps)
qed (simp add: seen_color_def color_box_def widget_simps)

lemma remote_seen: "seen_remote (remote_image st d w) = remote_view st d"
  by (cases st) (simp_all add: seen_remote_def remote_class_def widget_simps)

lemma header_parts:
  "w_name (color_box c w) = w_name w" "w_kids (color_box c w) = w_kids w"
  "w_name (remote_image st d w) = w_name w" "w_kids (remote_image st d w) = w_kids w" "w_type (remote_image st d w) = w_type w"
  by (cases c; simp add: color_box_def ALL_colors_def widget_simps)+ (cases st; simp add: remote_class_def widget_simps)+

lemma branch_not_reached: "parts_ok p \<Longrightarrow> update_row_branch b (row_of p) = row_of p"
  by (simp add: update_row_branch_def row_of_def widget_simps widget_def parts_ok_def)

lemma row_step:
  assumes "parts_ok p"
  shows "\<exists>p'. row_update u (row_of p) = row_of p' \<and> parts_ok p' \<and> view_of p' = view_update u (view_of p)"
proof (cases u)
  case (RowStatus es)
  then show ?thesis using put_entries_step [OF assms entry_widgets(1) entry_widgets(5)] by (simp add: detail_updates set_entries_def)
next
  case (RowLog e)
  then show ?thesis using put_entries_step [OF assms entry_widgets(5) entry_widgets(2)] put_entries_step [OF assms entry_widgets(5) entry_widgets(5), where c = "''log-entry''"]
    by (cases e) (simp_all add: detail_updates set_entries_def)
next
  case (RowPorts ps)
  then show ?thesis using put_entries_step [OF assms entry_widgets(3) entry_widgets(5)] put_entries_step [OF assms entry_widgets(5) entry_widgets(5), where c = "''ports-entry''"]
    by (cases "ps = []") (simp_all add: detail_updates set_entries_def)
next
  case (RowProgress s)
  then show ?thesis using put_entries_step [OF assms entry_widgets(5) entry_widgets(4)] put_entries_step [OF assms entry_widgets(5) entry_widgets(5), where c = "''progress-entry''"]
    by (cases s) (simp_all add: detail_updates set_entries_def)
next
  case (RowBranch b)
  then show ?thesis using assms branch_not_reached by auto
next
  case (RowPinned x)
  let ?p = "p\<lparr>p_pin := set_shown x (p_pin p)\<rparr>"
  have "parts_ok ?p" using assms by (simp add: parts_ok_def widget_simps)
  then show ?thesis using RowPinned assms on_header(2) [OF assms] on_header(5) [of ?p]
    by (intro exI [of _ "?p\<lparr>p_close := set_shown (\<not> x) (p_close p)\<rparr>"])
      (simp add: update_row_pinned_def parts_ok_def view_of_def widget_simps)
next
  case (RowTitle t)
  with assms show ?thesis
    by (intro exI [of _ "p\<lparr>p_title := set_text t (p_title p)\<rparr>"])
      (simp add: update_row_title_def on_header parts_ok_def view_of_def widget_simps)
next
  case (RowRemote st d)
  with assms show ?thesis
    by (intro exI [of _ "p\<lparr>p_remote := remote_image st d (p_remote p)\<rparr>"])
      (simp add: update_row_remote_state_def on_header parts_ok_def view_of_def header_parts remote_seen)
next
  case (RowColor c)
  with assms show ?thesis
    by (intro exI [of _ "p\<lparr>p_color := color_box c (p_color p)\<rparr>"])
      (simp add: update_row_color_def on_header parts_ok_def view_of_def header_parts color_seen)
next
  case (RowBell b)
  with assms show ?thesis
    by (intro exI [of _ "p\<lparr>p_bell := set_shown b (p_bell p)\<rparr>"])
      (simp add: update_row_bell_def on_header parts_ok_def view_of_def widget_simps)
qed

section \<open>Properties\<close>

definition new_parts :: "string \<Rightarrow> RowParts" where
  "new_parts title =
     \<lparr>p_color = hidden ''workspace-color'' (widget ''GtkBox''),
      p_pin = hidden ''workspace-pin'' (set_icon ''view-pin-symbolic'' (widget ''GtkImage'')),
      p_title = set_name ''workspace-title'' (set_text title (widget ''GtkLabel'')),
      p_branch = hidden ''workspace-branch'' (add_css_class ''dim-label'' (widget ''GtkLabel'')),
      p_remote = hidden ''workspace-remote'' (set_icon ''network-idle-symbolic'' (widget ''GtkImage'')),
      p_bell = hidden ''workspace-bell'' (add_css_class ''ws-bell'' (set_text [CHR 0xE2, CHR 0x97, CHR 0x8F] (widget ''GtkLabel''))),
      p_close = set_name ''workspace-close'' (set_tip (Some ''Close workspace'') (add_css_class ''circular''
        (add_css_class ''flat'' (set_icon ''window-close-symbolic'' (widget ''GtkButton''))))),
      p_detail = add_css_class ''workspace-detail'' (hidden ''workspace-detail'' (widget ''GtkBox''))\<rparr>"

lemma new_row: "row_tree (make_row i title) = row_of (new_parts title)" "parts_ok (new_parts title)" "view_of (new_parts title) = RowView_new title"
  by (simp_all add: make_row_def row_widgets_def row_of_def new_parts_def parts_ok_def view_of_def RowView_new_def hidden_def widget_simps
      one_class_def with_class_def seen_color_def seen_remote_def Let_def)

lemma row_run:
  assumes "parts_ok p"
  shows "\<exists>p'. foldl (\<lambda>r u. row_update u r) (row_of p) us = row_of p' \<and> parts_ok p' \<and> view_of p' = foldl (\<lambda>v u. view_update u v) (view_of p) us"
  using assms
proof (induction us arbitrary: p)
  case (Cons u us)
  from row_step [OF Cons.prems] obtain q where "row_update u (row_of p) = row_of q" "parts_ok q" "view_of q = view_update u (view_of p)" by blast
  with Cons.IH [of q] show ?case by simp
qed auto

lemma row_history:
  "\<exists>p. foldl (\<lambda>r u. row_update u r) (row_tree (make_row i title)) us = row_of p \<and> parts_ok p \<and>
     view_of p = foldl (\<lambda>v u. view_update u v) (RowView_new title) us"
  using row_run [OF new_row(2), of title us] by (simp add: new_row)

text \<open>
  C31. What a row of the sidebar shows after any sequence of updates is what the updates say, each replacing what was shown of its kind: the
  title, the colour, the pin with the close button, the bell, the connection with its hint, and the entries for status, ports, log and
  progress; the detail box is visible exactly while it has an entry. An update of the branch changes nothing.
\<close>

theorem row_shows_updates:
  "seen (foldl (\<lambda>r u. row_update u r) (row_tree (make_row i title)) us) = foldl (\<lambda>v u. view_update u v) (RowView_new title) us"
  using row_history [of i title us] seen_parts by auto

text \<open>
  C2. The branch of a workspace never appears in its row: the loop of \<open>update_row_branch\<close> looks for the label among the children of the outer
  box of the row, but the label is inside the header box.
\<close>

theorem branch_never_shown:
  "view_branch (seen (foldl (\<lambda>r u. row_update u r) (row_tree (make_row i title)) us)) = None"
proof -
  have keep: "view_branch (view_update u v) = view_branch v" for u v by (cases u) (simp_all add: refresh_detail_def)
  have "view_branch (foldl (\<lambda>v u. view_update u v) v us) = view_branch v" for v
    by (induction us arbitrary: v) (simp_all add: keep)
  moreover obtain p where "foldl (\<lambda>r u. row_update u r) (row_tree (make_row i title)) us = row_of p" "parts_ok p"
    "view_of p = foldl (\<lambda>v u. view_update u v) (RowView_new title) us"
    using row_history by blast
  ultimately show ?thesis by (simp add: seen_parts RowView_new_def)
qed

text \<open>The status entries appear in the order of increasing priority, so the most important one is the last.\<close>

theorem status_lowest_first: "sorted (map status_priority (shown_status es)) \<and> mset (shown_status es) = mset (map snd es)"
proof -
  have "sorted (map (\<lambda>e. - status_priority e) (sort_status (map snd es)))" by (simp add: sort_status_def)
  then have "sorted_wrt (\<lambda>a b. status_priority b \<le> status_priority a) (sort_status (map snd es))"
    by (simp add: sorted_map)
  then have "sorted (map status_priority (rev (sort_status (map snd es))))"
    by (simp add: sorted_map sorted_wrt_rev)
  then show ?thesis by (simp add: shown_status_def sort_status_def)
qed

text \<open>Every item of the context menu has its action, and the items of the colours set their colour.\<close>

theorem menu_items_bound:
  "choose_item i (capitalize (color_str c)) = Some (Run (SetWorkspaceColor i (Some c))) \<and>
   choose_item i ''None'' = Some (Run (SetWorkspaceColor i None)) \<and> choose_item i ''Rename'' = Some StartRename \<and>
   choose_item i ''Pin / Unpin'' = Some (Run (ToggleWorkspacePinned i))"
proof -
  have cap: "map (\<lambda>c. capitalize (color_str c)) ALL_colors = [''Red'', ''Orange'', ''Yellow'', ''Green'', ''Blue'', ''Purple'', ''Pink'', ''Gray'']"
    by code_simp
  then show ?thesis
    by (cases c) (simp_all add: choose_item_def menu_items_def menu_actions_def ALL_colors_def)
qed

end
