(* ===== verification/Dbus.thy ===== *)
theory Dbus
  imports Socket_Claims
begin

text \<open>
  Model of \<open>app/src/dbus.rs\<close>: the methods of the D-Bus interface on the state of the control socket, the dispatch to the main thread with
  its time limit, and the queue of signals. Starting the service and the D-Bus messages themselves are not modelled.
\<close>

section \<open>Methods\<close>

datatype DbusMethod =
    DPing
  | DVersion
  | DWorkspaceCount
  | DNewWorkspace
  | DListWorkspaces
  | DCurrentWorkspace
  | DSelectWorkspace u32
  | DCloseWorkspace u32
  | DRenameWorkspace u32 string
  | DWorkspaceSetColor u32 string
  | DWorkspacePin u32
  | DToggleSidebar
  | DListPanes u32
  | DFocusPane u32
  | DSplitRight
  | DSplitDown
  | DListSurfaces
  | DSend u32 string
  | DReadScreen u32
  | DOpenBrowser string
  | DNavigate u32 string
  | DBrowserBack u32
  | DBrowserForward u32
  | DBrowserReload u32
  | DGetUrl u32
  | DJsEval u32 string
  | DSetStatus string string string string int
  | DClearStatus string
  | DSetProgress f64 string
  | DClearProgress
  | DLog string string
  | DClearLog
  | DNotifyEnable
  | DNotifyDisable
  | DNotifyStatus
  | DRemoteConnect string u32 string string
  | DRemoteDisconnect u32 bool
  | DRemoteReconnect u32
  | DRemoteStatus u32

datatype DbusValue =
    VUnit
  | VBool bool
  | VU32 u32
  | VStr string
  | VU32s "u32 list"
  | VStrs "string list"
  | VWorkspace u32 string
  | VWorkspaces "(u32 \<times> string \<times> u32 \<times> bool \<times> string) list"

type_synonym dbus_run = "(DbusValue \<times> SockState) run"

definition dbus_win :: "sock_env \<Rightarrow> Command \<Rightarrow> DbusValue \<Rightarrow> SockState \<Rightarrow> dbus_run" where
  "dbus_win env c v st = map_option (\<lambda>aw. (v, st\<lparr>sk_win := aw\<rparr>)) (exec (se_gtk env) c (sk_win st))"

definition nonempty_arg :: "string \<Rightarrow> string option" where
  "nonempty_arg s = (if s = [] then None else Some s)"

definition target_arg :: "u32 \<Rightarrow> WorkspaceId option" where
  "target_arg i = (if i = 0 then None else Some i)"

text \<open>The metadata methods take the focused workspace, or identifier 0 when there is none.\<close>

definition meta_target :: "SockState \<Rightarrow> WorkspaceId" where
  "meta_target st = unwrap_or (focused_workspace_id (sk_win st)) 0"

definition dbus_color :: "string \<Rightarrow> WorkspaceColor option" where
  "dbus_color color = (if color = [] \<or> color = ''none'' then None else from_name color)"

definition dbus_remote_config :: "string \<Rightarrow> u32 \<Rightarrow> string \<Rightarrow> string \<Rightarrow> RemoteConfiguration" where
  "dbus_remote_config dest p idf options =
     \<lparr>destination = dest, port = (if p = 0 then None else Some (ucast p)), identity_file = nonempty_arg idf,
      ssh_options = (if options = [] then [] else split_on (CHR '','') options),
      terminal_startup_command = None, relay_port = None, relay_id = None, relay_token = None, local_socket_path = None\<rparr>"

definition dbus_set_status :: "sock_env \<Rightarrow> string \<Rightarrow> string \<Rightarrow> string \<Rightarrow> string \<Rightarrow> int \<Rightarrow> SockState \<Rightarrow> dbus_run" where
  [simp]: "dbus_set_status env k v icon color prio st =
     dbus_win env (SetStatus (meta_target st) k v (nonempty_arg icon) (nonempty_arg color) prio) VUnit st"

definition dbus_set_progress :: "sock_env \<Rightarrow> f64 \<Rightarrow> string \<Rightarrow> SockState \<Rightarrow> dbus_run" where
  [simp]: "dbus_set_progress env v label st = dbus_win env (SetProgress (meta_target st) v (nonempty_arg label)) VUnit st"

definition dbus_log :: "sock_env \<Rightarrow> string \<Rightarrow> string \<Rightarrow> SockState \<Rightarrow> dbus_run" where
  [simp]: "dbus_log env m level st = dbus_win env (AddLog (meta_target st) m (log_level_from_str level) None (se_now env)) VUnit st"

definition dbus_set_notify :: "bool \<Rightarrow> SockState \<Rightarrow> SockState" where
  [simp]: "dbus_set_notify on st = call_out (TrayNotifications on) (st\<lparr>sk_notify := on\<rparr>)"

fun dbus_method :: "sock_env \<Rightarrow> DbusMethod \<Rightarrow> SockState \<Rightarrow> dbus_run" where
  "dbus_method env DPing st = Some (VStr ''pong'', st)"
| "dbus_method env DVersion st = Some (VStr (''limux '' @ se_version env), st)"
| "dbus_method env DWorkspaceCount st = Some (VU32 (of_nat (length (workspaces (sk_win st)))), st)"
| "dbus_method env DNewWorkspace st = dbus_win env NewWorkspace VUnit st"
| "dbus_method env DListWorkspaces st =
     Some (VWorkspaces (map (\<lambda>(i, title, n, pin, col). (i, title, of_nat n, pin, unwrap_or col [])) (list_workspaces_detailed (sk_win st))), st)"
| "dbus_method env DCurrentWorkspace st =
     (let (i, title) = unwrap_or (current_workspace_info (sk_win st)) (0, []) in Some (VWorkspace i title, st))"
| "dbus_method env (DSelectWorkspace i) st =
     dbus_win env (SelectWorkspaceById i) (VBool (fst (select_workspace_by_id i (sk_win st)))) st"
| "dbus_method env (DCloseWorkspace i) st =
     map_option (\<lambda>(closed, aw). (VBool closed, st\<lparr>sk_win := aw\<rparr>)) (close_workspace_by_id (env_pick (se_gtk env)) i (sk_win st))"
| "dbus_method env (DRenameWorkspace i name) st = dbus_win env (RenameWorkspace i name) VUnit st"
| "dbus_method env (DWorkspaceSetColor i color) st = dbus_win env (SetWorkspaceColor i (dbus_color color)) VUnit st"
| "dbus_method env (DWorkspacePin i) st = dbus_win env (ToggleWorkspacePinned i) VUnit st"
| "dbus_method env DToggleSidebar st = dbus_win env ToggleSidebar VUnit st"
| "dbus_method env (DListPanes i) st = Some (VU32s (unwrap_or (list_panes i (sk_win st)) []), st)"
| "dbus_method env (DFocusPane p) st = dbus_win env (FocusPaneById p) (VBool (fst (focus_pane_by_id p (sk_win st)))) st"
| "dbus_method env DSplitRight st = dbus_win env (SplitFocused Horizontal) VUnit st"
| "dbus_method env DSplitDown st = dbus_win env (SplitFocused Vertical) VUnit st"
| "dbus_method env DListSurfaces st = Some (VStrs (list_surfaces_detailed (se_url env) (sk_win st)), st)"
| "dbus_method env (DSend s text) st =
     (case get_handle (registry (sk_win st)) s of
        Some h \<Rightarrow> Some (VBool True, call_out (SendText h text) st)
      | None \<Rightarrow> Some (VBool False, st))"
| "dbus_method env (DReadScreen s) st = Some (VStr (unwrap_or (read_surface_scrollback (sk_win st) (se_screen env) s) []), st)"
| "dbus_method env (DOpenBrowser url) st = dbus_win env (SplitFocusedBrowser Horizontal url) VUnit st"
| "dbus_method env (DNavigate b url) st = Some (VUnit, call_out (BrowserNavigate b url) st)"
| "dbus_method env (DBrowserBack b) st = Some (VUnit, call_out (BrowserBack b) st)"
| "dbus_method env (DBrowserForward b) st = Some (VUnit, call_out (BrowserForward b) st)"
| "dbus_method env (DBrowserReload b) st = Some (VUnit, call_out (BrowserReload b) st)"
| "dbus_method env (DGetUrl b) st = Some (VStr (unwrap_or (se_url env b) []), st)"
| "dbus_method env (DJsEval b script) st = Some (VUnit, call_out (EvaluateJs b script) st)"
| "dbus_method env (DSetStatus k v icon color prio) st =
     dbus_set_status env k v icon color prio st"
| "dbus_method env (DClearStatus k) st = dbus_win env (ClearStatus (meta_target st) k) VUnit st"
| "dbus_method env (DSetProgress v label) st = dbus_set_progress env v label st"
| "dbus_method env DClearProgress st = dbus_win env (ClearProgress (meta_target st)) VUnit st"
| "dbus_method env (DLog m level) st = dbus_log env m level st"
| "dbus_method env DClearLog st = dbus_win env (ClearLog (meta_target st)) VUnit st"
| "dbus_method env DNotifyEnable st = Some (VUnit, dbus_set_notify True st)"
| "dbus_method env DNotifyDisable st = Some (VUnit, dbus_set_notify False st)"
| "dbus_method env DNotifyStatus st = Some (VBool (sk_notify st), st)"
| "dbus_method env (DRemoteConnect dest p idf options) st =
     (let (fresh, rid, tok) = se_relay env; cfg = dbus_remote_config dest p idf options
      in dbus_win env (NewRemoteWorkspace fresh rid tok cfg) (VU32 (fst (new_remote_workspace fresh rid tok cfg (sk_win st)))) st)"
| "dbus_method env (DRemoteDisconnect i clear) st = dbus_win env (DisconnectRemote (target_arg i) clear) VUnit st"
| "dbus_method env (DRemoteReconnect i) st = dbus_win env (ReconnectRemote (target_arg i)) VUnit st"
| "dbus_method env (DRemoteStatus i) st = Some (VStr (unwrap_or (remote_status_info env (target_arg i) (sk_win st)) ''{}''), st)"

text \<open>
  The closure runs on the main thread in any case; when that takes longer than five seconds the caller gets an error.
\<close>

definition dbus_dispatch :: "sock_env \<Rightarrow> bool \<Rightarrow> DbusMethod \<Rightarrow> SockState \<Rightarrow> ((string + DbusValue) \<times> SockState) run" where
  "dbus_dispatch env late m st =
     map_option (\<lambda>(v, st). (if late then Inl ''dispatch timeout'' else Inr v, st)) (dbus_method env m st)"

section \<open>Signals\<close>

text \<open>
  A broadcast channel for 64 signals with one receiver: a signal that finds it full pushes the oldest one out, and the next receive tells how
  many are gone. Before the forwarder has started there is no channel.
\<close>

datatype DbusSignal =
    SigWorkspaceCreated u32 string
  | SigWorkspaceClosed u32
  | SigWorkspaceSwitched u32
  | SigWorkspaceRenamed u32 string
  | SigBellFired u32 u32
  | SigTitleChanged u32 string
  | SigRemoteStateChanged u32 string string

text \<open>The signals among the effects of the window.\<close>

fun signal_of :: "Effect \<Rightarrow> DbusSignal option" where
  "signal_of (WorkspaceCreated i t) = Some (SigWorkspaceCreated i t)"
| "signal_of (WorkspaceClosed i) = Some (SigWorkspaceClosed i)"
| "signal_of (WorkspaceSwitched i) = Some (SigWorkspaceSwitched i)"
| "signal_of (WorkspaceRenamed i t) = Some (SigWorkspaceRenamed i t)"
| "signal_of (BellFired i s) = Some (SigBellFired i s)"
| "signal_of (TitleChanged s t) = Some (SigTitleChanged s t)"
| "signal_of _ = None"

record SignalBus =
  sb_ready :: bool
  sb_queue :: "DbusSignal list"
  sb_missed :: nat
  sb_sent :: "DbusSignal list"

definition SignalBus_new :: SignalBus where
  "SignalBus_new = \<lparr>sb_ready = False, sb_queue = [], sb_missed = 0, sb_sent = []\<rparr>"

definition SIGNAL_CAPACITY :: nat where
  "SIGNAL_CAPACITY = 64"

definition start_forwarder :: "SignalBus \<Rightarrow> SignalBus" where
  "start_forwarder b = b\<lparr>sb_ready := True\<rparr>"

definition emit_signal :: "DbusSignal \<Rightarrow> SignalBus \<Rightarrow> SignalBus" where
  "emit_signal e b =
     (if \<not> sb_ready b then b
      else if length (sb_queue b) < SIGNAL_CAPACITY then b\<lparr>sb_queue := sb_queue b @ [e]\<rparr>
      else b\<lparr>sb_queue := tl (sb_queue b) @ [e], sb_missed := sb_missed b + 1\<rparr>)"

text \<open>One round of the loop of the forwarder.\<close>

definition forward_one :: "SignalBus \<Rightarrow> SignalBus" where
  "forward_one b =
     (if sb_missed b > 0 then b\<lparr>sb_missed := 0\<rparr>
      else case sb_queue b of
        [] \<Rightarrow> b
      | e # es \<Rightarrow> b\<lparr>sb_queue := es, sb_sent := sb_sent b @ [e]\<rparr>)"

datatype SignalStep =
    Emit DbusSignal
  | Forward

fun signal_step :: "SignalStep \<Rightarrow> SignalBus \<Rightarrow> SignalBus" where
  "signal_step (Emit e) b = emit_signal e b"
| "signal_step Forward b = (if sb_ready b then forward_one b else b)"

text \<open>
  The D-Bus interface and the control socket run the same window commands; where they differ is stated as well. Signals are forwarded in
  order, and none is lost while at most 64 wait.
\<close>

section \<open>The same commands\<close>

text \<open>The method that stands for a subcommand of the client.\<close>

fun dbus_of :: "CliCmd \<Rightarrow> DbusMethod option" where
  "dbus_of (CliWorkspace CliNewWorkspace) = Some DNewWorkspace"
| "dbus_of (CliWorkspace (WorkspaceSetColor i c)) = Some (DWorkspaceSetColor i c)"
| "dbus_of (CliWorkspace (WorkspacePin i)) = Some (DWorkspacePin i)"
| "dbus_of (CliWorkspace (SelectWorkspace i)) = Some (DSelectWorkspace i)"
| "dbus_of (CliWorkspace (FocusPane p)) = Some (DFocusPane p)"
| "dbus_of (CliWorkspace (CliRenameWorkspace i n)) = Some (DRenameWorkspace i n)"
| "dbus_of (CliWorkspace CliToggleSidebar) = Some DToggleSidebar"
| "dbus_of (CliSplit SplitRight) = Some DSplitRight"
| "dbus_of (CliSplit SplitDown) = Some DSplitDown"
| "dbus_of (CliBrowser (OpenBrowser url)) = Some (DOpenBrowser url)"
| "dbus_of (CliRemote (RemoteDisconnect i clear)) = (if i = Some 0 then None else Some (DRemoteDisconnect (unwrap_or i 0) clear))"
| "dbus_of (CliRemote (RemoteReconnect i)) = (if i = Some 0 then None else Some (DRemoteReconnect (unwrap_or i 0)))"
| "dbus_of _ = None"

lemma dbus_state: "map_option snd (dbus_win env c v st) = map_option (\<lambda>aw. st\<lparr>sk_win := aw\<rparr>) (exec (se_gtk env) c (sk_win st))"
  by (cases "exec (se_gtk env) c (sk_win st)") (simp_all add: dbus_win_def)

lemma socket_state: "map_option snd (run_win env c (answer r) st) = map_option (\<lambda>aw. st\<lparr>sk_win := aw\<rparr>) (exec (se_gtk env) c (sk_win st))"
  by (cases "exec (se_gtk env) c (sk_win st)") (simp_all add: run_win_def answer_def)

lemma target_arg_opt: "i \<noteq> Some 0 \<Longrightarrow> target_arg (unwrap_or i 0) = i"
  by (cases i) (auto simp: target_arg_def)

lemma dbus_runs:
  assumes "cli_intent c = Some w" "dbus_of c = Some m"
  shows "\<exists>v. dbus_method env m st = dbus_win env w v st"
proof (cases c)
  case (CliWorkspace d)
  show ?thesis
  proof (cases d)
    case (WorkspaceSetColor i col)
    with CliWorkspace assms obtain cc where "from_name col = Some cc" "w = SetWorkspaceColor i (Some cc)" by auto
    with from_name_word [of col] have "dbus_color col = Some cc" by (auto simp: dbus_color_def)
    with \<open>w = SetWorkspaceColor i (Some cc)\<close> CliWorkspace WorkspaceSetColor assms show ?thesis by auto
  qed (use CliWorkspace assms in \<open>auto split: if_splits\<close>)
next
  case (CliRemote d)
  show ?thesis
  proof (cases d)
    case (RemoteDisconnect i clear)
    with CliRemote assms target_arg_opt [of i] show ?thesis by (cases clear) (auto split: if_splits)
  next
    case (RemoteReconnect i)
    with CliRemote assms target_arg_opt [of i] show ?thesis by (auto split: if_splits)
  qed (use CliRemote assms in auto)
next
  case (CliSplit d)
  with assms show ?thesis by (cases d) auto
next
  case (CliBrowser d)
  with assms show ?thesis by (cases d) (auto split: if_splits)
qed (use assms in auto)



section \<open>Differences\<close>

text \<open>
  Identifiers of workspaces start at 0, but the remote methods take 0 for no workspace: the first workspace cannot be named.
\<close>

theorem dbus_zero_is_focused:
  "dbus_method env (DRemoteDisconnect 0 clear) st = dbus_win env (DisconnectRemote None clear) VUnit st"
  by (simp add: target_arg_def)

text \<open>A port beyond 16 bits is cut off without an error, an option that contains a comma is taken apart.\<close>

theorem dbus_arguments_mangled:
  "port (dbus_remote_config d (p + 0x10000) i os) = (if p + 0x10000 = 0 then None else Some (ucast p))"
  "ssh_options (dbus_remote_config d p i ''Ciphers=aes128-ctr,aes256-ctr'') = [''Ciphers=aes128-ctr'', ''aes256-ctr'']"
proof -
  have "(ucast (p + 0x10000) :: u16) = ucast p"
    by (simp add: word_uint_eq_iff unsigned_ucast_eq uint_word_ariths take_bit_eq_mod mod_mod_cancel mod_add_eq)
  then show "port (dbus_remote_config d (p + 0x10000) i os) = (if p + 0x10000 = 0 then None else Some (ucast p))"
    by (simp add: dbus_remote_config_def)
  have "split_on (CHR '','') ''Ciphers=aes128-ctr,aes256-ctr'' = [''Ciphers=aes128-ctr'', ''aes256-ctr'']" by code_simp
  then show "ssh_options (dbus_remote_config d p i ''Ciphers=aes128-ctr,aes256-ctr'') = [''Ciphers=aes128-ctr'', ''aes256-ctr'']"
    by (simp add: dbus_remote_config_def)
qed

text \<open>A colour with an unknown name removes the colour, where the socket reports an error.\<close>

theorem dbus_unknown_color_clears:
  "dbus_method env (DWorkspaceSetColor i ''magenta'') st = dbus_win env (SetWorkspaceColor i None) VUnit st"
proof -
  have "from_name ''magenta'' = None" by code_simp
  then show ?thesis by (simp add: dbus_color_def)
qed

section \<open>Signals\<close>

definition emitted :: "SignalStep list \<Rightarrow> DbusSignal list" where
  "emitted ss = List.map_filter (\<lambda>s. case s of Emit e \<Rightarrow> Some e | Forward \<Rightarrow> None) ss"

abbreviation run_bus :: "SignalStep list \<Rightarrow> SignalBus \<Rightarrow> SignalBus" where
  "run_bus ss b \<equiv> foldl (\<lambda>b s. signal_step s b) b ss"

lemma emitted_simps [simp]:
  "emitted [] = []" "emitted (Emit e # ss) = e # emitted ss" "emitted (Forward # ss) = emitted ss"
  by (simp_all add: emitted_def List.map_filter_simps)

lemma signal_step_ready [simp]: "sb_ready (signal_step s b) = sb_ready b"
  by (cases s) (auto simp: emit_signal_def forward_one_def split: list.split)

lemma signal_step_sub:
  assumes "sb_ready b" "subseq (sb_sent b @ sb_queue b) es"
  shows "subseq (sb_sent (signal_step s b) @ sb_queue (signal_step s b)) (es @ emitted [s])"
proof (cases s)
  case (Emit e)
  have "subseq (sb_sent b @ sb_queue b @ [e]) (es @ [e])"
    using list_emb_append_mono [OF assms(2), of "[e]" "[e]"] by simp
  moreover have "subseq (sb_sent b @ tl (sb_queue b) @ [e]) (sb_sent b @ sb_queue b @ [e])"
    by (cases "sb_queue b") (auto intro: list_emb_append_mono)
  ultimately show ?thesis using Emit assms(1) by (auto simp: emit_signal_def intro: subseq_order.order_trans)
next
  case Forward
  with assms show ?thesis by (auto simp: forward_one_def split: list.split)
qed

text \<open>
  Whatever the interleaving of emitters and forwarder, the signals that go out are signals that were emitted, each at most once and in
  their order.
\<close>

theorem signals_in_order: "subseq (sb_sent (run_bus ss (start_forwarder SignalBus_new))) (emitted ss)"
proof -
  have "subseq (sb_sent (run_bus ss b) @ sb_queue (run_bus ss b)) (es @ emitted ss)"
    if "sb_ready b" "subseq (sb_sent b @ sb_queue b) es" for b es
    using that
  proof (induction ss arbitrary: b es)
    case (Cons s ss)
    have "emitted (s # ss) = emitted [s] @ emitted ss" by (cases s) simp_all
    with Cons.IH [of "signal_step s b" "es @ emitted [s]"] signal_step_sub [OF Cons.prems, of s] Cons.prems(1) show ?case
      by (simp del: signal_step.simps)
  qed simp
  from this [of "start_forwarder SignalBus_new" "[]"] show ?thesis
    by (simp add: start_forwarder_def SignalBus_new_def) (meson prefixI prefix_imp_subseq subseq_order.order_trans)
qed

text \<open>While at most 64 signals are emitted, none is lost: what has not gone out yet is waiting.\<close>

theorem signals_complete:
  assumes "length (emitted ss) \<le> SIGNAL_CAPACITY"
  shows "sb_sent (run_bus ss (start_forwarder SignalBus_new)) @ sb_queue (run_bus ss (start_forwarder SignalBus_new)) = emitted ss"
proof -
  have "sb_sent (run_bus ss b) @ sb_queue (run_bus ss b) = sb_sent b @ sb_queue b @ emitted ss"
    if "sb_ready b" "sb_missed b = 0" "length (sb_queue b) + length (emitted ss) \<le> SIGNAL_CAPACITY" for b
    using that
  proof (induction ss arbitrary: b)
    case (Cons s ss)
    let ?b = "signal_step s b"
    have "sb_ready ?b" "sb_missed ?b = 0" "length (sb_queue ?b) + length (emitted ss) \<le> SIGNAL_CAPACITY"
      "sb_sent ?b @ sb_queue ?b @ emitted ss = sb_sent b @ sb_queue b @ emitted (s # ss)"
      using Cons.prems by (cases s; auto simp: emit_signal_def forward_one_def split: list.split)+
    with Cons.IH [of ?b] show ?case by (simp del: signal_step.simps)
  qed simp
  from this [of "start_forwarder SignalBus_new"] assms show ?thesis by (simp add: start_forwarder_def SignalBus_new_def)
qed

end
