(* ===== verification/Tray.thy ===== *)
theory Tray
  imports Notify Update_Check Window_Machine
begin

text \<open>
  Model of \<open>app/src/tray.rs\<close> and of the parts of \<open>app/src/main.rs\<close> that feed it: the state shared with the tray thread, the menu it shows and
  the actions on the main thread. The notification switch is also changed by the settings dialog, the socket and D-Bus. The
  StatusNotifierItem protocol is not modelled.
\<close>

section \<open>State\<close>

record TrayWorkspaceEntry =
  te_id :: WorkspaceId
  te_title :: string
  te_bell :: bool

record TrayState =
  tray_workspaces :: "TrayWorkspaceEntry list"
  tray_visible :: bool
  tray_notify :: bool

definition TrayState_new :: TrayState where
  "TrayState_new = \<lparr>tray_workspaces = [], tray_visible = True, tray_notify = True\<rparr>"

definition update_workspaces :: "TrayWorkspaceEntry list \<Rightarrow> TrayState \<Rightarrow> TrayState" where
  "update_workspaces entries st = st\<lparr>tray_workspaces := entries\<rparr>"

definition update_window_visible :: "bool \<Rightarrow> TrayState \<Rightarrow> TrayState" where
  "update_window_visible v st = st\<lparr>tray_visible := v\<rparr>"

definition update_notifications_enabled :: "bool \<Rightarrow> TrayState \<Rightarrow> TrayState" where
  "update_notifications_enabled e st = st\<lparr>tray_notify := e\<rparr>"

section \<open>What the tray shows\<close>

datatype TrayStatus = NeedsAttention | Active

definition tray_status :: "TrayState \<Rightarrow> TrayStatus" where
  "tray_status st = (if \<exists>w\<in>set (tray_workspaces st). te_bell w then NeedsAttention else Active)"

definition tray_description :: "TrayState \<Rightarrow> string" where
  "tray_description st =
     (let n = length (tray_workspaces st) in nat_str n @ '' workspace'' @ (if n = 1 then [] else ''s''))"

datatype TrayAction =
    ToggleWindow
  | SwitchWorkspace WorkspaceId
  | ToggleNotifications
  | Quit

datatype MenuItem =
    Item string TrayAction
  | Separator

definition bell_mark :: string where
  "bell_mark = [CHR 0xF0, CHR 0x9F, CHR 0x94, CHR 0xB4, CHR '' '']"

definition tray_menu :: "TrayState \<Rightarrow> MenuItem list" where
  "tray_menu st =
     [Item (if tray_visible st then ''Hide Window'' else ''Show Window'') ToggleWindow, Separator] @
     map (\<lambda>w. Item (if te_bell w then bell_mark @ te_title w else te_title w) (SwitchWorkspace (te_id w))) (tray_workspaces st) @
     [Separator, Item (if tray_notify st then ''Notifications: On'' else ''Notifications: Off'') ToggleNotifications, Separator, Item ''Quit'' Quit]"

section \<open>The main thread\<close>

text \<open>The window of the toolkit with its visibility, the notification switches and the state of the tray.\<close>

record Shell =
  gtk_visible :: bool
  sh_notify :: Notify
  sh_tray :: TrayState
  sh_commands :: "Command list"
  sh_quit :: bool

definition set_notifications :: "bool \<Rightarrow> Shell \<Rightarrow> Shell" where
  "set_notifications on s =
     s\<lparr>sh_notify := (sh_notify s)\<lparr>notify_enabled := on\<rparr>, sh_tray := update_notifications_enabled on (sh_tray s)\<rparr>"

fun dispatch_to_main :: "TrayAction \<Rightarrow> Shell \<Rightarrow> Shell" where
  "dispatch_to_main ToggleWindow s = s\<lparr>gtk_visible := \<not> gtk_visible s\<rparr>"
| "dispatch_to_main (SwitchWorkspace i) s = s\<lparr>sh_commands := sh_commands s @ [SelectWorkspaceById i]\<rparr>"
| "dispatch_to_main ToggleNotifications s = set_notifications (\<not> notify_enabled (sh_notify s)) s"
| "dispatch_to_main Quit s = s\<lparr>sh_quit := True\<rparr>"

text \<open>Start-up applies the stored preference to the notifier; the tray begins with its own default.\<close>

definition startup :: "Settings \<Rightarrow> Shell" where
  "startup settings =
     \<lparr>gtk_visible = True, sh_notify = Notify_new\<lparr>notify_enabled := notifications_enabled settings\<rparr>, sh_tray = TrayState_new,
      sh_commands = [], sh_quit = False\<rparr>"

text \<open>\<open>connect_is_active_notify\<close>: whether the window has the focus.\<close>

definition active_changed :: "bool \<Rightarrow> Shell \<Rightarrow> Shell" where
  "active_changed a s = s\<lparr>sh_notify := (sh_notify s)\<lparr>window_active := a\<rparr>, sh_tray := update_window_visible a (sh_tray s)\<rparr>"

datatype ShellEvent =
    ActiveChanged bool
  | TrayChosen TrayAction
  | NotificationsSet bool
  | WorkspacesChanged "TrayWorkspaceEntry list"
  | BellRang WorkspaceId Instant

fun shell_event :: "ShellEvent \<Rightarrow> Shell \<Rightarrow> Shell" where
  "shell_event (ActiveChanged a) s = active_changed a s"
| "shell_event (TrayChosen a) s = dispatch_to_main a s"
| "shell_event (NotificationsSet on) s = set_notifications on s"
| "shell_event (WorkspacesChanged es) s = s\<lparr>sh_tray := update_workspaces es (sh_tray s)\<rparr>"
| "shell_event (BellRang w now) s = s\<lparr>sh_notify := send_bell_notification w now (sh_notify s)\<rparr>"

abbreviation run_shell :: "ShellEvent list \<Rightarrow> Shell \<Rightarrow> Shell" where
  "run_shell es s \<equiv> foldl (\<lambda>s e. shell_event e s) s es"

section \<open>Properties\<close>

fun sets_switch :: "ShellEvent \<Rightarrow> bool" where
  "sets_switch (TrayChosen ToggleNotifications) \<longleftrightarrow> True"
| "sets_switch (NotificationsSet on) \<longleftrightarrow> True"
| "sets_switch _ \<longleftrightarrow> False"

lemma bell_keeps_switch [simp]: "notify_enabled (send_bell_notification w now n) = notify_enabled n"
  by (simp add: send_bell_notification_def retain_recent_def Let_def)

lemma switch_step:
  "tray_notify (sh_tray (shell_event e s)) = notify_enabled (sh_notify (shell_event e s)) \<longleftrightarrow>
     sets_switch e \<or> tray_notify (sh_tray s) = notify_enabled (sh_notify s)"
proof (cases e)
  case (TrayChosen a)
  then show ?thesis by (cases a) (simp_all add: set_notifications_def update_notifications_enabled_def)
qed (simp_all add: active_changed_def set_notifications_def update_notifications_enabled_def update_window_visible_def update_workspaces_def)

text \<open>
  The tray shows the state of the notifications exactly when the stored preference is on or the switch was used since the start: with
  notifications turned off in the settings, the menu says that they are on until someone changes them.
\<close>

theorem tray_switch_shown:
  "tray_notify (sh_tray (run_shell es (startup settings))) = notify_enabled (sh_notify (run_shell es (startup settings))) \<longleftrightarrow>
     notifications_enabled settings \<or> (\<exists>e\<in>set es. sets_switch e)"
proof -
  have "tray_notify (sh_tray (run_shell es s)) = notify_enabled (sh_notify (run_shell es s)) \<longleftrightarrow>
      tray_notify (sh_tray s) = notify_enabled (sh_notify s) \<or> (\<exists>e\<in>set es. sets_switch e)" for s
    by (induction es arbitrary: s) (auto simp: switch_step)
  from this [of "startup settings"] show ?thesis by (simp add: startup_def TrayState_new_def)
qed

text \<open>
  The first item of the menu goes by the focus and not by the visibility of the window: for a window that is visible without the focus it reads
  \<open>Show Window\<close>, and choosing it hides the window.
\<close>

theorem show_item_hides:
  assumes "gtk_visible s"
  shows "hd (tray_menu (sh_tray (shell_event (ActiveChanged False) s))) = Item ''Show Window'' ToggleWindow \<and>
    \<not> gtk_visible (shell_event (TrayChosen ToggleWindow) (shell_event (ActiveChanged False) s))"
  using assms by (simp add: active_changed_def update_window_visible_def tray_menu_def)

text \<open>The tray asks for attention exactly while an entry has a bell, and every workspace has its item in the menu.\<close>

theorem menu_lists_workspaces:
  "w \<in> set (tray_workspaces st) \<Longrightarrow> \<exists>l. Item l (SwitchWorkspace (te_id w)) \<in> set (tray_menu st)"
  by (auto simp: tray_menu_def)

end
