(* ===== verification/Browser_Panels.thy ===== *)
theory Browser_Panels
  imports Rust_Env Remote_Config Step_Machine Rust_Map Window_Machine
begin

text \<open>
  Model of \<open>app/src/browser.rs\<close>: the registry of browser panels, the network session they share, proxies, navigation and the find bar. The
  web views are a store: every view has a network session, and a session has the proxy settings that its views use, which is how WebKit
  documents them. Toolbar widgets and the pages themselves are not modelled.
\<close>

section \<open>Addresses\<close>

definition contains_char :: "char \<Rightarrow> string \<Rightarrow> bool" where
  "contains_char c s \<longleftrightarrow> c \<in> set s"

definition normalize_url :: "string \<Rightarrow> string" where
  "normalize_url input =
     (let trimmed = trim input in
      if trimmed = [] then []
      else if starts_with ''http://'' trimmed \<or> starts_with ''https://'' trimmed \<or> starts_with ''file://'' trimmed then trimmed
      else if contains_char (CHR ''.'') trimmed \<and> \<not> contains_char (CHR '' '') trimmed then ''https://'' @ trimmed
      else ''https://www.google.com/search?q='' @ map (\<lambda>c. if c = CHR '' '' then CHR ''+'' else c) trimmed)"

section \<open>Sessions and views\<close>

datatype ProxyMode =
    DefaultProxy
  | NoProxy
  | CustomProxy string

record NetworkSession =
  data_dir :: "string option"
  session_proxy :: ProxyMode

record BrowserEntry =
  webview_ptr :: nat

record Browsers =
  net_sessions :: "NetworkSession list"
  view_session :: "nat list"
  persistent :: "nat option"
  registry :: "(BrowserPanelId, BrowserEntry) hashmap"
  loads :: "(nat \<times> string) list"

definition Browsers_new :: Browsers where
  "Browsers_new = \<lparr>net_sessions = [], view_session = [], persistent = None, registry = [], loads = []\<rparr>"

definition xdg_data_home :: "environment \<Rightarrow> string option" where
  "xdg_data_home env =
     (case env ''XDG_DATA_HOME'' of
        Some (c # p) \<Rightarrow> Some (c # p)
      | _ \<Rightarrow> map_option (\<lambda>h. path_join h ''.local/share'') (env ''HOME''))"

definition build_persistent_session :: "environment \<Rightarrow> bool \<Rightarrow> NetworkSession" where
  "build_persistent_session env mkdir_ok =
     (case xdg_data_home env of
        Some base \<Rightarrow>
          (let d = path_join (path_join base ''limux'') ''web-data''
           in if \<not> mkdir_ok \<or> CHR 0x00 \<in> set d then \<lparr>data_dir = None, session_proxy = DefaultProxy\<rparr>
              else \<lparr>data_dir = Some d, session_proxy = DefaultProxy\<rparr>)
      | None \<Rightarrow> \<lparr>data_dir = None, session_proxy = DefaultProxy\<rparr>)"

definition create_persistent_session :: "environment \<Rightarrow> bool \<Rightarrow> Browsers \<Rightarrow> nat \<times> Browsers" where
  "create_persistent_session env mkdir_ok b =
     (case persistent b of
        Some s \<Rightarrow> (s, b)
      | None \<Rightarrow>
          (let s = length (net_sessions b)
           in (s, b\<lparr>net_sessions := net_sessions b @ [build_persistent_session env mkdir_ok], persistent := Some s\<rparr>)))"

definition set_session_proxy :: "nat \<Rightarrow> ProxyMode \<Rightarrow> Browsers \<Rightarrow> Browsers" where
  "set_session_proxy s m b = b\<lparr>net_sessions := (net_sessions b)[s := (net_sessions b ! s)\<lparr>session_proxy := m\<rparr>]\<rparr>"

definition apply_socks5_proxy :: "nat \<Rightarrow> string \<Rightarrow> Browsers \<Rightarrow> Browsers" where
  "apply_socks5_proxy s uri b = (if CHR 0x00 \<in> set uri then b else set_session_proxy s (CustomProxy uri) b)"

definition clear_proxy :: "nat \<Rightarrow> Browsers \<Rightarrow> Browsers" where
  "clear_proxy s b = set_session_proxy s NoProxy b"

text \<open>The session of a view, \<open>None\<close> for a null pointer.\<close>

definition network_session :: "nat \<Rightarrow> Browsers \<Rightarrow> nat option" where
  "network_session v b = (if v < length (view_session b) then Some (view_session b ! v) else None)"

definition load_uri :: "nat \<Rightarrow> string \<Rightarrow> Browsers \<Rightarrow> Browsers" where
  "load_uri v url b = (if CHR 0x00 \<in> set url then b else b\<lparr>loads := loads b @ [(v, url)]\<rparr>)"

definition create_inner ::
  "environment \<Rightarrow> bool \<Rightarrow> BrowserPanelId \<Rightarrow> string \<Rightarrow> ProxyEndpoint option \<Rightarrow> nat option \<Rightarrow> Browsers \<Rightarrow> Browsers" where
  "create_inner env mkdir_ok i initial_url proxy related b =
     (let (p, b) = create_persistent_session env mkdir_ok b;
          (s, b) = (case proxy of
                      Some ep \<Rightarrow> (p, apply_socks5_proxy p (socks5_uri ep) b)
                    | None \<Rightarrow> (case related of
                        Some opener \<Rightarrow> (unwrap_or (network_session opener b) p, b)
                      | None \<Rightarrow> (p, b)));
          v = length (view_session b);
          b = b\<lparr>view_session := view_session b @ [s]\<rparr>;
          b = (if initial_url \<noteq> [] then load_uri v initial_url b else b)
      in b\<lparr>registry := hm_insert i \<lparr>webview_ptr = v\<rparr> (registry b)\<rparr>)"

definition create :: "environment \<Rightarrow> bool \<Rightarrow> BrowserPanelId \<Rightarrow> string \<Rightarrow> Browsers \<Rightarrow> Browsers" where
  "create env ok i url = create_inner env ok i url None None"

definition create_with_proxy :: "environment \<Rightarrow> bool \<Rightarrow> BrowserPanelId \<Rightarrow> string \<Rightarrow> ProxyEndpoint \<Rightarrow> Browsers \<Rightarrow> Browsers" where
  "create_with_proxy env ok i url ep = create_inner env ok i url (Some ep) None"

definition create_related :: "environment \<Rightarrow> bool \<Rightarrow> BrowserPanelId \<Rightarrow> nat \<Rightarrow> string \<Rightarrow> Browsers \<Rightarrow> Browsers" where
  "create_related env ok i opener url = create_inner env ok i url None (Some opener)"

section \<open>Panels by identifier\<close>

definition with_browser :: "BrowserPanelId \<Rightarrow> (BrowserEntry \<Rightarrow> Browsers \<Rightarrow> Browsers) \<Rightarrow> Browsers \<Rightarrow> Browsers" where
  "with_browser i f b = (case hm_get (registry b) i of Some e \<Rightarrow> f e b | None \<Rightarrow> b)"

definition navigate_to :: "BrowserPanelId \<Rightarrow> string \<Rightarrow> Browsers \<Rightarrow> Browsers" where
  "navigate_to i url = with_browser i (\<lambda>e. load_uri (webview_ptr e) (normalize_url url))"

definition unregister_browser :: "BrowserPanelId \<Rightarrow> Browsers \<Rightarrow> Browsers" where
  "unregister_browser i b = b\<lparr>registry := hm_remove i (registry b)\<rparr>"

definition find_id_by_webview_ptr :: "nat \<Rightarrow> Browsers \<Rightarrow> BrowserPanelId option" where
  "find_id_by_webview_ptr ptr b = map_option fst (find (\<lambda>(i, e). webview_ptr e = ptr) (registry b))"

definition set_proxy_endpoint :: "BrowserPanelId \<Rightarrow> ProxyEndpoint option \<Rightarrow> Browsers \<Rightarrow> Browsers" where
  "set_proxy_endpoint i endpoint =
     with_browser i (\<lambda>e b.
       (case network_session (webview_ptr e) b of
          None \<Rightarrow> b
        | Some s \<Rightarrow> (case endpoint of Some ep \<Rightarrow> apply_socks5_proxy s (socks5_uri ep) b | None \<Rightarrow> clear_proxy s b)))"

text \<open>\<open>window.open()\<close>: the handler of the signal \<open>create\<close> asks the window for a popup of the panel that hosts the opener.\<close>

definition popup_request :: "nat \<Rightarrow> Browsers \<Rightarrow> Command option" where
  "popup_request opener b = map_option (\<lambda>i. OpenBrowserPopup True i []) (find_id_by_webview_ptr opener b)"

definition page_closed :: "BrowserPanelId \<Rightarrow> Command" where
  "page_closed i = CloseBrowser i"

section \<open>Buttons and find bar\<close>

record BrowserToolbar =
  reload_icon :: string
  reload_tip :: string
  back_sensitive :: bool
  forward_sensitive :: bool

definition loading_changed :: "bool \<Rightarrow> bool \<Rightarrow> bool \<Rightarrow> BrowserToolbar" where
  "loading_changed loading can_back can_fwd =
     \<lparr>reload_icon = (if loading then ''process-stop-symbolic'' else ''view-refresh-symbolic''),
      reload_tip = (if loading then ''Stop'' else ''Reload''), back_sensitive = can_back, forward_sensitive = can_fwd\<rparr>"

record FindBar =
  find_visible :: bool
  find_search :: "string option"
  find_count :: string

datatype FindEvent =
    FindChanged string
  | FindClose
  | FindEscape
  | FindToggle
  | FoundText u32
  | FailedToFind

fun find_event :: "FindEvent \<Rightarrow> FindBar \<Rightarrow> FindBar" where
  "find_event (FindChanged text) f =
     (if text = [] then f\<lparr>find_search := None\<rparr>
      else if CHR 0x00 \<in> set text then f
      else f\<lparr>find_search := Some text\<rparr>)"
| "find_event FindClose f = f\<lparr>find_search := None, find_visible := False\<rparr>"
| "find_event FindEscape f = f\<lparr>find_search := None, find_visible := False\<rparr>"
| "find_event FindToggle f = (if find_visible f then f\<lparr>find_visible := False, find_search := None\<rparr> else f\<lparr>find_visible := True\<rparr>)"
| "find_event (FoundText n) f = f\<lparr>find_count := u32_str n @ '' matches''\<rparr>"
| "find_event FailedToFind f = f\<lparr>find_count := ''No matches''\<rparr>"

section \<open>Steps\<close>

datatype BrowserOp =
    OpCreate environment bool BrowserPanelId string
  | OpCreateProxy environment bool BrowserPanelId string ProxyEndpoint
  | OpCreateRelated environment bool BrowserPanelId nat string
  | OpNavigate BrowserPanelId string
  | OpUnregister BrowserPanelId
  | OpSetProxy BrowserPanelId "ProxyEndpoint option"

fun browser_op :: "BrowserOp \<Rightarrow> Browsers \<Rightarrow> Browsers option" where
  "browser_op (OpCreate env ok i url) b = Some (create env ok i url b)"
| "browser_op (OpCreateProxy env ok i url ep) b = Some (create_with_proxy env ok i url ep b)"
| "browser_op (OpCreateRelated env ok i opener url) b = Some (create_related env ok i opener url b)"
| "browser_op (OpNavigate i url) b = Some (navigate_to i url b)"
| "browser_op (OpUnregister i) b = Some (unregister_browser i b)"
| "browser_op (OpSetProxy i ep) b = Some (set_proxy_endpoint i ep b)"

text \<open>The proxy that the pages of a panel use.\<close>

definition panel_proxy :: "BrowserPanelId \<Rightarrow> Browsers \<Rightarrow> ProxyMode option" where
  "panel_proxy i b =
     Option.bind (hm_get (registry b) i) (\<lambda>e. map_option (\<lambda>s. session_proxy (net_sessions b ! s)) (network_session (webview_ptr e) b))"

text \<open>
  Properties of the browser panels: every panel of the application uses one network session and so one proxy, what the address bar makes of its
  text, and the find bar. The registry is an instance of the locale \<open>machine\<close>.
\<close>

section \<open>One session\<close>

definition browsers_ok :: "Browsers \<Rightarrow> bool" where
  "browsers_ok b \<longleftrightarrow>
     (case persistent b of
        None \<Rightarrow> view_session b = []
      | Some p \<Rightarrow> p < length (net_sessions b) \<and> set (view_session b) \<subseteq> {p}) \<and>
     (\<forall>i e. hm_get (registry b) i = Some e \<longrightarrow> webview_ptr e < length (view_session b))"

definition any_op :: "BrowserOp \<Rightarrow> Browsers \<Rightarrow> bool" where
  "any_op a b \<longleftrightarrow> True"

lemma browsers_ok_new: "browsers_ok Browsers_new"
  by (simp add: browsers_ok_def Browsers_new_def)

lemma browsers_ok_load: "browsers_ok b \<Longrightarrow> browsers_ok (load_uri v url b)"
  by (simp add: browsers_ok_def load_uri_def split: option.splits)

lemma browsers_ok_proxy: "browsers_ok b \<Longrightarrow> browsers_ok (apply_socks5_proxy s uri b)" "browsers_ok b \<Longrightarrow> browsers_ok (clear_proxy s b)"
  by (simp_all add: browsers_ok_def apply_socks5_proxy_def clear_proxy_def set_session_proxy_def split: option.splits)

lemma persistent_session_ok:
  assumes "browsers_ok b" "create_persistent_session env ok b = (p, b')"
  shows "browsers_ok b'" "persistent b' = Some p"
  using assms by (auto simp: browsers_ok_def create_persistent_session_def Let_def split: option.splits)

lemma view_of_session:
  assumes "browsers_ok b" "persistent b = Some p" "network_session v b = Some s"
  shows "s = p"
proof -
  from assms(3) have "s \<in> set (view_session b)" by (auto simp: network_session_def split: if_splits)
  with assms(1,2) show ?thesis by (auto simp: browsers_ok_def)
qed

lemma add_view_ok:
  assumes "browsers_ok b" "persistent b = Some p"
  shows "browsers_ok (b\<lparr>view_session := view_session b @ [p]\<rparr>)"
  using assms by (auto simp: browsers_ok_def intro: less_SucI)

lemma register_ok:
  assumes "browsers_ok b" "v < length (view_session b)"
  shows "browsers_ok (b\<lparr>registry := hm_insert i \<lparr>webview_ptr = v\<rparr> (registry b)\<rparr>)"
  using assms by (auto simp: browsers_ok_def split: if_splits option.splits)

lemma create_inner_ok:
  assumes "browsers_ok b"
  shows "browsers_ok (create_inner env ok i url proxy related b)"
proof -
  obtain p b1 where p: "create_persistent_session env ok b = (p, b1)" by fastforce
  note b1 = persistent_session_ok [OF assms p]
  define s where "s = (case proxy of Some ep \<Rightarrow> (p, apply_socks5_proxy p (socks5_uri ep) b1)
    | None \<Rightarrow> (case related of Some opener \<Rightarrow> (unwrap_or (network_session opener b1) p, b1) | None \<Rightarrow> (p, b1)))"
  have related: "unwrap_or (network_session v b1) p = p" for v
    using view_of_session [OF b1, of v] by (cases "network_session v b1") simp_all
  have "persistent (apply_socks5_proxy p uri b1) = Some p" for uri
    using b1(2) by (simp add: apply_socks5_proxy_def set_session_proxy_def)
  then have "fst s = p" "browsers_ok (snd s)" "persistent (snd s) = Some p"
    using b1 related by (simp_all add: s_def browsers_ok_proxy split: option.splits)
  then obtain b2 where s: "s = (p, b2)" and b2: "browsers_ok b2" "persistent b2 = Some p" by (cases s) auto
  let ?b3 = "b2\<lparr>view_session := view_session b2 @ [p]\<rparr>"
  let ?b4 = "if url \<noteq> [] then load_uri (length (view_session b2)) url ?b3 else ?b3"
  have "create_inner env ok i url proxy related b =
      ?b4\<lparr>registry := hm_insert i \<lparr>webview_ptr = length (view_session b2)\<rparr> (registry ?b4)\<rparr>"
    using p s by (simp add: create_inner_def s_def [symmetric] Let_def)
  moreover have "browsers_ok ?b4" using add_view_ok [OF b2] browsers_ok_load by presburger
  moreover have "length (view_session b2) < length (view_session ?b4)" by (simp add: load_uri_def)
  ultimately show ?thesis using register_ok by metis
qed

lemma browser_op_ok: "browsers_ok b \<Longrightarrow> browser_op a b = Some b' \<Longrightarrow> browsers_ok b'"
proof (cases a)
  case (OpNavigate i url)
  then show "browsers_ok b \<Longrightarrow> browser_op a b = Some b' \<Longrightarrow> browsers_ok b'"
    by (auto simp: navigate_to_def with_browser_def browsers_ok_load split: option.splits)
next
  case (OpUnregister i)
  then show "browsers_ok b \<Longrightarrow> browser_op a b = Some b' \<Longrightarrow> browsers_ok b'"
    by (auto simp: unregister_browser_def browsers_ok_def split: if_splits option.splits)
next
  case (OpSetProxy i ep)
  then show "browsers_ok b \<Longrightarrow> browser_op a b = Some b' \<Longrightarrow> browsers_ok b'"
    by (auto simp: set_proxy_endpoint_def with_browser_def browsers_ok_proxy split: option.splits)
qed (auto simp: create_def create_with_proxy_def create_related_def create_inner_ok)

interpretation browsers: machine browser_op any_op browsers_ok
proof
  show "\<exists>b'. browser_op a b = Some b'" for a b by (cases a) simp_all
qed (rule browser_op_ok)

abbreviation browsers_reach :: "Browsers \<Rightarrow> bool" where
  "browsers_reach b \<equiv> reach browser_op any_op Browsers_new b"

lemma browsers_reach_ok: "browsers_reach b \<Longrightarrow> browsers_ok b"
  using browsers.reach_inv browsers_ok_new by blast

lemma registered_session:
  assumes "browsers_ok b" "hm_get (registry b) i = Some e"
  obtains p where "persistent b = Some p" "p < length (net_sessions b)" "network_session (webview_ptr e) b = Some p"
proof -
  from assms have v: "webview_ptr e < length (view_session b)" by (auto simp: browsers_ok_def)
  with assms(1) obtain p where p: "persistent b = Some p" "p < length (net_sessions b)"
    by (cases "persistent b") (auto simp: browsers_ok_def)
  with v that view_of_session [OF assms(1) p(1), of "webview_ptr e"] show ?thesis by (auto simp: network_session_def)
qed

definition endpoint_mode :: "ProxyEndpoint option \<Rightarrow> ProxyMode" where
  "endpoint_mode ep = (case ep of None \<Rightarrow> NoProxy | Some e \<Rightarrow> CustomProxy (socks5_uri e))"

definition endpoint_clean :: "ProxyEndpoint option \<Rightarrow> bool" where
  "endpoint_clean ep \<longleftrightarrow> (case ep of None \<Rightarrow> True | Some e \<Rightarrow> CHR 0x00 \<notin> set (socks5_uri e))"

lemma set_proxy_is_set:
  assumes "hm_get (registry b) i = Some e" "network_session (webview_ptr e) b = Some p" "endpoint_clean ep"
  shows "set_proxy_endpoint i ep b = set_session_proxy p (endpoint_mode ep) b"
  using assms
  by (auto simp: set_proxy_endpoint_def with_browser_def apply_socks5_proxy_def clear_proxy_def endpoint_clean_def endpoint_mode_def
      split: option.splits)

text \<open>
  C33. The proxy is the application's and not the panel's: whatever panels were opened, navigated and closed before, giving one panel a SOCKS
  endpoint, or taking it away, gives or takes it from every open panel. A browser of a remote workspace sends the pages of local browsers through
  its tunnel, and a remote workspace that disconnects turns the proxy of another one off.
\<close>

theorem one_proxy_for_all:
  assumes "browsers_reach b" "hm_contains (registry b) i" "hm_contains (registry b) j" "endpoint_clean ep"
  shows "panel_proxy j (set_proxy_endpoint i ep b) = Some (endpoint_mode ep)"
proof -
  note ok = browsers_reach_ok [OF assms(1)]
  from assms(2,3) obtain e f where e: "hm_get (registry b) i = Some e" and f: "hm_get (registry b) j = Some f"
    by (meson hm_containsE)
  obtain p where p: "persistent b = Some p" "p < length (net_sessions b)" "network_session (webview_ptr e) b = Some p"
    using registered_session [OF ok e] by blast
  moreover have "network_session (webview_ptr f) b = Some p" using registered_session [OF ok f] p(1) by (metis option.inject)
  ultimately show ?thesis
    using f set_proxy_is_set [OF e p(3) assms(4)]
    by (simp add: panel_proxy_def set_session_proxy_def network_session_def split: if_splits)
qed

definition two_panels :: Browsers where
  "two_panels = create (\<lambda>_. None) True 1 ''https://b.org'' (create (\<lambda>_. None) True 0 ''https://a.org'' Browsers_new)"

theorem one_proxy_for_all_witness:
  "panel_proxy 1 (set_proxy_endpoint 0 (Some \<lparr>proxy_host = ''127.0.0.1'', proxy_port = 1080\<rparr>) two_panels) =
     Some (endpoint_mode (Some \<lparr>proxy_host = ''127.0.0.1'', proxy_port = 1080\<rparr>))"
proof (rule one_proxy_for_all)
  show "browsers_reach two_panels"
    unfolding two_panels_def
    by (rule reach_step [where c = "OpCreate (\<lambda>_. None) True 1 ''https://b.org''"],
        rule reach_step [where c = "OpCreate (\<lambda>_. None) True 0 ''https://a.org''"], rule reach_refl)
      (simp_all add: any_op_def)
  show "hm_contains (registry two_panels) 0" by code_simp
  show "hm_contains (registry two_panels) 1" by code_simp
  show "endpoint_clean (Some \<lparr>proxy_host = ''127.0.0.1'', proxy_port = 1080\<rparr>)" by code_simp
qed

section \<open>Addresses\<close>

lemma normalize_trimmed: "trim (normalize_url s) = normalize_url s"
proof (cases "trim s = []")
  case False
  have blank: "is_whitespace (CHR '' '')" "\<not> is_whitespace (CHR ''h'')" by code_simp+
  have last: "last (map (\<lambda>c. if c = CHR '' '' then CHR ''+'' else c) (trim s)) = last (trim s)"
    using False trim_ends(2) [OF False] blank by (auto simp: last_map)
  show ?thesis
    using False trim_ends(2) [OF False] last
    by (auto simp: normalize_url_def Let_def trim_idem blank intro!: trim_clean)
qed (simp add: normalize_url_def trim_def trim_start_def trim_end_def)

definition web_scheme :: "string \<Rightarrow> bool" where
  "web_scheme u \<longleftrightarrow> starts_with ''http://'' u \<or> starts_with ''https://'' u \<or> starts_with ''file://'' u"

lemma normalize_scheme: "trim s \<noteq> [] \<Longrightarrow> web_scheme (normalize_url s)"
  by (auto simp: normalize_url_def web_scheme_def Let_def starts_with_def)

text \<open>
  What the address bar loads is nothing for a blank text and otherwise an address with one of the three schemes, and to normalize it again
  does not change it: the address that a reload or a stored session navigates to is the one that was loaded.
\<close>

theorem url_normalized:
  "(normalize_url s = [] \<longleftrightarrow> trim s = []) \<and> (trim s \<noteq> [] \<longrightarrow> web_scheme (normalize_url s)) \<and> normalize_url (normalize_url s) = normalize_url s"
proof (cases "trim s = []")
  case True
  then have "normalize_url s = []" by (simp add: normalize_url_def)
  with True show ?thesis by (simp add: normalize_url_def trim_def trim_start_def trim_end_def)
next
  case False
  note w = normalize_scheme [OF False]
  then have ne: "normalize_url s \<noteq> []" by (auto simp: web_scheme_def starts_with_def)
  have "normalize_url (normalize_url s) = normalize_url s"
    using w ne by (subst normalize_url_def) (auto simp: normalize_trimmed web_scheme_def Let_def)
  with False w ne show ?thesis by simp
qed

theorem url_normalized_witness:
  "web_scheme (normalize_url ''example.org'') \<and> normalize_url (normalize_url ''example.org'') = normalize_url ''example.org''"
proof -
  have "trim ''example.org'' \<noteq> []" by code_simp
  with url_normalized [of "''example.org''"] show ?thesis by blast
qed

text \<open>
  A local server without a dot in its name is not an address but a search, and the text of a search is not escaped: what follows an ampersand is
  another parameter of the query.
\<close>

theorem local_server_searched:
  "normalize_url ''localhost:3000'' = ''https://www.google.com/search?q=localhost:3000''"
  "normalize_url ''cats & dogs'' = ''https://www.google.com/search?q=cats+&+dogs''"
  by code_simp+

section \<open>The find bar\<close>

definition find_exec :: "FindEvent \<Rightarrow> FindBar \<Rightarrow> FindBar option" where
  "find_exec e f = Some (find_event e f)"

text \<open>The entry changes by typing, which needs the bar to be shown.\<close>

definition find_enabled :: "FindEvent \<Rightarrow> FindBar \<Rightarrow> bool" where
  "find_enabled e f \<longleftrightarrow> (case e of FindChanged t \<Rightarrow> find_visible f | _ \<Rightarrow> True)"

definition find_ok :: "FindBar \<Rightarrow> bool" where
  "find_ok f \<longleftrightarrow> (find_visible f \<or> find_search f = None)"

interpretation find_bar: machine find_exec find_enabled find_ok
proof
  show "find_ok s'" if "find_ok s" "find_enabled c s" "find_exec c s = Some s'" for s c s'
    using that by (cases c) (auto simp: find_ok_def find_enabled_def find_exec_def split: if_splits)
qed (simp add: find_exec_def)

definition FindBar_new :: FindBar where
  "FindBar_new = \<lparr>find_visible = False, find_search = None, find_count = []\<rparr>"

text \<open>No page keeps highlighted matches behind a hidden bar: the search is finished whenever the bar closes, whichever way it is closed.\<close>

theorem hidden_bar_finds_nothing:
  assumes "reach find_exec find_enabled FindBar_new f" "\<not> find_visible f"
  shows "find_search f = None"
  using find_bar.reach_inv [OF assms(1)] assms(2) by (simp add: find_ok_def FindBar_new_def)

end
