(* ===== verification/Ghostty_App.thy ===== *)
theory Ghostty_App
  imports Window_Props
begin

text \<open>
  Model of \<open>app/src/app.rs\<close>: the callbacks that the Ghostty library calls. Actions of the library become commands of the window; wake-ups,
  which come from any thread, become at most one idle callback on the main thread. The library itself is not part of the sources: an action is
  the value that the callback receives, and a member of its union is what reading that member gives. A C string is \<open>None\<close> for a null
  pointer and \<open>Some None\<close> for bytes that are not UTF-8.
\<close>

type_synonym cstr = "string option option"

section \<open>Actions\<close>

definition GHOSTTY_ACTION_TAG_NEW_TAB :: int where "GHOSTTY_ACTION_TAG_NEW_TAB = 2"
definition GHOSTTY_ACTION_TAG_CLOSE_ALL_WINDOWS :: int where "GHOSTTY_ACTION_TAG_CLOSE_ALL_WINDOWS = 5"
definition GHOSTTY_ACTION_TAG_NEW_SPLIT :: int where "GHOSTTY_ACTION_TAG_NEW_SPLIT = 4"
definition GHOSTTY_ACTION_TAG_GOTO_TAB :: int where "GHOSTTY_ACTION_TAG_GOTO_TAB = 15"
definition GHOSTTY_ACTION_TAG_GOTO_SPLIT :: int where "GHOSTTY_ACTION_TAG_GOTO_SPLIT = 16"
definition GHOSTTY_ACTION_TAG_RENDER :: int where "GHOSTTY_ACTION_TAG_RENDER = 27"
definition GHOSTTY_ACTION_TAG_SET_TITLE :: int where "GHOSTTY_ACTION_TAG_SET_TITLE = 32"
definition GHOSTTY_ACTION_TAG_PWD :: int where "GHOSTTY_ACTION_TAG_PWD = 35"
definition GHOSTTY_ACTION_TAG_RING_BELL :: int where "GHOSTTY_ACTION_TAG_RING_BELL = 50"

definition GHOSTTY_SPLIT_DIRECTION_RIGHT :: int where "GHOSTTY_SPLIT_DIRECTION_RIGHT = 0"
definition GHOSTTY_SPLIT_DIRECTION_DOWN :: int where "GHOSTTY_SPLIT_DIRECTION_DOWN = 1"
definition GHOSTTY_SPLIT_DIRECTION_LEFT :: int where "GHOSTTY_SPLIT_DIRECTION_LEFT = 2"
definition GHOSTTY_SPLIT_DIRECTION_UP :: int where "GHOSTTY_SPLIT_DIRECTION_UP = 3"

definition GHOSTTY_GOTO_SPLIT_PREVIOUS :: int where "GHOSTTY_GOTO_SPLIT_PREVIOUS = 0"
definition GHOSTTY_GOTO_SPLIT_NEXT :: int where "GHOSTTY_GOTO_SPLIT_NEXT = 1"

definition GHOSTTY_TARGET_APP :: int where "GHOSTTY_TARGET_APP = 0"
definition GHOSTTY_TARGET_SURFACE :: int where "GHOSTTY_TARGET_SURFACE = 1"

lemmas action_tags =
  GHOSTTY_ACTION_TAG_NEW_TAB_def GHOSTTY_ACTION_TAG_CLOSE_ALL_WINDOWS_def GHOSTTY_ACTION_TAG_NEW_SPLIT_def GHOSTTY_ACTION_TAG_GOTO_TAB_def
  GHOSTTY_ACTION_TAG_GOTO_SPLIT_def GHOSTTY_ACTION_TAG_RENDER_def GHOSTTY_ACTION_TAG_SET_TITLE_def GHOSTTY_ACTION_TAG_PWD_def
  GHOSTTY_ACTION_TAG_RING_BELL_def

lemmas action_values =
  GHOSTTY_SPLIT_DIRECTION_RIGHT_def GHOSTTY_SPLIT_DIRECTION_DOWN_def GHOSTTY_SPLIT_DIRECTION_LEFT_def GHOSTTY_SPLIT_DIRECTION_UP_def
  GHOSTTY_GOTO_SPLIT_PREVIOUS_def GHOSTTY_GOTO_SPLIT_NEXT_def GHOSTTY_TARGET_APP_def GHOSTTY_TARGET_SURFACE_def

record ghostty_action_u =
  u_new_split :: int
  u_goto_tab :: int
  u_goto_split :: int
  u_set_title :: cstr
  u_pwd :: cstr

record ghostty_action_s =
  action_tag :: int
  action_u :: ghostty_action_u

record ghostty_target_s =
  target_tag :: int
  target_surface :: "nat option"

datatype AppEffect =
    QueueRender
  | Window Command
  | WindowTitle string
  | CloseWindow

definition split_orientation :: "int \<Rightarrow> Orientation" where
  "split_orientation dir =
     (if dir = GHOSTTY_SPLIT_DIRECTION_RIGHT \<or> dir = GHOSTTY_SPLIT_DIRECTION_LEFT then Horizontal else Vertical)"

definition action_cb :: "string option \<Rightarrow> ghostty_target_s \<Rightarrow> ghostty_action_s \<Rightarrow> bool \<times> AppEffect list" where
  "action_cb home target action =
     (let tag = action_tag action; u = action_u action in
      if tag = GHOSTTY_ACTION_TAG_RENDER then (True, [QueueRender])
      else if tag = GHOSTTY_ACTION_TAG_SET_TITLE then
        (True, (case u_set_title u of
           None \<Rightarrow> []
         | Some bytes \<Rightarrow>
             (let title = unwrap_or bytes ''limux''
              in (case target_surface target of Some surface \<Rightarrow> [Window (SetSurfaceTitle home surface title)] | None \<Rightarrow> []) @ [WindowTitle title])))
      else if tag = GHOSTTY_ACTION_TAG_PWD then
        (True, (if target_tag target = GHOSTTY_TARGET_SURFACE
                then (case (u_pwd u, target_surface target) of
                        (Some (Some pwd), Some surface) \<Rightarrow> [Window (SetSurfaceDirectory home surface pwd)]
                      | _ \<Rightarrow> [])
                else []))
      else if tag = GHOSTTY_ACTION_TAG_NEW_TAB then (True, [Window NewWorkspace])
      else if tag = GHOSTTY_ACTION_TAG_CLOSE_ALL_WINDOWS then (True, [CloseWindow])
      else if tag = GHOSTTY_ACTION_TAG_NEW_SPLIT then (True, [Window (SplitFocused (split_orientation (u_new_split u)))])
      else if tag = GHOSTTY_ACTION_TAG_GOTO_SPLIT then (True, [Window (NavigateSplit (u_goto_split u \<noteq> GHOSTTY_GOTO_SPLIT_PREVIOUS))])
      else if tag = GHOSTTY_ACTION_TAG_GOTO_TAB then (True, [Window (GotoTab (u_goto_tab u))])
      else if tag = GHOSTTY_ACTION_TAG_RING_BELL then
        (True, (case target_surface target of Some surface \<Rightarrow> [Window (Bell surface)] | None \<Rightarrow> []))
      else (False, []))"

text \<open>\<open>close_surface_cb\<close> reads the identifier behind the user data and leaves the closing to the next iteration of the main loop.\<close>

definition close_surface_cb :: "SurfaceId option \<Rightarrow> AppEffect list" where
  "close_surface_cb userdata = (case userdata of Some sid \<Rightarrow> [Window (CloseSurface sid)] | None \<Rightarrow> [])"

section \<open>Start and end\<close>

text \<open>
  The results of the library's constructors, in the order of the calls: the code of \<open>ghostty_init\<close>, whether a configuration and an
  application were made, and whether the cell \<open>APP\<close> was already set. The number counts the configurations that are allocated afterwards.
\<close>

definition ghostty_app_init :: "int \<Rightarrow> bool \<Rightarrow> bool \<Rightarrow> bool \<Rightarrow> (string + unit) \<times> nat" where
  "ghostty_app_init ret config_ok app_ok already =
     (if ret \<noteq> 0 then (Inl ''ghostty_init failed'', 0)
      else if \<not> config_ok then (Inl ''ghostty_config_new returned null'', 0)
      else if \<not> app_ok then (Inl ''ghostty_app_new returned null'', 0)
      else if already then (Inl ''GhosttyApp already initialized'', 1)
      else (Inr (), 1))"

section \<open>Wake-ups\<close>

text \<open>
  \<open>wakeup_cb\<close> runs on any thread: the exchange of \<open>tick_pending\<close> and the call of \<open>idle_add_once\<close> are two steps. \<open>tick\<close> runs on
  the main thread, one at a time: the main loop takes it from the queue, it clears the flag, then it calls the library, which serves every wake-up
  that came before. The field \<open>unserved\<close> counts the wake-ups that no call of the library has followed.
\<close>

datatype TickPhase =
    TickIdle
  | TickStarted
  | TickCleared

record AppInner =
  app_set :: bool
  tick_pending :: bool
  adding :: nat
  idle_queue :: nat
  tick_phase :: TickPhase
  unserved :: nat
  renders :: nat

definition AppInner_new :: AppInner where
  "AppInner_new = \<lparr>app_set = False, tick_pending = False, adding = 0, idle_queue = 0, tick_phase = TickIdle, unserved = 0, renders = 0\<rparr>"

definition wakeup_cb :: "AppInner \<Rightarrow> AppInner" where
  "wakeup_cb a =
     (if \<not> app_set a then a
      else if \<not> tick_pending a then a\<lparr>tick_pending := True, adding := adding a + 1, unserved := unserved a + 1\<rparr>
      else a\<lparr>unserved := unserved a + 1\<rparr>)"

definition idle_add_once :: "AppInner \<Rightarrow> AppInner option" where
  "idle_add_once a = (if adding a = 0 then None else Some (a\<lparr>adding := adding a - 1, idle_queue := idle_queue a + 1\<rparr>))"

definition tick :: "AppInner \<Rightarrow> AppInner option" where
  "tick a =
     (case tick_phase a of
        TickIdle \<Rightarrow> (if idle_queue a = 0 then None else Some (a\<lparr>idle_queue := idle_queue a - 1, tick_phase := TickStarted\<rparr>))
      | TickStarted \<Rightarrow> Some (a\<lparr>tick_pending := False, tick_phase := TickCleared\<rparr>)
      | TickCleared \<Rightarrow> Some (a\<lparr>unserved := 0, tick_phase := TickIdle, renders := renders a + 1\<rparr>))"

inductive app_step :: "AppInner \<Rightarrow> AppInner \<Rightarrow> bool" where
  step_init: "app_step a (a\<lparr>app_set := True\<rparr>)"
| step_wakeup: "app_step a (wakeup_cb a)"
| step_add: "idle_add_once a = Some a' \<Longrightarrow> app_step a a'"
| step_tick: "tick a = Some a' \<Longrightarrow> app_step a a'"

inductive app_reach :: "AppInner \<Rightarrow> bool" where
  reach_new: "app_reach AppInner_new"
| reach_more: "app_reach a \<Longrightarrow> app_step a a' \<Longrightarrow> app_reach a'"

inductive_cases app_stepE: "app_step a a'"

text \<open>The program without further wake-ups: a thread that holds the flag adds its callback, then the main loop runs.\<close>

definition app_next :: "AppInner \<Rightarrow> AppInner" where
  "app_next a = (case idle_add_once a of Some a' \<Rightarrow> a' | None \<Rightarrow> (case tick a of Some a' \<Rightarrow> a' | None \<Rightarrow> a))"

section \<open>Properties\<close>

definition ticks_on_the_way :: "AppInner \<Rightarrow> nat" where
  "ticks_on_the_way a = adding a + idle_queue a + (if tick_phase a = TickStarted then 1 else 0)"

definition app_ok :: "AppInner \<Rightarrow> bool" where
  "app_ok a \<longleftrightarrow> ticks_on_the_way a = (if tick_pending a then 1 else 0) \<and>
     (0 < unserved a \<longrightarrow> tick_pending a \<or> tick_phase a = TickCleared)"

lemmas wake_defs = app_ok_def ticks_on_the_way_def wakeup_cb_def idle_add_once_def tick_def

lemma app_ok_step: "app_step a a' \<Longrightarrow> app_ok a \<Longrightarrow> app_ok a'"
  by (erule app_stepE) (auto simp: wake_defs split: if_splits TickPhase.splits)

lemma app_reach_ok: "app_reach a \<Longrightarrow> app_ok a"
  by (induction rule: app_reach.induct) (simp add: wake_defs AppInner_new_def, rule app_ok_step)

lemma app_quiet: "app_ok a \<Longrightarrow> idle_add_once a = None \<Longrightarrow> tick a = None \<Longrightarrow> unserved a = 0"
  by (auto simp: wake_defs split: if_splits TickPhase.splits)

definition ticks_left :: "AppInner \<Rightarrow> nat" where
  "ticks_left a = 4 * adding a + 3 * idle_queue a + (case tick_phase a of TickIdle \<Rightarrow> 0 | TickStarted \<Rightarrow> 2 | TickCleared \<Rightarrow> 1)"

lemma app_next_step: "app_next a = a \<and> ticks_left a = 0 \<or> app_step a (app_next a) \<and> ticks_left (app_next a) < ticks_left a"
  by (auto simp: app_next_def ticks_left_def idle_add_once_def tick_def intro: app_step.intros split: if_splits TickPhase.splits)

lemma app_next_drains:
  assumes "app_ok a" "ticks_left a \<le> n"
  shows "unserved ((app_next ^^ n) a) = 0"
  using assms
proof (induction n arbitrary: a)
  case 0
  then show ?case by (auto simp: wake_defs ticks_left_def split: if_splits TickPhase.splits)
next
  case (Suc n)
  from app_next_step [of a] Suc.prems have "app_ok (app_next a)" "ticks_left (app_next a) \<le> n"
    using app_ok_step by auto
  then show ?case using Suc.IH by (simp add: funpow_swap1)
qed

lemma ticks_left_bound: "app_ok a \<Longrightarrow> ticks_left a \<le> 5"
  by (auto simp: wake_defs ticks_left_def split: if_splits TickPhase.splits)

text \<open>
  C34. No wake-up of the terminal library is lost and none is queued twice: in every interleaving of wake-ups from any thread with the main loop
  at most one tick is on its way, and however many wake-ups have come, five steps of the program serve them all.
\<close>

theorem wakeups_served:
  assumes "app_reach a"
  shows "ticks_on_the_way a \<le> 1 \<and> unserved ((app_next ^^ 5) a) = 0"
  using app_reach_ok [OF assms] app_next_drains [of a 5] ticks_left_bound by (auto simp: app_ok_def)

definition woken_twice :: AppInner where
  "woken_twice = wakeup_cb (wakeup_cb (AppInner_new\<lparr>app_set := True\<rparr>))"

theorem wakeups_served_witness:
  "unserved woken_twice = 2 \<and> ticks_on_the_way woken_twice \<le> 1 \<and> unserved ((app_next ^^ 5) woken_twice) = 0"
proof -
  have "app_reach woken_twice"
    unfolding woken_twice_def by (intro reach_more [OF _ step_wakeup] reach_more [OF _ step_init] reach_new)
  moreover have "unserved woken_twice = 2" by code_simp
  ultimately show ?thesis using wakeups_served by blast
qed

text \<open>A wake-up before \<open>APP\<close> is set, which the library may send while its application is being made, has no effect.\<close>

lemma early_wakeup: "wakeup_cb AppInner_new = AppInner_new"
  by (simp add: wakeup_cb_def AppInner_new_def)

text \<open>The window commands of an action, run one after another.\<close>

fun window_commands :: "AppEffect list \<Rightarrow> Command list" where
  "window_commands [] = []"
| "window_commands (Window c # es) = c # window_commands es"
| "window_commands (_ # es) = window_commands es"

definition one_command :: "bool \<times> AppEffect list \<Rightarrow> bool" where
  "one_command r \<longleftrightarrow> (window_commands (snd r) = [] \<or> (\<exists>c. window_commands (snd r) = [c] \<and> command_ok c))"

lemma one_command_if: "one_command x \<Longrightarrow> one_command y \<Longrightarrow> one_command (if b then x else y)"
  by simp

lemma action_commands: "one_command (action_cb home target action)"
  unfolding action_cb_def Let_def by (intro one_command_if) (simp_all add: one_command_def split: option.split)

text \<open>
  An action of the terminal library is at most one command of the window, and from every state that the window can reach that command
  completes and leaves the window consistent.
\<close>

theorem action_keeps_window:
  assumes "reachable_window env (AppWindow_new dir cmd) aw" "window_room aw"
  shows "\<exists>aw'. exec_all (exec env) (window_commands (snd (action_cb home target action))) aw = Some aw' \<and> window_ok aw'"
proof -
  have ok: "window_ok aw" using window.reach_inv [OF assms(1)] by simp
  from action_commands [of home target action, unfolded one_command_def] show ?thesis
  proof (elim disjE exE conjE)
    assume "window_commands (snd (action_cb home target action)) = []"
    then show ?thesis using ok by simp
  next
    fix c
    assume c: "window_commands (snd (action_cb home target action)) = [c]" "command_ok c"
    with assms(2) have "command_enabled c aw" by (simp add: command_enabled_def)
    from window.never_stuck [OF assms(1) window_ok_new this] obtain aw' where "exec env c aw = Some aw'" "window_ok aw'" by blast
    then show ?thesis using c(1) by simp
  qed
qed

theorem action_keeps_window_witness:
  "\<exists>aw'. exec_all (exec demo_env) (window_commands (snd (action_cb None
      \<lparr>target_tag = GHOSTTY_TARGET_APP, target_surface = None\<rparr>
      \<lparr>action_tag = GHOSTTY_ACTION_TAG_NEW_TAB,
       action_u = \<lparr>u_new_split = 0, u_goto_tab = 0, u_goto_split = 0, u_set_title = None, u_pwd = None\<rparr>\<rparr>)))
      (AppWindow_new None None) = Some aw' \<and> window_ok aw'"
  by (rule action_keeps_window [OF reach_refl]) (simp add: window_room_def AppWindow_new_def SurfaceRegistry_new_def)

text \<open>
  C3. The library names four directions to go to and four to split in; the window has fewer. Every value of \<open>goto_split\<close> but
  \<open>previous\<close> moves the focus to the next pane in order, so that going left, right, up and down are the same, and a split to the left or
  upwards puts the new pane to the right or below.
\<close>

theorem directions_collapse:
  "action_cb home target \<lparr>action_tag = GHOSTTY_ACTION_TAG_GOTO_SPLIT, action_u = u\<lparr>u_goto_split := d\<rparr>\<rparr> =
     action_cb home target \<lparr>action_tag = GHOSTTY_ACTION_TAG_GOTO_SPLIT,
       action_u = u\<lparr>u_goto_split := (if d = GHOSTTY_GOTO_SPLIT_PREVIOUS then GHOSTTY_GOTO_SPLIT_PREVIOUS else GHOSTTY_GOTO_SPLIT_NEXT)\<rparr>\<rparr> \<and>
   split_orientation GHOSTTY_SPLIT_DIRECTION_LEFT = split_orientation GHOSTTY_SPLIT_DIRECTION_RIGHT \<and>
   split_orientation GHOSTTY_SPLIT_DIRECTION_UP = split_orientation GHOSTTY_SPLIT_DIRECTION_DOWN"
  by (simp add: action_cb_def action_tags action_values split_orientation_def)

end
