(* ===== verification/Terminal_Surface.thy ===== *)
theory Terminal_Surface
  imports Surfaces Rust_Env Step_Machine
begin

unbundle bit_operations_syntax

text \<open>
  Model of the terminal surfaces: \<open>app/src/surface.rs\<close> (widgets and Ghostty surfaces), \<open>app/src/input.rs\<close> (the events of a widget)
  and \<open>app/src/clipboard.rs\<close> (copy and paste). The Ghostty library is not part of the sources: its surfaces are numbered in the order
  in which they are made, and the model records every call that is made on one. Modifiers, key values and clipboard contents come from GDK and
  are arguments of the events.
\<close>

section \<open>Input values\<close>

datatype ModifierType =
    SHIFT_MASK
  | CONTROL_MASK
  | ALT_MASK
  | SUPER_MASK
  | LOCK_MASK

definition GHOSTTY_MODS_NONE :: int where "GHOSTTY_MODS_NONE = 0"
definition GHOSTTY_MODS_SHIFT :: int where "GHOSTTY_MODS_SHIFT = push_bit 0 1"
definition GHOSTTY_MODS_CTRL :: int where "GHOSTTY_MODS_CTRL = push_bit 1 1"
definition GHOSTTY_MODS_ALT :: int where "GHOSTTY_MODS_ALT = push_bit 2 1"
definition GHOSTTY_MODS_SUPER :: int where "GHOSTTY_MODS_SUPER = push_bit 3 1"
definition GHOSTTY_MODS_CAPS :: int where "GHOSTTY_MODS_CAPS = push_bit 4 1"

lemmas mods_defs = GHOSTTY_MODS_NONE_def GHOSTTY_MODS_SHIFT_def GHOSTTY_MODS_CTRL_def GHOSTTY_MODS_ALT_def GHOSTTY_MODS_SUPER_def
  GHOSTTY_MODS_CAPS_def

definition translate_mods :: "(ModifierType \<Rightarrow> bool) \<Rightarrow> int" where
  "translate_mods state =
     (let mods = GHOSTTY_MODS_NONE;
          mods = (if state SHIFT_MASK then mods OR GHOSTTY_MODS_SHIFT else mods);
          mods = (if state CONTROL_MASK then mods OR GHOSTTY_MODS_CTRL else mods);
          mods = (if state ALT_MASK then mods OR GHOSTTY_MODS_ALT else mods);
          mods = (if state SUPER_MASK then mods OR GHOSTTY_MODS_SUPER else mods)
      in (if state LOCK_MASK then mods OR GHOSTTY_MODS_CAPS else mods))"

definition GHOSTTY_MOUSE_UNKNOWN :: int where "GHOSTTY_MOUSE_UNKNOWN = 0"
definition GHOSTTY_MOUSE_LEFT :: int where "GHOSTTY_MOUSE_LEFT = 1"
definition GHOSTTY_MOUSE_RIGHT :: int where "GHOSTTY_MOUSE_RIGHT = 2"
definition GHOSTTY_MOUSE_MIDDLE :: int where "GHOSTTY_MOUSE_MIDDLE = 3"
definition GHOSTTY_MOUSE_FOUR :: int where "GHOSTTY_MOUSE_FOUR = 4"
definition GHOSTTY_MOUSE_FIVE :: int where "GHOSTTY_MOUSE_FIVE = 5"
definition GHOSTTY_MOUSE_SIX :: int where "GHOSTTY_MOUSE_SIX = 6"
definition GHOSTTY_MOUSE_SEVEN :: int where "GHOSTTY_MOUSE_SEVEN = 7"
definition GHOSTTY_MOUSE_EIGHT :: int where "GHOSTTY_MOUSE_EIGHT = 8"

lemmas mouse_defs = GHOSTTY_MOUSE_UNKNOWN_def GHOSTTY_MOUSE_LEFT_def GHOSTTY_MOUSE_RIGHT_def GHOSTTY_MOUSE_MIDDLE_def GHOSTTY_MOUSE_FOUR_def
  GHOSTTY_MOUSE_FIVE_def GHOSTTY_MOUSE_SIX_def GHOSTTY_MOUSE_SEVEN_def GHOSTTY_MOUSE_EIGHT_def

definition translate_mouse_button :: "u32 \<Rightarrow> int" where
  "translate_mouse_button button =
     (if button = 1 then GHOSTTY_MOUSE_LEFT
      else if button = 2 then GHOSTTY_MOUSE_MIDDLE
      else if button = 3 then GHOSTTY_MOUSE_RIGHT
      else if button = 4 then GHOSTTY_MOUSE_FOUR
      else if button = 5 then GHOSTTY_MOUSE_FIVE
      else if button = 6 then GHOSTTY_MOUSE_SIX
      else if button = 7 then GHOSTTY_MOUSE_SEVEN
      else if button = 8 then GHOSTTY_MOUSE_EIGHT
      else GHOSTTY_MOUSE_UNKNOWN)"

text \<open>Texts are lists of code points here; the control characters are those of \<open>char::is_control\<close>.\<close>

type_synonym chars = "nat list"

definition is_control :: "nat \<Rightarrow> bool" where
  "is_control c \<longleftrightarrow> c < 32 \<or> 127 \<le> c \<and> c < 160"

record ghostty_input_key_s =
  key_action :: int
  key_mods :: int
  key_consumed_mods :: int
  key_keycode :: u32
  key_text :: "chars option"
  key_unshifted :: nat
  key_composing :: bool

definition GHOSTTY_ACTION_RELEASE :: int where "GHOSTTY_ACTION_RELEASE = 0"
definition GHOSTTY_ACTION_PRESS :: int where "GHOSTTY_ACTION_PRESS = 1"
definition GHOSTTY_MOUSE_RELEASE :: int where "GHOSTTY_MOUSE_RELEASE = 0"
definition GHOSTTY_MOUSE_PRESS :: int where "GHOSTTY_MOUSE_PRESS = 1"

definition press_event :: "nat option \<Rightarrow> nat option \<Rightarrow> u32 \<Rightarrow> (ModifierType \<Rightarrow> bool) \<Rightarrow> ghostty_input_key_s" where
  "press_event unicode unshifted keycode state =
     \<lparr>key_action = GHOSTTY_ACTION_PRESS, key_mods = translate_mods state, key_consumed_mods = GHOSTTY_MODS_NONE, key_keycode = keycode,
      key_text = (case unicode of Some c \<Rightarrow> if \<not> is_control c \<and> c \<noteq> 0 then Some [c] else None | None \<Rightarrow> None),
      key_unshifted = unwrap_or unshifted 0, key_composing = False\<rparr>"

definition release_event :: "u32 \<Rightarrow> (ModifierType \<Rightarrow> bool) \<Rightarrow> ghostty_input_key_s" where
  "release_event keycode state =
     \<lparr>key_action = GHOSTTY_ACTION_RELEASE, key_mods = translate_mods state, key_consumed_mods = GHOSTTY_MODS_NONE, key_keycode = keycode,
      key_text = None, key_unshifted = 0, key_composing = False\<rparr>"

definition commit_event :: "chars \<Rightarrow> ghostty_input_key_s" where
  "commit_event t =
     \<lparr>key_action = GHOSTTY_ACTION_PRESS, key_mods = GHOSTTY_MODS_NONE, key_consumed_mods = GHOSTTY_MODS_NONE, key_keycode = 0,
      key_text = Some t, key_unshifted = 0, key_composing = False\<rparr>"

section \<open>Surfaces and the calls on them\<close>

record SurfaceConfig =
  cfg_userdata :: SurfaceId
  cfg_working_directory :: "string option"
  cfg_command :: "string option"
  cfg_env_vars :: "(string \<times> string) list"

datatype SurfaceCall =
    Created SurfaceConfig
  | Freed
  | SetSize u32 u32
  | SetContentScale int
  | Draw
  | DisplayRealized
  | DisplayUnrealized
  | SetFocus bool
  | Key ghostty_input_key_s
  | Preedit "chars option"
  | MousePos f64 f64 int
  | MouseButton int int int
  | MouseScroll f64 f64 int
  | CompleteClipboard chars nat

record TermSys =
  ts_reg :: SurfaceRegistry
  ts_area_id :: "(nat, SurfaceId) hashmap"
  ts_attached :: "(nat, nat) hashmap"
  ts_created :: nat
  ts_reads :: "(nat \<times> nat) list"
  ts_clip :: "chars \<times> chars"
  ts_log :: "(nat \<times> SurfaceCall) list"
  ts_focused :: "SurfaceId list"

definition TermSys_new :: TermSys where
  "TermSys_new = \<lparr>ts_reg = SurfaceRegistry_new, ts_area_id = [], ts_attached = [], ts_created = 0, ts_reads = [], ts_clip = ([], []),
    ts_log = [], ts_focused = []\<rparr>"

definition call :: "nat \<Rightarrow> SurfaceCall \<Rightarrow> TermSys \<Rightarrow> TermSys" where
  "call h c s = s\<lparr>ts_log := ts_log s @ [(h, c)]\<rparr>"

text \<open>The handle of a widget, through the identifier stored on it and the registry.\<close>

definition area_handle :: "nat \<Rightarrow> TermSys \<Rightarrow> nat option" where
  "area_handle area s = Option.bind (hm_get (ts_area_id s) area) (get_handle (ts_reg s))"

definition on_handle :: "nat \<Rightarrow> (nat \<Rightarrow> TermSys \<Rightarrow> TermSys) \<Rightarrow> TermSys \<Rightarrow> TermSys" where
  "on_handle area f s = (case area_handle area s of Some h \<Rightarrow> f h s | None \<Rightarrow> s)"

text \<open>The library paths of the AppImage are taken out of the environment of the shells.\<close>

definition clean_library_path :: "string \<Rightarrow> string \<Rightarrow> string" where
  "clean_library_path appdir ld = join '':'' (filter (\<lambda>p. p \<noteq> [] \<and> \<not> starts_with appdir p) (split_on (CHR '':'') ld))"

definition shell_env :: "environment \<Rightarrow> (string \<times> string) list" where
  "shell_env env =
     (case env ''APPDIR'' of
        None \<Rightarrow> []
      | Some appdir \<Rightarrow>
          (let ld = unwrap_or (env ''LD_LIBRARY_PATH'') []; cleaned = clean_library_path appdir ld
           in if cleaned \<noteq> ld then [(''LD_LIBRARY_PATH'', cleaned)] else []))"

definition scaled :: "int \<Rightarrow> int \<Rightarrow> u32" where
  "scaled n scale = word_of_int (n * scale)"

record AreaState =
  area_width :: int
  area_height :: int
  area_scale :: int
  area_gl_error :: bool

record SurfaceArgs =
  arg_directory :: "string option"
  arg_command :: "string option"
  arg_forced_id :: "SurfaceId option"

definition set_area_size :: "AreaState \<Rightarrow> nat \<Rightarrow> TermSys \<Rightarrow> TermSys" where
  "set_area_size a h s =
     (if 0 < area_width a \<and> 0 < area_height a
      then call h (SetSize (scaled (area_width a) (area_scale a)) (scaled (area_height a) (area_scale a))) s else s)"

definition on_unrealize :: "nat \<Rightarrow> TermSys \<Rightarrow> TermSys" where
  "on_unrealize area = on_handle area (\<lambda>h. call h DisplayUnrealized)"

text \<open>\<open>made\<close> is whether \<open>ghostty_surface_new\<close> succeeds.\<close>

definition on_realize :: "environment \<Rightarrow> SurfaceArgs \<Rightarrow> bool \<Rightarrow> AreaState \<Rightarrow> nat \<Rightarrow> TermSys \<Rightarrow> TermSys" where
  "on_realize env args made a area s =
     (case hm_get (ts_area_id s) area of
        Some i \<Rightarrow> on_handle area (\<lambda>h. call h DisplayRealized) s
      | None \<Rightarrow>
          if area_gl_error a then s
          else
            (let (i, s) = (case arg_forced_id args of
                             Some i \<Rightarrow> (i, s)
                           | None \<Rightarrow> (let (i, r) = pre_allocate_id (ts_reg s) in (i, s\<lparr>ts_reg := r\<rparr>)))
             in if \<not> made then s
                else
                  (let h = ts_created s;
                       s = call h (Created \<lparr>cfg_userdata = i, cfg_working_directory = arg_directory args, cfg_command = arg_command args,
                                            cfg_env_vars = shell_env env\<rparr>) (s\<lparr>ts_created := h + 1\<rparr>);
                       s = set_area_size a h s;
                       s = (if 0 < area_width a \<and> 0 < area_height a then call h (SetContentScale (area_scale a)) s else s)
                   in s\<lparr>ts_reg := register_with_id i \<lparr>surface_handle = h, gl_area = area\<rparr> (ts_reg s),
                        ts_area_id := hm_insert area i (ts_area_id s), ts_attached := hm_insert area h (ts_attached s)\<rparr>)))"

definition on_render :: "AreaState \<Rightarrow> nat \<Rightarrow> TermSys \<Rightarrow> TermSys" where
  "on_render a area = on_handle area (\<lambda>h s. call h Draw (set_area_size a h s))"

definition on_resize :: "int \<Rightarrow> int \<Rightarrow> int \<Rightarrow> nat \<Rightarrow> TermSys \<Rightarrow> TermSys" where
  "on_resize width height scale area =
     on_handle area (\<lambda>h s. call h (SetContentScale scale) (call h (SetSize (scaled width scale) (scaled height scale)) s))"

text \<open>
  \<open>surface::close_surface\<close> frees a surface; the window does not call it, its \<open>close_surface\<close> only takes the entry out of the registry.
\<close>

definition close_surface_free :: "SurfaceId \<Rightarrow> TermSys \<Rightarrow> TermSys" where
  "close_surface_free i s =
     (let (e, r) = unregister i (ts_reg s); s = s\<lparr>ts_reg := r\<rparr>
      in case e of Some e \<Rightarrow> call (surface_handle e) Freed s | None \<Rightarrow> s)"

definition window_closes :: "SurfaceId \<Rightarrow> TermSys \<Rightarrow> TermSys" where
  "window_closes i s = s\<lparr>ts_reg := snd (unregister i (ts_reg s))\<rparr>"

section \<open>Input\<close>

text \<open>The controllers hold the handle that the widget had when they were attached.\<close>

datatype InputEvent =
    KeyPressed "nat option" "nat option" u32 "ModifierType \<Rightarrow> bool"
  | KeyReleased u32 "ModifierType \<Rightarrow> bool"
  | Pressed f64 f64 u32 "ModifierType \<Rightarrow> bool"
  | Released f64 f64 u32 "ModifierType \<Rightarrow> bool"
  | Motion f64 f64 "ModifierType \<Rightarrow> bool"
  | Scroll f64 f64 "ModifierType \<Rightarrow> bool"
  | FocusEnter
  | FocusLeave
  | ImCommit chars
  | PreeditChanged chars
  | PreeditEnd

fun input_calls :: "InputEvent \<Rightarrow> SurfaceCall list" where
  "input_calls (KeyPressed uc low keycode state) = [Key (press_event uc low keycode state)]"
| "input_calls (KeyReleased keycode state) = [Key (release_event keycode state)]"
| "input_calls (Pressed x y button state) =
     [MousePos x y (translate_mods state), MouseButton GHOSTTY_MOUSE_PRESS (translate_mouse_button button) (translate_mods state)]"
| "input_calls (Released x y button state) =
     [MousePos x y (translate_mods state), MouseButton GHOSTTY_MOUSE_RELEASE (translate_mouse_button button) (translate_mods state)]"
| "input_calls (Motion x y state) = [MousePos x y (translate_mods state)]"
| "input_calls (Scroll dx dy state) = [MouseScroll dx dy (translate_mods state)]"
| "input_calls FocusEnter = [SetFocus True]"
| "input_calls FocusLeave = [SetFocus False]"
| "input_calls (ImCommit t) = (if 0 \<in> set t then [] else [Key (commit_event t), Preedit None])"
| "input_calls (PreeditChanged t) = (if 0 \<in> set t then [] else [Preedit (Some t)])"
| "input_calls PreeditEnd = [Preedit None]"

definition attach_input :: "nat \<Rightarrow> InputEvent \<Rightarrow> TermSys \<Rightarrow> TermSys" where
  "attach_input area e s =
     (case hm_get (ts_attached s) area of
        None \<Rightarrow> s
      | Some h \<Rightarrow>
          (let s = fold (call h) (input_calls e) s
           in case (e, hm_get (ts_area_id s) area) of
                (FocusEnter, Some i) \<Rightarrow> s\<lparr>ts_focused := ts_focused s @ [i]\<rparr>
              | _ \<Rightarrow> s))"

section \<open>Clipboard\<close>

definition GHOSTTY_CLIPBOARD_STANDARD :: int where "GHOSTTY_CLIPBOARD_STANDARD = 0"
definition GHOSTTY_CLIPBOARD_SELECTION :: int where "GHOSTTY_CLIPBOARD_SELECTION = 1"

definition surface_from_userdata :: "SurfaceId option \<Rightarrow> TermSys \<Rightarrow> nat option" where
  "surface_from_userdata userdata s = Option.bind userdata (get_handle (ts_reg s))"

definition read_clipboard_cb :: "bool \<Rightarrow> SurfaceId option \<Rightarrow> nat \<Rightarrow> TermSys \<Rightarrow> bool \<times> TermSys" where
  "read_clipboard_cb display userdata state s =
     (if \<not> display then (False, s)
      else case surface_from_userdata userdata s of
             None \<Rightarrow> (False, s)
           | Some h \<Rightarrow> (True, s\<lparr>ts_reads := ts_reads s @ [(state, h)]\<rparr>))"

text \<open>The end of the asynchronous read: the text, or nothing when the read failed or the clipboard has no text.\<close>

definition read_done :: "chars option \<Rightarrow> nat \<Rightarrow> TermSys \<Rightarrow> TermSys" where
  "read_done result n s =
     (if n < length (ts_reads s)
      then (let (state, h) = ts_reads s ! n; t = unwrap_or result []; t = (if 0 \<in> set t then [] else t)
            in call h (CompleteClipboard t state) (s\<lparr>ts_reads := take n (ts_reads s) @ drop (n + 1) (ts_reads s)\<rparr>))
      else s)"

definition confirm_read_clipboard_cb :: "SurfaceId option \<Rightarrow> chars option \<Rightarrow> nat \<Rightarrow> TermSys \<Rightarrow> TermSys" where
  "confirm_read_clipboard_cb userdata content state s =
     (case surface_from_userdata userdata s of
        None \<Rightarrow> s
      | Some h \<Rightarrow> call h (CompleteClipboard (unwrap_or content []) state) s)"

record ClipboardItem =
  item_mime :: "string option"
  item_data :: "chars option option"

definition item_text :: "ClipboardItem \<Rightarrow> chars option" where
  "item_text i = map_option (\<lambda>d. unwrap_or d []) (item_data i)"

definition is_text :: "ClipboardItem \<Rightarrow> bool" where
  "is_text i \<longleftrightarrow> (case item_mime i of None \<Rightarrow> True | Some m \<Rightarrow> m = ''text/plain'')"

fun first_text :: "ClipboardItem list \<Rightarrow> chars option" where
  "first_text [] = None"
| "first_text (i # is) =
     (case item_text i of
        None \<Rightarrow> first_text is
      | Some t \<Rightarrow> if is_text i then Some t else first_text is)"

definition clipboard_text :: "ClipboardItem list \<Rightarrow> chars option" where
  "clipboard_text items =
     (case items of
        [] \<Rightarrow> None
      | i # _ \<Rightarrow> (case first_text items of Some t \<Rightarrow> Some t | None \<Rightarrow> item_text i))"

definition write_clipboard_cb :: "bool \<Rightarrow> int \<Rightarrow> ClipboardItem list \<Rightarrow> TermSys \<Rightarrow> TermSys" where
  "write_clipboard_cb display location items s =
     (if \<not> display then s
      else case clipboard_text items of
             None \<Rightarrow> s
           | Some t \<Rightarrow> if location = GHOSTTY_CLIPBOARD_SELECTION then s\<lparr>ts_clip := (fst (ts_clip s), t)\<rparr>
                       else s\<lparr>ts_clip := (t, snd (ts_clip s))\<rparr>)"

section \<open>Events\<close>

datatype TermEvent =
    Realize environment SurfaceArgs bool AreaState nat
  | Unrealize nat
  | Render AreaState nat
  | Resize int int int nat
  | WindowCloses SurfaceId
  | Input nat InputEvent
  | ReadClipboard bool "SurfaceId option" nat
  | ReadDone "chars option" nat
  | ConfirmRead "SurfaceId option" "chars option" nat
  | WriteClipboard bool int "ClipboardItem list"

fun term_event :: "TermEvent \<Rightarrow> TermSys \<Rightarrow> TermSys" where
  "term_event (Realize env args made a area) s = on_realize env args made a area s"
| "term_event (Unrealize area) s = on_unrealize area s"
| "term_event (Render a area) s = on_render a area s"
| "term_event (Resize w h scale area) s = on_resize w h scale area s"
| "term_event (WindowCloses i) s = window_closes i s"
| "term_event (Input area e) s = attach_input area e s"
| "term_event (ReadClipboard display u state) s = snd (read_clipboard_cb display u state s)"
| "term_event (ReadDone result n) s = read_done result n s"
| "term_event (ConfirmRead u content state) s = confirm_read_clipboard_cb u content state s"
| "term_event (WriteClipboard display location items) s = write_clipboard_cb display location items s"

definition term_exec :: "TermEvent \<Rightarrow> TermSys \<Rightarrow> TermSys option" where
  "term_exec e s = Some (term_event e s)"

definition term_enabled :: "TermEvent \<Rightarrow> TermSys \<Rightarrow> bool" where
  "term_enabled e s \<longleftrightarrow> True"

text \<open>
  Properties of the terminal surfaces: every call goes to a surface that exists, closed surfaces stay allocated, modifiers and buttons are
  translated one to one, committed text leaves no preedit behind, and what a copy puts on the clipboard.
\<close>

section \<open>Surfaces and their handles\<close>

text \<open>The log of calls replayed: the surfaces that are allocated after it, or nothing when a call goes to a surface that is not.\<close>

fun replay :: "nat set \<Rightarrow> (nat \<times> SurfaceCall) list \<Rightarrow> nat set option" where
  "replay live [] = Some live"
| "replay live ((h, Created cfg) # cs) = (if h \<in> live then None else replay (insert h live) cs)"
| "replay live ((h, Freed) # cs) = (if h \<in> live then replay (live - {h}) cs else None)"
| "replay live ((h, c) # cs) = (if h \<in> live then replay live cs else None)"

fun plain_call :: "SurfaceCall \<Rightarrow> bool" where
  "plain_call (Created cfg) \<longleftrightarrow> False"
| "plain_call Freed \<longleftrightarrow> False"
| "plain_call _ \<longleftrightarrow> True"

lemma replay_append: "replay live (xs @ ys) = Option.bind (replay live xs) (\<lambda>l. replay l ys)"
  by (induction live xs rule: replay.induct) simp_all

lemma replay_plain: "plain_call c \<Longrightarrow> h \<in> live \<Longrightarrow> replay live [(h, c)] = Some live"
  by (cases c) simp_all

definition term_ok :: "TermSys \<Rightarrow> bool" where
  "term_ok s \<longleftrightarrow>
     replay {} (ts_log s) = Some {..<ts_created s} \<and>
     (\<forall>i h. get_handle (ts_reg s) i = Some h \<longrightarrow> h < ts_created s) \<and>
     (\<forall>a h. hm_get (ts_attached s) a = Some h \<longrightarrow> h < ts_created s) \<and>
     (\<forall>(st, h)\<in>set (ts_reads s). h < ts_created s)"

lemma term_ok_new: "term_ok TermSys_new"
  by (simp add: term_ok_def TermSys_new_def SurfaceRegistry_new_def get_handle_def)

lemma term_ok_call: "term_ok s \<Longrightarrow> h < ts_created s \<Longrightarrow> plain_call c \<Longrightarrow> term_ok (call h c s)"
  by (simp add: term_ok_def call_def replay_append replay_plain)

lemma call_created [simp]: "ts_created (call h c s) = ts_created s"
  by (simp add: call_def)

lemma fold_call_created [simp]: "ts_created (fold (call h) cs s) = ts_created s"
  by (induction cs arbitrary: s) simp_all

lemma term_ok_calls: "term_ok s \<Longrightarrow> h < ts_created s \<Longrightarrow> \<forall>c\<in>set cs. plain_call c \<Longrightarrow> term_ok (fold (call h) cs s)"
  by (induction cs arbitrary: s) (simp_all add: term_ok_call)

lemma input_calls_plain: "\<forall>c\<in>set (input_calls e). plain_call c"
  by (cases e) simp_all

lemma term_ok_size: "term_ok s \<Longrightarrow> h < ts_created s \<Longrightarrow> term_ok (set_area_size a h s)"
  by (simp add: set_area_size_def term_ok_call)

lemma set_area_size_created [simp]: "ts_created (set_area_size a h s) = ts_created s"
  by (simp add: set_area_size_def)

lemma term_ok_on_handle:
  assumes "term_ok s" "\<And>h. h < ts_created s \<Longrightarrow> term_ok (f h s)"
  shows "term_ok (on_handle area f s)"
proof (cases "area_handle area s")
  case (Some h)
  then have "h < ts_created s" using assms(1) by (auto simp: area_handle_def term_ok_def bind_eq_Some_conv)
  with Some assms(2) show ?thesis by (simp add: on_handle_def)
qed (simp add: on_handle_def assms(1))

lemma userdata_handle: "term_ok s \<Longrightarrow> surface_from_userdata u s = Some h \<Longrightarrow> h < ts_created s"
  by (auto simp: surface_from_userdata_def term_ok_def bind_eq_Some_conv)

lemma term_ok_read: "term_ok s \<Longrightarrow> h < ts_created s \<Longrightarrow> term_ok (s\<lparr>ts_reads := ts_reads s @ [(st, h)]\<rparr>)"
  by (simp add: term_ok_def)

lemma term_ok_create: "term_ok s \<Longrightarrow> term_ok (call (ts_created s) (Created cfg) (s\<lparr>ts_created := Suc (ts_created s)\<rparr>))"
  by (auto simp: term_ok_def call_def replay_append lessThan_Suc intro: less_SucI)

lemma term_ok_register:
  assumes "term_ok s" "h < ts_created s"
  shows "term_ok (s\<lparr>ts_reg := register_with_id i \<lparr>surface_handle = h, gl_area = area\<rparr> (ts_reg s),
    ts_area_id := hm_insert area i (ts_area_id s), ts_attached := hm_insert area h (ts_attached s)\<rparr>)"
  using assms by (auto simp: term_ok_def get_handle_register_with_id split: if_splits)

lemma term_ok_allocate: "term_ok s \<Longrightarrow> term_ok (s\<lparr>ts_reg := snd (pre_allocate_id (ts_reg s))\<rparr>)"
  by (simp add: term_ok_def pre_allocate_id_def get_handle_def)

lemma realize_new_ok:
  assumes "term_ok s"
  shows "term_ok (let h = ts_created s;
                       s = call h (Created cfg) (s\<lparr>ts_created := h + 1\<rparr>);
                       s = set_area_size a h s;
                       s = (if 0 < area_width a \<and> 0 < area_height a then call h (SetContentScale (area_scale a)) s else s)
                   in s\<lparr>ts_reg := register_with_id i \<lparr>surface_handle = h, gl_area = area\<rparr> (ts_reg s),
                        ts_area_id := hm_insert area i (ts_area_id s), ts_attached := hm_insert area h (ts_attached s)\<rparr>)"
  unfolding Let_def by (rule term_ok_register) (simp_all add: term_ok_call term_ok_size term_ok_create assms)

lemma on_realize_ok:
  assumes "term_ok s"
  shows "term_ok (on_realize env args made a area s)"
proof (cases "hm_get (ts_area_id s) area")
  case (Some i)
  then show ?thesis by (simp add: on_realize_def assms term_ok_call term_ok_on_handle)
next
  case None
  define p where "p = (case arg_forced_id args of Some i \<Rightarrow> (i, s)
    | None \<Rightarrow> (let (i, r) = pre_allocate_id (ts_reg s) in (i, s\<lparr>ts_reg := r\<rparr>)))"
  have "term_ok (snd p)"
    using assms term_ok_allocate [OF assms] by (auto simp: p_def Let_def pre_allocate_id_def split: option.splits)
  then obtain i s' where p: "p = (i, s')" "term_ok s'" by (cases p) simp
  show ?thesis
    using None assms p(2) realize_new_ok [OF p(2)]
    by (simp only: on_realize_def p_def [symmetric] p(1) option.case prod.case Let_def [of p] if_split) auto
qed

lemma attach_input_calls:
  assumes "hm_get (ts_attached s) area = Some h"
  obtains f where "attach_input area e s = (fold (call h) (input_calls e) s)\<lparr>ts_focused := f\<rparr>"
proof -
  have keep: "\<exists>f. s' = s'\<lparr>ts_focused := f\<rparr>" for s' :: TermSys by (rule exI [of _ "ts_focused s'"]) simp
  have "\<exists>f. (case (e, x) of (FocusEnter, Some i) \<Rightarrow> s'\<lparr>ts_focused := ts_focused s' @ [i]\<rparr> | _ \<Rightarrow> s') = s'\<lparr>ts_focused := f\<rparr>"
    for x :: "SurfaceId option" and s' :: TermSys
    using keep [of s'] by (cases e; cases x) (simp_all, blast)
  then show ?thesis using that assms by (auto simp: attach_input_def Let_def)
qed

lemma term_event_ok: "term_ok s \<Longrightarrow> term_ok (term_event e s)"
proof (cases e)
  case (Input area ev)
  have "term_ok (attach_input area ev s)" if "term_ok s"
  proof (cases "hm_get (ts_attached s) area")
    case (Some h)
    with that have h: "h < ts_created s" by (auto simp: term_ok_def)
    obtain f where "attach_input area ev s = (fold (call h) (input_calls ev) s)\<lparr>ts_focused := f\<rparr>"
      using attach_input_calls [OF Some] by blast
    with term_ok_calls [OF that h input_calls_plain, of ev] show ?thesis by (simp add: term_ok_def)
  qed (simp add: attach_input_def that)
  then show "term_ok s \<Longrightarrow> term_ok (term_event e s)" using Input by simp
next
  case (ReadDone result n)
  have "term_ok (read_done result n s)" if "term_ok s" "n < length (ts_reads s)"
  proof -
    obtain st h where n: "ts_reads s ! n = (st, h)" by fastforce
    with that have h: "h < ts_created s" by (metis (no_types, lifting) nth_mem term_ok_def case_prodD)
    have "set (take n (ts_reads s) @ drop (n + 1) (ts_reads s)) \<subseteq> set (ts_reads s)"
      by (auto dest: in_set_takeD in_set_dropD)
    with that(1) have "term_ok (s\<lparr>ts_reads := take n (ts_reads s) @ drop (n + 1) (ts_reads s)\<rparr>)" by (auto simp: term_ok_def)
    then show ?thesis using that(2) n h by (simp add: read_done_def Let_def term_ok_call)
  qed
  moreover have "\<not> n < length (ts_reads s) \<Longrightarrow> read_done result n s = s" by (simp add: read_done_def)
  ultimately show "term_ok s \<Longrightarrow> term_ok (term_event e s)" using ReadDone by (cases "n < length (ts_reads s)") simp_all
next
  case (ReadClipboard display u st)
  then show "term_ok s \<Longrightarrow> term_ok (term_event e s)"
    using userdata_handle [of s u] term_ok_read by (auto simp: read_clipboard_cb_def split: option.splits)
next
  case (ConfirmRead u content st)
  then show "term_ok s \<Longrightarrow> term_ok (term_event e s)"
    using userdata_handle [of s u] by (auto simp: confirm_read_clipboard_cb_def term_ok_call split: option.splits)
next
  case (WindowCloses i)
  then show "term_ok s \<Longrightarrow> term_ok (term_event e s)"
    by (auto simp: window_closes_def term_ok_def get_handle_unregister split: if_splits)
next
  case (WriteClipboard display location items)
  then show "term_ok s \<Longrightarrow> term_ok (term_event e s)"
    by (simp add: write_clipboard_cb_def term_ok_def split: option.splits)
qed (simp_all add: on_realize_ok on_unrealize_def on_render_def on_resize_def term_ok_on_handle term_ok_call term_ok_size)

interpretation terminals: machine term_exec term_enabled term_ok
  by unfold_locales (auto simp: term_exec_def term_event_ok)

abbreviation term_reach :: "TermSys \<Rightarrow> bool" where
  "term_reach s \<equiv> reach term_exec term_enabled TermSys_new s"


definition closed_terminal :: TermSys where
  "closed_terminal =
     term_event (WindowCloses 0)
       (term_event (Realize (\<lambda>_. None) \<lparr>arg_directory = None, arg_command = None, arg_forced_id = None\<rparr> True
          \<lparr>area_width = 80, area_height = 25, area_scale = 1, area_gl_error = False\<rparr> 0) TermSys_new)"


section \<open>Input\<close>

text \<open>The modifiers that the library sees are the ones that are held: one bit for each and no other bit.\<close>

theorem mods_exact:
  "bit (translate_mods state) n \<longleftrightarrow>
     n = 0 \<and> state SHIFT_MASK \<or> n = 1 \<and> state CONTROL_MASK \<or> n = 2 \<and> state ALT_MASK \<or> n = 3 \<and> state SUPER_MASK \<or> n = 4 \<and> state LOCK_MASK"
proof -
  have "bit (push_bit k 1 :: int) n \<longleftrightarrow> n = k" for k by (auto simp: push_bit_of_1 bit_exp_iff)
  then have "bit (if b then m OR push_bit k 1 else m) n \<longleftrightarrow> bit m n \<or> n = k \<and> b" for b k and m :: int by (simp add: bit_or_iff)
  then show ?thesis unfolding translate_mods_def mods_defs Let_def by simp
qed

text \<open>The eight buttons have different codes, and the secondary button is the library's right button.\<close>

lemma buttons_distinct: "distinct (map translate_mouse_button [1, 2, 3, 4, 5, 6, 7, 8])"
  by (simp add: translate_mouse_button_def mouse_defs)

text \<open>The preedit text that a surface shows.\<close>

fun shown_preedit :: "SurfaceCall list \<Rightarrow> chars option \<Rightarrow> chars option" where
  "shown_preedit [] t = t"
| "shown_preedit (Preedit t' # cs) t = shown_preedit cs t'"
| "shown_preedit (_ # cs) t = shown_preedit cs t"

text \<open>A commit of the input method hides the preedit text even when the method does not end its preedit itself.\<close>

lemma commit_clears_preedit: "0 \<notin> set t \<Longrightarrow> shown_preedit (input_calls (ImCommit t)) before = None"
  by simp

section \<open>Clipboard\<close>

lemma first_text_find: "first_text is = Option.bind (find (\<lambda>i. item_data i \<noteq> None \<and> is_text i) is) item_text"
  by (induction "is") (simp_all add: item_text_def split: option.splits)

text \<open>A copy takes the first item that is plain text or has no type, and the first item when there is none.\<close>

theorem copied_text:
  "clipboard_text (i # is) =
     (case find (\<lambda>i. item_data i \<noteq> None \<and> is_text i) (i # is) of Some j \<Rightarrow> item_text j | None \<Rightarrow> item_text i)"
proof (cases "find (\<lambda>i. item_data i \<noteq> None \<and> is_text i) (i # is)")
  case (Some j)
  then have "item_data j \<noteq> None" by (auto simp only: find_Some_iff)
  then obtain t where "item_text j = Some t" by (auto simp: item_text_def)
  with Some show ?thesis by (simp add: clipboard_text_def first_text_find [of "i # is"] del: find.simps first_text.simps)
qed (simp add: clipboard_text_def first_text_find [of "i # is"] del: find.simps first_text.simps)

end
