(* ===== verification/Launcher.thy ===== *)
theory Launcher
  imports Terminal_Surface
begin

text \<open>
  Model of the start of \<open>app/src/main.rs\<close>: where Ghostty's resources are, and what an AppImage changes in the environment for WebKit. The
  file system is a record of the queries that the code makes; \<open>sentinel\<close> is what is at the fixed path in \<open>/tmp\<close>. Together with
  the environment that \<open>surface.rs\<close> gives to the shells it says which libraries a shell sees.
\<close>

section \<open>Paths\<close>

definition strip_slashes :: "string \<Rightarrow> string" where
  "strip_slashes p = rev (dropWhile (\<lambda>c. c = CHR ''/'') (rev p))"

text \<open>\<open>Path::parent\<close>, for paths without dot components.\<close>

definition path_parent :: "string \<Rightarrow> string option" where
  "path_parent p =
     (let q = strip_slashes p in
      if q = [] then None
      else case rfind (CHR ''/'') q of
             None \<Rightarrow> Some []
           | Some i \<Rightarrow> Some (let r = strip_slashes (take i q) in if r = [] then ''/'' else r))"

text \<open>Paths are compared by components: repeated and trailing slashes and dots do not count.\<close>

definition path_components :: "string \<Rightarrow> bool \<times> string list" where
  "path_components p =
     (let cs = filter (\<lambda>c. c \<noteq> []) (split_on (CHR ''/'') p); here = (\<not> starts_with ''/'' p \<and> cs \<noteq> [] \<and> hd cs = ''.'')
      in (starts_with ''/'' p, (if here then [''.''] else []) @ filter (\<lambda>c. c \<noteq> ''.'') cs))"

definition path_eq :: "string \<Rightarrow> string \<Rightarrow> bool" where
  "path_eq a b \<longleftrightarrow> path_components a = path_components b"

datatype Sentinel =
    Missing
  | LinkTo string
  | PlainFile
  | Directory

record HostFs =
  fs_is_file :: "string \<Rightarrow> bool"
  fs_is_dir :: "string \<Rightarrow> bool"
  fs_canonicalize :: "string \<Rightarrow> string option"

section \<open>Resources\<close>

definition ghostty_resources_valid :: "HostFs \<Rightarrow> string \<Rightarrow> bool" where
  "ghostty_resources_valid fs dir =
     (case path_parent dir of
        None \<Rightarrow> False
      | Some share_dir \<Rightarrow> fs_is_file fs (path_join dir ''shell-integration/bash/ghostty.bash'') \<and> fs_is_dir fs (path_join share_dir ''terminfo''))"

text \<open>The argument \<open>repo_root\<close> is the parent of the manifest directory in a debug build, and nothing in a release build.\<close>

definition resource_candidates :: "string option \<Rightarrow> environment \<Rightarrow> string list" where
  "resource_candidates repo_root env =
     (case env ''APPDIR'' of Some (c # a) \<Rightarrow> [path_join (c # a) ''usr/share/ghostty''] | _ \<Rightarrow> []) @
     (case repo_root of Some r \<Rightarrow> [path_join r ''ghostty/zig-out/share/ghostty''] | None \<Rightarrow> [])"

definition setup_ghostty_resources :: "HostFs \<Rightarrow> string option \<Rightarrow> environment \<Rightarrow> environment" where
  "setup_ghostty_resources fs repo_root env =
     (if (case env ''GHOSTTY_RESOURCES_DIR'' of Some path \<Rightarrow> path \<noteq> [] \<and> ghostty_resources_valid fs path | None \<Rightarrow> False) then env
      else case find (ghostty_resources_valid fs) (resource_candidates repo_root env) of
             Some dir \<Rightarrow> env(''GHOSTTY_RESOURCES_DIR'' \<mapsto> unwrap_or (fs_canonicalize fs dir) dir)
           | None \<Rightarrow> env(''GHOSTTY_RESOURCES_DIR'' := None))"

section \<open>WebKit in an AppImage\<close>

definition relink_sentinel :: "string \<Rightarrow> Sentinel \<Rightarrow> Sentinel" where
  "relink_sentinel helper_dir st =
     (let ok = (case st of LinkTo target \<Rightarrow> path_eq target helper_dir | _ \<Rightarrow> False)
      in if ok then st else (case st of Directory \<Rightarrow> Directory | _ \<Rightarrow> LinkTo helper_dir))"

definition add_library_dir :: "string \<Rightarrow> string \<Rightarrow> string" where
  "add_library_dir lib_dir ld =
     (if \<exists>p\<in>set (split_on (CHR '':'') ld). p \<noteq> [] \<and> path_eq p lib_dir then ld
      else if ld = [] then lib_dir else lib_dir @ '':'' @ ld)"

definition setup_appimage_webkit :: "HostFs \<Rightarrow> environment \<times> Sentinel \<Rightarrow> environment \<times> Sentinel" where
  "setup_appimage_webkit fs es =
     (let (env, st) = es in
      case env ''APPDIR'' of
        None \<Rightarrow> (env, st)
      | Some appdir \<Rightarrow>
          (let helper_dir = path_join appdir ''usr/lib/webkitgtk-6.0'';
               st = (if fs_is_dir fs helper_dir then relink_sentinel helper_dir st else st);
               env = env(''WEBKIT_DISABLE_SANDBOX_THIS_IS_DANGEROUS'' \<mapsto> ''1'', ''WEBKIT_DISABLE_DMABUF_RENDERER'' \<mapsto> ''1'');
               env = (if fs_is_dir fs helper_dir
                      then env(''WEBKIT_INJECTED_BUNDLE_PATH'' \<mapsto> path_join helper_dir ''injected-bundle/libwebkitgtkinjectedbundle.so'')
                      else env);
               ld = unwrap_or (env ''LD_LIBRARY_PATH'') [];
               ld' = add_library_dir (path_join appdir ''usr/lib'') ld
           in (if ld' \<noteq> ld then env(''LD_LIBRARY_PATH'' \<mapsto> ld') else env, st)))"

definition launch :: "HostFs \<Rightarrow> string option \<Rightarrow> environment \<times> Sentinel \<Rightarrow> environment \<times> Sentinel" where
  "launch fs repo_root es = setup_appimage_webkit fs (setup_ghostty_resources fs repo_root (fst es), snd es)"

text \<open>The library path that a shell of the application has: the override of its surface, or the application's own.\<close>

definition shell_library_path :: "environment \<Rightarrow> string" where
  "shell_library_path env = unwrap_or (map_of (shell_env env) ''LD_LIBRARY_PATH'') (unwrap_or (env ''LD_LIBRARY_PATH'') [])"

section \<open>Properties\<close>

lemma join_fields:
  assumes "\<forall>f\<in>set fs. CHR '':'' \<notin> set f \<and> f \<noteq> []"
  shows "filter (\<lambda>p. p \<noteq> []) (split_on (CHR '':'') (join '':'' fs)) = fs"
proof (cases "fs = []")
  case False
  then have "split_on (CHR '':'') (join '':'' fs) = fs" using assms split_on_join by auto
  then show ?thesis using assms by (simp add: filter_id_conv)
qed simp

lemma clean_fields:
  "filter (\<lambda>p. p \<noteq> []) (split_on (CHR '':'') (clean_library_path a ld)) =
     filter (\<lambda>p. p \<noteq> [] \<and> \<not> starts_with a p) (split_on (CHR '':'') ld)"
  unfolding clean_library_path_def by (rule join_fields) (auto dest: split_on_fields)

lemma shell_library_path_clean:
  assumes "env ''APPDIR'' = Some a"
  shows "shell_library_path env = clean_library_path a (unwrap_or (env ''LD_LIBRARY_PATH'') [])"
  using assms by (simp add: shell_library_path_def shell_env_def Let_def)

lemma add_library_fields:
  assumes "a \<noteq> []" "CHR '':'' \<notin> set a" "d = path_join a ''usr/lib''"
  shows "filter (\<lambda>p. p \<noteq> [] \<and> \<not> starts_with a p) (split_on (CHR '':'') (add_library_dir d ld)) =
    filter (\<lambda>p. p \<noteq> [] \<and> \<not> starts_with a p) (split_on (CHR '':'') ld)"
proof -
  have "\<not> starts_with ''/'' ''usr/lib''" by code_simp
  then have "d = a @ ''usr/lib'' \<or> d = a @ ''/usr/lib''" using assms by (simp add: path_join_def)
  then have d: "CHR '':'' \<notin> set d" "starts_with a d" using assms(2) by (auto simp: starts_with_def)
  then show ?thesis by (simp add: add_library_dir_def split_on_append split_on_no_sep)
qed

lemma launch_env:
  assumes "env ''APPDIR'' = Some a"
  shows "fst (launch fs r (env, st)) ''APPDIR'' = Some a"
    "unwrap_or (fst (launch fs r (env, st)) ''LD_LIBRARY_PATH'') [] =
       add_library_dir (path_join a ''usr/lib'') (unwrap_or (env ''LD_LIBRARY_PATH'') [])"
proof -
  have "setup_ghostty_resources fs r env ''APPDIR'' = Some a" "setup_ghostty_resources fs r env ''LD_LIBRARY_PATH'' = env ''LD_LIBRARY_PATH''"
    using assms by (simp_all add: setup_ghostty_resources_def split: option.split)
  then show "fst (launch fs r (env, st)) ''APPDIR'' = Some a"
    "unwrap_or (fst (launch fs r (env, st)) ''LD_LIBRARY_PATH'') [] =
       add_library_dir (path_join a ''usr/lib'') (unwrap_or (env ''LD_LIBRARY_PATH'') [])"
    by (simp_all add: launch_def setup_appimage_webkit_def Let_def)
qed

text \<open>
  What the AppImage adds to the library path for its own process does not reach the shells: the library path of a shell has, in order, the
  non-empty entries of the path that the application was started with, except those that begin with the directory of the AppImage.
\<close>

theorem shells_keep_host_libraries:
  assumes "env ''APPDIR'' = Some a" "a \<noteq> []" "CHR '':'' \<notin> set a"
  shows "filter (\<lambda>p. p \<noteq> []) (split_on (CHR '':'') (shell_library_path (fst (launch fs r (env, st))))) =
    filter (\<lambda>p. p \<noteq> [] \<and> \<not> starts_with a p) (split_on (CHR '':'') (unwrap_or (env ''LD_LIBRARY_PATH'') []))"
  using launch_env [of env a fs r st] assms by (simp add: shell_library_path_clean clean_fields add_library_fields)

definition host_env :: environment where
  "host_env = [''APPDIR'' \<mapsto> ''/opt/app'', ''LD_LIBRARY_PATH'' \<mapsto> ''/usr/lib/x:/opt/app-libs'']"

definition bare_fs :: HostFs where
  "bare_fs = \<lparr>fs_is_file = (\<lambda>_. False), fs_is_dir = (\<lambda>_. False), fs_canonicalize = (\<lambda>_. None)\<rparr>"

text \<open>The example also shows the price of the comparison by prefix: a directory beside the AppImage whose name begins like it is lost.\<close>

theorem shells_keep_host_libraries_witness:
  "filter (\<lambda>p. p \<noteq> []) (split_on (CHR '':'') (shell_library_path (fst (launch bare_fs None (host_env, Missing))))) = [''/usr/lib/x'']"
proof -
  have "host_env ''APPDIR'' = Some ''/opt/app''" "CHR '':'' \<notin> set ''/opt/app''" by code_simp+
  with shells_keep_host_libraries [of host_env "''/opt/app''" bare_fs None Missing]
  have "filter (\<lambda>p. p \<noteq> []) (split_on (CHR '':'') (shell_library_path (fst (launch bare_fs None (host_env, Missing))))) =
    filter (\<lambda>p. p \<noteq> [] \<and> \<not> starts_with ''/opt/app'' p) (split_on (CHR '':'') (unwrap_or (host_env ''LD_LIBRARY_PATH'') []))"
    by simp
  moreover have "filter (\<lambda>p. p \<noteq> [] \<and> \<not> starts_with ''/opt/app'' p)
      (split_on (CHR '':'') (unwrap_or (host_env ''LD_LIBRARY_PATH'') [])) = [''/usr/lib/x'']" by code_simp
  ultimately show ?thesis by simp
qed

text \<open>
  After the start the variable for Ghostty's resources is unset or names a complete installation, as long as the canonical name of a
  complete installation is one too.
\<close>

theorem launch_finds_resources:
  assumes "\<forall>d c. ghostty_resources_valid fs d \<and> fs_canonicalize fs d = Some c \<longrightarrow> ghostty_resources_valid fs c"
    "setup_ghostty_resources fs r env ''GHOSTTY_RESOURCES_DIR'' = Some dir"
  shows "ghostty_resources_valid fs dir"
proof -
  have "find (ghostty_resources_valid fs) cs = Some d \<Longrightarrow> ghostty_resources_valid fs (unwrap_or (fs_canonicalize fs d) d)" for cs d
    using assms(1) by (cases "fs_canonicalize fs d") (auto simp: find_Some_iff)
  with assms(2) show ?thesis by (auto simp: setup_ghostty_resources_def split: if_splits option.splits)
qed

lemma sentinel_leads_to_helpers:
  "relink_sentinel d st = Directory \<or> (\<exists>t. relink_sentinel d st = LinkTo t \<and> path_eq t d)"
  by (cases st) (auto simp: relink_sentinel_def path_eq_def)

text \<open>In an AppImage with helpers the link in \<open>/tmp\<close> leads to them unless a directory is in its place.\<close>

lemma launch_sentinel:
  assumes "env ''APPDIR'' = Some a" "fs_is_dir fs (path_join a ''usr/lib/webkitgtk-6.0'')" "st \<noteq> Directory"
  shows "\<exists>t. snd (launch fs r (env, st)) = LinkTo t \<and> path_eq t (path_join a ''usr/lib/webkitgtk-6.0'')"
proof -
  have "setup_ghostty_resources fs r env ''APPDIR'' = Some a"
    using assms(1) by (simp add: setup_ghostty_resources_def split: option.split)
  then have "snd (launch fs r (env, st)) = relink_sentinel (path_join a ''usr/lib/webkitgtk-6.0'') st"
    using assms(2) by (simp add: launch_def setup_appimage_webkit_def Let_def)
  moreover have "relink_sentinel d st \<noteq> Directory" for d using assms(3) by (cases st) (simp_all add: relink_sentinel_def)
  ultimately show ?thesis using sentinel_leads_to_helpers by metis
qed

end
