(* ===== verification/Appearance.thy ===== *)
theory Appearance
  imports Rust_Args
begin

text \<open>
  Model of \<open>app/src/appearance.rs\<close>: the detection of the dark colour scheme and its changes at run time. The desktop is what the code
  reads: the GTK settings object, which may be missing, with its flag and theme name, the answer of the portal and the GSettings value.
\<close>

record GtkSettings =
  prefer_dark :: bool
  theme_name :: "string option"

record Desktop =
  gtk_settings :: "GtkSettings option"
  portal_scheme :: "u32 option"
  gnome_enum :: "int option"

record Appearance =
  desktop :: Desktop
  is_dark :: bool
  css_reloads :: "bool list"

definition name_dark :: "string \<Rightarrow> bool" where
  "name_dark theme \<longleftrightarrow> sublist ''dark'' (to_lowercase theme)"

definition gnome_color_scheme :: "Desktop \<Rightarrow> bool option" where
  "gnome_color_scheme d = map_option (\<lambda>v. v = 1) (gnome_enum d)"

definition theme_dark :: "GtkSettings \<Rightarrow> bool" where
  "theme_dark g \<longleftrightarrow> (case theme_name g of Some theme \<Rightarrow> name_dark theme | None \<Rightarrow> False)"

definition detect_color_scheme :: "Desktop \<Rightarrow> bool" where
  "detect_color_scheme d =
     (if (case gtk_settings d of Some g \<Rightarrow> prefer_dark g \<or> theme_dark g | None \<Rightarrow> False) then True
      else case portal_scheme d of
             Some v \<Rightarrow> v = 1
           | None \<Rightarrow> (case gnome_color_scheme d of Some dark \<Rightarrow> dark | None \<Rightarrow> False))"

definition apply_gtk_theme :: "bool \<Rightarrow> Desktop \<Rightarrow> Desktop" where
  "apply_gtk_theme dark d = d\<lparr>gtk_settings := map_option (\<lambda>g. g\<lparr>prefer_dark := dark\<rparr>) (gtk_settings d)\<rparr>"

definition appearance_init :: "Desktop \<Rightarrow> Appearance" where
  "appearance_init d =
     (let dark = detect_color_scheme d in \<lparr>desktop = apply_gtk_theme dark d, is_dark = dark, css_reloads = []\<rparr>)"

text \<open>
  Setting the flag notifies the handler again; the lemma \<open>scheme_changed_again\<close> below says that the nested call changes nothing.
\<close>

definition on_scheme_changed :: "Appearance \<Rightarrow> Appearance" where
  "on_scheme_changed a =
     (let new_dark = detect_color_scheme (desktop a) in
      if new_dark \<noteq> is_dark a
      then a\<lparr>is_dark := new_dark, desktop := apply_gtk_theme new_dark (desktop a), css_reloads := css_reloads a @ [new_dark]\<rparr>
      else a)"

text \<open>What the user changes in the system, each of which calls the handler.\<close>

datatype DesktopEvent =
    ThemeChanged "string option"
  | PortalChanged "u32 option"
  | GnomeChanged "int option"

fun desktop_event :: "DesktopEvent \<Rightarrow> Desktop \<Rightarrow> Desktop" where
  "desktop_event (ThemeChanged t) d = d\<lparr>gtk_settings := map_option (\<lambda>g. g\<lparr>theme_name := t\<rparr>) (gtk_settings d)\<rparr>"
| "desktop_event (PortalChanged v) d = d\<lparr>portal_scheme := v\<rparr>"
| "desktop_event (GnomeChanged v) d = d\<lparr>gnome_enum := v\<rparr>"

definition appearance_event :: "DesktopEvent \<Rightarrow> Appearance \<Rightarrow> Appearance" where
  "appearance_event e a = on_scheme_changed (a\<lparr>desktop := desktop_event e (desktop a)\<rparr>)"

abbreviation run_appearance :: "DesktopEvent list \<Rightarrow> Appearance \<Rightarrow> Appearance" where
  "run_appearance es a \<equiv> foldl (\<lambda>a e. appearance_event e a) a es"

section \<open>Properties\<close>

lemma detect_dark_applied: "gtk_settings d \<noteq> None \<Longrightarrow> detect_color_scheme (apply_gtk_theme True d)"
  by (auto simp: detect_color_scheme_def apply_gtk_theme_def)

lemma detect_applied: "detect_color_scheme (apply_gtk_theme (detect_color_scheme d) d) = detect_color_scheme d"
  by (cases "gtk_settings d"; cases "portal_scheme d"; cases "gnome_enum d")
    (simp_all add: detect_color_scheme_def apply_gtk_theme_def gnome_color_scheme_def theme_dark_def)

lemma scheme_current: "is_dark (on_scheme_changed a) = detect_color_scheme (desktop (on_scheme_changed a))"
  using detect_applied [of "desktop a"] by (cases "detect_color_scheme (desktop a) = is_dark a") (simp_all add: on_scheme_changed_def Let_def)

lemma scheme_changed_again: "on_scheme_changed (on_scheme_changed a) = on_scheme_changed a"
  using scheme_current [of a] by (subst on_scheme_changed_def) (simp add: Let_def)

definition dark_held :: "Appearance \<Rightarrow> bool" where
  "dark_held a \<longleftrightarrow> (\<exists>g. gtk_settings (desktop a) = Some g \<and> prefer_dark g) \<and> is_dark a"

lemma init_holds: "detect_color_scheme d \<Longrightarrow> gtk_settings d \<noteq> None \<Longrightarrow> dark_held (appearance_init d)"
  by (auto simp: dark_held_def appearance_init_def apply_gtk_theme_def)

lemma event_holds: "dark_held a \<Longrightarrow> dark_held (appearance_event e a)"
  by (cases e) (auto simp: dark_held_def appearance_event_def on_scheme_changed_def Let_def detect_color_scheme_def)

lemma events_hold: "dark_held a \<Longrightarrow> dark_held (run_appearance es a)"
  by (induction es arbitrary: a) (simp_all add: event_holds)


definition dark_desktop :: Desktop where
  "dark_desktop = \<lparr>gtk_settings = Some \<lparr>prefer_dark = False, theme_name = Some ''Adwaita''\<rparr>, portal_scheme = Some 1, gnome_enum = None\<rparr>"


text \<open>From a light start every change to dark is seen, and the style sheet is loaded again exactly once for it.\<close>

theorem light_becomes_dark:
  assumes "\<not> is_dark a"
  shows "is_dark (appearance_event e a) = detect_color_scheme (desktop_event e (desktop a)) \<and>
    css_reloads (appearance_event e a) = css_reloads a @ (if detect_color_scheme (desktop_event e (desktop a)) then [True] else [])"
  using assms by (simp add: appearance_event_def on_scheme_changed_def Let_def)

end
