(* ===== verification/Settings_Ui.thy ===== *)
theory Settings_Ui
  imports App_Settings Proc_Fs Step_Machine
begin

text \<open>
  Model of the logic of \<open>app/src/settings_ui.rs\<close>: what the switches and entries of the settings window store, the capture of shortcuts with
  its check for conflicts, and the editing of Ghostty's configuration file. The widgets of the pages are not modelled, and \<open>accelerator_name\<close>
  of GTK is an argument: a captured combination is the name that it gave.
\<close>

section \<open>The pages\<close>

definition FREQUENCIES :: "string list" where
  "FREQUENCIES = [''startup'', ''daily'', ''weekly'']"

definition freq_idx :: "string \<Rightarrow> nat" where
  "freq_idx current = (case position (\<lambda>f. f = current) FREQUENCIES of Some i \<Rightarrow> i | None \<Rightarrow> 1)"

datatype SettingChange =
    ShellText string
  | DirectoryText string
  | RestoreSwitch bool
  | NotifySwitch bool
  | UpdateSwitch bool
  | FrequencyChosen nat
  | DesktopIntegrated
  | WidthSpin int
  | VisibleSwitch bool

definition text_setting :: "string \<Rightarrow> string option" where
  "text_setting t = (if t = [] then None else Some t)"

definition sidebar_width_changed :: "int \<Rightarrow> Settings \<Rightarrow> Settings" where
  "sidebar_width_changed w s = s\<lparr>sidebar := (sidebar s)\<lparr>sb_width := Some w\<rparr>\<rparr>"

definition sidebar_visible_changed :: "bool \<Rightarrow> Settings \<Rightarrow> Settings" where
  "sidebar_visible_changed b s = s\<lparr>sidebar := (sidebar s)\<lparr>sb_visible := Some b\<rparr>\<rparr>"

fun apply_change :: "SettingChange \<Rightarrow> Settings \<Rightarrow> Settings" where
  "apply_change (ShellText t) s = s\<lparr>general := (general s)\<lparr>default_shell := text_setting t\<rparr>\<rparr>"
| "apply_change (DirectoryText t) s = s\<lparr>general := (general s)\<lparr>g_working_directory := text_setting t\<rparr>\<rparr>"
| "apply_change (RestoreSwitch b) s = s\<lparr>general := (general s)\<lparr>g_session_restore := Some b\<rparr>\<rparr>"
| "apply_change (NotifySwitch b) s = s\<lparr>general := (general s)\<lparr>g_notifications_enabled := Some b\<rparr>\<rparr>"
| "apply_change (UpdateSwitch b) s = s\<lparr>general := (general s)\<lparr>g_check_for_updates := Some b\<rparr>\<rparr>"
| "apply_change (FrequencyChosen i) s =
     (if i < length FREQUENCIES then s\<lparr>general := (general s)\<lparr>g_update_check_frequency := Some (FREQUENCIES ! i)\<rparr>\<rparr> else s)"
| "apply_change DesktopIntegrated s = s\<lparr>general := (general s)\<lparr>g_desktop_integrated := Some True\<rparr>\<rparr>"
| "apply_change (WidthSpin w) s = sidebar_width_changed w s"
| "apply_change (VisibleSwitch b) s = sidebar_visible_changed b s"

text \<open>The bytes of the dash in UTF-8.\<close>

definition em_dash :: string where
  "em_dash = [CHR 0xE2, CHR 0x80, CHR 0x94]"

definition integration_status :: "string option \<Rightarrow> string \<Rightarrow> string" where
  "integration_status installed current =
     (case installed of
        Some v \<Rightarrow> if v \<noteq> current then ''Integrated as v'' @ v @ '' '' @ em_dash @ '' running v'' @ current else ''Integrated as v'' @ v
      | None \<Rightarrow> ''limux is already integrated with your desktop.'')"

section \<open>Shortcuts\<close>

definition check_shortcut_conflict :: "string \<Rightarrow> string \<Rightarrow> Settings \<Rightarrow> string option" where
  "check_shortcut_conflict action accel s =
     map_option fst (find (\<lambda>(other_action, other_accel). other_action \<noteq> action \<and> other_accel = accel) (merged_shortcuts s))"

datatype CapturedKey =
    BareModifier
  | Escape
  | Combination string

record Popover =
  pop_open :: bool
  pop_label :: string
  pop_accel :: string

definition conflict_label :: "string \<Rightarrow> string" where
  "conflict_label action = (case find (\<lambda>d. sc_action d = action) SHORTCUT_DEFAULTS of Some d \<Rightarrow> sc_label d | None \<Rightarrow> action)"

fun start_key_capture :: "string \<Rightarrow> CapturedKey \<Rightarrow> Popover \<times> Settings \<Rightarrow> Popover \<times> Settings" where
  "start_key_capture action BareModifier ps = ps"
| "start_key_capture action Escape (p, s) = (p\<lparr>pop_open := False\<rparr>, s)"
| "start_key_capture action (Combination accel) (p, s) =
     (case check_shortcut_conflict action accel s of
        Some c \<Rightarrow> (p\<lparr>pop_label := ''Conflicts with: '' @ conflict_label c\<rparr>, s)
      | None \<Rightarrow> (p\<lparr>pop_accel := accel, pop_open := False\<rparr>, s\<lparr>shortcuts := hm_insert action accel (shortcuts s)\<rparr>))"

definition reset_shortcuts :: "Settings \<Rightarrow> Settings" where
  "reset_shortcuts s = s\<lparr>shortcuts := []\<rparr>"

section \<open>Ghostty's configuration file\<close>

datatype ConfigFile =
    NoFile
  | Unreadable
  | Content string

definition read_config :: "ConfigFile \<Rightarrow> string option" where
  "read_config f = (case f of Content c \<Rightarrow> Some c | _ \<Rightarrow> None)"

definition is_key_line :: "string \<Rightarrow> string \<Rightarrow> bool" where
  "is_key_line key line =
     (let trimmed = trim line in
      \<not> starts_with ''#'' trimmed \<and> trimmed \<noteq> [] \<and>
      (case strip_prefix key trimmed of
         Some after \<Rightarrow> starts_with ''='' (trim_start after) \<or> trim_start after = []
       | None \<Rightarrow> False))"

fun replace_key :: "string \<Rightarrow> string \<Rightarrow> string list \<Rightarrow> string list \<times> bool" where
  "replace_key key new_line [] = ([], False)"
| "replace_key key new_line (line # ls) =
     (if is_key_line key line then (new_line # ls, True)
      else (let (ls', found) = replace_key key new_line ls in (line # ls', found)))"

definition config_line :: "string \<Rightarrow> string \<Rightarrow> string" where
  "config_line key v = (if v = [] then key @ '' ='' else key @ '' = '' @ v)"

definition set_config_lines :: "string \<Rightarrow> string \<Rightarrow> string list \<Rightarrow> string list" where
  "set_config_lines key v ls =
     (let (ls', found) = replace_key key (config_line key v) ls in if found then ls' else ls' @ [config_line key v])"

definition end_line :: "string \<Rightarrow> string" where
  "end_line out = (if out \<noteq> [] \<and> last out = CHR 0x0A then out else out @ [CHR 0x0A])"

definition set_ghostty_config_key :: "bool \<Rightarrow> string \<Rightarrow> string \<Rightarrow> ConfigFile \<Rightarrow> ConfigFile" where
  "set_ghostty_config_key write_ok key v f =
     (let content = unwrap_or (read_config f) [];
          out = end_line (join [CHR 0x0A] (set_config_lines key v (lines content)))
      in if write_ok then Content out else f)"

definition apply_config_change :: "bool \<Rightarrow> string \<Rightarrow> string \<Rightarrow> ConfigFile \<Rightarrow> ConfigFile" where
  "apply_config_change write_ok key v f = set_ghostty_config_key write_ok key (trim v) f"

definition scrollback_entered :: "bool \<Rightarrow> string \<Rightarrow> ConfigFile \<Rightarrow> ConfigFile" where
  "scrollback_entered write_ok s f =
     (if parse_u64 (trim s) \<noteq> None then apply_config_change write_ok ''scrollback-limit'' (trim s) f else f)"

definition edit_config :: "bool \<Rightarrow> ConfigFile \<Rightarrow> ConfigFile" where
  "edit_config write_ok f =
     (case f of
        NoFile \<Rightarrow> if write_ok
          then Content (''# Ghostty configuration'' @ [CHR 0x0A] @ ''# See: https://ghostty.org/docs/config'' @ [CHR 0x0A, CHR 0x0A]) else f
      | _ \<Rightarrow> f)"

definition line_value :: "string \<Rightarrow> string \<Rightarrow> string option" where
  "line_value key line =
     (let line = trim line in
      if starts_with ''#'' line \<or> line = [] then None
      else do { after \<leftarrow> strip_prefix key line;
                v \<leftarrow> strip_prefix ''='' (trim_start after);
                (if trim v \<noteq> [] then Some (trim v) else None) })"

fun first_value :: "string \<Rightarrow> string list \<Rightarrow> string option" where
  "first_value key [] = None"
| "first_value key (l # ls) = (case line_value key l of Some v \<Rightarrow> Some v | None \<Rightarrow> first_value key ls)"

definition parse_ghostty_config_key :: "string \<Rightarrow> ConfigFile \<Rightarrow> string option" where
  "parse_ghostty_config_key key f = Option.bind (read_config f) (\<lambda>content. first_value key (lines content))"

text \<open>
  Properties of the settings window: a key of Ghostty's configuration reads back as it was written and no other key changes, no two actions get
  the same shortcut text, and what that check of conflicts misses.
\<close>

section \<open>Configuration keys\<close>

definition key_ok :: "string \<Rightarrow> bool" where
  "key_ok k \<longleftrightarrow> k \<noteq> [] \<and> hd k \<noteq> CHR ''#'' \<and> (\<forall>c\<in>set k. \<not> is_whitespace c \<and> c \<noteq> CHR ''='')"

lemma starts_with_Cons: "starts_with [c] s \<longleftrightarrow> s \<noteq> [] \<and> hd s = c"
  by (cases s) (auto simp: starts_with_prefix)

text \<open>A key and the text after it determine where the key ends.\<close>

lemma key_unique:
  assumes "key_ok k" "key_ok k'" "k @ r = k' @ r'" "starts_with ''='' (trim_start r) \<or> trim_start r = []" "starts_with ''='' (trim_start r')"
  shows "k = k'"
proof -
  have no: "\<not> (starts_with ''='' (trim_start (u @ t)) \<or> trim_start (u @ t) = [])"
    if "u \<noteq> []" "\<forall>c\<in>set u. \<not> is_whitespace c \<and> c \<noteq> CHR ''=''" for u t
    using that by (cases u) (auto simp: starts_with_Cons trim_start_def)
  from assms(3) obtain u where "k = k' @ u \<and> u @ r = r' \<or> k @ u = k' \<and> r = u @ r'" by (auto simp: append_eq_append_conv2)
  then show ?thesis
  proof (elim disjE conjE)
    assume u: "k = k' @ u" "u @ r = r'"
    have "set u \<subseteq> set k" unfolding u(1) by simp
    then have "\<forall>c\<in>set u. \<not> is_whitespace c \<and> c \<noteq> CHR ''=''" using assms(1) unfolding key_ok_def by blast
    then have "u = []" using no [of u r] u(2) assms(5) by blast
    with u show ?thesis by simp
  next
    assume u: "k @ u = k'" "r = u @ r'"
    have "set u \<subseteq> set k'" unfolding u(1) [symmetric] by simp
    then have "\<forall>c\<in>set u. \<not> is_whitespace c \<and> c \<noteq> CHR ''=''" using assms(2) unfolding key_ok_def by blast
    then have "u = []" using no [of u r'] u(2) assms(4) by blast
    with u show ?thesis by simp
  qed
qed

lemma key_line_value:
  assumes "key_ok k" "key_ok k'" "is_key_line k l" "line_value k' l \<noteq> None"
  shows "k = k'"
proof -
  from assms(3) obtain r where "trim l = k @ r" "starts_with ''='' (trim_start r) \<or> trim_start r = []"
    by (auto simp: is_key_line_def Let_def split: option.splits)
  moreover from assms(4) obtain r' where "trim l = k' @ r'" "starts_with ''='' (trim_start r')"
    by (auto simp: line_value_def Let_def starts_with_def split: if_splits bind_splits)
  ultimately show ?thesis using key_unique [OF assms(1,2)] by metis
qed

lemma valued_is_key_line: "line_value k l \<noteq> None \<Longrightarrow> is_key_line k l"
  by (auto simp: line_value_def is_key_line_def Let_def starts_with_def split: if_splits bind_splits option.splits)

lemma config_line_trim:
  assumes "key_ok k" "v \<noteq> []" "trim v = v"
  shows "trim (config_line k v) = config_line k v" "is_key_line k (config_line k v)" "line_value k (config_line k v) = Some v"
proof -
  have blank: "is_whitespace (CHR '' '')" "\<not> is_whitespace (CHR ''='')" by code_simp+
  have k: "k \<noteq> []" "\<not> is_whitespace (hd k)" "hd k \<noteq> CHR ''#''" using assms(1) by (auto simp: key_ok_def)
  have v: "\<not> is_whitespace (hd v)" "\<not> is_whitespace (last v)" using trim_ends [of v] assms(2,3) by simp_all
  show t: "trim (config_line k v) = config_line k v"
    using k v assms(2) by (intro trim_clean) (simp add: config_line_def)
  have a: "trim_start ('' = '' @ v) = ''= '' @ v" using blank by (simp add: trim_start_def)
  have b: "trim ('' '' @ v) = v" using blank assms(3) by (simp add: trim_def trim_start_def)
  have c: "\<not> starts_with ''#'' (config_line k v)" "config_line k v \<noteq> []" using k by (auto simp: starts_with_Cons config_line_def)
  have p: "strip_prefix k (config_line k v) = Some ('' = '' @ v)" using assms(2) by (simp add: config_line_def)
  show "is_key_line k (config_line k v)" unfolding is_key_line_def t Let_def p using a c by (simp add: starts_with_Cons)
  show "line_value k (config_line k v) = Some v" unfolding line_value_def t Let_def p using a b c assms(2) by simp
qed

lemma first_value_append: "first_value k (xs @ ys) = (case first_value k xs of Some v \<Rightarrow> Some v | None \<Rightarrow> first_value k ys)"
  by (induction xs) (auto split: option.splits)

lemma first_value_replace:
  assumes "line_value k n = Some v"
  shows "first_value k (if snd (replace_key k n ls) then fst (replace_key k n ls) else fst (replace_key k n ls) @ [n]) = Some v"
proof (induction ls)
  case (Cons l ls)
  show ?case
  proof (cases "is_key_line k l")
    case False
    then have "line_value k l = None" using valued_is_key_line by blast
    with False Cons show ?thesis by (simp add: case_prod_beta Let_def split: if_splits)
  qed (simp add: assms)
qed (simp add: assms)

lemma first_value_replace_other:
  assumes "key_ok k" "key_ok k'" "k \<noteq> k'" "line_value k' n = None"
  shows "first_value k' (if snd (replace_key k n ls) then fst (replace_key k n ls) else fst (replace_key k n ls) @ [n]) = first_value k' ls"
proof (induction ls)
  case (Cons l ls)
  show ?case
  proof (cases "is_key_line k l")
    case True
    then have "line_value k' l = None" using key_line_value [OF assms(1,2)] assms(3) by blast
    with True show ?thesis by (simp add: assms(4))
  qed (use Cons in \<open>simp add: case_prod_beta Let_def split: if_splits option.splits\<close>)
qed (simp add: assms(4))

section \<open>Lines of the written file\<close>

definition one_line :: "string \<Rightarrow> bool" where
  "one_line l \<longleftrightarrow> CHR 0x0A \<notin> set l"

lemma lines_one: "l \<in> set (lines s) \<Longrightarrow> one_line l"
proof -
  assume l: "l \<in> set (lines s)"
  let ?fs = "split_on (CHR 0x0A) s"
  have f: "one_line f" if "f \<in> set ?fs" for f using that split_on_fields by (simp add: one_line_def)
  have s: "one_line f \<Longrightarrow> one_line (strip_cr f)" for f by (auto simp: one_line_def strip_cr_def dest: in_set_butlastD)
  show ?thesis using l f s by (auto simp: lines_def Let_def split: if_splits dest: in_set_butlastD)
qed

lemma line_value_trim: "trim l = trim m \<Longrightarrow> line_value k l = line_value k m"
  by (simp add: line_value_def)

lemma first_value_strip_cr: "first_value k (map strip_cr ls) = first_value k ls"
  by (induction ls) (simp_all add: line_value_trim [OF trim_strip_cr] split: option.splits)

lemma line_value_Nil: "line_value k [] = None"
  by (simp add: line_value_def trim_def trim_start_def trim_end_def)

lemma first_value_butlast: "ls \<noteq> [] \<Longrightarrow> last ls = [] \<Longrightarrow> first_value k (butlast ls) = first_value k ls"
  using first_value_append [of k "butlast ls" "[last ls]"] append_butlast_last_id [of ls] by (auto simp: line_value_Nil split: option.splits)

lemma last_join: "ls \<noteq> [] \<Longrightarrow> last ls \<noteq> [] \<Longrightarrow> join d ls \<noteq> [] \<and> last (join d ls) = last (last ls)"
  by (induction d ls rule: join.induct) (auto split: if_splits)

lemma split_end_line:
  assumes "ls \<noteq> []" "\<forall>l\<in>set ls. one_line l"
  shows "split_on (CHR 0x0A) (end_line (join [CHR 0x0A] ls)) = ls \<or> split_on (CHR 0x0A) (end_line (join [CHR 0x0A] ls)) = ls @ [[]]"
    "last (split_on (CHR 0x0A) (end_line (join [CHR 0x0A] ls))) = []"
proof -
  let ?n = "[CHR 0x0A]"
  have s: "split_on (CHR 0x0A) (join ?n ls) = ls" using assms by (intro split_on_join) (simp_all add: one_line_def)
  have snoc: "join ?n (ls @ [[]]) = join ?n ls @ ?n"
    using assms(1) by (induction "?n" ls rule: join.induct) auto
  have s': "split_on (CHR 0x0A) (join ?n ls @ ?n) = ls @ [[]]"
    unfolding snoc [symmetric] using assms by (intro split_on_join) (auto simp: one_line_def)
  have e: "last ls = []" if "join ?n ls \<noteq> []" "last (join ?n ls) = CHR 0x0A"
  proof (rule ccontr)
    assume "last ls \<noteq> []"
    have "last (join ?n ls) = last (last ls)" using last_join [OF assms(1) \<open>last ls \<noteq> []\<close>] by simp
    moreover have "last (last ls) \<in> set (last ls)" "last ls \<in> set ls" using \<open>last ls \<noteq> []\<close> assms(1) by simp_all
    ultimately show False using assms(2) that(2) by (auto simp: one_line_def)
  qed
  show "split_on (CHR 0x0A) (end_line (join ?n ls)) = ls \<or> split_on (CHR 0x0A) (end_line (join ?n ls)) = ls @ [[]]"
    using s s' by (simp add: end_line_def)
  show "last (split_on (CHR 0x0A) (end_line (join ?n ls))) = []" using s s' e by (simp add: end_line_def)
qed

lemma written_values:
  assumes "ls \<noteq> []" "\<forall>l\<in>set ls. one_line l"
  shows "first_value k (lines (end_line (join [CHR 0x0A] ls))) = first_value k ls"
proof -
  let ?fs = "split_on (CHR 0x0A) (end_line (join [CHR 0x0A] ls))"
  have "first_value k (lines (end_line (join [CHR 0x0A] ls))) = first_value k (butlast ?fs)"
    using split_end_line(2) [OF assms] by (simp add: lines_def first_value_strip_cr)
  also have "\<dots> = first_value k ?fs" using split_end_line(2) [OF assms] by (intro first_value_butlast) simp_all
  also have "\<dots> = first_value k ls"
    using split_end_line(1) [OF assms] first_value_append [of k ls "[[]]"] by (auto simp: line_value_Nil split: option.splits)
  finally show ?thesis .
qed

lemma replace_key_lines:
  "set (if snd (replace_key k n ls) then fst (replace_key k n ls) else fst (replace_key k n ls) @ [n]) \<subseteq> insert n (set ls)"
  by (induction ls) (auto simp: case_prod_beta Let_def split: if_splits)

lemma replace_key_nonempty: "(if snd (replace_key k n ls) then fst (replace_key k n ls) else fst (replace_key k n ls) @ [n]) \<noteq> []"
  by (induction ls) (auto simp: case_prod_beta Let_def)

lemma set_then_parse:
  assumes "one_line (config_line k v)"
  shows "parse_ghostty_config_key k' (set_ghostty_config_key True k v f) =
    first_value k' (set_config_lines k v (lines (unwrap_or (read_config f) [])))"
proof -
  let ?ls = "set_config_lines k v (lines (unwrap_or (read_config f) []))"
  have "?ls \<noteq> []" using replace_key_nonempty by (simp add: set_config_lines_def case_prod_beta Let_def)
  moreover have "\<forall>l\<in>set ?ls. one_line l"
    using replace_key_lines lines_one assms by (fastforce simp: set_config_lines_def case_prod_beta Let_def)
  ultimately show ?thesis using written_values by (simp add: parse_ghostty_config_key_def set_ghostty_config_key_def read_config_def)
qed

text \<open>
  C37. A key of Ghostty's configuration reads back as it was entered, without the blanks around it, whatever the file held before, and the value of
  every other key stays as it was: keys that begin like the changed one, comments and blank lines are not taken for it.
\<close>

theorem config_key_roundtrip:
  assumes "key_ok k" "key_ok k'" "k \<noteq> k'" "trim v \<noteq> []" "CHR 0x0A \<notin> set k" "CHR 0x0A \<notin> set (trim v)" "f \<noteq> Unreadable"
  shows "parse_ghostty_config_key k (apply_config_change True k v f) = Some (trim v) \<and>
    parse_ghostty_config_key k' (apply_config_change True k v f) = parse_ghostty_config_key k' f"
proof -
  let ?v = "trim v" and ?n = "config_line k (trim v)" and ?ls = "lines (unwrap_or (read_config f) [])"
  note n = config_line_trim [OF assms(1,4) trim_idem]
  have one: "one_line ?n" using assms(5,6) by (simp add: one_line_def config_line_def)
  have other: "line_value k' ?n = None" using key_line_value [OF assms(1,2) n(2)] assms(3) by blast
  have "set_config_lines k ?v ?ls = (if snd (replace_key k ?n ?ls) then fst (replace_key k ?n ?ls) else fst (replace_key k ?n ?ls) @ [?n])"
    by (simp add: set_config_lines_def case_prod_beta Let_def)
  moreover have "first_value k' ?ls = parse_ghostty_config_key k' f"
    using assms(7) by (cases f) (simp_all add: parse_ghostty_config_key_def read_config_def lines_def)
  ultimately show ?thesis
    using set_then_parse [OF one] first_value_replace [OF n(3), of ?ls] first_value_replace_other [OF assms(1,2,3) other, of ?ls]
    by (simp add: apply_config_change_def)
qed

definition ghostty_demo :: ConfigFile where
  "ghostty_demo = Content (''# font-size = 9'' @ [CHR 0x0A] @ ''font-size-adjust = 2'' @ [CHR 0x0A] @ ''font-size = 12'')"

theorem config_key_roundtrip_witness:
  "parse_ghostty_config_key ''font-size'' (apply_config_change True ''font-size'' '' 14 '' ghostty_demo) = Some (trim '' 14 '') \<and>
   parse_ghostty_config_key ''font-size-adjust'' (apply_config_change True ''font-size'' '' 14 '' ghostty_demo) =
     parse_ghostty_config_key ''font-size-adjust'' ghostty_demo"
proof (rule config_key_roundtrip)
  show "key_ok ''font-size''" "key_ok ''font-size-adjust''" "trim '' 14 '' \<noteq> []" by code_simp+
  show "CHR 0x0A \<notin> set ''font-size''" "CHR 0x0A \<notin> set (trim '' 14 '')" by code_simp+
qed (simp_all add: ghostty_demo_def)

text \<open>
  A file that is there and cannot be read as text, for one byte that is not UTF-8, is taken for an empty one: the change replaces it by one line.
\<close>

theorem unreadable_config_lost:
  "set_ghostty_config_key True k v Unreadable = set_ghostty_config_key True k v NoFile"
  by (simp add: set_ghostty_config_key_def read_config_def)

section \<open>Shortcuts\<close>

definition accels_distinct :: "Settings \<Rightarrow> bool" where
  "accels_distinct s \<longleftrightarrow>
     (\<forall>a b x. hm_get (merged_shortcuts s) a = Some x \<longrightarrow> hm_get (merged_shortcuts s) b = Some x \<longrightarrow> a = b)"

datatype ShortcutOp =
    Capture string CapturedKey
  | ResetAll

fun shortcut_op :: "ShortcutOp \<Rightarrow> Settings \<Rightarrow> Settings option" where
  "shortcut_op (Capture action k) s = Some (snd (start_key_capture action k (\<lparr>pop_open = True, pop_label = [], pop_accel = []\<rparr>, s)))"
| "shortcut_op ResetAll s = Some (reset_shortcuts s)"

definition any_shortcut_op :: "ShortcutOp \<Rightarrow> Settings \<Rightarrow> bool" where
  "any_shortcut_op a s \<longleftrightarrow> True"

lemma no_conflict:
  assumes "check_shortcut_conflict action accel s = None" "hm_get (merged_shortcuts s) b = Some x" "b \<noteq> action"
  shows "x \<noteq> accel"
proof -
  have "(b, x) \<in> set (merged_shortcuts s)" using assms(2) by (rule map_of_SomeD)
  with assms(1,3) show ?thesis by (auto simp: check_shortcut_conflict_def find_None_iff)
qed

lemma merged_after_insert:
  "hm_get (merged_shortcuts (s\<lparr>shortcuts := hm_insert action accel (shortcuts s)\<rparr>)) b =
     (if b = action \<and> default_shortcut b \<noteq> None then Some accel else hm_get (merged_shortcuts s) b)"
  by (auto simp: merged_shortcuts_get shortcut_accel_def)

lemma defaults_distinct: "distinct (map default_accel SHORTCUT_DEFAULTS)"
  by (simp add: SHORTCUT_DEFAULTS_def)

lemma accels_distinct_default: "shortcuts s = [] \<Longrightarrow> accels_distinct s"
proof -
  assume "shortcuts s = []"
  then have m: "hm_get (merged_shortcuts s) a = default_shortcut a" for a by (simp add: merged_shortcuts_get shortcut_accel_def)
  have "\<exists>d\<in>set SHORTCUT_DEFAULTS. sc_action d = a \<and> default_accel d = x" if "default_shortcut a = Some x" for a x
    using that by (auto simp: default_shortcut_def find_Some_iff)
  moreover have "inj_on default_accel (set SHORTCUT_DEFAULTS)" using defaults_distinct by (simp add: distinct_map)
  ultimately show "accels_distinct s" unfolding accels_distinct_def m by (metis inj_onD)
qed

lemma shortcut_op_ok: "accels_distinct s \<Longrightarrow> shortcut_op a s = Some s' \<Longrightarrow> accels_distinct s'"
proof (cases a)
  case (Capture action k)
  assume d: "accels_distinct s" and s': "shortcut_op a s = Some s'"
  show ?thesis
  proof (cases k)
    case (Combination accel)
    show ?thesis
    proof (cases "check_shortcut_conflict action accel s")
      case None
      then have nc: "hm_get (merged_shortcuts s) b \<noteq> Some accel" if "b \<noteq> action" for b using no_conflict that by blast
      have "s' = s\<lparr>shortcuts := hm_insert action accel (shortcuts s)\<rparr>" using None s' Capture Combination by simp
      then show ?thesis
        using d nc unfolding accels_distinct_def by (auto simp: merged_after_insert split: if_splits)
    qed (use d s' Capture Combination in simp)
  qed (use d s' Capture in simp_all)
next
  case ResetAll
  then show "accels_distinct s \<Longrightarrow> shortcut_op a s = Some s' \<Longrightarrow> accels_distinct s'"
    by (auto simp: reset_shortcuts_def intro: accels_distinct_default)
qed

interpretation shortcut_page: machine shortcut_op any_shortcut_op accels_distinct
proof
  show "\<exists>s'. shortcut_op a s = Some s'" for a s by (cases a) simp_all
qed (rule shortcut_op_ok)



text \<open>
  The check compares texts, and the same keys have more than one: the defaults write the control key \<open>Ctrl\<close>, GTK names it
  \<open>Control\<close>. Taking the default combination of another action is not noticed.
\<close>

theorem default_conflict_missed:
  "hm_get (merged_shortcuts Settings_default) ''new-pane-tab'' = Some ''<Ctrl>t''"
  "check_shortcut_conflict ''open-settings'' ''<Control>t'' Settings_default = None"
  by code_simp+

section \<open>The pages\<close>

text \<open>The frequency that the page shows after a choice is the chosen one.\<close>

lemma frequency_shown: "i < 3 \<Longrightarrow> freq_idx (update_check_frequency (apply_change (FrequencyChosen i) s)) = i"
  by (auto simp: FREQUENCIES_def freq_idx_def update_check_frequency_def numeral_3_eq_3 less_Suc_eq)

end
