(* ===== verification/Split_Widgets.thy ===== *)
theory Split_Widgets
  imports Split_Reach
begin

text \<open>
  Model of the widget half of the split tree in \<open>app/src/window.rs\<close>: a workspace shows its panes in nested \<open>GtkPaned\<close> widgets below one root
  paned that is never replaced. Splitting and closing change this tree in place, moving a pane rebuilds it from a snapshot of the split tree, and
  dragging a divider writes a ratio back. A widget tree is a value; the ratios of the dividers are kept by node.
\<close>

section \<open>Widgets\<close>

datatype GtkChild =
    PaneBox PaneId
  | Placeholder
  | Paned Orientation "GtkChild option" "GtkChild option"

record WorkspaceWidgets =
  root_orientation :: Orientation
  root_start :: "GtkChild option"
  root_end :: "GtkChild option"

definition widgets_new :: "PaneId \<Rightarrow> WorkspaceWidgets" where
  "widgets_new p = \<lparr>root_orientation = Horizontal, root_start = Some (PaneBox p), root_end = None\<rparr>"

definition pair_box :: "bool \<Rightarrow> Orientation \<Rightarrow> GtkChild \<Rightarrow> PaneId \<Rightarrow> GtkChild" where
  "pair_box before ori c q = (if before then Paned ori (Some (PaneBox q)) (Some c) else Paned ori (Some c) (Some (PaneBox q)))"

text \<open>A pane is wrapped in a new paned at the place where its container is.\<close>

fun wrap_pane :: "bool \<Rightarrow> PaneId \<Rightarrow> PaneId \<Rightarrow> Orientation \<Rightarrow> GtkChild \<Rightarrow> GtkChild" where
  "wrap_pane before p q ori (PaneBox x) = (if x = p then pair_box before ori (PaneBox x) q else PaneBox x)"
| "wrap_pane before p q ori Placeholder = Placeholder"
| "wrap_pane before p q ori (Paned o' a b) =
     Paned o' (map_option (wrap_pane before p q ori) a) (map_option (wrap_pane before p q ori) b)"

definition split_widgets :: "nat \<Rightarrow> bool \<Rightarrow> PaneId \<Rightarrow> PaneId \<Rightarrow> Orientation \<Rightarrow> WorkspaceWidgets \<Rightarrow> WorkspaceWidgets" where
  "split_widgets pane_count_before before p q ori w =
     (if pane_count_before = 1
      then (if before then w\<lparr>root_orientation := ori, root_start := Some (PaneBox q), root_end := Some (PaneBox p)\<rparr>
            else w\<lparr>root_orientation := ori, root_end := Some (PaneBox q)\<rparr>)
      else w\<lparr>root_start := map_option (wrap_pane before p q ori) (root_start w), root_end := map_option (wrap_pane before p q ori) (root_end w)\<rparr>)"

text \<open>The paned that loses a child is replaced in its parent by the other child.\<close>

fun collapse_pane :: "PaneId \<Rightarrow> GtkChild \<Rightarrow> GtkChild" where
  "collapse_pane p (PaneBox x) = PaneBox x"
| "collapse_pane p Placeholder = Placeholder"
| "collapse_pane p (Paned ori a b) =
     (if a = Some (PaneBox p) then (case b of Some sib \<Rightarrow> sib | None \<Rightarrow> Paned ori None None)
      else if b = Some (PaneBox p) then (case a of Some sib \<Rightarrow> sib | None \<Rightarrow> Paned ori None None)
      else Paned ori (map_option (collapse_pane p) a) (map_option (collapse_pane p) b))"

definition remove_pane_widget :: "PaneId \<Rightarrow> WorkspaceWidgets \<Rightarrow> WorkspaceWidgets" where
  "remove_pane_widget p w =
     (if root_start w = Some (PaneBox p)
      then (case root_end w of
              Some sib \<Rightarrow> w\<lparr>root_end := None, root_start := Some sib\<rparr>
            | None \<Rightarrow> w\<lparr>root_start := None\<rparr>)
      else if root_end w = Some (PaneBox p) then w\<lparr>root_end := None\<rparr>
      else w\<lparr>root_start := map_option (collapse_pane p) (root_start w), root_end := map_option (collapse_pane p) (root_end w)\<rparr>)"

section \<open>Rebuilding\<close>

datatype TreeSnapshot =
    SnapLeaf PaneId
  | SnapSplit Orientation NodeId f64 TreeSnapshot TreeSnapshot

partial_function (option) snapshot_tree_node :: "node_table \<Rightarrow> NodeId \<Rightarrow> TreeSnapshot run" where
  "snapshot_tree_node h n =
     (case h n of
        None \<Rightarrow> Some (SnapLeaf 0)
      | Some (Leaf p) \<Rightarrow> Some (SnapLeaf p)
      | Some (Split ori r a b) \<Rightarrow> do { x \<leftarrow> snapshot_tree_node h a; y \<leftarrow> snapshot_tree_node h b; Some (SnapSplit ori n r x y) })"

definition clone_split_tree_structure :: "SplitTree \<Rightarrow> (NodeId \<times> TreeSnapshot) option run" where
  "clone_split_tree_structure T =
     (case tree_root T of
        None \<Rightarrow> Some None
      | Some r \<Rightarrow> map_option (\<lambda>s. Some (r, s)) (snapshot_tree_node (nodes T) r))"

text \<open>The argument \<open>known\<close> says which panes have a widget.\<close>

fun build_widget_from_snapshot :: "(PaneId \<Rightarrow> bool) \<Rightarrow> TreeSnapshot \<Rightarrow> NodeId list \<Rightarrow> GtkChild \<times> NodeId list" where
  "build_widget_from_snapshot known (SnapLeaf p) paneds = (if known p then PaneBox p else Placeholder, paneds)"
| "build_widget_from_snapshot known (SnapSplit ori n r a b) paneds =
     (let (x, paneds) = build_widget_from_snapshot known a paneds; (y, paneds) = build_widget_from_snapshot known b paneds
      in (Paned ori (Some x) (Some y), n # paneds))"

fun collect_paned_ratios :: "TreeSnapshot \<Rightarrow> NodeId list \<Rightarrow> (NodeId \<times> f64) list \<Rightarrow> (NodeId \<times> f64) list" where
  "collect_paned_ratios (SnapLeaf p) paneds out = out"
| "collect_paned_ratios (SnapSplit ori n r a b) paneds out =
     collect_paned_ratios b paneds (collect_paned_ratios a paneds (if n \<in> set paneds then out @ [(n, r)] else out))"

definition rebuild_split_widgets :: "(PaneId \<Rightarrow> bool) \<Rightarrow> SplitTree \<Rightarrow> WorkspaceWidgets \<Rightarrow> (WorkspaceWidgets \<times> (NodeId \<times> f64) list) run" where
  "rebuild_split_widgets known T w =
     do { snap \<leftarrow> clone_split_tree_structure T;
          (case snap of
             None \<Rightarrow> Some (w\<lparr>root_start := None, root_end := None\<rparr>, [])
           | Some (_, s) \<Rightarrow>
               (let (x, paneds) = build_widget_from_snapshot known s []
                in Some (w\<lparr>root_start := Some x, root_end := None\<rparr>, collect_paned_ratios s paneds []))) }"

section \<open>Dividers\<close>

text \<open>
  Positions are whole pixels, and here the rounding of \<open>f64\<close> shows, so it is written out: a number is scaled until its whole part has 53 bits,
  rounded to the nearest integer, to the even one in the middle, and scaled back. The scaling covers all numbers below \<open>2 ^ 53\<close> of the normal range.
\<close>

definition round_even :: "rat \<Rightarrow> int" where
  "round_even x =
     (let n = \<lfloor>x\<rfloor>; d = x - of_int n
      in if d < 1 / 2 then n else if 1 / 2 < d then n + 1 else if even n then n else n + 1)"

primrec upscale :: "nat \<Rightarrow> rat \<Rightarrow> nat" where
  "upscale 0 x = 0"
| "upscale (Suc n) x = (if x < 2 ^ 52 then Suc (upscale n (2 * x)) else 0)"

definition fl_pos :: "rat \<Rightarrow> f64" where
  "fl_pos x = (let k = upscale 1074 x in of_int (round_even (x * 2 ^ k)) / 2 ^ k)"

definition fl :: "rat \<Rightarrow> f64" where
  "fl x = (if x = 0 then 0 else if 0 < x then fl_pos x else - fl_pos (- x))"

definition paned_position :: "int \<Rightarrow> f64 \<Rightarrow> int" where
  "paned_position tot r = (let x = fl (of_int tot * r) in if 0 \<le> x then \<lfloor>x\<rfloor> else - \<lfloor>- x\<rfloor>)"

definition sync_ratio :: "int \<Rightarrow> int \<Rightarrow> f64 option" where
  "sync_ratio tot pos = (if tot \<le> 0 then None else Some (max (fl (1 / 20)) (min (fl (19 / 20)) (fl (of_int pos / of_int tot)))))"

definition position_changed :: "NodeId \<Rightarrow> int \<Rightarrow> int \<Rightarrow> SplitTree \<Rightarrow> SplitTree" where
  "position_changed n tot pos T = (case sync_ratio tot pos of Some r \<Rightarrow> set_ratio n r T | None \<Rightarrow> T)"

fun collect_all_paneds :: "GtkChild \<Rightarrow> GtkChild list" where
  "collect_all_paneds (Paned ori a b) =
     (case a of Some (Paned o' c d) \<Rightarrow> Paned o' c d # collect_all_paneds (Paned o' c d) | _ \<Rightarrow> []) @
     (case b of Some (Paned o' c d) \<Rightarrow> Paned o' c d # collect_all_paneds (Paned o' c d) | _ \<Rightarrow> [])"
| "collect_all_paneds _ = []"

definition equalize_single_paned :: "bool \<Rightarrow> int \<Rightarrow> int \<Rightarrow> int" where
  "equalize_single_paned has_end tot pos = (if has_end \<and> 0 < tot then tot div 2 else pos)"

section \<open>Reading the widgets\<close>

fun read_child :: "GtkChild \<Rightarrow> layout option" where
  "read_child (PaneBox p) = Some (Pane p)"
| "read_child Placeholder = None"
| "read_child (Paned ori (Some a) (Some b)) = do { x \<leftarrow> read_child a; y \<leftarrow> read_child b; Some (Tile ori (1 / 2) x y) }"
| "read_child (Paned ori _ _) = None"

fun read_root :: "WorkspaceWidgets \<Rightarrow> layout option option" where
  "read_root w =
     (case (root_start w, root_end w) of
        (None, None) \<Rightarrow> Some None
      | (Some a, None) \<Rightarrow> map_option Some (read_child a)
      | (Some a, Some b) \<Rightarrow> map_option Some (read_child (Paned (root_orientation w) (Some a) (Some b)))
      | (None, Some b) \<Rightarrow> None)"

definition mirrors :: "WorkspaceWidgets \<Rightarrow> layout option \<Rightarrow> bool" where
  "mirrors w L \<longleftrightarrow> read_root w = Some (map_option lhalf L)"

lemma lhalf_lsplit: "lhalf (lsplit before p q ori l) = lsplit before p q ori (lhalf l)"
  by (induction l) (simp_all add: lpair_def)

lemma lhalf_lremove: "map_option lhalf (lremove p l) = lremove p (lhalf l)"
  by (induction l) (auto split: option.splits)

lemma lhalf_lchain: "lhalf (lchain n l) = lhalf l"
  by (induction n l rule: lchain.induct) simp_all

lemma read_pair: "read_child c = Some l \<Longrightarrow> read_child (pair_box before ori c q) = Some (lpair before ori l q)"
  by (simp add: pair_box_def lpair_def)

lemma read_wrap: "read_child c = Some l \<Longrightarrow> read_child (wrap_pane before p q ori c) = Some (lsplit before p q ori l)"
proof (induction c arbitrary: l rule: read_child.induct)
  case (1 x)
  then show ?case by (auto simp: read_pair)
next
  case (3 o' a b)
  from 3(3) obtain x y where "read_child a = Some x" "read_child b = Some y" "l = Tile o' (1 / 2) x y"
    by (auto simp: bind_eq_Some_conv)
  with 3(1,2) show ?case by simp
qed simp_all

lemma read_box: "read_child c = Some (Pane p) \<longleftrightarrow> c = PaneBox p"
  by (cases c rule: read_child.cases) (auto simp: bind_eq_Some_conv)

lemma lremove_tile:
  "lremove p (Tile ori r a b) =
     (if a = Pane p then Some b else if b = Pane p then Some (the (lremove p a))
      else Some (Tile ori r (the (lremove p a)) (the (lremove p b))))"
  by (auto split: option.splits)

lemma read_collapse:
  "read_child c = Some l \<Longrightarrow> distinct (lpanes l) \<Longrightarrow> l \<noteq> Pane p \<Longrightarrow> read_child (collapse_pane p c) = lremove p l"
proof (induction c arbitrary: l rule: read_child.induct)
  case (3 o' a b)
  from 3(3) obtain x y where xy: "read_child a = Some x" "read_child b = Some y" "l = Tile o' (1 / 2) x y"
    by (auto simp: bind_eq_Some_conv)
  have d: "distinct (lpanes x)" "distinct (lpanes y)" "\<not> (x = Pane p \<and> y = Pane p)" using 3(4) xy(3) by auto
  have b: "a = PaneBox p \<longleftrightarrow> x = Pane p" "b = PaneBox p \<longleftrightarrow> y = Pane p" using xy read_box by auto
  have n: "lremove p x = Some x" if "y = Pane p" using that 3(4) xy(3) by (intro lremove_notin) auto
  show ?case
  proof (cases "x = Pane p \<or> y = Pane p")
    case True
    then show ?thesis using xy b d n by (auto simp: lremove_tile)
  next
    case False
    then obtain x' y' where "lremove p x = Some x'" "lremove p y = Some y'" by (metis lremove_None not_None_eq)
    moreover from False have "read_child (collapse_pane p a) = lremove p x" "read_child (collapse_pane p b) = lremove p y"
      using 3(1) [OF xy(1) d(1)] 3(2) [OF xy(1,2) d(2)] by auto
    ultimately show ?thesis using xy b False by (simp add: lremove_tile)
  qed
qed auto

section \<open>The widgets follow the tree\<close>

lemma mirrors_cases:
  assumes "mirrors w (Some l)"
  obtains (One) a where "root_start w = Some a" "root_end w = None" "read_child a = Some (lhalf l)"
  | (Two) a b x y where "root_start w = Some a" "root_end w = Some b" "read_child a = Some x" "read_child b = Some y"
      "lhalf l = Tile (root_orientation w) (1 / 2) x y"
  using assms by (auto simp: mirrors_def bind_eq_Some_conv split: option.splits)

lemma mirrors_Pane: "mirrors w (Some (Pane p)) \<longleftrightarrow> root_start w = Some (PaneBox p) \<and> root_end w = None"
  by (auto simp: mirrors_def read_box bind_eq_Some_conv split: option.splits)

lemma mirrors_split:
  assumes "mirrors w (Some l)" "p \<in> set (lpanes l)"
  shows "mirrors (split_widgets (length (lpanes l)) before p q ori w) (Some (lsplit before p q ori l))"
proof (cases "length (lpanes l) = 1")
  case True
  then obtain x where "l = Pane x" using linsert_single [of l] by auto
  with assms have l: "l = Pane p" by simp
  with assms(1) have "root_start w = Some (PaneBox p)" "root_end w = None" by (simp_all add: mirrors_Pane)
  then show ?thesis by (simp add: l split_widgets_def mirrors_def lpair_def)
next
  case False
  from assms(1) show ?thesis
  proof (cases rule: mirrors_cases)
    case (One a)
    then show ?thesis using False by (simp add: split_widgets_def mirrors_def read_wrap lhalf_lsplit)
  next
    case (Two a b x y)
    then show ?thesis using False by (simp add: split_widgets_def mirrors_def read_wrap lhalf_lsplit)
  qed
qed

lemma mirrors_remove:
  assumes "mirrors w (Some l)" "distinct (lpanes l)"
  shows "mirrors (remove_pane_widget p w) (lremove p l)"
  using assms(1)
proof (cases rule: mirrors_cases)
  case (One a)
  show ?thesis
  proof (cases "l = Pane p")
    case True
    with assms(1) show ?thesis by (simp add: mirrors_Pane remove_pane_widget_def) (simp add: mirrors_def)
  next
    case False
    then have l: "lhalf l \<noteq> Pane p" by (cases l) auto
    then have a: "a \<noteq> PaneBox p" using One(3) by auto
    have "read_child (collapse_pane p a) = lremove p (lhalf l)" using read_collapse [OF One(3) _ l] assms(2) by simp
    moreover obtain l' where "lremove p (lhalf l) = Some l'" using l by (metis lremove_None not_None_eq)
    ultimately show ?thesis
      using One a by (simp add: remove_pane_widget_def mirrors_def lhalf_lremove)
  qed
next
  case (Two a b x y)
  let ?t = "Tile (root_orientation w) (1 / 2) x y"
  have dt: "distinct (lpanes x @ lpanes y)" using assms(2) Two(5) lpanes_lhalf [of l] by (metis lpanes.simps(2))
  then have d: "distinct (lpanes x)" "distinct (lpanes y)" "\<not> (x = Pane p \<and> y = Pane p)" by auto
  have n: "lremove p x = Some x" if "y = Pane p" using that dt by (intro lremove_notin) auto
  have ab: "a = PaneBox p \<longleftrightarrow> x = Pane p" "b = PaneBox p \<longleftrightarrow> y = Pane p" using Two(3,4) read_box by auto
  have "read_root (remove_pane_widget p w) = Some (lremove p ?t)"
  proof (cases "x = Pane p \<or> y = Pane p")
    case True
    then show ?thesis using Two ab d n by (auto simp: remove_pane_widget_def lremove_tile)
  next
    case False
    then obtain x' y' where xy: "lremove p x = Some x'" "lremove p y = Some y'" by (metis lremove_None not_None_eq)
    have "read_child (collapse_pane p a) = Some x'" "read_child (collapse_pane p b) = Some y'"
      using read_collapse [OF Two(3) d(1)] read_collapse [OF Two(4) d(2)] False xy by auto
    then show ?thesis using Two ab False xy by (simp add: remove_pane_widget_def lremove_tile)
  qed
  then show ?thesis using Two(5) by (simp add: mirrors_def lhalf_lremove)
qed

subsection \<open>Snapshots\<close>

fun snap_of :: "itree \<Rightarrow> TreeSnapshot" where
  "snap_of (ILeaf n p) = SnapLeaf p"
| "snap_of (ISplit n ori r a b) = SnapSplit ori n r (snap_of a) (snap_of b)"

lemma snapshot_tree_repr: "repr h t \<Longrightarrow> snapshot_tree_node h (nid t) = Some (snap_of t)"
proof (induction t)
  case (ISplit n ori r a b)
  then show ?case by (subst snapshot_tree_node.simps) simp
qed (subst snapshot_tree_node.simps, simp)

lemma build_reads:
  "(\<forall>p\<in>set (ipanes t). known p) \<Longrightarrow> read_child (fst (build_widget_from_snapshot known (snap_of t) ps)) = Some (lhalf (erase t))"
  by (induction t arbitrary: ps) (auto simp: case_prod_beta Let_def)

fun split_ratios :: "itree \<Rightarrow> (NodeId \<times> f64) list" where
  "split_ratios (ILeaf n p) = []"
| "split_ratios (ISplit n ori r a b) = (n, r) # split_ratios a @ split_ratios b"

lemma built_paneds: "set (snd (build_widget_from_snapshot known (snap_of t) ps)) = set ps \<union> fst ` set (split_ratios t)"
  by (induction t arbitrary: ps) (auto simp: case_prod_beta Let_def)

lemma collected_ratios: "fst ` set (split_ratios t) \<subseteq> set ps \<Longrightarrow> collect_paned_ratios (snap_of t) ps out = out @ split_ratios t"
  by (induction t arbitrary: out) (simp_all add: image_Un)

lemma rebuild_mirrors:
  assumes "represents T (Some l)" "\<forall>p\<in>set (lpanes l). known p"
  obtains w' t where "owns T t" "erase t = l" "rebuild_split_widgets known T w = Some (w', split_ratios t)" "mirrors w' (Some l)"
proof -
  from assms(1) obtain t where t: "owns T t" "erase t = l" by auto
  note o = ownsD [OF t(1)]
  have c: "clone_split_tree_structure T = Some (Some (nid t, snap_of t))"
    using o(1) snapshot_tree_repr [OF o(2)] by (simp add: clone_split_tree_structure_def)
  obtain x ps where b: "build_widget_from_snapshot known (snap_of t) [] = (x, ps)" by fastforce
  have "read_child x = Some (lhalf l)" using build_reads [of t known "[]"] b t(2) assms(2) by simp
  moreover have "collect_paned_ratios (snap_of t) ps [] = split_ratios t"
    using built_paneds [of known t "[]"] b by (subst collected_ratios) auto
  ultimately show ?thesis
    using c b t by (intro that [of t "w\<lparr>root_start := Some x, root_end := None\<rparr>"]) (simp_all add: rebuild_split_widgets_def mirrors_def)
qed

subsection \<open>The steps of a workspace\<close>

inductive ws_step :: "SplitTree \<times> WorkspaceWidgets \<Rightarrow> SplitTree \<times> WorkspaceWidgets \<Rightarrow> bool" where
  ws_split: "p \<in> set (tree_order T) \<Longrightarrow> q \<notin> set (tree_order T) \<Longrightarrow> tree_room T \<Longrightarrow> split_gen before p q ori T = Some (n, T') \<Longrightarrow>
    ws_step (T, w) (T', split_widgets (length (tree_order T)) before p q ori w)"
| ws_remove: "p \<in> set (tree_order T) \<Longrightarrow> remove p T = Some (True, T') \<Longrightarrow> ws_step (T, w) (T', remove_pane_widget p w)"
| ws_move: "p \<in> set (tree_order T) \<Longrightarrow> q \<in> set (tree_order T) \<Longrightarrow> p \<noteq> q \<Longrightarrow> tree_room T \<Longrightarrow>
    move_pane_adjacent p q before ori T = Some (True, T') \<Longrightarrow> rebuild_split_widgets (\<lambda>p. p \<in> set (tree_order T')) T' w = Some (w', rs) \<Longrightarrow>
    ws_step (T, w) (T', w')"
| ws_divider: "ws_step (T, w) (position_changed n tot pos T, w)"
| ws_equalize: "ws_step (T, w) (equalize T, w)"

definition widgets_ok :: "SplitTree \<times> WorkspaceWidgets \<Rightarrow> bool" where
  "widgets_ok s \<longleftrightarrow> (\<exists>L. represents (fst s) L \<and> mirrors (snd s) L)"

lemma widgets_okE:
  assumes "widgets_ok (T, w)" "p \<in> set (tree_order T)"
  obtains l where "represents T (Some l)" "mirrors w (Some l)" "tree_order T = lpanes l" "distinct (lpanes l)"
proof -
  obtain L where L: "represents T L" "mirrors w L" using assms(1) by (auto simp: widgets_ok_def)
  note t = tree_order_represents [OF L(1)] represents_distinct [OF L(1)]
  with assms(2) obtain l where "L = Some l" using mem_layout_panes by metis
  with L t that show ?thesis by simp
qed

lemma divider_shape:
  assumes "represents T L"
  shows "\<exists>L'. represents (set_ratio n r T) L' \<and> map_option lhalf L' = map_option lhalf L"
proof (cases L)
  case None
  with assms have "set_ratio n r T = T" by (simp add: set_ratio_def)
  with assms show ?thesis by auto
next
  case (Some l)
  with assms obtain t where "owns T t" "erase t = l" by auto
  then obtain t' where "owns (set_ratio n r T) t'" "lhalf (erase t') = lhalf l" using set_ratio_repr by metis
  then have "represents (set_ratio n r T) (Some (erase t'))" "lhalf (erase t') = lhalf l" by auto
  with Some show ?thesis by fastforce
qed

lemma mirrors_shape: "mirrors w L \<Longrightarrow> map_option lhalf L' = map_option lhalf L \<Longrightarrow> mirrors w L'"
  by (simp add: mirrors_def)

lemma lhalf_lhalf [simp]: "lhalf (lhalf l) = lhalf l"
  by (induction l) simp_all

lemma widgets_ok_step: "ws_step s s' \<Longrightarrow> widgets_ok s \<Longrightarrow> widgets_ok s'"
proof (induction rule: ws_step.induct)
  case (ws_split p T q before ori n T' w)
  obtain l where l: "represents T (Some l)" "mirrors w (Some l)" "tree_order T = lpanes l" "distinct (lpanes l)"
    using widgets_okE [OF ws_split.prems ws_split.hyps(1)] by blast
  have "represents T' (Some (lsplit before p q ori l))"
    using split_gen_refines [OF l(1), of p q before ori] ws_split.hyps l(3) by (auto simp: tree_room_def simp del: represents.simps)
  moreover have "mirrors (split_widgets (length (tree_order T)) before p q ori w) (Some (lsplit before p q ori l))"
    using mirrors_split [OF l(2)] ws_split.hyps(1) l(3) by simp
  ultimately show ?case by (auto simp: widgets_ok_def simp del: represents.simps)
next
  case (ws_remove p T T' w)
  obtain l where l: "represents T (Some l)" "mirrors w (Some l)" "tree_order T = lpanes l" "distinct (lpanes l)"
    using widgets_okE [OF ws_remove.prems ws_remove.hyps(1)] by blast
  have "represents T' (lremove p l)" using remove_refines [OF l(1), of p] ws_remove.hyps l(3) by (auto simp del: represents.simps)
  with mirrors_remove [OF l(2,4)] show ?case by (auto simp: widgets_ok_def simp del: represents.simps)
next
  case (ws_move p T q before ori T' w w' rs)
  obtain l where l: "represents T (Some l)" "tree_order T = lpanes l"
    using widgets_okE [OF ws_move.prems ws_move.hyps(1)] by blast
  obtain l' where l': "represents T' (Some l')"
    using move_pane_adjacent_refines [OF l(1) ws_move.hyps(3), of before ori] ws_move.hyps l(2) by (auto simp: tree_room_def simp del: represents.simps)
  have "\<forall>p\<in>set (lpanes l'). p \<in> set (tree_order T')" using tree_order_represents [OF l'] by simp
  from rebuild_mirrors [OF l' this, of w] ws_move.hyps(6) have "mirrors w' (Some l')" by (metis option.inject prod.inject)
  with l' show ?case by (auto simp: widgets_ok_def simp del: represents.simps)
next
  case (ws_divider T w n tot pos)
  then obtain L where L: "represents T L" "mirrors w L" by (auto simp: widgets_ok_def)
  show ?case
  proof (cases "sync_ratio tot pos")
    case None
    with ws_divider show ?thesis by (simp add: position_changed_def)
  next
    case (Some r)
    with divider_shape [OF L(1), of n r] mirrors_shape [OF L(2)] show ?thesis by (auto simp: position_changed_def widgets_ok_def)
  qed
next
  case (ws_equalize T w)
  then obtain L where L: "represents T L" "mirrors w L" by (auto simp: widgets_ok_def)
  have "mirrors w (map_option lhalf L)" by (rule mirrors_shape [OF L(2)]) (cases L; simp)
  with equalize_refines [OF L(1)] show ?case by (auto simp: widgets_ok_def)
qed

inductive ws_reach :: "SplitTree \<times> WorkspaceWidgets \<Rightarrow> bool" where
  ws_start: "ws_reach (new_with_pane p, widgets_new p)"
| ws_next: "ws_reach s \<Longrightarrow> ws_step s s' \<Longrightarrow> ws_reach s'"

lemma ws_reach_ok: "ws_reach s \<Longrightarrow> widgets_ok s"
proof (induction rule: ws_reach.induct)
  case (ws_start p)
  have "mirrors (widgets_new p) (Some (Pane p))" by (simp add: mirrors_Pane widgets_new_def)
  with represents_new_with_pane [of p] show ?case by (auto simp: widgets_ok_def simp del: represents.simps)
qed (rule widgets_ok_step)

text \<open>
  C6. What is on the screen is the split tree: after any splits, removals, moves, equalizations and dragged dividers, in any order, the nested
  paneds of the workspace hold the panes of the tree in its shape, each split with its orientation, although splits and removals change the
  widgets in place and moves build them anew.
\<close>

theorem widgets_mirror_tree:
  assumes "ws_reach (T, w)"
  shows "\<exists>L. represents T L \<and> read_root w = Some (map_option lhalf L)"
  using ws_reach_ok [OF assms] by (simp add: widgets_ok_def mirrors_def)

definition split_once :: "SplitTree \<times> WorkspaceWidgets" where
  "split_once = (snd (the (split_gen False 1 2 Vertical (new_with_pane 1))), split_widgets 1 False 1 2 Vertical (widgets_new 1))"

theorem widgets_mirror_tree_witness:
  "\<exists>L. represents (fst split_once) L \<and> read_root (snd split_once) = Some (map_option lhalf L)"
proof -
  let ?T = "new_with_pane 1"
  have r: "represents ?T (Some (Pane 1))" by (rule represents_new_with_pane)
  have o: "tree_order ?T = [1]" using tree_order_represents [OF r] by simp
  have room: "tree_room ?T" by (simp add: tree_room_def new_with_pane_def alloc_id_def insert_node_def SplitTree_new_def)
  obtain T' where T': "split_gen False 1 2 Vertical ?T = Some (Some (next_id ?T + 1), T')"
    using split_gen_refines [OF r, of 1 2 False Vertical] room by (auto simp: tree_room_def simp del: represents.simps)
  have "ws_step (?T, widgets_new 1) (T', split_widgets (length (tree_order ?T)) False 1 2 Vertical (widgets_new 1))"
    using T' o room by (intro ws_split) auto
  then have "ws_reach split_once" using ws_next [OF ws_start] T' o by (simp add: split_once_def)
  then show ?thesis using widgets_mirror_tree [of "fst split_once" "snd split_once"] by simp
qed

section \<open>Dividers\<close>

lemma round_even_near: "\<bar>of_int (round_even x) - x\<bar> \<le> 1 / 2"
proof -
  have "of_int \<lfloor>x\<rfloor> \<le> x" "x < of_int \<lfloor>x\<rfloor> + 1" by linarith+
  then show ?thesis by (auto simp: round_even_def Let_def abs_le_iff)
qed

lemma upscale_enough: "2 ^ 52 \<le> x * 2 ^ n \<Longrightarrow> 2 ^ 52 \<le> x * 2 ^ upscale n x"
proof (induction n arbitrary: x)
  case (Suc n)
  have "2 ^ 52 \<le> 2 * x * 2 ^ n" using Suc.prems by (simp only: power_Suc ac_simps)
  from Suc.IH [OF this] show ?case by (simp only: upscale.simps power_Suc ac_simps not_less split: if_splits) simp
qed simp

abbreviation ulp :: rat where
  "ulp \<equiv> 1 / 2 ^ 53"

text \<open>Rounding is right up to half a unit of the last of 53 bits.\<close>

lemma fl_near:
  assumes "1 / 2 ^ 40 \<le> x"
  shows "\<bar>fl x - x\<bar> \<le> x * ulp"
proof -
  define k where "k = upscale 1074 x"
  define y where "y = x * 2 ^ k"
  have "(2 :: rat) ^ 52 \<le> 1 / 2 ^ 40 * 2 ^ 1074" by simp
  also have "\<dots> \<le> x * 2 ^ 1074" using assms by (intro mult_right_mono) simp_all
  finally have y: "2 ^ 52 \<le> y" unfolding y_def k_def by (rule upscale_enough)
  have "0 < x" using assms by (rule less_le_trans [rotated]) simp
  then have "fl x = of_int (round_even y) / 2 ^ k" by (simp add: fl_def fl_pos_def y_def k_def Let_def)
  moreover have "x = y / 2 ^ k" by (simp add: y_def)
  ultimately have "fl x - x = (of_int (round_even y) - y) / 2 ^ k" by (simp only: diff_divide_distrib)
  then have "\<bar>fl x - x\<bar> = \<bar>of_int (round_even y) - y\<bar> / 2 ^ k" by (simp add: abs_divide)
  also have "\<dots> \<le> (y * ulp) / 2 ^ k" using round_even_near [of y] y by (intro divide_right_mono) simp_all
  finally show ?thesis by (simp add: y_def)
qed

lemma nearI: "\<bar>z - v\<bar> \<le> v * ulp \<Longrightarrow> v * (1 - ulp) \<le> z \<and> z \<le> v * (1 + ulp)" for v z :: rat
  unfolding abs_le_iff by (simp add: algebra_simps)

lemma sync_ratio_near:
  assumes "0 < tot" "tot \<le> 20 * pos" "20 * pos \<le> 19 * tot" "sync_ratio tot pos = Some r"
  shows "of_int pos / of_int tot * (1 - ulp) \<le> r \<and> r \<le> of_int pos / of_int tot * (1 + ulp)"
proof -
  define v :: rat where "v = of_int pos / of_int tot"
  have "(of_int tot :: rat) \<le> of_int (20 * pos)" "(of_int (20 * pos) :: rat) \<le> of_int (19 * tot)"
    using assms(2,3) by (simp_all only: of_int_le_iff)
  then have v: "1 / 20 \<le> v" "v \<le> 19 / 20" using assms(1) by (simp_all add: v_def field_simps)
  have q: "v * (1 - ulp) \<le> fl v \<and> fl v \<le> v * (1 + ulp)"
    by (rule nearI, rule fl_near) (use v(1) in simp)
  have c1: "fl (1 / 20) \<le> v * (1 + ulp)"
    using nearI [OF fl_near [of "1 / 20"]] mult_right_mono [OF v(1), of "1 + ulp"] by simp
  have c2: "v * (1 - ulp) \<le> fl (19 / 20)"
    using nearI [OF fl_near [of "19 / 20"]] mult_right_mono [OF v(2), of "1 - ulp"] by simp
  have "r = max (fl (1 / 20)) (min (fl (19 / 20)) (fl v))" using assms(1,4) by (simp add: sync_ratio_def v_def)
  with q c1 c2 show ?thesis unfolding v_def [symmetric] by (simp add: max_def min_def)
qed


text \<open>The pixel can be lost, and the next one at the next rebuild.\<close>

definition relayout :: "int \<Rightarrow> int \<Rightarrow> int" where
  "relayout tot pos = (case sync_ratio tot pos of Some r \<Rightarrow> paned_position tot r | None \<Rightarrow> pos)"

lemma upscale_eqI: "2 ^ 52 \<le> x * 2 ^ k \<Longrightarrow> x * 2 ^ k < 2 ^ 53 \<Longrightarrow> k \<le> n \<Longrightarrow> upscale n x = k"
proof (induction n arbitrary: x k)
  case (Suc n)
  show ?case
  proof (cases k)
    case 0
    with Suc.prems(1) show ?thesis by simp
  next
    case (Suc m)
    have "x < 2 ^ 52"
    proof (rule ccontr)
      assume "\<not> x < 2 ^ 52"
      then have "2 ^ 52 * 2 ^ 1 \<le> x * 2 ^ k" using Suc by (intro mult_mono power_increasing) simp_all
      with Suc.prems(2) show False by simp
    qed
    moreover have "upscale n (2 * x) = m" using Suc.prems Suc by (intro Suc.IH) (simp_all add: ac_simps)
    ultimately show ?thesis by (simp add: Suc)
  qed
qed simp

lemma fl_eqI:
  assumes "0 < x" "2 ^ 52 \<le> x * 2 ^ k" "x * 2 ^ k < 2 ^ 53" "k \<le> 1074" "round_even (x * 2 ^ k) = m"
  shows "fl x = of_int m / 2 ^ k"
  using assms(1,5) by (simp add: fl_def fl_pos_def upscale_eqI [OF assms(2,3,4)] Let_def)

lemma relayout_eqI:
  assumes "0 < tot" "fl (of_int pos / of_int tot) = q" "1 / 10 \<le> q" "q \<le> 9 / 10" "fl (of_int tot * q) = z" "0 \<le> z" "\<lfloor>z\<rfloor> = new"
  shows "relayout tot pos = new"
proof -
  have "fl (1 / 20) \<le> q" "q \<le> fl (19 / 20)"
    using nearI [OF fl_near [of "1 / 20"]] nearI [OF fl_near [of "19 / 20"]] assms(3,4) by simp_all
  then have "sync_ratio tot pos = Some q" using assms(1,2) by (simp add: sync_ratio_def)
  with assms(5-) show ?thesis by (simp add: relayout_def paned_position_def)
qed

theorem divider_drifts: "relayout 200 116 = 115" "relayout 200 115 = 114"
proof -
  have q: "fl (of_int 116 / of_int 200) = of_int 5224175567749775 / 2 ^ 53" by (rule fl_eqI) code_simp+
  have z: "fl (of_int 200 * (of_int 5224175567749775 / 2 ^ 53)) = of_int 8162774324609023 / 2 ^ 46" by (rule fl_eqI) code_simp+
  show "relayout 200 116 = 115" by (rule relayout_eqI [OF _ q _ _ z]) code_simp+
next
  have q: "fl (of_int 115 / of_int 200) = of_int 5179139571476070 / 2 ^ 53" by (rule fl_eqI) code_simp+
  have z: "fl (of_int 200 * (of_int 5179139571476070 / 2 ^ 53)) = of_int 8092405580431359 / 2 ^ 46" by (rule fl_eqI) code_simp+
  show "relayout 200 115 = 114" by (rule relayout_eqI [OF _ q _ _ z]) code_simp+
qed


end
