(* ===== verification/Window_Shell.thy ===== *)
theory Window_Shell
  imports Settings_Ui Session_Claims Drag_Drop
begin

text \<open>
  Model of what surrounds the handlers of the window: the named actions of \<open>window::init\<close> and the shortcut controller, the session file
  (\<open>session.rs\<close>) and the start of the window, the buttons of a tab strip, the insertion mark and the drop preview (\<open>tab_strip.rs\<close>).
  The contents of the session file and their coding by serde are arguments.
\<close>

section \<open>Actions and shortcuts\<close>

datatype WinAction =
    RunCommand Command
  | FocusAddressBar
  | ToggleFind
  | OpenSettings

definition digits_1_9 :: "string list" where
  "digits_1_9 = [''1'', ''2'', ''3'', ''4'', ''5'', ''6'', ''7'', ''8'', ''9'']"

definition select_actions :: "(string \<times> WinAction) list" where
  "select_actions = map (\<lambda>(i, d). (''select-workspace-'' @ d, RunCommand (GotoWorkspace (int i)))) (enumerate 0 digits_1_9)"

definition win_actions :: "(string \<times> WinAction) list" where
  "win_actions =
     [(''new-workspace'', RunCommand NewWorkspace), (''close-workspace'', RunCommand CloseCurrentWorkspace),
      (''next-workspace'', RunCommand (GotoWorkspaceRelative True)), (''prev-workspace'', RunCommand (GotoWorkspaceRelative False)),
      (''split-right'', RunCommand (SplitFocused Horizontal)), (''split-down'', RunCommand (SplitFocused Vertical)),
      (''next-split'', RunCommand (NavigateSplit True)), (''prev-split'', RunCommand (NavigateSplit False)),
      (''split-left'', RunCommand (NavigateDirection Left)), (''split-right-nav'', RunCommand (NavigateDirection Right)),
      (''split-up'', RunCommand (NavigateDirection Up)), (''split-down-nav'', RunCommand (NavigateDirection Down)),
      (''equalize-splits'', RunCommand EqualizeSplits), (''new-pane-tab'', RunCommand NewPaneTab), (''close-pane-tab'', RunCommand ClosePaneTab),
      (''next-pane-tab'', RunCommand (CyclePaneTab True)), (''prev-pane-tab'', RunCommand (CyclePaneTab False))] @
     select_actions @
     [(''toggle-sidebar'', RunCommand ToggleSidebar), (''open-browser'', RunCommand (SplitFocusedBrowser Horizontal [])),
      (''focus-address-bar'', FocusAddressBar), (''browser-find'', ToggleFind), (''open-settings'', OpenSettings)]"

definition win_action :: "string \<Rightarrow> WinAction option" where
  "win_action name = map_of win_actions name"

definition alternates :: "string \<Rightarrow> string list" where
  "alternates action =
     (if action = ''next-split'' then [''<Ctrl><Shift>braceright'']
      else if action = ''prev-split'' then [''<Ctrl><Shift>braceleft'']
      else if action = ''equalize-splits'' then [''<Ctrl><Shift>equal'']
      else if action = ''toggle-sidebar'' then [''<Ctrl><Shift>bar'']
      else if action = ''split-right'' then [''<Ctrl><Shift>d'']
      else [])"

definition build_shortcut_controller :: "Settings \<Rightarrow> (string \<times> string) list" where
  "build_shortcut_controller s =
     concat (map (\<lambda>(action, accel). (accel, action) # map (\<lambda>a. (a, action)) (alternates action)) (merged_shortcuts s)) @
     map (\<lambda>d. (''<Ctrl>'' @ d, ''select-workspace-'' @ d)) digits_1_9"

text \<open>The panel that the browser actions reach: the active browser of the focused pane of the current page.\<close>

definition focused_browser :: "AppWindow \<Rightarrow> BrowserPanelId option" where
  "focused_browser aw =
     (case current_page aw of
        None \<Rightarrow> None
      | Some page \<Rightarrow>
          if length (workspaces aw) \<le> page then None
          else Option.bind (ws_focused_pane (workspaces aw ! page))
                 (\<lambda>p. Option.bind (hm_get (ws_panes (workspaces aw ! page)) p) active_browser))"

section \<open>The session file and the start\<close>

definition session_file_path :: "environment \<Rightarrow> string" where
  "session_file_path env = path_join (path_join (config_dir env) ''limux'') ''session.json''"

text \<open>A write that fails has truncated the file already: \<open>torn\<close> is what it leaves.\<close>

definition session_save ::
  "(SessionSnapshot \<Rightarrow> string + 'file) \<Rightarrow> settings_io \<Rightarrow> 'file option \<Rightarrow> SessionSnapshot \<Rightarrow> 'file option \<Rightarrow> (string + unit) \<times> 'file option" where
  "session_save encode io torn snapshot disk =
     (case mkdir_error io of
        Some e \<Rightarrow> (Inl (''mkdir: '' @ e), disk)
      | None \<Rightarrow>
          (case encode snapshot of
             Inl e \<Rightarrow> (Inl (''json: '' @ e), disk)
           | Inr json \<Rightarrow>
               (case write_error io of
                  Some e \<Rightarrow> (Inl (''write: '' @ e), torn)
                | None \<Rightarrow> (Inr (), Some json))))"

definition session_load :: "('file \<Rightarrow> SessionSnapshot option) \<Rightarrow> 'file option \<Rightarrow> SessionSnapshot option" where
  "session_load decode disk = Option.bind disk decode"

definition save_current_session ::
  "(SessionSnapshot \<Rightarrow> string + 'file) \<Rightarrow> settings_io \<Rightarrow> 'file option \<Rightarrow> readers \<Rightarrow> AppWindow \<Rightarrow> 'file option \<Rightarrow> 'file option run" where
  "save_current_session encode io torn rd aw disk =
     do { snapshot \<leftarrow> session_snapshot rd aw; Some (snd (session_save encode io torn snapshot disk)) }"

definition window_start :: "restore_env \<Rightarrow> SessionSnapshot option \<Rightarrow> AppWindow \<Rightarrow> AppWindow run" where
  "window_start env saved aw =
     (case saved of
        Some snapshot \<Rightarrow> if ss_workspaces snapshot \<noteq> [] then restore_session env snapshot aw else Some (new_workspace aw)
      | None \<Rightarrow> Some (new_workspace aw))"

section \<open>Tab strips\<close>

record TabButton =
  tb_label :: string
  tb_active :: bool
  tb_index :: usize
  tb_panel :: PanelKind

definition tab_label :: "Tab \<Rightarrow> string" where
  "tab_label t = (if tab_title t = [] then (if is_browser t then ''Browser'' else ''Terminal'') else tab_title t)"

definition refresh_pane_tab_strip :: "Pane \<Rightarrow> TabButton list" where
  "refresh_pane_tab_strip p =
     map (\<lambda>(idx, t). \<lparr>tb_label = tab_label t, tb_active = (idx = selected_tab p), tb_index = idx, tb_panel = panel t\<rparr>) (enumerate 0 (tabs p))"

datatype TabEvent =
    TabClicked
  | TabPressed f64 f64 f64
  | TabMiddleClicked
  | TabRenameEntered string

datatype TabAction =
    TabCommand Command
  | CloseTabByPanel PaneId PanelKind

text \<open>A press carries its place and the two ends of the close icon.\<close>

fun tab_event :: "PaneId \<Rightarrow> TabButton \<Rightarrow> TabEvent \<Rightarrow> TabAction option" where
  "tab_event p b TabClicked = Some (TabCommand (SelectPaneTab p (tb_index b) (tb_panel b)))"
| "tab_event p b (TabPressed x icon_start icon_end) = (if icon_start \<le> x \<and> x \<le> icon_end then Some (CloseTabByPanel p (tb_panel b)) else None)"
| "tab_event p b TabMiddleClicked = Some (CloseTabByPanel p (tb_panel b))"
| "tab_event p b (TabRenameEntered name) = (if name = [] then None else Some (TabCommand (RenameTab p (tb_index b) name)))"

record StripMarks =
  strip_classes :: "string list"
  button_classes :: "string list list"

definition clear_tab_drop_indicator :: "StripMarks \<Rightarrow> StripMarks" where
  "clear_tab_drop_indicator m =
     \<lparr>strip_classes = filter (\<lambda>c. c \<notin> {''tab-drop-active'', ''tab-drop-end''}) (strip_classes m),
      button_classes = map (filter (\<lambda>c. c \<notin> {''tab-drop-before'', ''tab-drop-after''})) (button_classes m)\<rparr>"

definition show_tab_drop_indicator :: "usize \<Rightarrow> StripMarks \<Rightarrow> StripMarks" where
  "show_tab_drop_indicator idx m =
     (let m = clear_tab_drop_indicator m; m = m\<lparr>strip_classes := strip_classes m @ [''tab-drop-active'']\<rparr>; n = length (button_classes m)
      in if n \<le> idx
         then (let m = m\<lparr>strip_classes := strip_classes m @ [''tab-drop-end'']\<rparr>
               in if n = 0 then m
                  else m\<lparr>button_classes := (button_classes m)[n - 1 := button_classes m ! (n - 1) @ [''tab-drop-after'']]\<rparr>)
         else m\<lparr>button_classes := (button_classes m)[idx := button_classes m ! idx @ [''tab-drop-before'']]\<rparr>)"

section \<open>The drop preview\<close>

definition inset :: f64 where
  "inset = 6"

fun preview_rect :: "DropZone \<Rightarrow> f64 \<Rightarrow> f64 \<Rightarrow> f64 \<Rightarrow> f64 \<Rightarrow> Rect" where
  "preview_rect ZLeft ox oy w h =
     \<lparr>rect_x = ox + inset, rect_y = oy + inset, rect_w = w / 2 - inset * 2, rect_h = h - inset * 2\<rparr>"
| "preview_rect ZRight ox oy w h =
     \<lparr>rect_x = ox + w / 2 + inset, rect_y = oy + inset, rect_w = w / 2 - inset * 2, rect_h = h - inset * 2\<rparr>"
| "preview_rect ZTop ox oy w h =
     \<lparr>rect_x = ox + inset, rect_y = oy + inset, rect_w = w - inset * 2, rect_h = h / 2 - inset * 2\<rparr>"
| "preview_rect ZBottom ox oy w h =
     \<lparr>rect_x = ox + inset, rect_y = oy + h / 2 + inset, rect_w = w - inset * 2, rect_h = h / 2 - inset * 2\<rparr>"

section \<open>Properties of shortcuts\<close>

lemma merged_keys: "(a, x) \<in> set (merged_shortcuts s) \<Longrightarrow> a \<in> set (map sc_action SHORTCUT_DEFAULTS)"
proof -
  assume "(a, x) \<in> set (merged_shortcuts s)"
  then have "default_shortcut a \<noteq> None" using weak_map_of_SomeI merged_shortcuts_get by (metis option.distinct(1))
  then show ?thesis by (auto simp: default_shortcut_def find_Some_iff)
qed

lemma default_actions_known: "list_all (\<lambda>d. win_action (sc_action d) \<noteq> None) SHORTCUT_DEFAULTS"
  by code_simp

lemma select_actions_known: "list_all (\<lambda>d. win_action (''select-workspace-'' @ d) \<noteq> None) digits_1_9"
  by code_simp

lemma chosen_accel_bound: "hm_get (merged_shortcuts s) a = Some x \<Longrightarrow> (x, a) \<in> set (build_shortcut_controller s)"
  by (force simp: build_shortcut_controller_def dest: map_of_SomeD)

lemma find_distinct_key: "distinct (map key ds) \<Longrightarrow> d \<in> set ds \<Longrightarrow> find (\<lambda>x. key x = key d) ds = Some d"
  by (induction ds) force+

lemma default_shortcut_listed: "d \<in> set SHORTCUT_DEFAULTS \<Longrightarrow> default_shortcut (sc_action d) = Some (default_accel d)"
  using arg_cong [OF find_distinct_key [OF shortcut_actions_distinct], of d "map_option default_accel"] by (simp add: default_shortcut_def)

text \<open>
  C40. The bindings of the window and its actions fit, whatever the user stored: every binding of the controller names an action that the window has,
  and every action of the table is bound to the accelerator of the settings, or to its default where they have none.
\<close>

theorem shortcuts_reach_actions:
  "list_all (\<lambda>(accel, action). win_action action \<noteq> None) (build_shortcut_controller s) \<and>
   list_all (\<lambda>d. (unwrap_or (hm_get (shortcuts s) (sc_action d)) (default_accel d), sc_action d) \<in> set (build_shortcut_controller s))
     SHORTCUT_DEFAULTS"
proof -
  have "win_action a \<noteq> None" if "(a, x) \<in> set (merged_shortcuts s)" for a x
    using merged_keys [OF that] default_actions_known by (auto simp: list_all_iff)
  then have "list_all (\<lambda>(accel, action). win_action action \<noteq> None) (build_shortcut_controller s)"
    using select_actions_known by (auto simp: build_shortcut_controller_def list_all_iff)
  moreover have "(unwrap_or (hm_get (shortcuts s) (sc_action d)) (default_accel d), sc_action d) \<in> set (build_shortcut_controller s)"
    if "d \<in> set SHORTCUT_DEFAULTS" for d
    by (rule chosen_accel_bound)
      (simp add: merged_shortcuts_get default_shortcut_listed [OF that] shortcut_accel_def split: option.splits)
  ultimately show ?thesis by (simp add: list_all_iff)
qed

text \<open>
  The alternates are bound besides the table and not known to the check for conflicts: an action that takes one of them shares it.
\<close>

definition taken_alternate :: Settings where
  "taken_alternate = Settings_default\<lparr>shortcuts := [(''close-workspace'', ''<Ctrl><Shift>d'')]\<rparr>"

theorem alternates_clash:
  "check_shortcut_conflict ''close-workspace'' ''<Ctrl><Shift>d'' Settings_default = None"
  "(''<Ctrl><Shift>d'', ''close-workspace'') \<in> set (build_shortcut_controller taken_alternate)"
  "(''<Ctrl><Shift>d'', ''split-right'') \<in> set (build_shortcut_controller taken_alternate)"
  by code_simp+

section \<open>Properties of the session\<close>



section \<open>Properties of tab strips and previews\<close>

text \<open>A strip has one button per tab, in order, none of them blank, and the button of the selected tab alone is pressed.\<close>

theorem strip_shows_selection:
  "map tb_panel (refresh_pane_tab_strip p) = map panel (tabs p) \<and>
   list_all (\<lambda>b. tb_label b \<noteq> [] \<and> (tb_active b \<longleftrightarrow> tb_index b = selected_tab p)) (refresh_pane_tab_strip p)"
proof -
  have "map (\<lambda>x. panel (snd x)) (enumerate n ts) = map panel ts" for n and ts :: "Tab list" by (induction ts arbitrary: n) simp_all
  then show ?thesis by (auto simp: refresh_pane_tab_strip_def list_all_iff tab_label_def comp_def case_prod_beta)
qed

definition shrink :: "f64 \<Rightarrow> Rect \<Rightarrow> Rect" where
  "shrink d r = \<lparr>rect_x = rect_x r + d, rect_y = rect_y r + d, rect_w = rect_w r - d * 2, rect_h = rect_h r - d * 2\<rparr>"

text \<open>
  The preview of a drop shows where the pane will be: for every place of the pointer it is the half of the pane that the split of this drop
  gives to the dropped pane, less a margin of six pixels.
\<close>

theorem preview_shows_split:
  "preview_rect (detect_drop_zone x y w h) ox oy w h =
     (let (ori, before) = to_split_params (detect_drop_zone x y w h);
          halves = sub_rects ori (1 / 2) \<lparr>rect_x = ox, rect_y = oy, rect_w = w, rect_h = h\<rparr>
      in shrink inset (if before then fst halves else snd halves))"
  by (cases "detect_drop_zone x y w h") (simp_all add: sub_rects_def shrink_def Let_def)

end
