(* ===== verification/Spec2Isabelle.thy ===== *)
theory Spec2Isabelle
  imports Split_Props Window_Props Window_Detail Session_Claims Remote_Claims Broker_Claims Socket_Claims Relay_Claims Tunnel_Claims
    Controller_Claims Update_Claims Notify Ssh_Claims Port_Claims Rpc_Claims Bootstrap_Claims
    Sidebar Dbus Tray Browser_Panels Ghostty_App Terminal_Surface Launcher Appearance Settings_Ui
    Split_Widgets Window_Shell
begin

text \<open>
  Verification of limux, a terminal multiplexer for Linux: a GTK application (\<open>app/src\<close>) that shows terminals and web views in panes,
  tabs and workspaces, a command line client (\<open>cli/src\<close>) and a remote part that reaches other hosts through ssh (\<open>app/src/remote\<close>).

  \<^bold>\<open>How the program is put together.\<close> The window (\<open>window.rs\<close>) owns the workspaces; every workspace has a split tree (\<open>split.rs\<close>)
  whose leaves are panes, and every pane a list of tabs (\<open>workspace.rs\<close>). User input, drag and drop, the control socket
  (\<open>socket.rs\<close>), D-Bus, the tray and Ghostty's callbacks all end in handlers of the window. A remote workspace has a
  controller thread (\<open>controller.rs\<close>) that installs a daemon on the host (\<open>bootstrap.rs\<close>), relays the control socket
  (\<open>relay.rs\<close>) and leases a proxy from the broker (\<open>proxy_broker.rs\<close>), whose tunnel (\<open>proxy_tunnel.rs\<close>) speaks to the
  daemon through a JSON-RPC connection (\<open>rpc.rs\<close>).

  \<^bold>\<open>Conventions.\<close> Integers of the source keep their width (\<open>u16\<close>, \<open>u32\<close>, \<open>u64\<close> are words); \<open>f64\<close> is idealised as exact rationals, except
  for the positions of dividers, where its rounding is written out.
  A panic or a loop without end is \<open>None\<close> of the type \<open>run\<close>; errors are values of the source's error enumerations. A \<open>HashMap\<close> is
  an association list in its iteration order, which the theorems leave arbitrary. What the process asks the outside for (the environment,
  files, \<open>/proc\<close>, other programs, JSON, hashing, the clock) is an argument of the definitions that use it. What goes out
  (signals, child processes, focus, web views) is recorded in a list of effects. Locales state the contracts: \<open>pane_layout\<close>
  for the tree operations, \<open>id_space\<close> for the allocators, \<open>machine\<close> and \<open>conserving_machine\<close> (\<open>Step_Machine\<close>) for components that run commands; each is interpreted on the
  definitions of the model, and the properties rest on the interpretations.

  \<^bold>\<open>Foundations.\<close> \<open>Limux_Prelude\<close> (types, shared lemmas, collections of facts), \<open>Rust_Str\<close>, \<open>Rust_Map\<close>, \<open>Rust_Args\<close>, \<open>Rust_Env\<close> (the parts of Rust's
  standard library that are used), \<open>Step_Machine\<close> (reachability), \<open>Proc_Fs\<close> (the proc file system).

  \<^bold>\<open>Split tree\<close>, \<open>split.rs\<close>. \<open>Split_Tree\<close> has the arena with its operations as they are written; \<open>Split_Spec\<close> the
  inductive trees they stand for; \<open>Split_Repr\<close>, \<open>Split_Edit\<close>, \<open>Split_Refine\<close>, \<open>Split_Merge\<close>, \<open>Split_Bounds\<close>, \<open>Split_Interface\<close> and \<open>Split_Reach\<close> prove the
  refinement. \<open>Split_Props\<close>: every editing operation implements its counterpart on trees, reachable arenas are well formed and
  their walks return, the rectangles of the panes tile the window, directional navigation finds a nearest pane.
  \<open>Split_Widgets\<close>: the nested widgets of \<open>window.rs\<close> show the tree after every sequence of splits, closes and rebuilds, and a rebuild moves a divider
  by at most one pixel.

  \<^bold>\<open>Workspaces and window\<close>, \<open>workspace.rs\<close>, \<open>surfaces.rs\<close>, \<open>window.rs\<close>. \<open>Workspace\<close>, \<open>Surfaces\<close>, \<open>App_Window\<close> (creating, closing, splitting,
  focus), \<open>Tab_Moves\<close> and \<open>Drag_Drop\<close> (drops of tabs, panes and workspaces), \<open>Window_Meta\<close> (titles, bells, metadata, remote state, order).
  \<open>Window_Inv\<close>, \<open>Pane_Facts\<close>, \<open>Meta_Facts\<close>, \<open>Window_Steps\<close>, \<open>Tab_Conserve\<close>, \<open>Window_Reach\<close> and \<open>Window_Live\<close> hold the invariant and its preservation;
  \<open>Window_Machine\<close> makes the handlers the commands of a machine. \<open>Window_Props\<close> and \<open>Window_Detail\<close>: no sequence of commands panics or breaks the
  invariant, drops lose no tab, closing removes exactly its tab. The allocators of identifiers wrap at \<open>2 ^ 32\<close>; theorems that
  create nodes or panes assume room for them, and the witnesses show windows with room.

  \<^bold>\<open>Sessions\<close>, \<open>session.rs\<close> and the restoring half of \<open>window.rs\<close>. \<open>Session\<close>, \<open>Session_Build\<close>, \<open>Session_Facts\<close>, \<open>Session_Props\<close>, \<open>Session_Claims\<close>: every snapshot
  is restored to a well-formed window, and saving followed by restoring gives back everything but a stated list of data.
  \<open>Window_Shell\<close>: the session file and the start of the window (what is saved is there after a restart), the named actions and the shortcut
  controller (every binding names an action), the tab strips and the preview of drops (\<open>tab_strip.rs\<close>).

  \<^bold>\<open>Control\<close>, \<open>socket.rs\<close>, \<open>cli/src\<close>, \<open>dbus.rs\<close>. \<open>Socket\<close> (interpreter and line framing with its buffer of \<open>2 ^ 20\<close> bytes),
  \<open>Socket_Facts\<close>, \<open>Cli\<close>, \<open>Socket_Claims\<close>: every request is answered, the cut of the byte stream does not matter, a subcommand of the client
  reaches the handler it stands for. \<open>Dbus\<close>: a D-Bus method and the command of the client that it stands for have the same
  effect, and signals arrive in order although the channel of 64 may drop some.

  \<^bold>\<open>What is shown\<close>, \<open>sidebar.rs\<close>, \<open>util.rs\<close>, \<open>tray.rs\<close>, \<open>appearance.rs\<close>. \<open>Sidebar\<close>, over a tree of named widgets: a
  row refines a record of the last value of each of its parts; \<open>Tray\<close> (menu, actions, window focus); \<open>Appearance\<close> (the dark scheme).

  \<^bold>\<open>Terminals and browsers\<close>, \<open>app.rs\<close>, \<open>surface.rs\<close>, \<open>input.rs\<close>, \<open>clipboard.rs\<close>, \<open>browser.rs\<close>, \<open>main.rs\<close>. \<open>Ghostty_App\<close>: callbacks of the
  terminal library, with every interleaving of wake-ups and ticks; \<open>Terminal_Surface\<close>: every call on a
  surface replays on the set of allocated ones; \<open>Browser_Panels\<close>: panels, the session they share and its proxy,
  addresses, the find bar; \<open>Launcher\<close>: resources and environment, and which library path a shell gets from launcher and surface together.

  \<^bold>\<open>Remote\<close>, \<open>app/src/remote\<close>. \<open>Remote_Config\<close> and \<open>Remote_Claims\<close> (configuration, argument lists, quoting against a model of the
  shell's word splitting), \<open>Relay\<close> and \<open>Relay_Claims\<close> (authentication, translation), \<open>Proxy_Broker\<close>, \<open>Broker_Facts\<close> and \<open>Broker_Claims\<close>
  (shared tunnels under every interleaving of acquire, release and the management tasks), \<open>Proxy_Tunnel\<close> and \<open>Tunnel_Claims\<close> (SOCKS5 and
  HTTP CONNECT), \<open>Rpc_Client\<close>, \<open>Rpc_Facts\<close>, \<open>Proxy_Bridge\<close> and \<open>Rpc_Claims\<close> (calls, responses, streams; identifiers last for \<open>2 ^ 64 - 1\<close> calls),
  \<open>Bootstrap\<close> and \<open>Bootstrap_Claims\<close> (the daemon is installed only with the checksum of the manifest), \<open>Controller\<close>, \<open>Controller_Facts\<close> and
  \<open>Controller_Claims\<close> (the threads of the remote sessions), \<open>Ssh_Detect\<close> and \<open>Ssh_Claims\<close> (recognising ssh command lines).

  \<^bold>\<open>Services\<close>. \<open>App_Settings\<close> (\<open>settings.rs\<close>), \<open>Settings_Ui\<close> (\<open>settings_ui.rs\<close>: shortcuts, keys of Ghostty's
  configuration file), \<open>Update_Check\<close> and \<open>Update_Claims\<close> (\<open>update.rs\<close>, \<open>install.rs\<close>, \<open>install_prompt.rs\<close>), \<open>Notify\<close>
  (\<open>notify.rs\<close>), \<open>Port_Detect\<close> and \<open>Port_Claims\<close> (\<open>port_detect.rs\<close>; the walk over the process table is a loop without a bound in the
  source, proved to end unless a process is its own ancestor).

  \<^bold>\<open>Not modelled.\<close> Building, styling and drawing of GTK widgets, recognition of gestures, parsing of accelerators; the declarations of Ghostty's
  and WebKit's C interfaces (\<open>ghostty_sys.rs\<close>, the head of \<open>browser.rs\<close>), which have no behaviour of their own beyond their constants and records; start-up of threads and runtimes;
  serde's derived encodings; the Go daemon, tests and build scripts. Rounding of floating point numbers and code points outside ASCII are
  idealised as said above.
\<close>

end
